(* ===== verification/Dashcam_Prelude.thy ===== *)
theory Dashcam_Prelude
  imports Main "HOL-Library.Char_ord" "HOL-Library.List_Lexorder"
    "HOL-Library.Product_Lexorder" "HOL-Library.Word"
begin

text \<open>
  Shared vocabulary of the development.

  \<^item> Python exceptions are values of \<open>exn\<close>; a computation that may raise returns
    \<open>'a result = exn + 'a\<close> with \<open>Inl\<close> for the exception. Message texts are not modelled.
  \<^item> \<open>bindR\<close> runs a fallible computation and continues with its value.
  \<^item> \<open>uuid\<close> is the 128-bit value of \<^verbatim>\<open>uuid.UUID\<close>; \<open>uuid_str\<close> is its canonical text. The
    sources sort by \<^verbatim>\<open>str(clip_id)\<close>, or let SQLite compare that text, so the order on
    \<open>uuid\<close> is proved to be the order of the texts (\<open>uuid_str_less_iff\<close>).
  \<^item> \<open>digits\<close> and \<open>undigits\<close> are the fixed-width positional numerals behind
    Python's zero-padded formats such as \<^verbatim>\<open>f"{n:06d}"\<close> and behind \<^verbatim>\<open>int(text)\<close>.
  \<^item> \<open>row_get\<close> and \<open>row_update\<close> are SQL's single-key \<^verbatim>\<open>SELECT\<close> and \<^verbatim>\<open>UPDATE\<close> over a list
    of rows; the locale \<open>keyed_rows\<close> proves their laws once for every table.
\<close>

named_theorems result_simps \<open>equations and inversions of fallible computations\<close>
named_theorems row_simps \<open>laws of single-key table access\<close>

section \<open>Exceptions as values\<close>

datatype exn =
    ValueError | TypeError | RuntimeError | AssertionError | OverflowError
  | StateTransitionError | DownloadLeaseError | ClipNameError
  | CatalogConflictError | ClipNotFoundError | ActiveClipProtectionChanged
  | DownloadLeaseCapacityReached | ReconciliationLimitError
  | IntegrityError | OSError | FileExistsError | FileNotFoundError
  | SidecarParseError | ReclamationError | SegmentContractError | IndexError
  | MetadataValidationError | MetadataReconciliationError | ZoneInfoNotFoundError
  | FinalizationRefused | MetadataReconciliationRefused bool

type_synonym 'a result = "exn + 'a"

definition bindR :: "'a result \<Rightarrow> ('a \<Rightarrow> 'b result) \<Rightarrow> 'b result" where
  "bindR m f = (case m of Inl e \<Rightarrow> Inl e | Inr x \<Rightarrow> f x)"

definition is_ok :: "'a result \<Rightarrow> bool" where
  "is_ok m = (case m of Inl _ \<Rightarrow> False | Inr _ \<Rightarrow> True)"

fun mapR :: "('a \<Rightarrow> 'b result) \<Rightarrow> 'a list \<Rightarrow> 'b list result" where
  "mapR f [] = Inr []"
| "mapR f (x # xs) = bindR (f x) (\<lambda>y. bindR (mapR f xs) (\<lambda>ys. Inr (y # ys)))"

fun foldR :: "('a \<Rightarrow> 's \<Rightarrow> 's result) \<Rightarrow> 'a list \<Rightarrow> 's \<Rightarrow> 's result" where
  "foldR f [] s = Inr s"
| "foldR f (x # xs) s = bindR (f x s) (foldR f xs)"

section \<open>Character classes\<close>

definition code_between :: "nat \<Rightarrow> nat \<Rightarrow> char \<Rightarrow> bool" where
  "code_between lo hi c = (lo \<le> (of_char c :: nat) \<and> (of_char c :: nat) \<le> hi)"

definition is_lower :: "char \<Rightarrow> bool" where
  "is_lower c = code_between 97 122 c"

definition is_upper :: "char \<Rightarrow> bool" where
  "is_upper c = code_between 65 90 c"

definition is_digit :: "char \<Rightarrow> bool" where
  "is_digit c = code_between 48 57 c"

definition is_alnum :: "char \<Rightarrow> bool" where
  "is_alnum c = (is_lower c \<or> is_upper c \<or> is_digit c)"

definition is_ascii :: "char \<Rightarrow> bool" where
  "is_ascii c = ((of_char c :: nat) < 128)"

definition is_printable :: "char \<Rightarrow> bool" where
  "is_printable c = code_between 32 126 c"

definition ascii_upper :: "char \<Rightarrow> char" where
  "ascii_upper c = (if is_lower c then char_of ((of_char c :: nat) - 32) else c)"

definition ascii_lower :: "char \<Rightarrow> char" where
  "ascii_lower c = (if is_upper c then char_of ((of_char c :: nat) + 32) else c)"

text \<open>
  \<^verbatim>\<open>re.compile(r"[A-Za-z0-9][A-Za-z0-9._:-]{0,127}")\<close>, used for lease holders and for the
  catalog's boot identifiers.
\<close>

definition safe_identifier :: "string \<Rightarrow> bool" where
  "safe_identifier s = (case s of [] \<Rightarrow> False
     | c # cs \<Rightarrow> is_alnum c \<and> length cs \<le> 127
         \<and> list_all (\<lambda>d. is_alnum d \<or> d \<in> set ''._:-'') cs)"

section \<open>Fixed-width numerals\<close>

fun digits :: "nat \<Rightarrow> nat \<Rightarrow> nat \<Rightarrow> nat list" where
  "digits b 0 n = []"
| "digits b (Suc k) n = (n div b ^ k) # digits b k (n mod b ^ k)"

definition undigits :: "nat \<Rightarrow> nat list \<Rightarrow> nat" where
  "undigits b ds = foldl (\<lambda>a d. a * b + d) 0 ds"

definition dec_char :: "nat \<Rightarrow> char" where
  "dec_char d = char_of (48 + d)"

definition hex_char :: "nat \<Rightarrow> char" where
  "hex_char d = (if d < 10 then char_of (48 + d) else char_of (87 + d))"

definition char_val :: "char \<Rightarrow> nat" where
  "char_val c = of_char c - 48"

definition pad_dec :: "nat \<Rightarrow> nat \<Rightarrow> string" where
  "pad_dec k n = map dec_char (digits 10 k n)"

definition dec_value :: "string \<Rightarrow> nat" where
  "dec_value s = undigits 10 (map char_val s)"

section \<open>UUIDs\<close>

datatype uuid = UUID (uuid_int: "128 word")

definition uuid_hex :: "uuid \<Rightarrow> string" where
  "uuid_hex u = map hex_char (digits 16 32 (unat (uuid_int u)))"

definition uuid_str :: "uuid \<Rightarrow> string" where
  "uuid_str u = (let h = uuid_hex u in
     take 8 h @ ''-'' @ take 4 (drop 8 h) @ ''-'' @ take 4 (drop 12 h) @ ''-''
       @ take 4 (drop 16 h) @ ''-'' @ drop 20 h)"

instantiation uuid :: linorder
begin

definition less_eq_uuid :: "uuid \<Rightarrow> uuid \<Rightarrow> bool" where
  "less_eq_uuid u v = (uuid_int u \<le> uuid_int v)"

definition less_uuid :: "uuid \<Rightarrow> uuid \<Rightarrow> bool" where
  "less_uuid u v = (uuid_int u < uuid_int v)"

instance
  by standard (auto simp: less_eq_uuid_def less_uuid_def uuid.expand)

end

section \<open>Rows\<close>

definition row_get :: "('r \<Rightarrow> 'k) \<Rightarrow> 'k \<Rightarrow> 'r list \<Rightarrow> 'r option" where
  "row_get key k rows = find (\<lambda>r. key r = k) rows"

definition row_update :: "('r \<Rightarrow> 'k) \<Rightarrow> 'k \<Rightarrow> ('r \<Rightarrow> 'r) \<Rightarrow> 'r list \<Rightarrow> 'r list" where
  "row_update key k f rows = map (\<lambda>r. if key r = k then f r else r) rows"

section \<open>Characters by their bits\<close>

text \<open>Code equations that let the kernel evaluate the character classes without natural numbers.\<close>

lemma of_char_bits: "(of_char (Char b0 b1 b2 b3 b4 b5 b6 b7) :: nat) =
  of_bool b0 + 2 * (of_bool b1 + 2 * (of_bool b2 + 2 * (of_bool b3 + 2 * (of_bool b4 + 2 * (of_bool b5 + 2 * (of_bool b6 + 2 * of_bool b7))))))"
  by (simp add: of_char_def)

lemma is_lower_code [code]: "is_lower (Char b0 b1 b2 b3 b4 b5 b6 b7) =
    (\<not> b7 \<and> b6 \<and> b5 \<and> (b4 \<or> b3 \<or> b2 \<or> b1 \<or> b0) \<and> \<not> (b4 \<and> b3 \<and> (b2 \<or> b1 \<and> b0)))"
  unfolding is_lower_def code_between_def of_char_bits
  by (cases b7; cases b6; cases b5; cases b4; cases b3; cases b2; cases b1; simp)

lemma is_upper_code [code]: "is_upper (Char b0 b1 b2 b3 b4 b5 b6 b7) =
    (\<not> b7 \<and> b6 \<and> \<not> b5 \<and> (b4 \<or> b3 \<or> b2 \<or> b1 \<or> b0) \<and> \<not> (b4 \<and> b3 \<and> (b2 \<or> b1 \<and> b0)))"
  unfolding is_upper_def code_between_def of_char_bits
  by (cases b7; cases b6; cases b5; cases b4; cases b3; cases b2; cases b1; simp)

lemma is_digit_code [code]: "is_digit (Char b0 b1 b2 b3 b4 b5 b6 b7) =
    (\<not> b7 \<and> \<not> b6 \<and> b5 \<and> b4 \<and> \<not> (b3 \<and> (b2 \<or> b1)))"
  unfolding is_digit_def code_between_def of_char_bits
  by (cases b7; cases b6; cases b5; cases b4; cases b3; cases b2; cases b1; simp)
lemma is_ascii_code [code]: "is_ascii (Char b0 b1 b2 b3 b4 b5 b6 b7) = (\<not> b7)"
  unfolding is_ascii_def of_char_bits by (auto simp: of_bool_def)

lemma ascii_case_code [code]:
  "ascii_upper (Char b0 b1 b2 b3 b4 b5 b6 b7) =
     (let c = Char b0 b1 b2 b3 b4 b5 b6 b7 in if is_lower c then Char b0 b1 b2 b3 b4 False b6 b7 else c)"
  "ascii_lower (Char b0 b1 b2 b3 b4 b5 b6 b7) =
     (let c = Char b0 b1 b2 b3 b4 b5 b6 b7 in if is_upper c then Char b0 b1 b2 b3 b4 True b6 b7 else c)"
proof -
  have "(of_char (Char b0 b1 b2 b3 b4 True b6 b7) :: nat) = of_char (Char b0 b1 b2 b3 b4 False b6 b7) + 32"
    unfolding of_char_bits by simp
  then have "char_of ((of_char (Char b0 b1 b2 b3 b4 True b6 b7) :: nat) - 32) = Char b0 b1 b2 b3 b4 False b6 b7"
    "char_of ((of_char (Char b0 b1 b2 b3 b4 False b6 b7) :: nat) + 32) = Char b0 b1 b2 b3 b4 True b6 b7"
    by (metis add_diff_cancel_right' char_of_char)+
  then show "ascii_upper (Char b0 b1 b2 b3 b4 b5 b6 b7) =
     (let c = Char b0 b1 b2 b3 b4 b5 b6 b7 in if is_lower c then Char b0 b1 b2 b3 b4 False b6 b7 else c)"
    "ascii_lower (Char b0 b1 b2 b3 b4 b5 b6 b7) =
     (let c = Char b0 b1 b2 b3 b4 b5 b6 b7 in if is_upper c then Char b0 b1 b2 b3 b4 True b6 b7 else c)"
    by (auto simp: ascii_upper_def ascii_lower_def Let_def is_lower_code is_upper_code)
qed

section \<open>Laws\<close>

lemma bindR_simps [simp]:
  "bindR (Inl e) f = Inl e"
  "bindR (Inr x) f = f x"
  by (simp_all add: bindR_def)

lemma is_ok_simps [simp]: "is_ok (Inr x)" "\<not> is_ok (Inl e)"
  by (simp_all add: is_ok_def)

lemma bindR_eq_Inr [result_simps]:
  "bindR m f = Inr y \<longleftrightarrow> (\<exists>x. m = Inr x \<and> f x = Inr y)"
  by (cases m) auto

lemma bindR_eq_Inl [result_simps]:
  "bindR m f = Inl e \<longleftrightarrow> m = Inl e \<or> (\<exists>x. m = Inr x \<and> f x = Inl e)"
  by (cases m) auto

lemma bindR_cong [fundef_cong]:
  "m = m' \<Longrightarrow> (\<And>x. m' = Inr x \<Longrightarrow> f x = g x) \<Longrightarrow> bindR m f = bindR m' g"
  by (cases m') auto

lemma if_Inl_eq_Inr [result_simps]:
  "(if b then Inl e else m) = Inr y \<longleftrightarrow> \<not> b \<and> m = Inr y"
  by auto

lemma mapR_eq_Inr_iff:
  "mapR f xs = Inr ys \<longleftrightarrow> list_all2 (\<lambda>x y. f x = Inr y) xs ys"
  by (induction xs arbitrary: ys) (auto simp: result_simps list_all2_Cons1)

lemma mapR_in_set: "mapR f xs = Inr ys \<Longrightarrow> y \<in> set ys \<Longrightarrow> \<exists>x \<in> set xs. f x = Inr y"
  by (induction xs arbitrary: ys) (auto simp: result_simps)

lemma foldR_invariant:
  assumes "foldR f xs s = Inr s'" "P s"
    and "\<And>x t t'. x \<in> set xs \<Longrightarrow> P t \<Longrightarrow> f x t = Inr t' \<Longrightarrow> P t'"
  shows "P s'"
  using assms
proof (induction xs arbitrary: s)
  case Nil
  then show ?case by simp
next
  case (Cons x xs)
  obtain t where t: "f x s = Inr t" "foldR f xs t = Inr s'"
    using Cons.prems(1) by (auto simp: result_simps)
  have "P t"
    using Cons.prems(3) [of x s t] Cons.prems(2) t(1) by simp
  then show ?case
    by (rule Cons.IH [OF t(2)]) (rule Cons.prems(3), auto)
qed

subsection \<open>Numerals\<close>

lemma length_digits [simp]: "length (digits b k n) = k"
  by (induction k arbitrary: n) auto

lemma digits_less: "0 < b \<Longrightarrow> n < b ^ k \<Longrightarrow> d \<in> set (digits b k n) \<Longrightarrow> d < b"
proof (induction k arbitrary: n)
  case 0
  then show ?case by simp
next
  case (Suc k)
  have "n div b ^ k < b"
    using Suc.prems by (simp add: less_mult_imp_div_less)
  moreover have "d \<in> set (digits b k (n mod b ^ k)) \<Longrightarrow> d < b"
    using Suc.IH [OF Suc.prems(1), of "n mod b ^ k"] Suc.prems(1) by simp
  ultimately show ?case
    using Suc.prems(3) by auto
qed

lemma foldl_undigits:
  "foldl (\<lambda>a d. a * b + d) a ds = a * b ^ length ds + undigits b ds"
  for b :: nat
proof (induction ds arbitrary: a)
  case Nil
  then show ?case by (simp add: undigits_def)
next
  case (Cons d ds)
  have "undigits b (d # ds) = d * b ^ length ds + undigits b ds"
    using Cons.IH [of d] by (simp add: undigits_def)
  then show ?case
    using Cons.IH [of "a * b + d"] by (simp add: algebra_simps)
qed

lemma undigits_Cons: "undigits b (d # ds) = d * b ^ length ds + undigits b ds"
  using foldl_undigits [of b d ds] by (simp add: undigits_def)

lemma undigits_digits: "undigits b (digits b k n) = n" if "0 < b" "n < b ^ k"
  using that
proof (induction k arbitrary: n)
  case 0
  then show ?case by (simp add: undigits_def)
next
  case (Suc k)
  have "n mod b ^ k < b ^ k"
    using Suc.prems(1) by simp
  from Suc.IH [OF Suc.prems(1) this] show ?case
    by (simp add: undigits_Cons div_mult_mod_eq)
qed

text \<open>Fixed-width numerals compare as texts the way their values compare.\<close>

lemma digits_less_iff:
  assumes "0 < b" "m < b ^ k" "n < b ^ k"
  shows "digits b k m < digits b k n \<longleftrightarrow> m < n"
  using assms
proof (induction k arbitrary: m n)
  case 0
  then show ?case by simp
next
  case (Suc k)
  let ?p = "b ^ k"
  have lt: "m mod ?p < ?p" "n mod ?p < ?p"
    using Suc.prems(1) by simp_all
  have eqs: "m = (m div ?p) * ?p + m mod ?p" "n = (n div ?p) * ?p + n mod ?p"
    by (simp_all only: div_mult_mod_eq)
  consider (lt) "m div ?p < n div ?p" | (eq) "m div ?p = n div ?p" | (gt) "n div ?p < m div ?p"
    by linarith
  then show ?case
  proof cases
    case lt
    then have "m < n"
      by (meson div_le_mono leD leI)
    with lt show ?thesis by simp
  next
    case eq
    then have "m < n \<longleftrightarrow> m mod ?p < n mod ?p"
      using eqs by (metis add_less_cancel_left)
    with eq Suc.IH [OF Suc.prems(1) lt] show ?thesis by simp
  next
    case gt
    then have "n < m"
      by (meson div_le_mono leD leI)
    with gt show ?thesis by simp
  qed
qed

lemma dec_char_val: "d < 10 \<Longrightarrow> char_val (dec_char d) = d"
  by (simp add: char_val_def dec_char_def of_char_of)

lemma is_digit_dec_char: "d < 10 \<Longrightarrow> is_digit (dec_char d)"
  by (simp add: is_digit_def code_between_def dec_char_def of_char_of)

lemma length_pad_dec [simp]: "length (pad_dec k n) = k"
  by (simp add: pad_dec_def)

lemma dec_value_pad_dec: "n < 10 ^ k \<Longrightarrow> dec_value (pad_dec k n) = n"
proof -
  assume n: "n < 10 ^ k"
  have "map char_val (pad_dec k n) = digits 10 k n"
    unfolding pad_dec_def map_map
    by (rule map_idI) (use digits_less [of 10 n k] n in \<open>auto simp: dec_char_val\<close>)
  then show ?thesis
    by (simp add: dec_value_def undigits_digits n)
qed

lemma pad_dec_digit: "n < 10 ^ k \<Longrightarrow> c \<in> set (pad_dec k n) \<Longrightarrow> is_digit c"
  using digits_less [of 10 n k] by (auto simp: pad_dec_def is_digit_dec_char)

lemma pad_dec_inj: "m < 10 ^ k \<Longrightarrow> n < 10 ^ k \<Longrightarrow> pad_dec k m = pad_dec k n \<longleftrightarrow> m = n"
  by (metis dec_value_pad_dec)

subsection \<open>UUID order\<close>

lemma append_less_append_iff:
  fixes a a' b b' :: "'a::linorder list"
  assumes "length a = length a'"
  shows "a @ b < a' @ b' \<longleftrightarrow> a < a' \<or> (a = a' \<and> b < b')"
  using assms by (induction a a' rule: list_induct2) auto

lemma map_less_map_iff:
  fixes f :: "'a::linorder \<Rightarrow> 'b::linorder"
  assumes "\<And>x y. x \<in> set xs \<Longrightarrow> y \<in> set ys \<Longrightarrow> f x < f y \<longleftrightarrow> x < y"
    and "\<And>x y. x \<in> set xs \<Longrightarrow> y \<in> set ys \<Longrightarrow> f x = f y \<longleftrightarrow> x = y"
  shows "map f xs < map f ys \<longleftrightarrow> xs < ys"
  using assms by (induction xs ys rule: list_induct2') auto

lemma hex_char_code: "d < 16 \<Longrightarrow> (of_char (hex_char d) :: nat) = (if d < 10 then 48 + d else 87 + d)"
  by (simp add: hex_char_def of_char_of)

lemma hex_char_less_iff: "d < 16 \<Longrightarrow> e < 16 \<Longrightarrow> hex_char d < hex_char e \<longleftrightarrow> d < e"
  by (auto simp: less_char_def hex_char_code)

lemma hex_char_eq_iff: "d < 16 \<Longrightarrow> e < 16 \<Longrightarrow> hex_char d = hex_char e \<longleftrightarrow> d = e"
  by (metis hex_char_less_iff linorder_neqE_nat order_less_irrefl)

lemma length_uuid_hex [simp]: "length (uuid_hex u) = 32"
  by (simp add: uuid_hex_def)

lemma unat_uuid_bound: "unat (uuid_int u) < 16 ^ 32"
proof -
  have "unat (uuid_int u) < 2 ^ LENGTH(128)"
    by (rule unsigned_less)
  then show ?thesis by simp
qed

lemma uuid_hex_less_iff: "uuid_hex u < uuid_hex v \<longleftrightarrow> u < v"
proof -
  have d: "d < 16" if "d \<in> set (digits 16 32 (unat (uuid_int w)))" for d w
    using digits_less [OF _ unat_uuid_bound that] by simp
  have "uuid_hex u < uuid_hex v
      \<longleftrightarrow> digits 16 32 (unat (uuid_int u)) < digits 16 32 (unat (uuid_int v))"
    unfolding uuid_hex_def
    by (rule map_less_map_iff) (use d in \<open>auto simp: hex_char_less_iff hex_char_eq_iff\<close>)
  also have "\<dots> \<longleftrightarrow> unat (uuid_int u) < unat (uuid_int v)"
    using digits_less_iff [OF _ unat_uuid_bound unat_uuid_bound] by simp
  finally show ?thesis
    by (simp add: less_uuid_def word_less_nat_alt)
qed

lemma uuid_str_blocks:
  fixes h h' :: string
  assumes "length h = 32" "length h' = 32"
  shows "take 8 h @ ''-'' @ take 4 (drop 8 h) @ ''-'' @ take 4 (drop 12 h) @ ''-''
       @ take 4 (drop 16 h) @ ''-'' @ drop 20 h
     < take 8 h' @ ''-'' @ take 4 (drop 8 h') @ ''-'' @ take 4 (drop 12 h') @ ''-''
       @ take 4 (drop 16 h') @ ''-'' @ drop 20 h'
    \<longleftrightarrow> h < h'"
proof -
  have split: "x = take 8 x @ take 4 (drop 8 x) @ take 4 (drop 12 x) @ take 4 (drop 16 x) @ drop 20 x"
    for x :: string
  proof -
    have "x = take 8 x @ drop 8 x" "drop 8 x = take 4 (drop 8 x) @ drop 12 x"
      "drop 12 x = take 4 (drop 12 x) @ drop 16 x" "drop 16 x = take 4 (drop 16 x) @ drop 20 x"
      using append_take_drop_id [of 4 "drop 8 x"] append_take_drop_id [of 4 "drop 12 x"]
        append_take_drop_id [of 4 "drop 16 x"] by simp_all
    then show ?thesis by metis
  qed
  show ?thesis
    by (subst (3) split [of h], subst (6) split [of h'])
      (simp add: append_less_append_iff assms)
qed

lemma uuid_str_less_iff: "uuid_str u < uuid_str v \<longleftrightarrow> u < v"
  unfolding uuid_str_def Let_def
  by (subst uuid_str_blocks) (simp_all add: uuid_hex_less_iff)

lemma uuid_str_inj: "uuid_str u = uuid_str v \<longleftrightarrow> u = v"
  by (metis uuid_str_less_iff less_irrefl neqE)

subsection \<open>Single-key tables\<close>

locale keyed_rows =
  fixes key :: "'r \<Rightarrow> 'k"
begin

lemma get_SomeD: "row_get key k rows = Some r \<Longrightarrow> r \<in> set rows \<and> key r = k"
  by (auto simp: row_get_def find_Some_iff)

lemma get_None_iff: "row_get key k rows = None \<longleftrightarrow> k \<notin> key ` set rows"
  by (auto simp: row_get_def find_None_iff)

lemma get_Some_iff:
  "distinct (map key rows) \<Longrightarrow> row_get key k rows = Some r \<longleftrightarrow> r \<in> set rows \<and> key r = k"
proof (induction rows)
  case Nil
  then show ?case by (simp add: row_get_def)
next
  case (Cons x rows)
  then show ?case by (auto simp: row_get_def)
qed

lemma keys_update: "(\<And>r. key (f r) = key r) \<Longrightarrow> map key (row_update key k f rows) = map key rows"
  by (simp add: row_update_def)

lemma in_update_iff:
  "r \<in> set (row_update key k f rows)
   \<longleftrightarrow> (\<exists>q \<in> set rows. r = (if key q = k then f q else q))"
  by (force simp: row_update_def)

lemma get_update:
  "(\<And>r. key (f r) = key r) \<Longrightarrow>
   row_get key j (row_update key k f rows)
     = (if j = k then map_option f (row_get key k rows) else row_get key j rows)"
  by (induction rows) (auto simp: row_get_def row_update_def)

lemma update_absent: "k \<notin> key ` set rows \<Longrightarrow> row_update key k f rows = rows"
  by (induction rows) (auto simp: row_update_def)

lemma get_append:
  "row_get key k (rows @ [r])
     = (case row_get key k rows of None \<Rightarrow> if key r = k then Some r else None | Some q \<Rightarrow> Some q)"
  by (induction rows) (auto simp: row_get_def)

lemma length_update [simp]: "length (row_update key k f rows) = length rows"
  by (simp add: row_update_def)

end

end
