(* ===== verification/Clip_State.thy ===== *)
theory Clip_State
  imports Dashcam_Prelude
begin

text \<open>
  The immutable clip and lease values of \<^verbatim>\<open>src/dashcam/state.py\<close>: the clip lifecycle and
  its transition table, the monotonic download lease and the \<^verbatim>\<open>ClipRecord\<close> operations.
  Every operation returns a new record or the exception the source raises. The argument
  checks of the source that only test a Python type (\<^verbatim>\<open>isinstance\<close>) are discharged by the
  types of the model.
\<close>

section \<open>Data\<close>

datatype ClipLifecycle =
    CREATING | WRITING | FINALIZING | FINALIZED | DELETING | DELETED
  | CORRUPT | QUARANTINED | MISSING_SIDECAR | MISSING_VIDEO

datatype GpsTimeState = UNSYNCED | GPS_TIME_VALID | GPS_TIME_STALE

datatype SystemClockState = UNSET | SYNCING | SYNCHRONIZED | ERROR

datatype TimestampQuality = MONOTONIC_ONLY | GPS_ANCHORED | SYSTEM_DERIVED

definition NANOSECONDS_PER_SECOND :: int where
  "NANOSECONDS_PER_SECOND = 1000000000"

definition MAX_DOWNLOAD_LEASE_NS :: int where
  "MAX_DOWNLOAD_LEASE_NS = 15 * 60 * NANOSECONDS_PER_SECOND"

definition MAX_LEASE_HOLDER_LENGTH :: nat where
  "MAX_LEASE_HOLDER_LENGTH = 128"

fun transitions :: "ClipLifecycle \<Rightarrow> ClipLifecycle list" where
  "transitions CREATING = [WRITING, CORRUPT, QUARANTINED]"
| "transitions WRITING = [FINALIZING, CORRUPT, QUARANTINED]"
| "transitions FINALIZING = [FINALIZED, CORRUPT, QUARANTINED, MISSING_SIDECAR, MISSING_VIDEO]"
| "transitions FINALIZED = [DELETING, CORRUPT, QUARANTINED, MISSING_SIDECAR, MISSING_VIDEO]"
| "transitions DELETING =
     [DELETED, FINALIZED, CORRUPT, QUARANTINED, MISSING_SIDECAR, MISSING_VIDEO]"
| "transitions DELETED = []"
| "transitions CORRUPT = [QUARANTINED]"
| "transitions QUARANTINED = []"
| "transitions MISSING_SIDECAR = [FINALIZED, QUARANTINED]"
| "transitions MISSING_VIDEO = [FINALIZED, QUARANTINED]"

record DownloadLease =
  holder :: string
  issued_at_monotonic_ns :: int
  expires_at_monotonic_ns :: int

record ClipRecord =
  clip_id :: uuid
  lifecycle :: ClipLifecycle
  protected :: bool
  download_lease :: "DownloadLease option"

section \<open>Download leases\<close>

definition duration_ns :: "DownloadLease \<Rightarrow> int" where
  "duration_ns l = expires_at_monotonic_ns l - issued_at_monotonic_ns l"

text \<open>\<^verbatim>\<open>DownloadLease(...)\<close> with its \<^verbatim>\<open>__post_init__\<close> checks.\<close>

definition mk_lease :: "string \<Rightarrow> int \<Rightarrow> int \<Rightarrow> DownloadLease result" where
  "mk_lease h issued expires =
     (let l = \<lparr>holder = h, issued_at_monotonic_ns = issued, expires_at_monotonic_ns = expires\<rparr>
      in if \<not> list_all is_ascii h \<or> length h > MAX_LEASE_HOLDER_LENGTH \<or> \<not> safe_identifier h
         then Inl DownloadLeaseError
         else if issued < 0 then Inl DownloadLeaseError
         else if expires \<le> issued then Inl DownloadLeaseError
         else if duration_ns l > MAX_DOWNLOAD_LEASE_NS then Inl DownloadLeaseError
         else Inr l)"

definition is_active :: "DownloadLease \<Rightarrow> int \<Rightarrow> bool result" where
  "is_active l monotonic_now_ns =
     (if monotonic_now_ns < 0 then Inl DownloadLeaseError
      else Inr (monotonic_now_ns < expires_at_monotonic_ns l))"

definition issue :: "string \<Rightarrow> int \<Rightarrow> int \<Rightarrow> DownloadLease result" where
  "issue h monotonic_now_ns dur =
     (if dur \<le> 0 \<or> dur > MAX_DOWNLOAD_LEASE_NS then Inl DownloadLeaseError
      else mk_lease h monotonic_now_ns (monotonic_now_ns + dur))"

section \<open>Clip records\<close>

definition create :: "uuid option \<Rightarrow> uuid \<Rightarrow> ClipRecord" where
  "create given fresh = \<lparr>clip_id = (case given of None \<Rightarrow> fresh | Some u \<Rightarrow> u),
     lifecycle = CREATING, protected = False, download_lease = None\<rparr>"

definition transition_to :: "ClipRecord \<Rightarrow> ClipLifecycle \<Rightarrow> ClipRecord result" where
  "transition_to r target =
     (if target \<notin> set (transitions (lifecycle r)) then Inl StateTransitionError
      else if target = DELETED \<and> download_lease r \<noteq> None then Inl StateTransitionError
      else Inr (r\<lparr>lifecycle := target\<rparr>))"

definition set_protected :: "ClipRecord \<Rightarrow> bool \<Rightarrow> ClipRecord result" where
  "set_protected r p =
     (if lifecycle r = DELETED then Inl StateTransitionError
      else Inr (r\<lparr>protected := p\<rparr>))"

definition has_active_download_lease :: "ClipRecord \<Rightarrow> int \<Rightarrow> bool result" where
  "has_active_download_lease r now =
     (case download_lease r of None \<Rightarrow> Inr False | Some l \<Rightarrow> is_active l now)"

definition acquire_download_lease ::
  "ClipRecord \<Rightarrow> string \<Rightarrow> int \<Rightarrow> int \<Rightarrow> ClipRecord result" where
  "acquire_download_lease r h now dur =
     (if now < 0 then Inl DownloadLeaseError
      else if lifecycle r \<noteq> FINALIZED then Inl DownloadLeaseError
      else bindR (has_active_download_lease r now) (\<lambda>active.
        if active then Inl DownloadLeaseError
        else bindR (issue h now dur) (\<lambda>l. Inr (r\<lparr>download_lease := Some l\<rparr>))))"

definition clear_expired_download_lease :: "ClipRecord \<Rightarrow> int \<Rightarrow> ClipRecord result" where
  "clear_expired_download_lease r now =
     (case download_lease r of None \<Rightarrow> Inr r
      | Some l \<Rightarrow> bindR (is_active l now) (\<lambda>active.
          if active then Inr r else Inr (r\<lparr>download_lease := None\<rparr>)))"

definition release_download_lease :: "ClipRecord \<Rightarrow> string \<Rightarrow> ClipRecord result" where
  "release_download_lease r h =
     (case download_lease r of None \<Rightarrow> Inr r
      | Some l \<Rightarrow> if holder l \<noteq> h then Inl DownloadLeaseError
                 else Inr (r\<lparr>download_lease := None\<rparr>))"

definition is_retention_eligible :: "ClipRecord \<Rightarrow> int \<Rightarrow> bool result" where
  "is_retention_eligible r now =
     (if lifecycle r \<noteq> FINALIZED then Inr False
      else if protected r then Inr False
      else bindR (has_active_download_lease r now) (\<lambda>active. Inr (\<not> active)))"

section \<open>The record as a state machine\<close>

text \<open>One step is one successful operation of the class.\<close>

inductive clip_step :: "ClipRecord \<Rightarrow> ClipRecord \<Rightarrow> bool" where
  transition: "transition_to r t = Inr r' \<Longrightarrow> clip_step r r'"
| protect: "set_protected r p = Inr r' \<Longrightarrow> clip_step r r'"
| acquire: "acquire_download_lease r h now dur = Inr r' \<Longrightarrow> clip_step r r'"
| clear: "clear_expired_download_lease r now = Inr r' \<Longrightarrow> clip_step r r'"
| release: "release_download_lease r h = Inr r' \<Longrightarrow> clip_step r r'"

inductive clip_reach :: "ClipRecord \<Rightarrow> ClipRecord \<Rightarrow> bool" where
  start: "clip_reach r r"
| step: "clip_reach r s \<Longrightarrow> clip_step s t \<Longrightarrow> clip_reach r t"

inductive_cases clip_stepE: "clip_step r r'"

definition lease_ok :: "DownloadLease \<Rightarrow> bool" where
  "lease_ok l = (safe_identifier (holder l) \<and> 0 \<le> issued_at_monotonic_ns l
     \<and> 0 < duration_ns l \<and> duration_ns l \<le> MAX_DOWNLOAD_LEASE_NS)"

definition clip_ok :: "ClipRecord \<Rightarrow> bool" where
  "clip_ok r = ((case download_lease r of None \<Rightarrow> True | Some l \<Rightarrow> lease_ok l)
     \<and> (lifecycle r = DELETED \<longrightarrow> download_lease r = None))"

section \<open>Lemmas\<close>

lemmas clip_op_defs = transition_to_def set_protected_def acquire_download_lease_def
  clear_expired_download_lease_def release_download_lease_def

lemma mk_lease_ok: "mk_lease h i e = Inr l \<Longrightarrow> lease_ok l"
  by (auto simp: mk_lease_def lease_ok_def duration_ns_def Let_def split: if_splits)

lemma mk_lease_fields:
  "mk_lease h i e = Inr l \<Longrightarrow>
   holder l = h \<and> issued_at_monotonic_ns l = i \<and> expires_at_monotonic_ns l = e"
  by (auto simp: mk_lease_def Let_def split: if_splits)

lemma issue_ok: "issue h now dur = Inr l \<Longrightarrow> lease_ok l"
  by (auto simp: issue_def mk_lease_ok split: if_splits)

lemma issue_fields:
  "issue h now dur = Inr l \<Longrightarrow>
   holder l = h \<and> issued_at_monotonic_ns l = now \<and> expires_at_monotonic_ns l = now + dur
     \<and> 0 < dur"
  by (auto simp: issue_def mk_lease_fields split: if_splits dest: mk_lease_fields)

lemma clip_step_clip_ok: "clip_step r r' \<Longrightarrow> clip_ok r \<Longrightarrow> clip_ok r'"
  by (induction rule: clip_step.induct)
    (auto simp: clip_op_defs clip_ok_def result_simps issue_ok split: if_splits option.splits)

lemma clip_step_clip_id: "clip_step r r' \<Longrightarrow> clip_id r' = clip_id r"
  by (induction rule: clip_step.induct)
    (auto simp: clip_op_defs result_simps split: if_splits option.splits)

lemma clip_step_lifecycle:
  "clip_step r r' \<Longrightarrow> lifecycle r' = lifecycle r \<or> lifecycle r' \<in> set (transitions (lifecycle r))"
  by (induction rule: clip_step.induct)
    (auto simp: clip_op_defs result_simps split: if_splits option.splits)

lemma clip_ok_create: "clip_ok (create g u)"
  by (simp add: clip_ok_def create_def)

lemma clip_reach_clip_ok: "clip_reach r s \<Longrightarrow> clip_ok r \<Longrightarrow> clip_ok s"
  by (induction rule: clip_reach.induct) (auto intro: clip_step_clip_ok)

lemma deleted_step_fixed: "clip_step r r' \<Longrightarrow> clip_ok r \<Longrightarrow> lifecycle r = DELETED \<Longrightarrow> r' = r"
  by (induction rule: clip_step.induct)
    (auto simp: clip_op_defs clip_ok_def split: if_splits option.splits)

lemma deleted_reach_fixed: "clip_reach r s \<Longrightarrow> clip_ok r \<Longrightarrow> lifecycle r = DELETED \<Longrightarrow> s = r"
  by (induction rule: clip_reach.induct) (auto dest: deleted_step_fixed)

lemma clip_reach_trans: "clip_reach s t \<Longrightarrow> clip_reach r s \<Longrightarrow> clip_reach r t"
  by (induction rule: clip_reach.induct) (auto intro: clip_reach.step)

lemma acquired_lease_active:
  assumes "acquire_download_lease r h now dur = Inr r'"
  shows "0 \<le> now" "lifecycle r' = FINALIZED" "0 \<le> t \<Longrightarrow> has_active_download_lease r' t = Inr (t < now + dur)"
  using assms
  by (auto simp: acquire_download_lease_def has_active_download_lease_def is_active_def
      result_simps split: if_splits dest: issue_fields)

section \<open>Properties\<close>

text \<open>
  A download lease is exclusive for exactly its half-open lifetime. After a
  successful acquisition at \<open>now\<close> for \<open>dur\<close> nanoseconds, retention may not select the clip
  and no second lease can be acquired at any time of \<open>[now, now + dur)\<close>; from
  \<open>now + dur\<close> on the lease no longer blocks, an unprotected clip is eligible again and
  clearing removes the lease.
\<close>

theorem lease_exclusive_until_expiry:
  assumes acq: "acquire_download_lease r h now dur = Inr r'"
  shows "(\<forall>t h' dur'. now \<le> t \<and> t < now + dur \<longrightarrow>
            is_retention_eligible r' t = Inr False
            \<and> acquire_download_lease r' h' t dur' = Inl DownloadLeaseError
            \<and> clear_expired_download_lease r' t = Inr r')
       \<and> (\<forall>t. now + dur \<le> t \<longrightarrow>
            is_retention_eligible r' t = Inr (\<not> protected r)
            \<and> clear_expired_download_lease r' t = Inr (r'\<lparr>download_lease := None\<rparr>))"
proof -
  note facts = acquired_lease_active [OF acq]
  have prot: "protected r' = protected r"
    and lease: "\<exists>l. download_lease r' = Some l \<and> expires_at_monotonic_ns l = now + dur" "0 < dur"
    using acq by (auto simp: acquire_download_lease_def result_simps split: if_splits
        dest: issue_fields)
  show ?thesis
    using facts prot lease
    by (auto simp: is_retention_eligible_def acquire_download_lease_def
        clear_expired_download_lease_def is_active_def)
qed

theorem lease_exclusive_until_expiry_witness:
  "\<exists>r r'. acquire_download_lease r ''web-1'' 10 5 = Inr r'
     \<and> is_retention_eligible r' 14 = Inr False \<and> is_retention_eligible r' 15 = Inr True"
proof -
  define r where "r = \<lparr>clip_id = UUID 7, lifecycle = FINALIZED, protected = False,
    download_lease = None\<rparr>"
  define r' where "r' = r\<lparr>download_lease := Some \<lparr>holder = ''web-1'',
    issued_at_monotonic_ns = 10, expires_at_monotonic_ns = 15\<rparr>\<rparr>"
  have acq: "acquire_download_lease r ''web-1'' 10 5 = Inr r'"
    by (simp add: r_def r'_def, code_simp)
  have "is_retention_eligible r' 14 = Inr False" "is_retention_eligible r' 15 = Inr (\<not> protected r)"
    using lease_exclusive_until_expiry [OF acq] by simp_all
  with acq show ?thesis
    by (auto simp: r_def)
qed

text \<open>
  Deletion is final and never strands a lease: for a record that started as a
  fresh clip, every lease it ever carries is well formed (safe holder, non-negative issue
  time, positive duration of at most fifteen minutes), a \<open>DELETED\<close> record carries none, and
  no sequence of operations changes a \<open>DELETED\<close> record in any field.
\<close>

theorem deleted_clip_is_final:
  assumes "clip_reach (create g u) r"
  shows "(\<forall>l. download_lease r = Some l \<longrightarrow> lease_ok l)
     \<and> (lifecycle r = DELETED \<longrightarrow> download_lease r = None \<and> (\<forall>s. clip_reach r s \<longrightarrow> s = r))"
proof -
  have ok: "clip_ok r"
    using assms clip_ok_create by (rule clip_reach_clip_ok)
  with deleted_reach_fixed ok show ?thesis
    by (auto simp: clip_ok_def)
qed

theorem deleted_clip_is_final_witness:
  "\<exists>r. clip_reach (create None (UUID 1)) r \<and> lifecycle r = WRITING
     \<and> (\<forall>l. download_lease r = Some l \<longrightarrow> lease_ok l)"
proof -
  have "transition_to (create None (UUID 1)) WRITING
      = Inr ((create None (UUID 1))\<lparr>lifecycle := WRITING\<rparr>)"
    by (simp add: transition_to_def create_def)
  then have reach: "clip_reach (create None (UUID 1)) ((create None (UUID 1))\<lparr>lifecycle := WRITING\<rparr>)"
    by (meson clip_reach.intros clip_step.transition)
  with deleted_clip_is_final [OF reach] show ?thesis
    by (metis (no_types, lifting) ClipRecord.select_convs(2) ClipRecord.surjective
        ClipRecord.update_convs(2))
qed

end
