(* ===== verification/Retention.thy ===== *)
theory Retention
  imports Clip_State
begin

text \<open>
  The pure retention policy: \<^verbatim>\<open>src/dashcam/storage/retention.py\<close> (thresholds, the hysteresis
  mode and oldest-first selection) and the stateful controller of
  \<^verbatim>\<open>src/dashcam/catalog/policy.py\<close>. Python integers are \<open>int\<close>; \<^verbatim>\<open>//\<close> is \<open>div\<close>, which
  rounds towards minus infinity in both.
\<close>

section \<open>Thresholds\<close>

datatype RetentionMode = NORMAL | RECLAIMING | EMERGENCY

record ResolvedThresholds =
  start_deletion_below_bytes :: int
  stop_deletion_at_bytes :: int
  emergency_below_bytes :: int

record StorageThresholds =
  low_watermark_percent :: int
  high_watermark_percent :: int
  minimum_free_bytes :: int
  emergency_free_bytes :: int

definition mk_storage_thresholds :: "int \<Rightarrow> int \<Rightarrow> int \<Rightarrow> int \<Rightarrow> StorageThresholds result" where
  "mk_storage_thresholds low high minimum emergency =
     (if \<not> (0 \<le> low \<and> low < high \<and> high < 100) then Inl ValueError
      else if minimum < 0 \<or> emergency < 0 then Inl ValueError
      else if emergency \<ge> minimum then Inl ValueError
      else Inr \<lparr>low_watermark_percent = low, high_watermark_percent = high,
                minimum_free_bytes = minimum, emergency_free_bytes = emergency\<rparr>)"

definition percent_bytes :: "int \<Rightarrow> int \<Rightarrow> int" where
  "percent_bytes capacity_bytes percent = (capacity_bytes * percent + 99) div 100"

definition resolve :: "StorageThresholds \<Rightarrow> int \<Rightarrow> ResolvedThresholds result" where
  "resolve t capacity_bytes =
     (if capacity_bytes \<le> 0 then Inl ValueError
      else
        let start = max (percent_bytes capacity_bytes (low_watermark_percent t)) (minimum_free_bytes t);
            stop = max (percent_bytes capacity_bytes (high_watermark_percent t)) (minimum_free_bytes t)
        in if start \<ge> stop then Inl ValueError
           else if stop \<ge> capacity_bytes then Inl ValueError
           else if emergency_free_bytes t \<ge> start then Inl ValueError
           else Inr \<lparr>start_deletion_below_bytes = start, stop_deletion_at_bytes = stop,
                     emergency_below_bytes = emergency_free_bytes t\<rparr>)"

section \<open>Hysteresis\<close>

definition retention_mode :: "int \<Rightarrow> ResolvedThresholds \<Rightarrow> bool \<Rightarrow> RetentionMode result" where
  "retention_mode free_bytes thresholds was_reclaiming =
     (if free_bytes < 0 then Inl ValueError
      else if free_bytes < emergency_below_bytes thresholds then Inr EMERGENCY
      else if was_reclaiming
      then Inr (if free_bytes < stop_deletion_at_bytes thresholds then RECLAIMING else NORMAL)
      else Inr (if free_bytes < start_deletion_below_bytes thresholds then RECLAIMING else NORMAL))"

record StorageThresholdController =
  thresholds :: ResolvedThresholds
  mode :: RetentionMode

definition mk_controller ::
  "ResolvedThresholds \<Rightarrow> RetentionMode \<Rightarrow> StorageThresholdController result" where
  "mk_controller t m =
     (if emergency_below_bytes t < 0 \<or> start_deletion_below_bytes t < 0
         \<or> stop_deletion_at_bytes t < 0 then Inl ValueError
      else if \<not> (emergency_below_bytes t < start_deletion_below_bytes t
                 \<and> start_deletion_below_bytes t < stop_deletion_at_bytes t) then Inl ValueError
      else Inr \<lparr>thresholds = t, mode = m\<rparr>)"

definition evaluate ::
  "StorageThresholdController \<Rightarrow> int \<Rightarrow> bool \<Rightarrow> (RetentionMode \<times> StorageThresholdController) result"
where
  "evaluate c free_bytes no_space_write =
     (if no_space_write then Inr (EMERGENCY, c\<lparr>mode := EMERGENCY\<rparr>)
      else bindR (retention_mode free_bytes (thresholds c) (mode c \<in> {RECLAIMING, EMERGENCY}))
        (\<lambda>m. Inr (m, c\<lparr>mode := m\<rparr>)))"

text \<open>A run of the controller over a sequence of observations \<open>(free_bytes, no_space_write)\<close>.\<close>

fun controller_run ::
  "StorageThresholdController \<Rightarrow> (int \<times> bool) list \<Rightarrow> StorageThresholdController result" where
  "controller_run c [] = Inr c"
| "controller_run c ((free, nospace) # obs) =
     bindR (evaluate c free nospace) (\<lambda>(_, c'). controller_run c' obs)"

section \<open>Oldest-first selection\<close>

record RetentionCandidate =
  rc_clip_id :: uuid
  retention_order :: int
  size_bytes :: int
  managed :: bool
  finalized :: bool
  pair_reconciled :: bool
  rc_protected :: bool
  mutation_in_progress :: bool
  lease_expires_monotonic_ns :: "int option"

text \<open>\<^verbatim>\<open>RetentionCandidate.__post_init__\<close>: the value checks of the constructor.\<close>

definition check_candidate :: "RetentionCandidate \<Rightarrow> RetentionCandidate result" where
  "check_candidate c =
     (if retention_order c < 0 then Inl ValueError
      else if size_bytes c < 0 then Inl ValueError
      else if (case lease_expires_monotonic_ns c of None \<Rightarrow> False | Some e \<Rightarrow> e < 0)
      then Inl ValueError
      else Inr c)"

definition has_active_lease :: "RetentionCandidate \<Rightarrow> int \<Rightarrow> bool" where
  "has_active_lease c monotonic_ns =
     (case lease_expires_monotonic_ns c of None \<Rightarrow> False | Some e \<Rightarrow> monotonic_ns < e)"

definition eligible_at :: "RetentionCandidate \<Rightarrow> int \<Rightarrow> bool result" where
  "eligible_at c monotonic_ns =
     (if monotonic_ns < 0 then Inl ValueError
      else Inr (managed c \<and> finalized c \<and> pair_reconciled c \<and> \<not> rc_protected c
                \<and> \<not> mutation_in_progress c \<and> \<not> has_active_lease c monotonic_ns))"

record RetentionPlan =
  selected_clip_ids :: "uuid list"
  planned_reclaim_bytes :: int
  requested_reclaim_bytes :: int

definition target_reached :: "RetentionPlan \<Rightarrow> bool" where
  "target_reached p = (planned_reclaim_bytes p \<ge> requested_reclaim_bytes p)"

definition candidate_key :: "RetentionCandidate \<Rightarrow> int \<times> string" where
  "candidate_key c = (retention_order c, uuid_str (rc_clip_id c))"

text \<open>The accumulation loop with its early \<^verbatim>\<open>break\<close>.\<close>

fun accumulate :: "int \<Rightarrow> RetentionCandidate list \<Rightarrow> int \<Rightarrow> RetentionCandidate list \<times> int" where
  "accumulate requested [] planned = ([], planned)"
| "accumulate requested (c # cs) planned =
     (let planned' = planned + size_bytes c
      in if planned' \<ge> requested then ([c], planned')
         else (let (rest, total) = accumulate requested cs planned' in (c # rest, total)))"

definition eligible_in_order :: "RetentionCandidate list \<Rightarrow> int \<Rightarrow> RetentionCandidate list" where
  "eligible_in_order candidates monotonic_ns =
     sort_key candidate_key (filter (\<lambda>c. eligible_at c monotonic_ns = Inr True) candidates)"

definition select_oldest_eligible ::
  "RetentionCandidate list \<Rightarrow> int \<Rightarrow> int \<Rightarrow> RetentionPlan result" where
  "select_oldest_eligible candidates requested monotonic_ns =
     (if requested < 0 then Inl ValueError
      else if monotonic_ns < 0 then Inl ValueError
      else if requested = 0
      then Inr \<lparr>selected_clip_ids = [], planned_reclaim_bytes = 0, requested_reclaim_bytes = 0\<rparr>
      else let (selected, planned) = accumulate requested (eligible_in_order candidates monotonic_ns) 0
           in Inr \<lparr>selected_clip_ids = map rc_clip_id selected, planned_reclaim_bytes = planned,
                   requested_reclaim_bytes = requested\<rparr>)"

text \<open>
  The abstract hysteresis: an observation \<open>triggers\<close> reclamation when a write ran out of space
  or free space is below the start threshold, and it \<open>sustains\<close> a reclamation already under
  way while free space stays below the stop threshold.
\<close>

definition triggers :: "ResolvedThresholds \<Rightarrow> int \<times> bool \<Rightarrow> bool" where
  "triggers t ob = (snd ob \<or> fst ob < start_deletion_below_bytes t)"

definition sustains :: "ResolvedThresholds \<Rightarrow> int \<times> bool \<Rightarrow> bool" where
  "sustains t ob = (snd ob \<or> fst ob < stop_deletion_at_bytes t)"

definition thresholds_ok :: "ResolvedThresholds \<Rightarrow> bool" where
  "thresholds_ok t = (0 \<le> emergency_below_bytes t
     \<and> emergency_below_bytes t < start_deletion_below_bytes t
     \<and> start_deletion_below_bytes t < stop_deletion_at_bytes t)"

text \<open>Whether a history of observations leaves reclamation under way.\<close>

definition latched_after :: "ResolvedThresholds \<Rightarrow> bool \<Rightarrow> (int \<times> bool) list \<Rightarrow> bool" where
  "latched_after t was obs =
     ((\<exists>pre x post. obs = pre @ x # post \<and> triggers t x \<and> (\<forall>y \<in> set post. sustains t y))
      \<or> (was \<and> (\<forall>y \<in> set obs. sustains t y)))"

section \<open>Lemmas\<close>

lemma percent_bytes_ceiling:
  "100 * percent_bytes c p \<ge> c * p \<and> 100 * (percent_bytes c p - 1) < c * p"
proof -
  have "\<And>x :: int. x \<le> 100 * ((x + 99) div 100) \<and> 100 * ((x + 99) div 100 - 1) < x"
    by presburger
  then show ?thesis
    unfolding percent_bytes_def by blast
qed

lemma mk_controller_eq_Inr:
  "mk_controller t m = Inr c \<longleftrightarrow> thresholds_ok t \<and> c = \<lparr>thresholds = t, mode = m\<rparr>"
  by (auto simp: mk_controller_def thresholds_ok_def)

lemma resolve_ok:
  assumes "mk_storage_thresholds lo hi mn em = Inr st" "resolve st cap = Inr t"
  shows "thresholds_ok t \<and> stop_deletion_at_bytes t < cap
     \<and> mn \<le> start_deletion_below_bytes t \<and> emergency_below_bytes t = em"
  using assms
  by (auto simp: mk_storage_thresholds_def resolve_def thresholds_ok_def Let_def split: if_splits)

lemma evaluate_step:
  assumes "thresholds_ok (thresholds c)" "0 \<le> free"
  shows "\<exists>c'. evaluate c free ns = Inr (mode c', c') \<and> thresholds c' = thresholds c
     \<and> (mode c' \<noteq> NORMAL \<longleftrightarrow> triggers (thresholds c) (free, ns)
          \<or> mode c \<noteq> NORMAL \<and> sustains (thresholds c) (free, ns))
     \<and> (mode c' = EMERGENCY \<longleftrightarrow> ns \<or> free < emergency_below_bytes (thresholds c))"
proof -
  have "mode c \<in> {RECLAIMING, EMERGENCY} \<longleftrightarrow> mode c \<noteq> NORMAL"
    by (cases "mode c") auto
  with assms show ?thesis
    by (auto simp: evaluate_def retention_mode_def thresholds_ok_def triggers_def sustains_def)
qed

lemma ex_split_Cons:
  "(\<exists>pre x post. a # as = pre @ x # post \<and> P x \<and> Q post)
   \<longleftrightarrow> P a \<and> Q as \<or> (\<exists>pre x post. as = pre @ x # post \<and> P x \<and> Q post)"
proof
  assume "\<exists>pre x post. a # as = pre @ x # post \<and> P x \<and> Q post"
  then obtain pre x post where "a # as = pre @ x # post" "P x" "Q post" by blast
  then show "P a \<and> Q as \<or> (\<exists>pre x post. as = pre @ x # post \<and> P x \<and> Q post)"
    by (cases pre) auto
next
  assume "P a \<and> Q as \<or> (\<exists>pre x post. as = pre @ x # post \<and> P x \<and> Q post)"
  then show "\<exists>pre x post. a # as = pre @ x # post \<and> P x \<and> Q post"
    by (metis append_Cons append_Nil)
qed

lemma latched_after_Cons:
  "latched_after t was (ob # obs)
   \<longleftrightarrow> latched_after t (triggers t ob \<or> was \<and> sustains t ob) obs"
  unfolding latched_after_def ex_split_Cons by auto

lemma controller_run_spec:
  assumes "thresholds_ok (thresholds c)" "\<forall>ob \<in> set obs. 0 \<le> fst ob"
  shows "\<exists>c'. controller_run c obs = Inr c' \<and> thresholds c' = thresholds c
     \<and> (mode c' \<noteq> NORMAL \<longleftrightarrow> latched_after (thresholds c) (mode c \<noteq> NORMAL) obs)"
  using assms
proof (induction obs arbitrary: c)
  case Nil
  then show ?case by (simp add: latched_after_def)
next
  case (Cons ob obs)
  obtain free ns where ob: "ob = (free, ns)" by (cases ob)
  obtain c1 where c1: "evaluate c free ns = Inr (mode c1, c1)" "thresholds c1 = thresholds c"
    "mode c1 \<noteq> NORMAL \<longleftrightarrow>
       triggers (thresholds c) ob \<or> mode c \<noteq> NORMAL \<and> sustains (thresholds c) ob"
    using evaluate_step [of c free ns] Cons.prems ob by auto
  then show ?case
    using Cons.IH [of c1] Cons.prems ob by (simp add: latched_after_Cons)
qed

lemma accumulate_spec:
  assumes "accumulate req cs p = (sel, tot)" "p < req"
  shows "\<exists>rest. cs = sel @ rest \<and> tot = p + sum_list (map size_bytes sel)
     \<and> (sel \<noteq> [] \<longrightarrow> p + sum_list (map size_bytes (butlast sel)) < req)
     \<and> (rest \<noteq> [] \<longrightarrow> req \<le> tot)"
  using assms
proof (induction req cs p arbitrary: sel tot rule: accumulate.induct)
  case (1 req p)
  then show ?case by simp
next
  case (2 req c cs p)
  show ?case
  proof (cases "req \<le> p + size_bytes c")
    case True
    with 2 show ?thesis by (auto simp: Let_def)
  next
    case False
    obtain rest tot' where acc: "accumulate req cs (p + size_bytes c) = (rest, tot')"
      by fastforce
    with "2.IH" [OF refl False acc] False "2.prems" show ?thesis
      by (auto simp: Let_def butlast.simps)
  qed
qed

lemma set_eligible_in_order:
  "set (eligible_in_order cs t) = {c \<in> set cs. eligible_at c t = Inr True}"
  by (simp add: eligible_in_order_def)

lemma sorted_eligible_in_order: "sorted (map candidate_key (eligible_in_order cs t))"
  by (simp add: eligible_in_order_def)

section \<open>Properties\<close>

text \<open>
  Threshold resolution. Whenever validated thresholds resolve for a capacity, the byte
  thresholds are ordered \<open>0 \<le> emergency < start < stop < capacity\<close>, deletion starts no lower
  than the absolute minimum free reserve, the percentage terms are exact ceilings, and the
  hysteresis controller accepts the resolved thresholds in every mode.
\<close>

theorem resolved_thresholds_ordered:
  assumes "mk_storage_thresholds lo hi mn em = Inr st" "resolve st cap = Inr t"
  shows "0 \<le> emergency_below_bytes t \<and> emergency_below_bytes t < start_deletion_below_bytes t
     \<and> start_deletion_below_bytes t < stop_deletion_at_bytes t \<and> stop_deletion_at_bytes t < cap
     \<and> mn \<le> start_deletion_below_bytes t \<and> cap * lo \<le> 100 * start_deletion_below_bytes t
     \<and> cap * hi \<le> 100 * stop_deletion_at_bytes t
     \<and> (\<forall>m. mk_controller t m = Inr \<lparr>thresholds = t, mode = m\<rparr>)"
proof -
  note ok = resolve_ok [OF assms]
  have "percent_bytes cap lo \<le> start_deletion_below_bytes t"
    "percent_bytes cap hi \<le> stop_deletion_at_bytes t"
    using assms by (auto simp: mk_storage_thresholds_def resolve_def Let_def split: if_splits)
  with percent_bytes_ceiling [of cap lo] percent_bytes_ceiling [of cap hi]
  have "cap * lo \<le> 100 * start_deletion_below_bytes t" "cap * hi \<le> 100 * stop_deletion_at_bytes t"
    by linarith+
  with ok show ?thesis
    by (auto simp: mk_controller_eq_Inr thresholds_ok_def)
qed

theorem resolved_thresholds_ordered_witness:
  "\<exists>st t. mk_storage_thresholds 10 20 500 100 = Inr st \<and> resolve st 10000 = Inr t
     \<and> start_deletion_below_bytes t < stop_deletion_at_bytes t"
proof -
  define st where "st = \<lparr>low_watermark_percent = 10, high_watermark_percent = 20,
    minimum_free_bytes = 500, emergency_free_bytes = 100\<rparr>"
  have st: "mk_storage_thresholds 10 20 500 100 = Inr st"
    by (simp add: mk_storage_thresholds_def st_def)
  have t: "resolve st 10000 = Inr \<lparr>start_deletion_below_bytes = 1000,
      stop_deletion_at_bytes = 2000, emergency_below_bytes = 100\<rparr>"
    by (simp add: resolve_def percent_bytes_def st_def)
  show ?thesis
    using st t resolved_thresholds_ordered [OF st t] by blast
qed

text \<open>
  Hysteresis over any history. A controller with valid thresholds never raises on
  non-negative free-space observations, and after any sequence of them it is reclaiming (or
  in emergency) exactly when some observation fell below the start threshold or reported
  no space and no later observation reached the stop threshold, or when it started
  reclaiming and never saw the stop threshold reached. So reclamation neither stops early
  nor restarts between the two thresholds.
\<close>

theorem controller_hysteresis:
  assumes "mk_controller t m = Inr c" "\<forall>ob \<in> set obs. 0 \<le> fst ob"
  shows "\<exists>c'. controller_run c obs = Inr c'
     \<and> (mode c' \<noteq> NORMAL \<longleftrightarrow>
          (\<exists>pre x post. obs = pre @ x # post \<and> triggers t x \<and> (\<forall>y \<in> set post. sustains t y))
          \<or> (m \<noteq> NORMAL \<and> (\<forall>y \<in> set obs. sustains t y)))"
proof -
  from assms(1) have "thresholds_ok (thresholds c)" "thresholds c = t" "mode c = m"
    by (simp_all add: mk_controller_eq_Inr)
  with controller_run_spec [OF _ assms(2), of c] show ?thesis
    unfolding latched_after_def by blast
qed

theorem controller_hysteresis_witness:
  "\<exists>t c c'. mk_controller t NORMAL = Inr c
     \<and> controller_run c [(900, False), (1500, False)] = Inr c' \<and> mode c' \<noteq> NORMAL"
proof -
  define t where "t = \<lparr>start_deletion_below_bytes = 1000, stop_deletion_at_bytes = 2000,
    emergency_below_bytes = 100\<rparr>"
  have c: "mk_controller t NORMAL = Inr \<lparr>thresholds = t, mode = NORMAL\<rparr>"
    by (simp add: mk_controller_def t_def)
  have "[(900, False), (1500, False)] = [] @ (900, False) # [(1500 :: int, False)]
      \<and> triggers t (900, False) \<and> (\<forall>y \<in> set [(1500, False)]. sustains t y)"
    by (simp add: triggers_def sustains_def t_def)
  then have "\<exists>pre x post. [(900, False), (1500, False)] = pre @ x # post \<and> triggers t x
      \<and> (\<forall>y \<in> set post. sustains t y)"
    by blast
  moreover have "\<forall>ob \<in> set [(900, False), (1500 :: int, False)]. 0 \<le> fst ob"
    by simp
  ultimately show ?thesis
    using c controller_hysteresis [OF c] by blast
qed

text \<open>
  C35: Oldest-first selection. For well-formed candidates and a positive request, planning
  succeeds; the selected clips are the first ones of the eligible candidates in durable
  order (retention order, then clip id text), the planned bytes are their sizes, no proper
  prefix of the selection would have met the request, every eligible candidate left out is
  no older than every selected one, and the plan reports the target reached exactly when
  all eligible clips together can meet it.
\<close>

theorem selection_is_oldest_minimal_prefix:
  assumes "0 < req" "0 \<le> now" "\<forall>c \<in> set cs. check_candidate c = Inr c"
  shows "\<exists>plan sel rest. select_oldest_eligible cs req now = Inr plan
     \<and> eligible_in_order cs now = sel @ rest
     \<and> selected_clip_ids plan = map rc_clip_id sel
     \<and> planned_reclaim_bytes plan = sum_list (map size_bytes sel)
     \<and> (sel \<noteq> [] \<longrightarrow> sum_list (map size_bytes (butlast sel)) < req)
     \<and> (\<forall>s \<in> set sel. \<forall>c \<in> set rest. candidate_key s \<le> candidate_key c)
     \<and> (target_reached plan \<longleftrightarrow> req \<le> sum_list (map size_bytes (eligible_in_order cs now)))"
proof -
  obtain sel tot where acc: "accumulate req (eligible_in_order cs now) 0 = (sel, tot)"
    by fastforce
  from accumulate_spec [OF acc assms(1)] obtain rest where r:
    "eligible_in_order cs now = sel @ rest" "tot = sum_list (map size_bytes sel)"
    "sel \<noteq> [] \<longrightarrow> sum_list (map size_bytes (butlast sel)) < req" "rest \<noteq> [] \<longrightarrow> req \<le> tot"
    by auto
  have "\<forall>c \<in> set rest. 0 \<le> size_bytes c"
  proof
    fix c assume "c \<in> set rest"
    then have "c \<in> set cs"
      using set_eligible_in_order [of cs now] r(1) by auto
    with assms(3) show "0 \<le> size_bytes c"
      by (auto simp: check_candidate_def split: if_splits)
  qed
  then have "0 \<le> sum_list (map size_bytes rest)"
    by (intro sum_list_nonneg) auto
  moreover have "\<forall>s \<in> set sel. \<forall>c \<in> set rest. candidate_key s \<le> candidate_key c"
    using sorted_eligible_in_order [of cs now] r(1) by (auto simp: sorted_append)
  moreover define plan where "plan = \<lparr>selected_clip_ids = map rc_clip_id sel,
    planned_reclaim_bytes = tot, requested_reclaim_bytes = req\<rparr>"
  moreover have "select_oldest_eligible cs req now = Inr plan"
    using acc assms(1,2) by (simp add: select_oldest_eligible_def plan_def)
  moreover have "target_reached plan \<longleftrightarrow> req \<le> sum_list (map size_bytes (eligible_in_order cs now))"
    using r calculation(1) by (cases "rest = []") (auto simp: target_reached_def plan_def)
  ultimately show ?thesis
    using r by (intro exI [of _ plan] exI [of _ sel] exI [of _ rest]) (simp add: plan_def)
qed

theorem selection_is_oldest_minimal_prefix_witness:
  "\<exists>plan. select_oldest_eligible
      [\<lparr>rc_clip_id = UUID 2, retention_order = 5, size_bytes = 10, managed = True,
        finalized = True, pair_reconciled = True, rc_protected = False,
        mutation_in_progress = False, lease_expires_monotonic_ns = None\<rparr>] 4 0 = Inr plan
     \<and> target_reached plan"
proof -
  define c where "c = \<lparr>rc_clip_id = UUID 2, retention_order = 5, size_bytes = 10, managed = True,
        finalized = True, pair_reconciled = True, rc_protected = False,
        mutation_in_progress = False, lease_expires_monotonic_ns = None\<rparr>"
  have "\<forall>x \<in> set [c]. check_candidate x = Inr x"
    by (simp add: check_candidate_def c_def)
  moreover have "eligible_in_order [c] 0 = [c]"
    by (simp add: eligible_in_order_def eligible_at_def has_active_lease_def c_def)
  ultimately show ?thesis
    using selection_is_oldest_minimal_prefix [of 4 0 "[c]"] by (auto simp: c_def)
qed

end
