(* ===== verification/Civil_Time.thy ===== *)
theory Civil_Time
  imports Dashcam_Prelude
begin

text \<open>
  The part of Python's \<^verbatim>\<open>datetime\<close> that the sources use: the proleptic Gregorian calendar of
  years 1 to 9999 at microsecond resolution. A \<open>datetime\<close> is the number of microseconds of
  its wall-clock fields since 0001-01-01T00:00:00 together with its UTC offset, which is
  \<open>None\<close> for a naive value. \<open>civil_of_us\<close> gives the fields, \<open>us_of_civil\<close> builds a value
  from checked fields; the two are proved inverse on valid dates.
\<close>

section \<open>Calendar\<close>

definition leap :: "int \<Rightarrow> bool" where
  "leap y = (y mod 4 = 0 \<and> (y mod 100 \<noteq> 0 \<or> y mod 400 = 0))"

definition leap_day :: "int \<Rightarrow> int" where
  "leap_day y = (if leap y then 1 else 0)"

definition days_in_month :: "int \<Rightarrow> int \<Rightarrow> int" where
  "days_in_month y m =
     (if m = 2 then 28 + leap_day y else if m \<in> {4, 6, 9, 11} then 30 else 31)"

definition days_before_year :: "int \<Rightarrow> int" where
  "days_before_year y = (y - 1) * 365 + (y - 1) div 4 - (y - 1) div 100 + (y - 1) div 400"

definition days_before_month :: "int \<Rightarrow> int \<Rightarrow> int" where
  "days_before_month y m =
     (if m \<le> 1 then 0 else if m = 2 then 31
      else leap_day y + (if m = 3 then 59 else if m = 4 then 90 else if m = 5 then 120
        else if m = 6 then 151 else if m = 7 then 181 else if m = 8 then 212
        else if m = 9 then 243 else if m = 10 then 273 else if m = 11 then 304 else 334))"

definition month_day :: "int \<Rightarrow> int \<Rightarrow> int \<times> int" where
  "month_day y k = (let l = leap_day y in
     if k < 31 then (1, k + 1) else if k < 59 + l then (2, k - 30)
     else if k < 90 + l then (3, k - 58 - l) else if k < 120 + l then (4, k - 89 - l)
     else if k < 151 + l then (5, k - 119 - l) else if k < 181 + l then (6, k - 150 - l)
     else if k < 212 + l then (7, k - 180 - l) else if k < 243 + l then (8, k - 211 - l)
     else if k < 273 + l then (9, k - 242 - l) else if k < 304 + l then (10, k - 272 - l)
     else if k < 334 + l then (11, k - 303 - l) else (12, k - 333 - l))"

definition year_of :: "int \<Rightarrow> int" where
  "year_of n = (let y = (400 * n) div 146097 + 1 in
     if days_before_year (y + 1) \<le> n then y + 1
     else if n < days_before_year y then y - 1 else y)"

record civil =
  cv_year :: int
  cv_month :: int
  cv_day :: int
  cv_hour :: int
  cv_minute :: int
  cv_second :: int
  cv_microsecond :: int

definition civil_valid :: "civil \<Rightarrow> bool" where
  "civil_valid c = (1 \<le> cv_year c \<and> cv_year c \<le> 9999 \<and> 1 \<le> cv_month c \<and> cv_month c \<le> 12
     \<and> 1 \<le> cv_day c \<and> cv_day c \<le> days_in_month (cv_year c) (cv_month c)
     \<and> 0 \<le> cv_hour c \<and> cv_hour c < 24 \<and> 0 \<le> cv_minute c \<and> cv_minute c < 60
     \<and> 0 \<le> cv_second c \<and> cv_second c < 60
     \<and> 0 \<le> cv_microsecond c \<and> cv_microsecond c < 1000000)"

definition day_of_civil :: "civil \<Rightarrow> int" where
  "day_of_civil c = days_before_year (cv_year c)
     + days_before_month (cv_year c) (cv_month c) + cv_day c - 1"

definition us_of_civil :: "civil \<Rightarrow> int" where
  "us_of_civil c = (((day_of_civil c * 24 + cv_hour c) * 60 + cv_minute c) * 60 + cv_second c)
     * 1000000 + cv_microsecond c"

definition civil_of_us :: "int \<Rightarrow> civil" where
  "civil_of_us t =
     (let n = t div 86400000000; r = t mod 86400000000; y = year_of n;
          md = month_day y (n - days_before_year y); s = r div 1000000
      in \<lparr>cv_year = y, cv_month = fst md, cv_day = snd md, cv_hour = s div 60 div 60,
          cv_minute = s div 60 mod 60, cv_second = s mod 60, cv_microsecond = r mod 1000000\<rparr>)"

section \<open>Date-times\<close>

definition MAX_US :: int where
  "MAX_US = 3652059 * 86400000000"

definition us_in_range :: "int \<Rightarrow> bool" where
  "us_in_range t = (0 \<le> t \<and> t < MAX_US)"

record datetime =
  dt_us :: int
  dt_offset :: "int option"

text \<open>\<^verbatim>\<open>value.astimezone(UTC)\<close> of an aware value; leaving years 1 to 9999 raises OverflowError.\<close>

definition astimezone_utc :: "datetime \<Rightarrow> datetime result" where
  "astimezone_utc d = (case dt_offset d of None \<Rightarrow> Inl ValueError
     | Some off \<Rightarrow> if us_in_range (dt_us d - off)
         then Inr \<lparr>dt_us = dt_us d - off, dt_offset = Some 0\<rparr> else Inl OverflowError)"

section \<open>Zones\<close>

text \<open>
  The installed zone database is a parameter of what uses it. For a UTC instant a zone gives its
  offset in seconds, abbreviation and daylight-saving shift, and whether the offset of the wall-clock
  time it shows then depends on the fold, that is, whether that time occurs twice. A name may be
  malformed (ValueError) or unknown.
\<close>

record zone_rules =
  zone_key :: string
  zone_at :: "int \<Rightarrow> int \<times> string \<times> int option"
  zone_folded :: "int \<Rightarrow> bool"

type_synonym zone_database = "string \<Rightarrow> zone_rules result"

section \<open>Lemmas\<close>

lemma leap_day_bounds: "0 \<le> leap_day y \<and> leap_day y \<le> 1"
  by (simp add: leap_day_def)

lemma div_bounds: "0 < c \<Longrightarrow> c * (x div c) \<le> x \<and> x < c * (x div c) + c" for x c :: int
  using mult_div_mod_eq [of c x] pos_mod_sign [of c x] pos_mod_bound [of c x] by linarith

lemma mult_add_div_mod:
  "0 \<le> b \<Longrightarrow> b < c \<Longrightarrow> (a * c + b) div c = a"
  "0 \<le> b \<Longrightarrow> b < c \<Longrightarrow> (a * c + b) mod c = b"
  for a b c :: int
  by simp_all

lemma div_pred: "0 < c \<Longrightarrow> y div c - (y - 1) div c = (if y mod c = 0 then 1 else 0)" for y c :: int
proof -
  assume c: "0 < c"
  have y: "y = c * (y div c) + y mod c" "0 \<le> y mod c" "y mod c < c"
    using c by simp_all
  show ?thesis
  proof (cases "y mod c = 0")
    case True
    have "(y - 1) div c = y div c - 1"
      by (rule int_div_pos_eq [of _ _ _ "c - 1"]) (use y True c in \<open>simp_all add: algebra_simps\<close>)
    with True show ?thesis by simp
  next
    case False
    have "(y - 1) div c = y div c"
      by (rule int_div_pos_eq [of _ _ _ "y mod c - 1"]) (use y False c in linarith)+
    with False show ?thesis by simp
  qed
qed

lemma days_before_year_Suc: "days_before_year (y + 1) = days_before_year y + 365 + leap_day y"
proof -
  have regroup: "y * 365 + a - b + c - ((y - 1) * 365 + a' - b' + c')
      = 365 + (a - a') - (b - b') + (c - c')" for a b c a' b' c' :: int
    by (simp add: algebra_simps)
  let ?m = "\<lambda>c. if y mod c = 0 then 1 else 0 :: int"
  have "days_before_year (y + 1) - days_before_year y = 365 + (y div 4 - (y - 1) div 4)
      - (y div 100 - (y - 1) div 100) + (y div 400 - (y - 1) div 400)"
    by (simp only: days_before_year_def add_diff_cancel_right' regroup)
  also have "\<dots> = 365 + ?m 4 - ?m 100 + ?m 400"
    by (simp only: div_pred zero_less_numeral)
  also have "\<dots> = 365 + leap_day y"
    using mod_mod_cancel [of 100 400 y] mod_mod_cancel [of 4 100 y]
    by (auto simp: leap_day_def leap_def)
  finally show ?thesis by (simp only: algebra_simps)
qed

lemma days_before_year_strict: "y < z \<Longrightarrow> days_before_year y + 365 \<le> days_before_year z"
proof (induction "nat (z - y)" arbitrary: z)
  case 0
  then show ?case by simp
next
  case (Suc k)
  show ?case
  proof (cases "z = y + 1")
    case True
    then show ?thesis using days_before_year_Suc [of y] leap_day_bounds [of y] by simp
  next
    case False
    with Suc have "days_before_year y + 365 \<le> days_before_year (z - 1)"
      by (intro Suc.hyps(1)) auto
    then show ?thesis
      using days_before_year_Suc [of "z - 1"] leap_day_bounds [of "z - 1"] by simp
  qed
qed

lemma days_before_year_mono: "y \<le> z \<Longrightarrow> days_before_year y \<le> days_before_year z"
  using days_before_year_strict [of y z] by (cases "y = z") auto

lemma days_before_year_approx:
  "400 * days_before_year y \<le> 146097 * y - 145701"
  "146097 * y - 146796 \<le> 400 * days_before_year y"
proof -
  note b = div_bounds [of 4 "y - 1"] div_bounds [of 100 "y - 1"] div_bounds [of 400 "y - 1"]
  have e: "400 * days_before_year y = 146000 * y - 146000 + 400 * ((y - 1) div 4)
      - 400 * ((y - 1) div 100) + 400 * ((y - 1) div 400)"
    unfolding days_before_year_def by (simp add: algebra_simps)
  show "400 * days_before_year y \<le> 146097 * y - 145701"
    "146097 * y - 146796 \<le> 400 * days_before_year y"
    using b e by simp_all
qed

lemma year_of_bounds:
  "days_before_year (year_of n) \<le> n \<and> n < days_before_year (year_of n + 1)"
proof -
  define y where "y = (400 * n) div 146097 + 1"
  have lo: "146097 * y - 146097 \<le> 400 * n" and hi: "400 * n < 146097 * y"
    using div_bounds [of 146097 "400 * n"] unfolding y_def by (simp_all add: algebra_simps)
  have "days_before_year (y - 1) \<le> n"
    using days_before_year_approx(1) [of "y - 1"] lo by (simp add: algebra_simps)
  moreover have "n < days_before_year (y + 2)"
    using days_before_year_approx(2) [of "y + 2"] hi by (simp add: algebra_simps)
  ultimately show ?thesis
    unfolding year_of_def y_def [symmetric] Let_def by (auto simp: add.assoc)
qed

lemma year_of_unique:
  assumes "days_before_year y \<le> n" "n < days_before_year (y + 1)"
  shows "year_of n = y"
proof -
  have mono: "days_before_year (a + 1) \<le> days_before_year b" if "a < b" for a b
    using days_before_year_strict [of "a + 1" b] that by (cases "a + 1 = b") auto
  show ?thesis
    using year_of_bounds [of n] assms mono [of y "year_of n"] mono [of "year_of n" y]
    by linarith
qed

lemma month_day_days_before:
  assumes "1 \<le> m" "m \<le> 12" "1 \<le> d" "d \<le> days_in_month y m"
  shows "month_day y (days_before_month y m + d - 1) = (m, d)
     \<and> 0 \<le> days_before_month y m + d - 1 \<and> days_before_month y m + d - 1 < 365 + leap_day y"
proof -
  have "m \<in> {1..12}"
    using assms(1,2) by simp
  also have "{1..12 :: int} = {1, 2, 3, 4, 5, 6, 7, 8, 9, 10, 11, 12}"
    by code_simp
  finally have "m \<in> {1, 2, 3, 4, 5, 6, 7, 8, 9, 10, 11, 12}" .
  then show ?thesis
    using assms(3,4) leap_day_bounds [of y]
    by (elim insertE emptyE)
      (simp_all add: month_day_def days_before_month_def days_in_month_def Let_def)
qed

lemma month_day_valid:
  assumes "0 \<le> k" "k < 365 + leap_day y"
  shows "1 \<le> fst (month_day y k) \<and> fst (month_day y k) \<le> 12 \<and> 1 \<le> snd (month_day y k)
     \<and> snd (month_day y k) \<le> days_in_month y (fst (month_day y k))
     \<and> days_before_month y (fst (month_day y k)) + snd (month_day y k) - 1 = k"
  using assms leap_day_bounds [of y]
  by (auto simp: month_day_def days_before_month_def days_in_month_def Let_def)

text \<open>The calendar is a bijection between valid fields and microsecond counts.\<close>

lemma civil_of_us_of_civil: "civil_valid c \<Longrightarrow> civil_of_us (us_of_civil c) = c"
proof -
  assume v: "civil_valid c"
  define r where "r = ((cv_hour c * 60 + cv_minute c) * 60 + cv_second c) * 1000000 + cv_microsecond c"
  have r: "0 \<le> r" "r < 86400000000"
    using v unfolding r_def civil_valid_def by simp_all
  have us: "us_of_civil c = day_of_civil c * 86400000000 + r"
    by (simp add: us_of_civil_def r_def)
  have dm: "us_of_civil c div 86400000000 = day_of_civil c" "us_of_civil c mod 86400000000 = r"
    using r unfolding us by simp_all
  have md: "month_day (cv_year c) (day_of_civil c - days_before_year (cv_year c))
      = (cv_month c, cv_day c)"
    "0 \<le> day_of_civil c - days_before_year (cv_year c)"
    "day_of_civil c - days_before_year (cv_year c) < 365 + leap_day (cv_year c)"
    using month_day_days_before [of "cv_month c" "cv_day c" "cv_year c"] v
    by (simp_all add: civil_valid_def day_of_civil_def add.assoc add_diff_eq)
  have y: "year_of (day_of_civil c) = cv_year c"
    by (rule year_of_unique) (use md days_before_year_Suc [of "cv_year c"] in simp_all)
  have "r mod 1000000 = cv_microsecond c"
    "r div 1000000 = (cv_hour c * 60 + cv_minute c) * 60 + cv_second c"
    "((cv_hour c * 60 + cv_minute c) * 60 + cv_second c) div 60 = cv_hour c * 60 + cv_minute c"
    "((cv_hour c * 60 + cv_minute c) * 60 + cv_second c) mod 60 = cv_second c"
    "(cv_hour c * 60 + cv_minute c) div 60 = cv_hour c"
    "(cv_hour c * 60 + cv_minute c) mod 60 = cv_minute c"
    using v unfolding r_def civil_valid_def by (simp_all only: mult_add_div_mod)
  then show ?thesis
    using md(1) y unfolding civil_of_us_def dm Let_def by simp
qed

lemma us_of_civil_of_us: "us_of_civil (civil_of_us t) = t"
proof -
  define n where "n = t div 86400000000"
  define r where "r = t mod 86400000000"
  define s where "s = r div 1000000"
  have k: "0 \<le> n - days_before_year (year_of n)"
    "n - days_before_year (year_of n) < 365 + leap_day (year_of n)"
    using year_of_bounds [of n] days_before_year_Suc [of "year_of n"] by linarith+
  have "day_of_civil (civil_of_us t) = n"
    using month_day_valid [OF k]
    unfolding day_of_civil_def civil_of_us_def Let_def n_def [symmetric] by simp
  moreover have "(s div 60 div 60 * 60 + s div 60 mod 60) * 60 + s mod 60 = s"
    by (simp only: div_mult_mod_eq)
  moreover have "s * 1000000 + r mod 1000000 = r" "n * 86400000000 + r = t"
    unfolding s_def n_def r_def by (simp_all only: div_mult_mod_eq)
  moreover have "us_of_civil c = day_of_civil c * 86400000000
      + (((cv_hour c * 60 + cv_minute c) * 60 + cv_second c) * 1000000 + cv_microsecond c)" for c
    by (simp add: us_of_civil_def)
  ultimately show ?thesis
    by (simp only: civil_of_us_def Let_def civil.select_convs n_def [symmetric] r_def [symmetric]
        s_def [symmetric])
qed

lemma civil_of_us_valid: "us_in_range t \<Longrightarrow> civil_valid (civil_of_us t)"
proof -
  assume t: "us_in_range t"
  define n where "n = t div 86400000000"
  define r where "r = t mod 86400000000"
  define s where "s = r div 1000000"
  have n: "0 \<le> n" "n < 3652059"
    using t div_bounds [of 86400000000 t] unfolding n_def us_in_range_def MAX_US_def by linarith+
  have "days_before_year (year_of n + 1) \<le> days_before_year 1" if "year_of n < 1"
    using that days_before_year_mono by simp
  then have y1: "1 \<le> year_of n"
    using n(1) year_of_bounds [of n] by (force simp: days_before_year_def)
  have "days_before_year 10000 \<le> days_before_year (year_of n)" if "9999 < year_of n"
    using that days_before_year_mono by simp
  moreover have "days_before_year 10000 = 3652059"
    by (simp add: days_before_year_def)
  ultimately have y2: "year_of n \<le> 9999"
    using n(2) year_of_bounds [of n] by linarith
  have k: "0 \<le> n - days_before_year (year_of n)"
    "n - days_before_year (year_of n) < 365 + leap_day (year_of n)"
    using year_of_bounds [of n] days_before_year_Suc [of "year_of n"] by linarith+
  have r: "0 \<le> r" "r < 86400000000"
    unfolding r_def by simp_all
  have s: "0 \<le> s" "s < 86400"
    using r div_bounds [of 1000000 r] unfolding s_def by linarith+
  have "0 \<le> s div 60 div 60" "s div 60 div 60 < 24"
    using s div_bounds [of 60 s] div_bounds [of 60 "s div 60"] by linarith+
  then show ?thesis
    using y1 y2 month_day_valid [OF k] unfolding civil_valid_def
    by (simp only: civil_of_us_def Let_def civil.select_convs n_def [symmetric] r_def [symmetric]
        s_def [symmetric]) simp
qed

end
