(* ===== verification/Clip_Naming.thy ===== *)
theory Clip_Naming
  imports Civil_Time
begin

text \<open>
  Clip filenames: \<^verbatim>\<open>src/dashcam/storage/naming.py\<close>. The regular expressions are written as
  the deterministic matchers they denote on validated ASCII names: every variable-length
  class \<^verbatim>\<open>[a-z0-9]{5,16}\<close> is followed by a separator outside the class, so a greedy scan
  decides the match. Filenames are ASCII strings; \<^verbatim>\<open>str.casefold\<close> is the ASCII lower-casing.
  \<^verbatim>\<open>%Y\<close> is printed as glibc prints it, without padding: a year before 1000 has fewer than four
  digits, so a timestamped name of such a year would not parse.
\<close>

section \<open>String operations\<close>

definition is_space :: "char \<Rightarrow> bool" where
  "is_space c = (let n = (of_char c :: nat) in n = 32 \<or> (9 \<le> n \<and> n \<le> 13) \<or> (28 \<le> n \<and> n \<le> 31))"

definition strip :: "string \<Rightarrow> string" where
  "strip s = rev (dropWhile is_space (rev (dropWhile is_space s)))"

definition ends_with :: "string \<Rightarrow> string \<Rightarrow> bool" where
  "ends_with s suf = (length suf \<le> length s \<and> drop (length s - length suf) s = suf)"

definition removesuffix :: "string \<Rightarrow> string \<Rightarrow> string" where
  "removesuffix s suf = (if ends_with s suf then take (length s - length suf) s else s)"

definition casefold :: "string \<Rightarrow> string" where
  "casefold s = map ascii_lower s"

section \<open>Validation\<close>

definition is_boot_char :: "char \<Rightarrow> bool" where
  "is_boot_char c = (is_lower c \<or> is_digit c)"

definition is_safe_char :: "char \<Rightarrow> bool" where
  "is_safe_char c = (is_alnum c \<or> c \<in> set ''._-'')"

definition reserved_device_names :: "string list" where
  "reserved_device_names = [''CON'', ''PRN'', ''AUX'', ''NUL'']
     @ map (\<lambda>n. ''COM'' @ pad_dec 1 n) [1..<10] @ map (\<lambda>n. ''LPT'' @ pad_dec 1 n) [1..<10]"

definition validate_filename_component :: "string \<Rightarrow> string result" where
  "validate_filename_component name =
     (if name = [] \<or> length name > 255 then Inl ClipNameError
      else if \<not> list_all is_ascii name \<or> name \<noteq> strip name
        \<or> ends_with name ''.'' \<or> ends_with name '' '' then Inl ClipNameError
      else if CHR ''/'' \<in> set name \<or> CHR 0x5C \<in> set name \<or> \<not> list_all is_safe_char name
      then Inl ClipNameError
      else if map ascii_upper (takeWhile (\<lambda>c. c \<noteq> CHR ''.'') name) \<in> set reserved_device_names
      then Inl ClipNameError
      else Inr name)"

record ClipFilePair =
  video_name :: string
  metadata_name :: string

definition mk_clip_file_pair :: "string \<Rightarrow> string \<Rightarrow> ClipFilePair result" where
  "mk_clip_file_pair v m =
     bindR (validate_filename_component v) (\<lambda>_.
     bindR (validate_filename_component m) (\<lambda>_.
       if \<not> ends_with v ''.mp4'' \<or> \<not> ends_with m ''.json'' then Inl ClipNameError
       else if removesuffix v ''.mp4'' \<noteq> removesuffix m ''.json'' then Inl ClipNameError
       else Inr \<lparr>video_name = v, metadata_name = m\<rparr>))"

definition relative_paths :: "ClipFilePair \<Rightarrow> string \<Rightarrow> (string \<times> string) result" where
  "relative_paths p directory =
     (if directory \<notin> set [''pending'', ''clips'', ''protected'', ''quarantine'']
      then Inl ClipNameError
      else Inr (directory @ ''/'' @ video_name p, directory @ ''/'' @ metadata_name p))"

text \<open>
  \<^verbatim>\<open>parse_clip_id\<close>: \<^verbatim>\<open>UUID(value)\<close> followed by the comparison with the canonical text accepts
  exactly the canonical texts, whose five hyphen-separated groups are lower-case hexadecimal.
\<close>

definition is_hex_lower :: "char \<Rightarrow> bool" where
  "is_hex_lower c = (is_digit c \<or> code_between 97 102 c)"

definition hex_val :: "char \<Rightarrow> nat" where
  "hex_val c = (if is_digit c then of_char c - 48 else of_char c - 87)"

definition parse_clip_id :: "string \<Rightarrow> uuid result" where
  "parse_clip_id v =
     (let h = take 8 v @ take 4 (drop 9 v) @ take 4 (drop 14 v) @ take 4 (drop 19 v) @ drop 24 v;
          u = UUID (of_nat (undigits 16 (map hex_val h)))
      in if list_all is_hex_lower h \<and> uuid_str u = v then Inr u else Inl ClipNameError)"

definition validated_boot_id :: "string \<Rightarrow> string result" where
  "validated_boot_id b =
     (if 5 \<le> length b \<and> length b \<le> 16 \<and> list_all is_boot_char b then Inr b
      else Inl ClipNameError)"

definition checked_sequence :: "int \<Rightarrow> int result" where
  "checked_sequence n = (if 0 \<le> n \<and> n \<le> 999999 then Inr n else Inl ClipNameError)"

definition as_utc :: "datetime \<Rightarrow> datetime result" where
  "as_utc d = (case dt_offset d of None \<Rightarrow> Inl ClipNameError | Some _ \<Rightarrow> astimezone_utc d)"

section \<open>Generation\<close>

definition new_pair :: "string \<Rightarrow> string list \<Rightarrow> ClipFilePair result" where
  "new_pair stem existing_names =
     bindR (mk_clip_file_pair (stem @ ''.mp4'') (stem @ ''.json'')) (\<lambda>pair.
       let existing_casefolded = map casefold existing_names
       in if casefold (video_name pair) \<in> set existing_casefolded
            \<or> casefold (metadata_name pair) \<in> set existing_casefolded
          then Inl ClipNameError else Inr pair)"

definition boot_stem :: "string \<Rightarrow> int \<Rightarrow> string" where
  "boot_stem b n = ''boot-'' @ b @ ''-'' @ pad_dec 6 (nat n)"

definition provisional_clip_pair :: "string \<Rightarrow> int \<Rightarrow> string list \<Rightarrow> ClipFilePair result" where
  "provisional_clip_pair boot sq existing_names =
     bindR (validated_boot_id boot) (\<lambda>b.
     bindR (checked_sequence sq) (\<lambda>n. new_pair (boot_stem b n @ ''.partial'') existing_names))"

definition finalized_unsynced_clip_pair :: "string \<Rightarrow> int \<Rightarrow> string list \<Rightarrow> ClipFilePair result" where
  "finalized_unsynced_clip_pair boot sq existing_names =
     bindR (validated_boot_id boot) (\<lambda>b.
     bindR (checked_sequence sq) (\<lambda>n. new_pair (boot_stem b n) existing_names))"

definition year_text :: "int \<Rightarrow> string" where
  "year_text y = pad_dec (if y < 10 then 1 else if y < 100 then 2 else if y < 1000 then 3 else 4) (nat y)"

definition utc_stamp :: "civil \<Rightarrow> string" where
  "utc_stamp c = year_text (cv_year c) @ pad_dec 2 (nat (cv_month c))
     @ pad_dec 2 (nat (cv_day c)) @ ''T'' @ pad_dec 2 (nat (cv_hour c))
     @ pad_dec 2 (nat (cv_minute c)) @ pad_dec 2 (nat (cv_second c)) @ ''.''
     @ pad_dec 3 (nat (cv_microsecond c div 1000)) @ ''Z''"

definition finalized_clip_pair ::
  "datetime \<Rightarrow> string \<Rightarrow> int \<Rightarrow> string list \<Rightarrow> ClipFilePair result" where
  "finalized_clip_pair utc_started_at boot sq existing_names =
     bindR (as_utc utc_started_at) (\<lambda>utc_value.
     bindR (validated_boot_id boot) (\<lambda>b.
     bindR (checked_sequence sq) (\<lambda>n.
       new_pair (utc_stamp (civil_of_us (dt_us utc_value)) @ ''_'' @ b @ ''_s'' @ pad_dec 6 (nat n))
         existing_names)))"

section \<open>Parsing\<close>

record ParsedClipName =
  pn_boot_id :: string
  pn_sequence :: int
  utc_started_at :: "datetime option"
  extension :: string
  provisional :: bool
  partial :: bool

text \<open>The tail \<^verbatim>\<open>(mp4|json)\<close> after a fixed middle part.\<close>

definition match_ext :: "string \<Rightarrow> string \<Rightarrow> string option" where
  "match_ext mid s = (if s = mid @ ''.mp4'' then Some ''mp4''
     else if s = mid @ ''.json'' then Some ''json'' else None)"

text \<open>\<^verbatim>\<open>([a-z0-9]{5,16})SEP(\d{6})MID\.(mp4|json)\<close>.\<close>

definition match_boot_seq :: "string \<Rightarrow> string \<Rightarrow> string \<Rightarrow> (string \<times> string \<times> string) option" where
  "match_boot_seq sep mid s =
     (let b = takeWhile is_boot_char s; tl = drop (length b) s;
          digs = take 6 (drop (length sep) tl); rest = drop (length sep + 6) tl
      in if 5 \<le> length b \<and> length b \<le> 16 \<and> take (length sep) tl = sep \<and> length digs = 6
            \<and> list_all is_digit digs
         then (case match_ext mid rest of None \<Rightarrow> None | Some e \<Rightarrow> Some (b, digs, e))
         else None)"

definition match_boot_name :: "string \<Rightarrow> string \<Rightarrow> (string \<times> string \<times> string) option" where
  "match_boot_name mid name =
     (if take 5 name = ''boot-'' then match_boot_seq ''-'' mid (drop 5 name) else None)"

definition match_stamp :: "string \<Rightarrow> bool" where
  "match_stamp s = (length s = 20 \<and> list_all is_digit (take 8 s) \<and> s ! 8 = CHR ''T''
     \<and> list_all is_digit (take 6 (drop 9 s)) \<and> s ! 15 = CHR ''.''
     \<and> list_all is_digit (take 3 (drop 16 s)) \<and> s ! 19 = CHR ''Z'')"

definition match_final :: "string \<Rightarrow> (string \<times> string \<times> string \<times> string) option" where
  "match_final name =
     (if match_stamp (take 20 name) \<and> take 1 (drop 20 name) = ''_''
      then (case match_boot_seq ''_s'' [] (drop 21 name) of None \<Rightarrow> None
            | Some (b, digs, e) \<Rightarrow> Some (take 20 name, b, digs, e))
      else None)"

text \<open>\<^verbatim>\<open>datetime.strptime(text, "%Y%m%dT%H%M%S.%fZ").replace(tzinfo=UTC)\<close>.\<close>

definition civil_of_stamp :: "string \<Rightarrow> civil" where
  "civil_of_stamp s = \<lparr>cv_year = int (dec_value (take 4 s)),
     cv_month = int (dec_value (take 2 (drop 4 s))), cv_day = int (dec_value (take 2 (drop 6 s))),
     cv_hour = int (dec_value (take 2 (drop 9 s))),
     cv_minute = int (dec_value (take 2 (drop 11 s))),
     cv_second = int (dec_value (take 2 (drop 13 s))),
     cv_microsecond = 1000 * int (dec_value (take 3 (drop 16 s)))\<rparr>"

definition strptime_stamp :: "string \<Rightarrow> datetime result" where
  "strptime_stamp s =
     (let c = civil_of_stamp s in
      if civil_valid c then Inr \<lparr>dt_us = us_of_civil c, dt_offset = Some 0\<rparr> else Inl ValueError)"

definition parse_clip_filename :: "string \<Rightarrow> ParsedClipName result" where
  "parse_clip_filename name =
     bindR (validate_filename_component name) (\<lambda>_.
     (case match_boot_name ''.partial'' name of
        Some (b, digs, e) \<Rightarrow> Inr \<lparr>pn_boot_id = b, pn_sequence = int (dec_value digs),
          utc_started_at = None, extension = e, provisional = True, partial = True\<rparr>
      | None \<Rightarrow>
     (case match_boot_name [] name of
        Some (b, digs, e) \<Rightarrow> Inr \<lparr>pn_boot_id = b, pn_sequence = int (dec_value digs),
          utc_started_at = None, extension = e, provisional = True, partial = False\<rparr>
      | None \<Rightarrow>
     (case match_final name of
        None \<Rightarrow> Inl ClipNameError
      | Some (stamp, b, digs, e) \<Rightarrow>
          (case strptime_stamp stamp of
             Inl _ \<Rightarrow> Inl ClipNameError
           | Inr utc \<Rightarrow> Inr \<lparr>pn_boot_id = b, pn_sequence = int (dec_value digs),
               utc_started_at = Some utc, extension = e, provisional = False, partial = False\<rparr>)))))"

section \<open>Names and times in closed form\<close>

text \<open>What \<^verbatim>\<open>%f\<close> cut to milliseconds keeps of a time, and the stem of a timestamped name.\<close>

definition floor_ms :: "civil \<Rightarrow> civil" where
  "floor_ms c = c\<lparr>cv_microsecond := 1000 * (cv_microsecond c div 1000)\<rparr>"

definition final_stem :: "int \<Rightarrow> string \<Rightarrow> int \<Rightarrow> string" where
  "final_stem t b n = utc_stamp (civil_of_us t) @ ''_'' @ b @ ''_s'' @ pad_dec 6 (nat n)"

section \<open>Lemmas\<close>

lemma is_space_code [code]: "is_space (Char b0 b1 b2 b3 b4 b5 b6 b7) = (\<not> b7 \<and> \<not> b6 \<and>
    (if b5 then \<not> b4 \<and> \<not> b3 \<and> \<not> b2 \<and> \<not> b1 \<and> \<not> b0
     else b3 \<and> (if b4 then b2 else if b2 then \<not> b1 else b1 \<or> b0)))"
  unfolding is_space_def of_char_bits Let_def
  by (cases b7; cases b6; cases b5; cases b4; cases b3; cases b2; cases b1; simp)

lemma reserved_device_names_code [code]:
  "reserved_device_names = [''CON'', ''PRN'', ''AUX'', ''NUL'', ''COM1'', ''COM2'', ''COM3'', ''COM4'', ''COM5'', ''COM6'', ''COM7'', ''COM8'', ''COM9'', ''LPT1'', ''LPT2'', ''LPT3'', ''LPT4'', ''LPT5'', ''LPT6'', ''LPT7'', ''LPT8'', ''LPT9'']"
  by code_simp

lemma code_between_char:
  "is_lower c \<Longrightarrow> is_ascii c" "is_upper c \<Longrightarrow> is_ascii c" "is_digit c \<Longrightarrow> is_ascii c"
  by (auto simp: is_lower_def is_upper_def is_digit_def is_ascii_def code_between_def)

lemma safe_char_ascii: "is_safe_char c \<Longrightarrow> is_ascii c"
  by (auto simp: is_safe_char_def is_alnum_def code_between_char) (simp_all add: is_ascii_def)

lemma safe_char_not_special:
  "is_safe_char c \<Longrightarrow> \<not> is_space c" "is_safe_char c \<Longrightarrow> c \<noteq> CHR ''/''"
  "is_safe_char c \<Longrightarrow> c \<noteq> CHR 0x5C" "is_safe_char c \<Longrightarrow> c \<noteq> CHR '' ''"
  by (auto simp: is_safe_char_def is_alnum_def is_lower_def is_upper_def is_digit_def
      code_between_def is_space_def Let_def)

lemma boot_char_safe: "is_boot_char c \<Longrightarrow> is_safe_char c"
  by (auto simp: is_boot_char_def is_safe_char_def is_alnum_def)

lemma digit_safe: "is_digit c \<Longrightarrow> is_safe_char c"
  by (auto simp: is_safe_char_def is_alnum_def)

lemma boot_char_separators [simp]:
  "\<not> is_boot_char CHR ''-''" "\<not> is_boot_char CHR ''_''" "\<not> is_boot_char CHR ''.''"
  by (simp_all add: is_boot_char_def is_lower_def is_digit_def code_between_def)

lemma strip_safe: "list_all is_safe_char s \<Longrightarrow> strip s = s"
proof -
  assume s: "list_all is_safe_char s"
  have id: "dropWhile is_space t = t" if "\<forall>c \<in> set t. \<not> is_space c" for t
    using that by (cases t) auto
  have "\<forall>c \<in> set s. \<not> is_space c"
    using s by (auto simp: list_all_iff safe_char_not_special)
  then show ?thesis
    by (simp add: strip_def id)
qed

lemma reserved_length: "d \<in> set reserved_device_names \<Longrightarrow> length d \<le> 4"
  by (auto simp: reserved_device_names_def)

lemma ends_with_append [simp]: "ends_with (s @ suf) suf"
  by (simp add: ends_with_def)

lemma removesuffix_append [simp]: "removesuffix (s @ suf) suf = s"
  by (simp add: removesuffix_def)

text \<open>
  A name of safe characters whose part before the first dot is longer than every reserved
  device name and which ends in a letter or digit is a valid component.
\<close>

lemma validate_safe:
  assumes "list_all is_safe_char s" "s \<noteq> []" "length s \<le> 255" "is_alnum (last s)"
    and "4 < length (takeWhile (\<lambda>c. c \<noteq> CHR ''.'') s)"
  shows "validate_filename_component s = Inr s"
proof -
  have dot: "\<not> is_alnum CHR ''.''" "\<not> is_alnum CHR '' ''"
    by (simp_all add: is_alnum_def is_lower_def is_upper_def is_digit_def code_between_def)
  have last: "drop (length s - Suc 0) s = [last s]"
    using assms(2) by (metis One_nat_def last_drop append_butlast_last_id append_eq_conv_conj
        length_butlast)
  have "map ascii_upper (takeWhile (\<lambda>c. c \<noteq> CHR ''.'') s) \<notin> set reserved_device_names"
    using assms(5) reserved_length by fastforce
  moreover have "\<not> ends_with s ''.''" "\<not> ends_with s '' ''"
    using assms(4) dot last by (auto simp: ends_with_def)
  moreover have "list_all is_ascii s" "CHR ''/'' \<notin> set s" "CHR 0x5C \<notin> set s"
    using assms(1) unfolding list_all_iff
    by (blast dest: safe_char_ascii safe_char_not_special)+
  ultimately show ?thesis
    using assms(1,2,3) by (simp add: validate_filename_component_def strip_safe)
qed

lemma validated_no_separator:
  "validate_filename_component s = Inr t \<Longrightarrow>
   t = s \<and> s \<noteq> [] \<and> length s \<le> 255 \<and> CHR ''/'' \<notin> set s \<and> CHR 0x5C \<notin> set s
     \<and> list_all is_safe_char s \<and> s \<noteq> ''.'' \<and> s \<noteq> ''..''"
  by (auto simp: validate_filename_component_def ends_with_def split: if_splits)

lemma match_boot_seq_app:
  assumes "validated_boot_id b = Inr b" "sep \<noteq> []" "\<not> is_boot_char (hd sep)"
    "length digs = 6" "list_all is_digit digs" "match_ext mid rest = Some e"
  shows "match_boot_seq sep mid (b @ sep @ digs @ rest) = Some (b, digs, e)"
proof -
  have b: "5 \<le> length b" "length b \<le> 16" "list_all is_boot_char b"
    using assms(1) by (auto simp: validated_boot_id_def split: if_splits)
  have "takeWhile is_boot_char (b @ sep @ digs @ rest) = b"
    using b(3) assms(2,3) by (cases sep) (auto simp: list_all_iff)
  then show ?thesis
    using assms b by (simp add: match_boot_seq_def)
qed

lemma pad_dec_digits: "n < 10 ^ k \<Longrightarrow> list_all is_digit (pad_dec k n)"
  by (auto simp: list_all_iff pad_dec_digit)

lemma seq_digits:
  assumes "checked_sequence n = Inr m"
  shows "m = n \<and> 0 \<le> n \<and> nat n < 10 ^ 6"
  using assms by (auto simp: checked_sequence_def split: if_splits)

text \<open>A dot-free safe stem longer than four characters followed by a known extension is valid.\<close>

lemma validate_stem_tail:
  assumes "list_all is_safe_char stem" "CHR ''.'' \<notin> set stem" "4 < length stem"
    "length stem \<le> 200"
    and "ext \<in> {''.mp4'', ''.json'', ''.partial.mp4'', ''.partial.json''}
      \<or> (\<exists>r. ext = CHR ''.'' # r \<and> list_all is_safe_char r \<and> r \<noteq> [] \<and> is_alnum (last r)
              \<and> length r \<le> 50)"
    and "is_alnum (last ext)"
  shows "validate_filename_component (stem @ ext) = Inr (stem @ ext)"
proof -
  from assms(5) obtain r where r: "ext = CHR ''.'' # r" "list_all is_safe_char r" "r \<noteq> []"
    "length r \<le> 50"
    by (auto simp: is_safe_char_def is_alnum_def is_lower_def is_digit_def is_upper_def
        code_between_def)
  have "takeWhile (\<lambda>c. c \<noteq> CHR ''.'') (stem @ ext) = stem"
    using assms(2) r(1) by (auto simp: takeWhile_append)
  moreover have "is_safe_char CHR ''.''"
    by (simp add: is_safe_char_def)
  ultimately show ?thesis
    using assms r by (intro validate_safe) auto
qed

lemma validated_bootD: "validated_boot_id b = Inr b' \<Longrightarrow>
    b' = b \<and> 5 \<le> length b \<and> length b \<le> 16 \<and> list_all is_boot_char b"
  by (auto simp: validated_boot_id_def split: if_splits)

lemma boot_stem_shape:
  assumes "validated_boot_id b = Inr b" "checked_sequence n = Inr n"
  shows "list_all is_safe_char (boot_stem b n)" "CHR ''.'' \<notin> set (boot_stem b n)"
    "4 < length (boot_stem b n)" "length (boot_stem b n) \<le> 200"
proof -
  note b = validated_bootD [OF assms(1)] and n = seq_digits [OF assms(2)]
  have digs: "list_all is_digit (pad_dec 6 (nat n))"
    using n by (intro pad_dec_digits) simp
  have lits: "list_all is_safe_char ''boot-''" "is_safe_char CHR ''-''"
    "\<not> is_digit CHR ''.''" "\<not> is_boot_char CHR ''.''"
    by (simp_all add: is_safe_char_def is_alnum_def is_lower_def is_digit_def code_between_def)
  show "list_all is_safe_char (boot_stem b n)"
    using b digs lits by (auto simp: boot_stem_def list_all_iff boot_char_safe digit_safe)
  show "CHR ''.'' \<notin> set (boot_stem b n)"
    using b digs lits by (auto simp: boot_stem_def list_all_iff)
  show "4 < length (boot_stem b n)" "length (boot_stem b n) \<le> 200"
    using b by (auto simp: boot_stem_def)
qed

lemma alnum_4_n: "is_alnum CHR ''4''" "is_alnum CHR ''n''"
  by (simp_all add: is_alnum_def is_lower_def is_digit_def code_between_def)

lemma match_boot_name_stem:
  assumes "validated_boot_id b = Inr b" "checked_sequence n = Inr n" "match_ext mid ext = Some e"
  shows "match_boot_name mid (boot_stem b n @ ext) = Some (b, pad_dec 6 (nat n), e)"
proof -
  have "list_all is_digit (pad_dec 6 (nat n))"
    using seq_digits [OF assms(2)] by (intro pad_dec_digits) simp
  then have "match_boot_seq ''-'' mid (b @ ''-'' @ pad_dec 6 (nat n) @ ext)
      = Some (b, pad_dec 6 (nat n), e)"
    using assms by (intro match_boot_seq_app) simp_all
  then show ?thesis
    by (simp add: match_boot_name_def boot_stem_def)
qed

lemma match_boot_name_other:
  assumes "validated_boot_id b = Inr b" "checked_sequence n = Inr n" "match_ext mid ext = None"
  shows "match_boot_name mid (boot_stem b n @ ext) = None"
proof -
  note b = validated_bootD [OF assms(1)]
  have "takeWhile is_boot_char (b @ CHR ''-'' # x) = b" for x
    using b by (auto simp: list_all_iff)
  with assms(3) show ?thesis
    by (simp add: match_boot_name_def match_boot_seq_def boot_stem_def)
qed

lemma dec_value_seq: "checked_sequence n = Inr n \<Longrightarrow> int (dec_value (pad_dec 6 (nat n))) = n"
  using seq_digits [of n n] by (simp add: dec_value_pad_dec)

lemma match_ext_simps [simp]:
  "match_ext ''.partial'' ''.partial.mp4'' = Some ''mp4''"
  "match_ext ''.partial'' ''.partial.json'' = Some ''json''"
  "match_ext [] ''.mp4'' = Some ''mp4''" "match_ext [] ''.json'' = Some ''json''"
  "match_ext ''.partial'' ''.mp4'' = None" "match_ext ''.partial'' ''.json'' = None"
  by (simp_all add: match_ext_def)

lemma parse_partial:
  assumes "validated_boot_id b = Inr b" "checked_sequence n = Inr n"
    "(ext, e) \<in> {(''.partial.mp4'', ''mp4''), (''.partial.json'', ''json'')}"
  shows "parse_clip_filename (boot_stem b n @ ext) = Inr \<lparr>pn_boot_id = b, pn_sequence = n,
     utc_started_at = None, extension = e, provisional = True, partial = True\<rparr>"
proof -
  have "validate_filename_component (boot_stem b n @ ext) = Inr (boot_stem b n @ ext)"
    using boot_stem_shape [OF assms(1,2)] assms(3) alnum_4_n by (intro validate_stem_tail) auto
  moreover have "match_boot_name ''.partial'' (boot_stem b n @ ext) = Some (b, pad_dec 6 (nat n), e)"
    using assms by (intro match_boot_name_stem) auto
  ultimately show ?thesis
    using assms(2) by (simp add: parse_clip_filename_def dec_value_seq)
qed

lemma parse_unsynced:
  assumes "validated_boot_id b = Inr b" "checked_sequence n = Inr n"
    "(ext, e) \<in> {(''.mp4'', ''mp4''), (''.json'', ''json'')}"
  shows "parse_clip_filename (boot_stem b n @ ext) = Inr \<lparr>pn_boot_id = b, pn_sequence = n,
     utc_started_at = None, extension = e, provisional = True, partial = False\<rparr>"
proof -
  have "validate_filename_component (boot_stem b n @ ext) = Inr (boot_stem b n @ ext)"
    using boot_stem_shape [OF assms(1,2)] assms(3) alnum_4_n by (intro validate_stem_tail) auto
  moreover have "match_boot_name ''.partial'' (boot_stem b n @ ext) = None"
    using assms by (intro match_boot_name_other) auto
  moreover have "match_boot_name [] (boot_stem b n @ ext) = Some (b, pad_dec 6 (nat n), e)"
    using assms by (intro match_boot_name_stem) auto
  ultimately show ?thesis
    using assms(2) by (simp add: parse_clip_filename_def dec_value_seq)
qed

subsection \<open>Timestamped names\<close>

lemma civil_nat_bounds:
  assumes "civil_valid c"
  shows "nat (cv_year c) < 10 ^ 4" "nat (cv_month c) < 10 ^ 2" "nat (cv_day c) < 10 ^ 2"
    "nat (cv_hour c) < 10 ^ 2" "nat (cv_minute c) < 10 ^ 2" "nat (cv_second c) < 10 ^ 2"
    "nat (cv_microsecond c div 1000) < 10 ^ 3"
proof -
  have "days_in_month y m \<le> 31" for y m
    using leap_day_bounds [of y] by (simp add: days_in_month_def)
  with assms have "cv_day c \<le> 31"
    unfolding civil_valid_def by (meson order_trans)
  with assms show "nat (cv_year c) < 10 ^ 4" "nat (cv_month c) < 10 ^ 2" "nat (cv_day c) < 10 ^ 2"
    "nat (cv_hour c) < 10 ^ 2" "nat (cv_minute c) < 10 ^ 2" "nat (cv_second c) < 10 ^ 2"
    by (auto simp: civil_valid_def)
  have "cv_microsecond c div 1000 < 1000"
    using assms div_bounds [of 1000 "cv_microsecond c"] unfolding civil_valid_def by linarith
  then show "nat (cv_microsecond c div 1000) < 10 ^ 3"
    by simp
qed

lemma year_text_4: "1000 \<le> y \<Longrightarrow> year_text y = pad_dec 4 (nat y)"
  by (simp add: year_text_def)

lemma length_utc_stamp [simp]: "1000 \<le> cv_year c \<Longrightarrow> length (utc_stamp c) = 20"
  by (simp add: utc_stamp_def year_text_4)

lemma stamp_digits:
  assumes "civil_valid c"
  shows "list_all is_digit (pad_dec 4 (nat (cv_year c)))"
    "list_all is_digit (pad_dec 2 (nat (cv_month c)))"
    "list_all is_digit (pad_dec 2 (nat (cv_day c)))"
    "list_all is_digit (pad_dec 2 (nat (cv_hour c)))"
    "list_all is_digit (pad_dec 2 (nat (cv_minute c)))"
    "list_all is_digit (pad_dec 2 (nat (cv_second c)))"
    "list_all is_digit (pad_dec 3 (nat (cv_microsecond c div 1000)))"
  using civil_nat_bounds [OF assms] by (simp_all only: pad_dec_digits)

lemma match_utc_stamp: "civil_valid c \<Longrightarrow> 1000 \<le> cv_year c \<Longrightarrow> match_stamp (utc_stamp c)"
  using stamp_digits [of c] by (simp add: match_stamp_def utc_stamp_def year_text_4 nth_append)

lemma civil_of_utc_stamp:
  "civil_valid c \<Longrightarrow> 1000 \<le> cv_year c \<Longrightarrow> civil_of_stamp (utc_stamp c) = floor_ms c"
proof -
  assume v: "civil_valid c" and y: "1000 \<le> cv_year c"
  note b = civil_nat_bounds [OF v]
  have nn: "0 \<le> cv_microsecond c div 1000"
    using v by (simp add: civil_valid_def pos_imp_zdiv_nonneg_iff)
  show ?thesis
    using v nn b y unfolding civil_of_stamp_def utc_stamp_def year_text_4 [OF y] floor_ms_def
      civil_valid_def
    by (cases c) (simp add: dec_value_pad_dec)
qed

lemma floor_ms_valid: "civil_valid c \<Longrightarrow> civil_valid (floor_ms c)"
  using div_bounds [of 1000 "cv_microsecond c"]
  by (auto simp: civil_valid_def floor_ms_def pos_imp_zdiv_nonneg_iff)

lemma us_floor_ms: "us_of_civil (floor_ms (civil_of_us t)) = t - t mod 1000"
proof -
  let ?c = "civil_of_us t"
  have "us_of_civil (floor_ms ?c) = us_of_civil ?c - cv_microsecond ?c mod 1000"
    by (simp add: us_of_civil_def floor_ms_def day_of_civil_def minus_mod_eq_mult_div [symmetric])
  moreover have "cv_microsecond ?c = t mod 86400000000 mod 1000000"
    by (simp add: civil_of_us_def Let_def)
  then have "cv_microsecond ?c mod 1000 = t mod 1000"
    using mod_mod_cancel [of 1000 1000000 "t mod 86400000000"]
      mod_mod_cancel [of 1000 86400000000 t] by simp
  ultimately show ?thesis
    by (simp add: us_of_civil_of_us)
qed

lemma strptime_utc_stamp:
  "us_in_range t \<Longrightarrow> 1000 \<le> cv_year (civil_of_us t) \<Longrightarrow>
   strptime_stamp (utc_stamp (civil_of_us t)) = Inr \<lparr>dt_us = t - t mod 1000, dt_offset = Some 0\<rparr>"
  by (simp add: strptime_stamp_def civil_of_utc_stamp civil_of_us_valid floor_ms_valid us_floor_ms)

lemma validate_final:
  assumes "civil_valid c" "validated_boot_id b = Inr b" "checked_sequence n = Inr n"
    "ext \<in> {''.mp4'', ''.json''}" "1000 \<le> cv_year c"
  shows "validate_filename_component (utc_stamp c @ ''_'' @ b @ ''_s'' @ pad_dec 6 (nat n) @ ext)
     = Inr (utc_stamp c @ ''_'' @ b @ ''_s'' @ pad_dec 6 (nat n) @ ext)"
proof -
  define stem where "stem = pad_dec 4 (nat (cv_year c)) @ pad_dec 2 (nat (cv_month c))
     @ pad_dec 2 (nat (cv_day c)) @ ''T'' @ pad_dec 2 (nat (cv_hour c))
     @ pad_dec 2 (nat (cv_minute c)) @ pad_dec 2 (nat (cv_second c))"
  define r where "r = pad_dec 3 (nat (cv_microsecond c div 1000)) @ ''Z_''
     @ b @ ''_s'' @ pad_dec 6 (nat n) @ ext"
  note b = validated_bootD [OF assms(2)] and d = stamp_digits [OF assms(1)]
  have seqd: "list_all is_digit (pad_dec 6 (nat n))"
    using seq_digits [OF assms(3)] by (intro pad_dec_digits) simp
  have dig: "list_all is_safe_char x \<and> CHR ''.'' \<notin> set x" if "list_all is_digit x" for x
  proof -
    have "\<not> is_digit CHR ''.''"
      by (simp add: is_digit_def code_between_def)
    with that show ?thesis
      by (auto simp: list_all_iff digit_safe)
  qed
  have lits: "is_safe_char CHR ''T''" "list_all is_safe_char ''Z_''" "list_all is_safe_char ''_s''"
    "list_all is_safe_char ''.mp4''" "list_all is_safe_char ''.json''"
    by (simp_all add: is_safe_char_def is_alnum_def is_lower_def is_upper_def is_digit_def
        code_between_def)
  have "list_all is_safe_char b"
    using b by (auto simp: list_all_iff boot_char_safe)
  then have "list_all is_safe_char r"
    using dig [OF d(7)] dig [OF seqd] lits assms(4) unfolding r_def by auto
  moreover have "r \<noteq> []" "length r \<le> 50" "is_alnum (last r)" "is_alnum (last (CHR ''.'' # r))"
    using b assms(4) alnum_4_n unfolding r_def by auto
  moreover have "list_all is_safe_char stem" "CHR ''.'' \<notin> set stem" "length stem = 15"
    using dig [OF d(1)] dig [OF d(2)] dig [OF d(3)] dig [OF d(4)] dig [OF d(5)] dig [OF d(6)] lits
    unfolding stem_def by simp_all
  ultimately have "validate_filename_component (stem @ CHR ''.'' # r) = Inr (stem @ CHR ''.'' # r)"
    by (intro validate_stem_tail) auto
  moreover have "stem @ CHR ''.'' # r = utc_stamp c @ ''_'' @ b @ ''_s'' @ pad_dec 6 (nat n) @ ext"
    by (simp add: stem_def r_def utc_stamp_def year_text_4 [OF assms(5)])
  ultimately show ?thesis by simp
qed

lemma take_boot_stamp:
  "civil_valid c \<Longrightarrow> 1000 \<le> cv_year c \<Longrightarrow> take 5 (utc_stamp c @ x) \<noteq> ''boot-''"
proof -
  assume v: "civil_valid c" and y: "1000 \<le> cv_year c"
  have "pad_dec 4 (nat (cv_year c)) \<noteq> []"
    using length_pad_dec [of 4 "nat (cv_year c)"] by force
  then obtain d ds where "pad_dec 4 (nat (cv_year c)) = d # ds" "is_digit d"
    using stamp_digits(1) [OF v] by (cases "pad_dec 4 (nat (cv_year c))") auto
  then show ?thesis
    by (auto simp: utc_stamp_def year_text_4 [OF y] is_digit_def code_between_def)
qed

lemma parse_final:
  assumes "us_in_range t" "validated_boot_id b = Inr b" "checked_sequence n = Inr n"
    "(ext, e) \<in> {(''.mp4'', ''mp4''), (''.json'', ''json'')}"
    and y: "1000 \<le> cv_year (civil_of_us t)"
  shows "parse_clip_filename (utc_stamp (civil_of_us t) @ ''_'' @ b @ ''_s'' @ pad_dec 6 (nat n) @ ext)
     = Inr \<lparr>pn_boot_id = b, pn_sequence = n,
         utc_started_at = Some \<lparr>dt_us = t - t mod 1000, dt_offset = Some 0\<rparr>, extension = e,
         provisional = False, partial = False\<rparr>"
proof -
  let ?c = "civil_of_us t"
  let ?rest = "b @ ''_s'' @ pad_dec 6 (nat n) @ ext"
  have v: "civil_valid ?c"
    using assms(1) by (rule civil_of_us_valid)
  have seqd: "list_all is_digit (pad_dec 6 (nat n))"
    using seq_digits [OF assms(3)] by (intro pad_dec_digits) simp
  have "match_boot_seq ''_s'' [] ?rest = Some (b, pad_dec 6 (nat n), e)"
    using assms seqd by (intro match_boot_seq_app) auto
  then have "match_final (utc_stamp ?c @ ''_'' @ ?rest) = Some (utc_stamp ?c, b, pad_dec 6 (nat n), e)"
    using match_utc_stamp [OF v y] y by (simp add: match_final_def)
  moreover have "match_boot_name mid (utc_stamp ?c @ ''_'' @ ?rest) = None" for mid
    using take_boot_stamp [OF v y, of "''_'' @ ?rest"] by (simp add: match_boot_name_def)
  moreover have "validate_filename_component (utc_stamp ?c @ ''_'' @ ?rest)
      = Inr (utc_stamp ?c @ ''_'' @ ?rest)"
    using assms v by (intro validate_final) auto
  ultimately show ?thesis
    using assms by (simp add: parse_clip_filename_def dec_value_seq strptime_utc_stamp)
qed

lemma new_pairD:
  assumes "new_pair stem ex = Inr p"
  shows "video_name p = stem @ ''.mp4'' \<and> metadata_name p = stem @ ''.json''
     \<and> mk_clip_file_pair (stem @ ''.mp4'') (stem @ ''.json'') = Inr p
     \<and> (\<forall>x \<in> set ex. casefold (video_name p) \<noteq> casefold x \<and> casefold (metadata_name p) \<noteq> casefold x)"
  using assms
  by (auto simp: new_pair_def mk_clip_file_pair_def result_simps Let_def image_iff split: if_splits)

lemma validated_boot_idE: "validated_boot_id b = Inr x \<Longrightarrow> validated_boot_id b = Inr b \<and> x = b"
  by (auto simp: validated_boot_id_def split: if_splits)

lemma checked_sequenceE: "checked_sequence n = Inr x \<Longrightarrow> checked_sequence n = Inr n \<and> x = n"
  by (auto simp: checked_sequence_def split: if_splits)

lemma as_utcD: "as_utc d = Inr u \<Longrightarrow> us_in_range (dt_us u) \<and> dt_offset u = Some 0"
  by (auto simp: as_utc_def astimezone_utc_def split: option.splits if_splits)

subsection \<open>Identifiers\<close>

lemma hex_val_hex_char: "d < 16 \<Longrightarrow> hex_val (hex_char d) = d \<and> is_hex_lower (hex_char d)"
  by (simp add: hex_val_def is_hex_lower_def is_digit_def code_between_def hex_char_code)

lemma hex_groups_uuid_str:
  "(let v = uuid_str u
    in take 8 v @ take 4 (drop 9 v) @ take 4 (drop 14 v) @ take 4 (drop 19 v) @ drop 24 v) = uuid_hex u"
proof -
  have "take 4 (drop 16 (uuid_hex u)) @ drop 20 (uuid_hex u) = drop 16 (uuid_hex u)"
    "take 4 (drop 12 (uuid_hex u)) @ drop 16 (uuid_hex u) = drop 12 (uuid_hex u)"
    "take 4 (drop 8 (uuid_hex u)) @ drop 12 (uuid_hex u) = drop 8 (uuid_hex u)"
    using append_take_drop_id [of 4 "drop 16 (uuid_hex u)"]
      append_take_drop_id [of 4 "drop 12 (uuid_hex u)"]
      append_take_drop_id [of 4 "drop 8 (uuid_hex u)"] by simp_all
  then show ?thesis
    by (simp add: uuid_str_def Let_def)
qed

lemma undigits_uuid_hex: "undigits 16 (map hex_val (uuid_hex u)) = unat (uuid_int u)"
proof -
  have "map hex_val (uuid_hex u) = digits 16 32 (unat (uuid_int u))"
    unfolding uuid_hex_def map_map
    by (rule map_idI) (use digits_less [OF _ unat_uuid_bound] in \<open>auto simp: hex_val_hex_char\<close>)
  then show ?thesis
    by (simp add: undigits_digits unat_uuid_bound [simplified])
qed

lemma parse_clip_id_uuid_str: "parse_clip_id (uuid_str u) = Inr u"
proof -
  have "list_all is_hex_lower (uuid_hex u)"
    using digits_less [OF _ unat_uuid_bound, of _ u]
    by (auto simp: uuid_hex_def list_all_iff hex_val_hex_char)
  then show ?thesis
    using hex_groups_uuid_str [of u] undigits_uuid_hex [of u]
    by (simp add: parse_clip_id_def Let_def)
qed

lemma parse_clip_id_sound: "parse_clip_id v = Inr u \<Longrightarrow> v = uuid_str u"
  by (auto simp: parse_clip_id_def Let_def split: if_splits)

text \<open>What a successful generator call says about its arguments and its result.\<close>

lemma new_pair_names:
  "new_pair stem ex = Inr p \<Longrightarrow> video_name p = stem @ ''.mp4''"
  "new_pair stem ex = Inr p \<Longrightarrow> metadata_name p = stem @ ''.json''"
  using new_pairD [of stem ex p] by blast+

lemma provisional_clip_pairD:
  "provisional_clip_pair b n ex = Inr p \<Longrightarrow> validated_boot_id b = Inr b"
  "provisional_clip_pair b n ex = Inr p \<Longrightarrow> checked_sequence n = Inr n"
  "provisional_clip_pair b n ex = Inr p \<Longrightarrow> new_pair (boot_stem b n @ ''.partial'') ex = Inr p"
  unfolding provisional_clip_pair_def bindR_eq_Inr
  by (metis validated_boot_idE checked_sequenceE)+

lemma finalized_unsynced_clip_pairD:
  "finalized_unsynced_clip_pair b n ex = Inr p \<Longrightarrow> validated_boot_id b = Inr b"
  "finalized_unsynced_clip_pair b n ex = Inr p \<Longrightarrow> checked_sequence n = Inr n"
  "finalized_unsynced_clip_pair b n ex = Inr p \<Longrightarrow> new_pair (boot_stem b n) ex = Inr p"
  unfolding finalized_unsynced_clip_pair_def bindR_eq_Inr
  by (metis validated_boot_idE checked_sequenceE)+

lemma finalized_clip_pairD:
  assumes "finalized_clip_pair d b n ex = Inr p"
  obtains u where "as_utc d = Inr u" "validated_boot_id b = Inr b" "checked_sequence n = Inr n"
    "new_pair (final_stem (dt_us u) b n) ex = Inr p"
  using assms unfolding finalized_clip_pair_def final_stem_def bindR_eq_Inr
  by (metis validated_boot_idE checked_sequenceE)

lemma parse_final_stem:
  assumes "us_in_range t" "validated_boot_id b = Inr b" "checked_sequence n = Inr n"
    "1000 \<le> cv_year (civil_of_us t)"
  shows "parse_clip_filename (final_stem t b n @ ''.mp4'')
     = Inr \<lparr>pn_boot_id = b, pn_sequence = n,
         utc_started_at = Some \<lparr>dt_us = t - t mod 1000, dt_offset = Some 0\<rparr>, extension = ''mp4'',
         provisional = False, partial = False\<rparr>"
    "parse_clip_filename (final_stem t b n @ ''.json'')
     = Inr \<lparr>pn_boot_id = b, pn_sequence = n,
         utc_started_at = Some \<lparr>dt_us = t - t mod 1000, dt_offset = Some 0\<rparr>, extension = ''json'',
         provisional = False, partial = False\<rparr>"
  unfolding final_stem_def append_assoc
  by (rule parse_final [OF assms(1-3) _ assms(4)], simp)+

lemma mk_pair_stem:
  assumes "validate_filename_component (stem @ ''.mp4'') = Inr (stem @ ''.mp4'')"
    "validate_filename_component (stem @ ''.json'') = Inr (stem @ ''.json'')"
  shows "mk_clip_file_pair (stem @ ''.mp4'') (stem @ ''.json'')
      = Inr \<lparr>video_name = stem @ ''.mp4'', metadata_name = stem @ ''.json''\<rparr>"
  unfolding mk_clip_file_pair_def assms bindR_simps removesuffix_append
  by (simp only: ends_with_append not_True_eq_False simp_thms if_False)

lemma new_pair_fresh:
  assumes "validate_filename_component (stem @ ''.mp4'') = Inr (stem @ ''.mp4'')"
    "validate_filename_component (stem @ ''.json'') = Inr (stem @ ''.json'')"
  shows "new_pair stem [] = Inr \<lparr>video_name = stem @ ''.mp4'', metadata_name = stem @ ''.json''\<rparr>"
  unfolding new_pair_def mk_pair_stem [OF assms] by simp

lemma collision_iff:
  "(a \<in> set (map f xs) \<or> b \<in> set (map f xs)) \<longleftrightarrow> (\<exists>x \<in> set xs. f x \<in> {a, b})"
  by auto

section \<open>Properties\<close>

text \<open>
  Filename round trip for clips without a trusted clock. Every name the provisional and
  the unsynced generator return parses back, for both members of the pair, to exactly the
  identity it was generated from: boot id, sequence number, provisional and partial flags
  and extension. Hence two clips with different identities never share a filename.
\<close>

theorem unsynced_names_round_trip:
  "(provisional_clip_pair b n ex = Inr p \<longrightarrow>
      parse_clip_filename (video_name p) = Inr \<lparr>pn_boot_id = b, pn_sequence = n,
        utc_started_at = None, extension = ''mp4'', provisional = True, partial = True\<rparr>
      \<and> parse_clip_filename (metadata_name p) = Inr \<lparr>pn_boot_id = b, pn_sequence = n,
        utc_started_at = None, extension = ''json'', provisional = True, partial = True\<rparr>)
   \<and> (finalized_unsynced_clip_pair b n ex = Inr p \<longrightarrow>
      parse_clip_filename (video_name p) = Inr \<lparr>pn_boot_id = b, pn_sequence = n,
        utc_started_at = None, extension = ''mp4'', provisional = True, partial = False\<rparr>
      \<and> parse_clip_filename (metadata_name p) = Inr \<lparr>pn_boot_id = b, pn_sequence = n,
        utc_started_at = None, extension = ''json'', provisional = True, partial = False\<rparr>)"
proof (intro conjI impI)
  assume "provisional_clip_pair b n ex = Inr p"
  note p = provisional_clip_pairD [OF this]
  have v: "video_name p = boot_stem b n @ ''.partial.mp4''"
    "metadata_name p = boot_stem b n @ ''.partial.json''"
    using new_pair_names [OF p(3)] by simp_all
  show "parse_clip_filename (video_name p) = Inr \<lparr>pn_boot_id = b, pn_sequence = n,
        utc_started_at = None, extension = ''mp4'', provisional = True, partial = True\<rparr>"
    "parse_clip_filename (metadata_name p) = Inr \<lparr>pn_boot_id = b, pn_sequence = n,
        utc_started_at = None, extension = ''json'', provisional = True, partial = True\<rparr>"
    unfolding v by (rule parse_partial [OF p(1,2)], simp)+
next
  assume "finalized_unsynced_clip_pair b n ex = Inr p"
  note p = finalized_unsynced_clip_pairD [OF this]
  show "parse_clip_filename (video_name p) = Inr \<lparr>pn_boot_id = b, pn_sequence = n,
        utc_started_at = None, extension = ''mp4'', provisional = True, partial = False\<rparr>"
    "parse_clip_filename (metadata_name p) = Inr \<lparr>pn_boot_id = b, pn_sequence = n,
        utc_started_at = None, extension = ''json'', provisional = True, partial = False\<rparr>"
    unfolding new_pair_names [OF p(3)] by (rule parse_unsynced [OF p(1,2)], simp)+
qed

text \<open>
  C37: Filename round trip for clips with a trusted clock. A timestamped name parses back to
  the boot id, the sequence number and the UTC start floored to the millisecond, and is
  recognised as final, whenever the UTC year has four digits.
\<close>

theorem timestamped_names_round_trip:
  assumes "finalized_clip_pair d b n ex = Inr p" "as_utc d = Inr u"
    "1000 \<le> cv_year (civil_of_us (dt_us u))"
  shows "parse_clip_filename (video_name p) = Inr \<lparr>pn_boot_id = b, pn_sequence = n,
           utc_started_at = Some \<lparr>dt_us = dt_us u - dt_us u mod 1000, dt_offset = Some 0\<rparr>,
           extension = ''mp4'', provisional = False, partial = False\<rparr>
       \<and> parse_clip_filename (metadata_name p) = Inr \<lparr>pn_boot_id = b, pn_sequence = n,
           utc_started_at = Some \<lparr>dt_us = dt_us u - dt_us u mod 1000, dt_offset = Some 0\<rparr>,
           extension = ''json'', provisional = False, partial = False\<rparr>"
proof -
  obtain w where w: "as_utc d = Inr w" "validated_boot_id b = Inr b" "checked_sequence n = Inr n"
    "new_pair (final_stem (dt_us w) b n) ex = Inr p"
    using assms(1) by (rule finalized_clip_pairD)
  then have [simp]: "w = u"
    using assms(2) by simp
  show ?thesis
    using parse_final_stem [OF _ w(2,3) assms(3)] as_utcD [OF assms(2)]
      new_pair_names [OF w(4)] by simp
qed

text \<open>
  Generation is total and collision-free. For a legal boot id and sequence number the
  provisional generator fails only on a collision with an existing name after case folding,
  and a pair it returns collides with none; both members are valid single path components
  without a separator.
\<close>

theorem name_generation_total_and_collision_free:
  assumes "validated_boot_id b = Inr b" "checked_sequence n = Inr n"
  shows "if (\<exists>x \<in> set ex. casefold x \<in> {casefold (boot_stem b n @ ''.partial.mp4''),
                                         casefold (boot_stem b n @ ''.partial.json'')})
         then provisional_clip_pair b n ex = Inl ClipNameError
         else provisional_clip_pair b n ex
                = Inr \<lparr>video_name = boot_stem b n @ ''.partial.mp4'',
                       metadata_name = boot_stem b n @ ''.partial.json''\<rparr>
              \<and> CHR ''/'' \<notin> set (boot_stem b n @ ''.partial.mp4'')
              \<and> CHR ''/'' \<notin> set (boot_stem b n @ ''.partial.json'')"
proof -
  have v: "validate_filename_component (boot_stem b n @ ext) = Inr (boot_stem b n @ ext)"
    if "ext \<in> {''.partial.mp4'', ''.partial.json''}" for ext
    using boot_stem_shape [OF assms] that alnum_4_n by (intro validate_stem_tail) auto
  define stem where "stem = boot_stem b n @ ''.partial''"
  have eqs: "boot_stem b n @ ''.partial.mp4'' = stem @ ''.mp4''"
    "boot_stem b n @ ''.partial.json'' = stem @ ''.json''"
    by (simp_all add: stem_def)
  have val: "validate_filename_component (stem @ ''.mp4'') = Inr (stem @ ''.mp4'')"
    "validate_filename_component (stem @ ''.json'') = Inr (stem @ ''.json'')"
    using v [of "''.partial.mp4''"] v [of "''.partial.json''"] unfolding eqs [symmetric] by simp_all
  have gen: "provisional_clip_pair b n ex = new_pair stem ex"
    by (simp only: provisional_clip_pair_def stem_def assms bindR_simps)
  show ?thesis
    unfolding eqs gen new_pair_def mk_pair_stem [OF val] bindR_simps Let_def ClipFilePair.simps
      collision_iff
    using validated_no_separator [OF val(1)] validated_no_separator [OF val(2)]
    by (simp only: simp_thms split: if_split) blast
qed

lemma example_boot: "validated_boot_id ''abc12'' = Inr ''abc12''" "checked_sequence 42 = Inr 42"
  by (simp_all add: validated_boot_id_def checked_sequence_def is_boot_char_def is_lower_def
      is_digit_def code_between_def)

theorem name_generation_total_and_collision_free_witness:
  "\<exists>p. provisional_clip_pair ''abc12'' 42 [] = Inr p
     \<and> video_name p = boot_stem ''abc12'' 42 @ ''.partial.mp4''"
  using name_generation_total_and_collision_free [OF example_boot, of "[]"]
  by (simp only: list.set bex_simps if_False ClipFilePair.simps) (metis ClipFilePair.select_convs(1))

theorem unsynced_names_round_trip_witness:
  "\<exists>p. finalized_unsynced_clip_pair ''abc12'' 42 [] = Inr p
     \<and> parse_clip_filename (video_name p) = Inr \<lparr>pn_boot_id = ''abc12'', pn_sequence = 42,
        utc_started_at = None, extension = ''mp4'', provisional = True, partial = False\<rparr>"
proof -
  have "validate_filename_component (boot_stem ''abc12'' 42 @ ext) = Inr (boot_stem ''abc12'' 42 @ ext)"
    if "ext \<in> {''.mp4'', ''.json''}" for ext
    using boot_stem_shape [OF example_boot] that alnum_4_n by (intro validate_stem_tail) auto
  then have "\<exists>p. finalized_unsynced_clip_pair ''abc12'' 42 [] = Inr p"
    unfolding finalized_unsynced_clip_pair_def example_boot bindR_simps
    by (intro exI) (rule new_pair_fresh, simp_all)
  then show ?thesis
    using unsynced_names_round_trip [of "''abc12''" 42 "[]"] by blast
qed

theorem timestamped_names_round_trip_witness:
  "\<exists>p. finalized_clip_pair \<lparr>dt_us = 63900000000123456, dt_offset = Some 0\<rparr> ''abc12'' 42 [] = Inr p
     \<and> parse_clip_filename (video_name p) = Inr \<lparr>pn_boot_id = ''abc12'', pn_sequence = 42,
         utc_started_at = Some \<lparr>dt_us = 63900000000123000, dt_offset = Some 0\<rparr>,
         extension = ''mp4'', provisional = False, partial = False\<rparr>"
proof -
  let ?u = "\<lparr>dt_us = 63900000000123456, dt_offset = Some 0\<rparr>"
  have u: "as_utc ?u = Inr ?u"
    by code_simp
  have y: "1000 \<le> cv_year (civil_of_us (dt_us ?u))"
    by code_simp
  have val: "validate_filename_component (final_stem (dt_us ?u) ''abc12'' 42 @ ext)
      = Inr (final_stem (dt_us ?u) ''abc12'' 42 @ ext)" if "ext \<in> {''.mp4'', ''.json''}" for ext
    unfolding final_stem_def append_assoc
    using validate_final [OF _ example_boot that y] as_utcD [OF u] civil_of_us_valid by blast
  have "\<exists>p. finalized_clip_pair ?u ''abc12'' 42 [] = Inr p"
    unfolding finalized_clip_pair_def u example_boot bindR_simps final_stem_def [symmetric]
    by (intro exI) (rule new_pair_fresh; rule val, simp)
  then obtain p where "finalized_clip_pair ?u ''abc12'' 42 [] = Inr p" by blast
  with timestamped_names_round_trip [OF this u y] show ?thesis by simp
qed

text \<open>
  Clip identifiers. The API parser accepts exactly the canonical text of a UUID: it
  inverts the printer, everything it accepts is the canonical text of its result, and
  comparing the texts (as sorting and SQLite do) is comparing the 128-bit values.
\<close>

theorem clip_id_round_trip:
  "parse_clip_id (uuid_str u) = Inr u
   \<and> (parse_clip_id v = Inr w \<longrightarrow> v = uuid_str w)
   \<and> (uuid_str u < uuid_str w \<longleftrightarrow> uuid_int u < uuid_int w)"
  using parse_clip_id_uuid_str parse_clip_id_sound uuid_str_less_iff
  by (auto simp: less_uuid_def)

theorem clip_id_round_trip_witness:
  "parse_clip_id (uuid_str (UUID 42)) = Inr (UUID 42) \<and> uuid_str (UUID 42) < uuid_str (UUID 43)"
  using clip_id_round_trip [of "UUID 42" "uuid_str (UUID 42)" "UUID 43"] by simp

end
