(* ===== verification/Pair_Intents.thy ===== *)
theory Pair_Intents
  imports Clip_Naming
begin

text \<open>
  Durable pair intents: \<^verbatim>\<open>src/dashcam/storage/intents.py\<close>. A clip is a pair of files; every
  mutation of the pair is first written to the catalog as an intent and then carried out by
  filesystem actions that a pure planner derives from the intent and from which of the four
  paths exist. Problem codes are the constructors of \<open>ProblemCode\<close>, which also has the
  codes the catalog's sidecar validation returns. The relative paths are ASCII strings with
  forward slashes; \<open>path_name\<close> and \<open>path_parent\<close> are \<^verbatim>\<open>PurePosixPath.name\<close> and
  \<^verbatim>\<open>PurePosixPath.parent.as_posix()\<close> on such paths.
\<close>

section \<open>Paths\<close>

fun split_slash :: "string \<Rightarrow> string list" where
  "split_slash [] = [[]]"
| "split_slash (c # cs) = (if c = CHR ''/'' then [] # split_slash cs
     else (case split_slash cs of [] \<Rightarrow> [[c]] | p # ps \<Rightarrow> (c # p) # ps))"

fun has_double_slash :: "string \<Rightarrow> bool" where
  "has_double_slash (a # b # cs) = ((a = CHR ''/'' \<and> b = CHR ''/'') \<or> has_double_slash (b # cs))"
| "has_double_slash _ = False"

definition path_name :: "string \<Rightarrow> string" where
  "path_name p = rev (takeWhile (\<lambda>c. c \<noteq> CHR ''/'') (rev p))"

definition path_parent :: "string \<Rightarrow> string" where
  "path_parent p = (if CHR ''/'' \<in> set p then rev (tl (dropWhile (\<lambda>c. c \<noteq> CHR ''/'') (rev p)))
     else ''.'')"

definition join_path :: "string \<Rightarrow> string \<Rightarrow> string" where
  "join_path d n = d @ ''/'' @ n"

definition MAX_RELATIVE_PATH_CHARS :: nat where
  "MAX_RELATIVE_PATH_CHARS = 240"

definition validate_relative_path :: "string \<Rightarrow> unit result" where
  "validate_relative_path path =
     (if path = [] \<or> length path > MAX_RELATIVE_PATH_CHARS \<or> \<not> list_all is_ascii path
      then Inl ValueError
      else if CHR 0x5C \<in> set path \<or> CHR '':'' \<in> set path \<or> has_double_slash path then Inl ValueError
      else let raw_parts = split_slash path in
        if \<exists>part \<in> set raw_parts. part \<in> {[], ''.'', ''..''} then Inl ValueError
        else if hd path = CHR ''/'' then Inl ValueError
        else if \<exists>part \<in> set raw_parts. ends_with part '' '' \<or> ends_with part ''.'' then Inl ValueError
        else if \<forall>part \<in> set raw_parts. is_ok (validate_filename_component part) then Inr ()
        else Inl ValueError)"

section \<open>Intents\<close>

datatype IntentKind = FINALIZE | RECONCILE_NAME | PROTECT | UNPROTECT | DELETE

datatype PairMember = VIDEO | SIDECAR

datatype ActionKind = MOVE | UNLINK

record PairPaths =
  video_source :: string
  sidecar_source :: string
  video_target :: "string option"
  sidecar_target :: "string option"

definition validate_optional_path :: "string option \<Rightarrow> unit result" where
  "validate_optional_path p = (case p of None \<Rightarrow> Inr () | Some q \<Rightarrow> validate_relative_path q)"

definition mk_pair_paths ::
  "string \<Rightarrow> string \<Rightarrow> string option \<Rightarrow> string option \<Rightarrow> PairPaths result" where
  "mk_pair_paths vs ss vt st =
     bindR (validate_relative_path vs) (\<lambda>_.
     bindR (validate_relative_path ss) (\<lambda>_.
     bindR (validate_optional_path vt) (\<lambda>_.
     bindR (validate_optional_path st) (\<lambda>_.
       if vs = ss then Inl ValueError
       else if vt \<noteq> None \<and> st \<noteq> None \<and> vt = st then Inl ValueError
       else Inr \<lparr>video_source = vs, sidecar_source = ss, video_target = vt, sidecar_target = st\<rparr>))))"

record OperationIntent =
  intent_id :: uuid
  oi_clip_id :: uuid
  oi_kind :: IntentKind
  created_monotonic_ns :: int
  oi_paths :: PairPaths
  schema_version :: int

definition mk_operation_intent ::
  "uuid \<Rightarrow> uuid \<Rightarrow> IntentKind \<Rightarrow> int \<Rightarrow> PairPaths \<Rightarrow> int \<Rightarrow> OperationIntent result" where
  "mk_operation_intent iid cid k created ps ver =
     (if ver \<noteq> 1 then Inl ValueError
      else if created < 0 then Inl ValueError
      else if k = DELETE \<and> (video_target ps, sidecar_target ps) \<noteq> (None, None) then Inl ValueError
      else if k \<noteq> DELETE \<and> (video_target ps = None \<or> sidecar_target ps = None) then Inl ValueError
      else Inr \<lparr>intent_id = iid, oi_clip_id = cid, oi_kind = k, created_monotonic_ns = created,
                oi_paths = ps, schema_version = ver\<rparr>)"

section \<open>The reconciliation planner\<close>

datatype ProblemCode =
    UNEXPECTED_DELETE_TARGET | SOURCE_TARGET_CONFLICT | SOURCE_AND_TARGET_MISSING
  | FINALIZE_SIDECAR_IDENTITY_MISMATCH | INVALID_FINALIZE_SIDECAR
  | NAME_RECONCILIATION_RECOVERY_DATA_MISSING | NAME_RECONCILIATION_TARGET_IDENTITY_MISMATCH
  | NAME_RECONCILIATION_SOURCE_CHANGED | NAME_RECONCILIATION_SOURCE_IDENTITY_MISMATCH
  | NAME_RECONCILIATION_REPLACE_READBACK_MISMATCH | NAME_RECONCILIATION_TARGET_PAYLOAD_MISMATCH
  | INVALID_NAME_RECONCILIATION_SIDECAR

record MemberObservation =
  source_exists :: bool
  target_exists :: bool

record ReconciliationAction =
  ra_kind :: ActionKind
  ra_member :: PairMember
  ra_source :: string
  ra_target :: "string option"

record ReconciliationProblem =
  rp_member :: PairMember
  rp_code :: ProblemCode

record ReconciliationPlan =
  actions :: "ReconciliationAction list"
  problems :: "ReconciliationProblem list"
  completed_members :: "PairMember list"

definition complete :: "ReconciliationPlan \<Rightarrow> bool" where
  "complete p = (actions p = [] \<and> problems p = [] \<and> set (completed_members p) = {VIDEO, SIDECAR})"

text \<open>One iteration of the planner's loop over the two members.\<close>

definition add_action :: "ActionKind \<Rightarrow> PairMember \<Rightarrow> string \<Rightarrow> string option \<Rightarrow> ReconciliationPlan
    \<Rightarrow> ReconciliationPlan" where
  "add_action k m s t p =
     p\<lparr>actions := actions p @ [\<lparr>ra_kind = k, ra_member = m, ra_source = s, ra_target = t\<rparr>]\<rparr>"

definition add_problem :: "PairMember \<Rightarrow> ProblemCode \<Rightarrow> ReconciliationPlan \<Rightarrow> ReconciliationPlan" where
  "add_problem m c p = p\<lparr>problems := problems p @ [\<lparr>rp_member = m, rp_code = c\<rparr>]\<rparr>"

definition add_completed :: "PairMember \<Rightarrow> ReconciliationPlan \<Rightarrow> ReconciliationPlan" where
  "add_completed m p = p\<lparr>completed_members := completed_members p @ [m]\<rparr>"

definition plan_member :: "IntentKind \<Rightarrow> PairMember \<Rightarrow> MemberObservation \<Rightarrow> string \<Rightarrow> string option
    \<Rightarrow> ReconciliationPlan \<Rightarrow> ReconciliationPlan" where
  "plan_member k m ob s t p =
     (if k = DELETE
      then (if target_exists ob then add_problem m UNEXPECTED_DELETE_TARGET p
            else if source_exists ob then add_action UNLINK m s None p
            else add_completed m p)
      else if source_exists ob \<and> target_exists ob then add_problem m SOURCE_TARGET_CONFLICT p
      else if source_exists ob then add_action MOVE m s t p
      else if target_exists ob then add_completed m p
      else add_problem m SOURCE_AND_TARGET_MISSING p)"

definition plan_reconciliation ::
  "OperationIntent \<Rightarrow> MemberObservation \<Rightarrow> MemberObservation \<Rightarrow> ReconciliationPlan" where
  "plan_reconciliation intent video sidecar =
     (let ps = oi_paths intent in
      plan_member (oi_kind intent) SIDECAR sidecar (sidecar_source ps) (sidecar_target ps)
        (plan_member (oi_kind intent) VIDEO video (video_source ps) (video_target ps)
          \<lparr>actions = [], problems = [], completed_members = []\<rparr>))"

section \<open>What a plan does to one member\<close>

text \<open>
  The state of one member as the planner sees it, the state an intent drives it to, and the
  effect of one action on it. These describe the planner's contract and are no code.
\<close>

definition member_done :: "IntentKind \<Rightarrow> MemberObservation \<Rightarrow> bool" where
  "member_done k ob = (\<not> source_exists ob \<and> target_exists ob = (k \<noteq> DELETE))"

definition act_on :: "ReconciliationAction \<Rightarrow> MemberObservation \<Rightarrow> MemberObservation" where
  "act_on a ob = (case ra_kind a of
       MOVE \<Rightarrow> \<lparr>source_exists = False, target_exists = True\<rparr>
     | UNLINK \<Rightarrow> \<lparr>source_exists = False, target_exists = target_exists ob\<rparr>)"

definition run_member :: "PairMember \<Rightarrow> ReconciliationAction list \<Rightarrow> MemberObservation
    \<Rightarrow> MemberObservation" where
  "run_member m as ob = fold (\<lambda>a o'. if ra_member a = m then act_on a o' else o') as ob"

lemmas plan_defs = plan_reconciliation_def plan_member_def add_action_def add_problem_def
  add_completed_def Let_def

section \<open>Lemmas\<close>

lemma complete_iff_done:
  "complete (plan_reconciliation i v s) \<longleftrightarrow> member_done (oi_kind i) v \<and> member_done (oi_kind i) s"
  by (auto simp: complete_def plan_defs member_done_def)

lemma plan_actions_safe:
  assumes "a \<in> set (actions (plan_reconciliation i v s))"
  shows "source_exists (if ra_member a = VIDEO then v else s)
    \<and> \<not> target_exists (if ra_member a = VIDEO then v else s)
    \<and> ra_source a = (if ra_member a = VIDEO then video_source (oi_paths i)
                     else sidecar_source (oi_paths i))
    \<and> (if oi_kind i = DELETE then ra_kind a = UNLINK \<and> ra_target a = None
       else ra_kind a = MOVE
         \<and> ra_target a = (if ra_member a = VIDEO then video_target (oi_paths i)
                          else sidecar_target (oi_paths i)))"
  using assms by (auto simp: plan_defs split: if_splits)

lemma plan_one_verdict_per_member:
  "length (filter (\<lambda>a. ra_member a = m) (actions (plan_reconciliation i v s)))
   + length (filter (\<lambda>p. rp_member p = m) (problems (plan_reconciliation i v s)))
   + length (filter (\<lambda>x. x = m) (completed_members (plan_reconciliation i v s))) = 1"
  by (cases m) (auto simp: plan_defs)

text \<open>Any prefix of the planned actions leaves a pair that plans on without a problem.\<close>

lemma plan_resumes:
  assumes "problems (plan_reconciliation i v s) = []"
    and as: "as = take n (actions (plan_reconciliation i v s))"
  shows "problems (plan_reconciliation i (run_member VIDEO as v) (run_member SIDECAR as s)) = []
    \<and> actions (plan_reconciliation i (run_member VIDEO as v) (run_member SIDECAR as s))
        = drop n (actions (plan_reconciliation i v s))"
  using assms(1) unfolding as
  by (cases n; cases "n - 1") (auto simp: plan_defs run_member_def act_on_def split: if_splits)

lemma plan_length: "length (actions (plan_reconciliation i v s)) \<le> 2"
  by (simp add: plan_defs)

lemma plan_no_work_complete:
  "problems (plan_reconciliation i v s) = [] \<Longrightarrow> actions (plan_reconciliation i v s) = []
   \<Longrightarrow> complete (plan_reconciliation i v s)"
  by (auto simp: plan_defs complete_def split: if_splits)

lemma mk_pair_pathsD:
  "mk_pair_paths vs ss vt st = Inr p \<Longrightarrow>
   p = \<lparr>video_source = vs, sidecar_source = ss, video_target = vt, sidecar_target = st\<rparr>
   \<and> vs \<noteq> ss \<and> (vt = None \<or> st = None \<or> vt \<noteq> st)
   \<and> validate_relative_path vs = Inr () \<and> validate_relative_path ss = Inr ()
   \<and> validate_optional_path vt = Inr () \<and> validate_optional_path st = Inr ()"
  by (auto simp: mk_pair_paths_def result_simps split: if_splits)

lemma mk_operation_intentD:
  "mk_operation_intent iid cid k n ps ver = Inr i \<Longrightarrow>
   i = \<lparr>intent_id = iid, oi_clip_id = cid, oi_kind = k, created_monotonic_ns = n,
        oi_paths = ps, schema_version = 1\<rparr> \<and> 0 \<le> n
   \<and> (if k = DELETE then video_target ps = None \<and> sidecar_target ps = None
      else video_target ps \<noteq> None \<and> sidecar_target ps \<noteq> None)"
  by (auto simp: mk_operation_intent_def split: if_splits)

section \<open>Properties\<close>

text \<open>
  C36: The planner is safe and total. For every intent and every observation each member gets
  exactly one verdict: one action, one problem or completion. A MOVE is planned only from an
  existing source onto a free target of the intent, so nothing is overwritten; an UNLINK only
  for an existing source of a DELETE intent; and the plan is complete exactly when both
  members are in the state the intent asks for.
\<close>

theorem planner_safe_and_total:
  "(\<forall>m. length (filter (\<lambda>a. ra_member a = m) (actions (plan_reconciliation i v s)))
       + length (filter (\<lambda>p. rp_member p = m) (problems (plan_reconciliation i v s)))
       + length (filter (\<lambda>x. x = m) (completed_members (plan_reconciliation i v s))) = 1)
   \<and> (\<forall>a \<in> set (actions (plan_reconciliation i v s)).
        source_exists (if ra_member a = VIDEO then v else s)
        \<and> \<not> target_exists (if ra_member a = VIDEO then v else s)
        \<and> ra_source a = (if ra_member a = VIDEO then video_source (oi_paths i)
                         else sidecar_source (oi_paths i))
        \<and> (if oi_kind i = DELETE then ra_kind a = UNLINK \<and> ra_target a = None
           else ra_kind a = MOVE
             \<and> ra_target a = (if ra_member a = VIDEO then video_target (oi_paths i)
                              else sidecar_target (oi_paths i))))
   \<and> (complete (plan_reconciliation i v s)
        \<longleftrightarrow> (\<not> source_exists v \<and> target_exists v = (oi_kind i \<noteq> DELETE))
          \<and> (\<not> source_exists s \<and> target_exists s = (oi_kind i \<noteq> DELETE)))"
  using plan_one_verdict_per_member plan_actions_safe complete_iff_done [of i v s]
  unfolding member_done_def by blast

theorem planner_safe_and_total_witness:
  "\<exists>i. oi_kind i = PROTECT
     \<and> (\<exists>a \<in> set (actions (plan_reconciliation i \<lparr>source_exists = True, target_exists = False\<rparr>
                \<lparr>source_exists = False, target_exists = True\<rparr>)). ra_kind a = MOVE)"
proof -
  let ?i = "\<lparr>intent_id = UUID 1, oi_clip_id = UUID 2, oi_kind = PROTECT, created_monotonic_ns = 0,
     oi_paths = \<lparr>video_source = ''clips/a.mp4'', sidecar_source = ''clips/a.json'',
       video_target = Some ''protected/a.mp4'', sidecar_target = Some ''protected/a.json''\<rparr>,
     schema_version = 1\<rparr>"
  let ?v = "\<lparr>source_exists = True, target_exists = False\<rparr>"
  let ?s = "\<lparr>source_exists = False, target_exists = True\<rparr>"
  obtain a where a: "a \<in> set (actions (plan_reconciliation ?i ?v ?s))"
    by (simp add: plan_defs)
  then have "ra_kind a = MOVE"
    using planner_safe_and_total [of ?i ?v ?s] by simp
  with a show ?thesis
    by (intro exI [of _ ?i]) auto
qed

text \<open>
  Interrupted pair operations resume. If a plan has no problem, then after any prefix of
  its actions has reached the disk the planner, run again on what it then observes, reports no
  problem and plans exactly the remaining actions; after all of them, at most two, the plan
  is complete.
\<close>

theorem interrupted_plan_resumes:
  assumes "problems (plan_reconciliation i v s) = []"
  shows "(let as = actions (plan_reconciliation i v s);
              after = (\<lambda>k. plan_reconciliation i (run_member VIDEO (take k as) v)
                                                (run_member SIDECAR (take k as) s))
          in problems (after n) = [] \<and> actions (after n) = drop n as \<and> complete (after 2))"
  using plan_resumes [OF assms refl, of n] plan_resumes [OF assms refl, of 2] plan_length [of i v s]
  unfolding Let_def by (auto intro: plan_no_work_complete)

theorem interrupted_plan_resumes_witness:
  "\<exists>i v s. problems (plan_reconciliation i v s) = [] \<and> length (actions (plan_reconciliation i v s)) = 2
     \<and> complete (plan_reconciliation i
         (run_member VIDEO (take 2 (actions (plan_reconciliation i v s))) v)
         (run_member SIDECAR (take 2 (actions (plan_reconciliation i v s))) s))"
proof -
  let ?i = "\<lparr>intent_id = UUID 1, oi_clip_id = UUID 2, oi_kind = DELETE, created_monotonic_ns = 0,
     oi_paths = \<lparr>video_source = ''clips/a.mp4'', sidecar_source = ''clips/a.json'',
       video_target = None, sidecar_target = None\<rparr>, schema_version = 1\<rparr>"
  let ?v = "\<lparr>source_exists = True, target_exists = False\<rparr>"
  have p: "problems (plan_reconciliation ?i ?v ?v) = []"
    "length (actions (plan_reconciliation ?i ?v ?v)) = 2"
    by (simp_all add: plan_defs)
  then show ?thesis
    using interrupted_plan_resumes [OF p(1)] unfolding Let_def by blast
qed

end
