(* ===== verification/Managed_Files.thy ===== *)
theory Managed_Files
  imports Pair_Intents "HOL-Library.AList"
begin

text \<open>
  The catalog's filesystem seam: \<^verbatim>\<open>src/dashcam/catalog/filesystem.py\<close>.

  \<^item> \<open>CatalogFilesystem\<close> is the protocol as a record of operations on an abstract state
    \<open>'f\<close>; an operation returns its outcome and the new state, also when it raises.
  \<^item> \<open>RootedFilesystem\<close> is the production adapter on a disk of regular files below the four
    managed directories. A disk carries a schedule of device faults, one entry per call:
    the call works, fails before its effect, or fails after it (a rename that took place and
    whose directory fsync then failed). Device identity, symbolic links and the temporary
    sibling of an atomic replacement are part of what a fault stands for.
  \<^item> The locale \<open>catalog_filesystem\<close> states what the catalog may rely on, and
    is interpreted on the adapter.
\<close>

type_synonym bytes = "8 word list"

section \<open>The protocol\<close>

record 'f CatalogFilesystem =
  fs_exists :: "string \<Rightarrow> 'f \<Rightarrow> bool result \<times> 'f"
  fs_move :: "string \<Rightarrow> string \<Rightarrow> 'f \<Rightarrow> unit result \<times> 'f"
  fs_unlink :: "string \<Rightarrow> 'f \<Rightarrow> unit result \<times> 'f"
  fs_iter_files :: "string \<Rightarrow> int \<Rightarrow> 'f \<Rightarrow> (string list \<times> int \<times> bool) result \<times> 'f"
  fs_read_bytes :: "string \<Rightarrow> int \<Rightarrow> 'f \<Rightarrow> bytes result \<times> 'f"
  fs_file_size :: "string \<Rightarrow> 'f \<Rightarrow> int result \<times> 'f"
  fs_replace_bytes_atomic :: "string \<Rightarrow> bytes \<Rightarrow> int \<Rightarrow> 'f \<Rightarrow> unit result \<times> 'f"

section \<open>The rooted adapter\<close>

datatype fault = NoFault | FailBefore | FailAfter

record disk =
  files :: "(string \<times> bytes) list"
  present_directories :: "string list"
  fault_schedule :: "fault list"

definition MANAGED_DIRECTORIES :: "string list" where
  "MANAGED_DIRECTORIES = [''pending'', ''clips'', ''protected'', ''quarantine'']"

definition take_fault :: "disk \<Rightarrow> fault \<times> disk" where
  "take_fault d = (case fault_schedule d of [] \<Rightarrow> (NoFault, d)
     | f # fs \<Rightarrow> (f, d\<lparr>fault_schedule := fs\<rparr>))"

text \<open>A call: the fault is drawn first, the effect is computed by the body.\<close>

definition with_faults :: "(disk \<Rightarrow> 'a result \<times> disk) \<Rightarrow> disk \<Rightarrow> 'a result \<times> disk" where
  "with_faults body d = (case take_fault d of
       (NoFault, d1) \<Rightarrow> body d1
     | (FailBefore, d1) \<Rightarrow> (Inl OSError, d1)
     | (FailAfter, d1) \<Rightarrow> (case body d1 of (Inl e, d2) \<Rightarrow> (Inl e, d2) | (Inr _, d2) \<Rightarrow> (Inl OSError, d2)))"

definition positive_bound :: "int \<Rightarrow> unit result" where
  "positive_bound n = (if n \<le> 0 then Inl ValueError else Inr ())"

definition resolve_directory :: "string \<Rightarrow> unit result" where
  "resolve_directory d = (if d \<notin> set MANAGED_DIRECTORIES then Inl ValueError else Inr ())"

text \<open>
  \<^verbatim>\<open>_resolve\<close>: the strict path validator, the managed first component, and the parent
  directory, whose strict resolution fails when it does not exist.
\<close>

definition resolve_path :: "string \<Rightarrow> disk \<Rightarrow> string result" where
  "resolve_path p d =
     bindR (mk_pair_paths p ''__validation__.json'' None None) (\<lambda>_.
     bindR (resolve_directory (hd (split_slash p))) (\<lambda>_.
       if path_parent p \<noteq> ''.'' \<and> path_parent p \<notin> set (present_directories d)
       then Inl FileNotFoundError else Inr p))"

definition rooted_exists :: "string \<Rightarrow> disk \<Rightarrow> bool result \<times> disk" where
  "rooted_exists p = with_faults (\<lambda>d. case resolve_path p d of Inl e \<Rightarrow> (Inl e, d)
     | Inr q \<Rightarrow> (Inr (map_of (files d) q \<noteq> None), d))"

definition rename_no_replace :: "string \<Rightarrow> string \<Rightarrow> disk \<Rightarrow> unit result \<times> disk" where
  "rename_no_replace s t d = (case map_of (files d) s of
       None \<Rightarrow> (Inl FileNotFoundError, d)
     | Some v \<Rightarrow> if map_of (files d) t \<noteq> None then (Inl FileExistsError, d)
                else (Inr (), d\<lparr>files := AList.update t v (AList.delete s (files d))\<rparr>))"

definition rooted_move :: "string \<Rightarrow> string \<Rightarrow> disk \<Rightarrow> unit result \<times> disk" where
  "rooted_move s t = with_faults (\<lambda>d. case resolve_path s d of Inl e \<Rightarrow> (Inl e, d)
     | Inr sp \<Rightarrow> (case resolve_path t d of Inl e \<Rightarrow> (Inl e, d)
     | Inr tp \<Rightarrow> rename_no_replace sp tp d))"

definition rooted_unlink :: "string \<Rightarrow> disk \<Rightarrow> unit result \<times> disk" where
  "rooted_unlink p = with_faults (\<lambda>d. case resolve_path p d of Inl e \<Rightarrow> (Inl e, d)
     | Inr q \<Rightarrow> (Inr (), d\<lparr>files := AList.delete q (files d)\<rparr>))"

definition rooted_iter_files :: "string \<Rightarrow> int \<Rightarrow> disk \<Rightarrow> (string list \<times> int \<times> bool) result \<times> disk" where
  "rooted_iter_files dir lim = with_faults (\<lambda>d.
     if dir \<notin> set MANAGED_DIRECTORIES then (Inl ValueError, d)
     else case positive_bound lim of Inl e \<Rightarrow> (Inl e, d) | Inr _ \<Rightarrow>
       if dir \<notin> set (present_directories d) then (Inr ([], 0, False), d)
       else let entries = filter (\<lambda>p. path_parent p = dir) (map fst (files d));
                examined = take (nat lim) entries
            in (Inr (sort_key casefold examined, int (length examined), length entries > nat lim), d))"

definition rooted_read_bytes :: "string \<Rightarrow> int \<Rightarrow> disk \<Rightarrow> bytes result \<times> disk" where
  "rooted_read_bytes p maximum = with_faults (\<lambda>d. case positive_bound maximum of Inl e \<Rightarrow> (Inl e, d)
     | Inr _ \<Rightarrow> (case resolve_path p d of Inl e \<Rightarrow> (Inl e, d)
     | Inr q \<Rightarrow> (case map_of (files d) q of None \<Rightarrow> (Inl FileNotFoundError, d)
     | Some v \<Rightarrow> if int (length v) > maximum then (Inl ValueError, d) else (Inr v, d))))"

definition rooted_file_size :: "string \<Rightarrow> disk \<Rightarrow> int result \<times> disk" where
  "rooted_file_size p = with_faults (\<lambda>d. case resolve_path p d of Inl e \<Rightarrow> (Inl e, d)
     | Inr q \<Rightarrow> (case map_of (files d) q of None \<Rightarrow> (Inl FileNotFoundError, d)
                | Some v \<Rightarrow> (Inr (int (length v)), d)))"

definition rooted_replace_bytes_atomic :: "string \<Rightarrow> bytes \<Rightarrow> int \<Rightarrow> disk \<Rightarrow> unit result \<times> disk" where
  "rooted_replace_bytes_atomic p payload maximum = with_faults (\<lambda>d.
     case positive_bound maximum of Inl e \<Rightarrow> (Inl e, d)
     | Inr _ \<Rightarrow> if payload = [] \<or> int (length payload) > maximum then (Inl ValueError, d)
       else (case resolve_path p d of Inl e \<Rightarrow> (Inl e, d)
     | Inr q \<Rightarrow> (case map_of (files d) q of None \<Rightarrow> (Inl FileNotFoundError, d)
                | Some _ \<Rightarrow> (Inr (), d\<lparr>files := AList.update q payload (files d)\<rparr>))))"

definition RootedFilesystem :: "disk CatalogFilesystem" where
  "RootedFilesystem = \<lparr>fs_exists = rooted_exists, fs_move = rooted_move, fs_unlink = rooted_unlink,
     fs_iter_files = rooted_iter_files, fs_read_bytes = rooted_read_bytes,
     fs_file_size = rooted_file_size, fs_replace_bytes_atomic = rooted_replace_bytes_atomic\<rparr>"

section \<open>What the catalog relies on\<close>

definition moved :: "('k \<Rightarrow> 'v option) \<Rightarrow> 'k \<Rightarrow> 'k \<Rightarrow> ('k \<Rightarrow> 'v option) \<Rightarrow> bool" where
  "moved m s t m' = (m s \<noteq> None \<and> m t = None \<and> m' = m(s := None, t := m s))"

definition quiet :: "disk \<Rightarrow> bool" where
  "quiet d = list_all (\<lambda>f. f = NoFault) (fault_schedule d)"

definition reachable_path :: "string \<Rightarrow> disk \<Rightarrow> bool" where
  "reachable_path p d = (resolve_path p d = Inr p)"

definition disk_healthy :: "disk \<Rightarrow> string \<Rightarrow> bool" where
  "disk_healthy d p = (quiet d \<and> reachable_path p d)"

definition disk_view :: "disk \<Rightarrow> string \<Rightarrow> bytes option" where
  "disk_view d = map_of (files d)"

text \<open>
  \<open>view\<close> is the content of the managed namespace and \<open>healthy s p\<close> says that calls on \<open>p\<close>
  meet no fault from state \<open>s\<close> on.
\<close>

locale catalog_filesystem =
  fixes fs :: "'f CatalogFilesystem"
    and view :: "'f \<Rightarrow> string \<Rightarrow> bytes option"
    and healthy :: "'f \<Rightarrow> string \<Rightarrow> bool"
  assumes exists_view: "fs_exists fs p s = (rb, s') \<Longrightarrow>
      view s' = view s \<and> (\<forall>b. rb = Inr b \<longrightarrow> b = (view s p \<noteq> None))"
    and move_view: "fs_move fs p q s = (r, s') \<Longrightarrow>
      (r = Inr () \<longrightarrow> moved (view s) p q (view s'))
      \<and> (view s' = view s \<or> moved (view s) p q (view s'))"
    and unlink_view: "fs_unlink fs p s = (r, s') \<Longrightarrow>
      (r = Inr () \<longrightarrow> view s' = (view s)(p := None))
      \<and> (view s' = view s \<or> view s' = (view s)(p := None))"
    and read_view: "fs_read_bytes fs p n s = (rv, s') \<Longrightarrow>
      view s' = view s \<and> (\<forall>v. rv = Inr v \<longrightarrow> view s p = Some v)"
    and size_view: "fs_file_size fs p s = (rn, s') \<Longrightarrow>
      view s' = view s \<and> (\<forall>n. rn = Inr n \<longrightarrow> (\<exists>v. view s p = Some v \<and> n = int (length v)))"
    and replace_view: "fs_replace_bytes_atomic fs p v n s = (r, s') \<Longrightarrow>
      (r = Inr () \<longrightarrow> view s p \<noteq> None \<and> view s' = (view s)(p \<mapsto> v))
      \<and> (view s' = view s \<or> view s p \<noteq> None \<and> view s' = (view s)(p \<mapsto> v))"
    and exists_healthy: "healthy s p \<Longrightarrow>
      \<exists>s'. fs_exists fs p s = (Inr (view s p \<noteq> None), s') \<and> (\<forall>q. healthy s q \<longrightarrow> healthy s' q)"
    and move_healthy: "healthy s p \<Longrightarrow> healthy s q \<Longrightarrow> view s p \<noteq> None \<Longrightarrow> view s q = None \<Longrightarrow>
      \<exists>s'. fs_move fs p q s = (Inr (), s') \<and> (\<forall>x. healthy s x \<longrightarrow> healthy s' x)"
    and unlink_healthy: "healthy s p \<Longrightarrow>
      \<exists>s'. fs_unlink fs p s = (Inr (), s') \<and> (\<forall>q. healthy s q \<longrightarrow> healthy s' q)"

section \<open>The adapter keeps the contract\<close>

lemma take_fault_files [simp]:
  "files (snd (take_fault d)) = files d"
  "present_directories (snd (take_fault d)) = present_directories d"
  by (auto simp: take_fault_def split: list.splits)

lemma take_fault_quiet:
  "quiet d \<Longrightarrow> fst (take_fault d) = NoFault \<and> quiet (snd (take_fault d))"
  by (auto simp: take_fault_def quiet_def split: list.splits)

lemma resolve_path_cong:
  "present_directories d = present_directories d' \<Longrightarrow> resolve_path p d = resolve_path p d'"
  by (simp add: resolve_path_def)

lemma resolve_pathD: "resolve_path p d = Inr q \<Longrightarrow> q = p"
  by (auto simp: resolve_path_def result_simps split: if_splits)

text \<open>A call on any disk is a call of its body on a disk with the same files, or has no effect.\<close>

lemma with_faults_cases:
  assumes "with_faults body d = (r, d')"
  obtains (before) "r = Inl OSError" "files d' = files d" "present_directories d' = present_directories d"
  | (body) d1 r1 where "files d1 = files d" "present_directories d1 = present_directories d"
      "body d1 = (r1, d')" "r = r1 \<or> r = Inl OSError"
proof -
  obtain f d1 where f: "take_fault d = (f, d1)" by fastforce
  have d1: "files d1 = files d" "present_directories d1 = present_directories d"
    using take_fault_files [of d] f by simp_all
  show ?thesis
  proof (cases f)
    case NoFault
    with assms f show ?thesis by (intro body [OF d1, of r]) (auto simp: with_faults_def)
  next
    case FailBefore
    with assms f d1 show ?thesis by (intro before) (auto simp: with_faults_def)
  next
    case FailAfter
    obtain r1 d2 where b: "body d1 = (r1, d2)" by fastforce
    with FailAfter assms f have "d2 = d'" "r = r1 \<or> r = Inl OSError"
      by (auto simp: with_faults_def split: sum.splits)
    with b show ?thesis by (intro body [OF d1, of r1]) auto
  qed
qed

lemma with_faults_quiet:
  assumes "quiet d"
  obtains d1 where "with_faults body d = body d1" "files d1 = files d"
    "present_directories d1 = present_directories d" "quiet d1"
proof -
  obtain f d1 where f: "take_fault d = (f, d1)" by fastforce
  with take_fault_quiet [OF assms] take_fault_files [of d] that [of d1] show ?thesis
    by (auto simp: with_faults_def)
qed

lemma rename_no_replace_view:
  assumes "rename_no_replace s t d = (r, d')"
  shows "(r = Inr () \<longrightarrow> moved (map_of (files d)) s t (map_of (files d')))
    \<and> (r \<noteq> Inr () \<longrightarrow> d' = d)"
proof -
  have "s \<noteq> t" if "map_of (files d) s \<noteq> None" "map_of (files d) t = None"
    using that by auto
  with assms show ?thesis
    by (auto simp: rename_no_replace_def moved_def update_conv' delete_conv' fun_upd_twist
        split: option.splits if_splits)
qed

lemma rooted_exists_view:
  assumes "rooted_exists p d = (r, d')"
  shows "map_of (files d') = map_of (files d) \<and> (\<forall>b. r = Inr b \<longrightarrow> b = (map_of (files d) p \<noteq> None))"
  using assms unfolding rooted_exists_def
  by (cases rule: with_faults_cases)
    (auto split: sum.splits dest: resolve_pathD)

lemma rooted_move_view:
  assumes "rooted_move p q d = (r, d')"
  shows "(r = Inr () \<longrightarrow> moved (map_of (files d)) p q (map_of (files d')))
    \<and> (map_of (files d') = map_of (files d) \<or> moved (map_of (files d)) p q (map_of (files d')))"
  using assms unfolding rooted_move_def
proof (cases rule: with_faults_cases)
  case before
  then show ?thesis by simp
next
  case (body d1 r1)
  then show ?thesis
    by (auto split: sum.splits dest!: resolve_pathD rename_no_replace_view)
qed

lemma rooted_unlink_view:
  assumes "rooted_unlink p d = (r, d')"
  shows "(r = Inr () \<longrightarrow> map_of (files d') = (map_of (files d))(p := None))
    \<and> (map_of (files d') = map_of (files d) \<or> map_of (files d') = (map_of (files d))(p := None))"
  using assms unfolding rooted_unlink_def
  by (cases rule: with_faults_cases)
    (auto simp: delete_conv' split: sum.splits dest: resolve_pathD)

lemma rooted_read_view:
  assumes "rooted_read_bytes p n d = (r, d')"
  shows "map_of (files d') = map_of (files d) \<and> (\<forall>v. r = Inr v \<longrightarrow> map_of (files d) p = Some v)"
  using assms unfolding rooted_read_bytes_def
  by (cases rule: with_faults_cases)
    (auto split: sum.splits option.splits if_splits dest: resolve_pathD)

lemma rooted_size_view:
  assumes "rooted_file_size p d = (r, d')"
  shows "map_of (files d') = map_of (files d)
    \<and> (\<forall>n. r = Inr n \<longrightarrow> (\<exists>v. map_of (files d) p = Some v \<and> n = int (length v)))"
  using assms unfolding rooted_file_size_def
  by (cases rule: with_faults_cases)
    (auto split: sum.splits option.splits dest: resolve_pathD)

lemma rooted_replace_view:
  assumes "rooted_replace_bytes_atomic p v n d = (r, d')"
  shows "(r = Inr () \<longrightarrow> map_of (files d) p \<noteq> None \<and> map_of (files d') = (map_of (files d))(p \<mapsto> v))
    \<and> (map_of (files d') = map_of (files d)
       \<or> map_of (files d) p \<noteq> None \<and> map_of (files d') = (map_of (files d))(p \<mapsto> v))"
  using assms unfolding rooted_replace_bytes_atomic_def
  by (cases rule: with_faults_cases)
    (auto simp: update_conv' split: sum.splits option.splits if_splits dest: resolve_pathD)

lemma rooted_exists_healthy:
  assumes "disk_healthy d p"
  shows "\<exists>d'. rooted_exists p d = (Inr (map_of (files d) p \<noteq> None), d')
     \<and> (\<forall>q. disk_healthy d q \<longrightarrow> disk_healthy d' q)"
proof -
  obtain d1 where "rooted_exists p d = (case resolve_path p d1 of Inl e \<Rightarrow> (Inl e, d1)
     | Inr q \<Rightarrow> (Inr (map_of (files d1) q \<noteq> None), d1))"
    "files d1 = files d" "present_directories d1 = present_directories d" "quiet d1"
    using assms unfolding rooted_exists_def disk_healthy_def by (auto elim: with_faults_quiet)
  with assms show ?thesis
    using resolve_path_cong [of d1 d] by (auto simp: disk_healthy_def reachable_path_def)
qed

lemma rooted_move_healthy:
  assumes "disk_healthy d p" "disk_healthy d q" "map_of (files d) p \<noteq> None" "map_of (files d) q = None"
  shows "\<exists>d'. rooted_move p q d = (Inr (), d') \<and> (\<forall>x. disk_healthy d x \<longrightarrow> disk_healthy d' x)"
proof -
  obtain d1 where d1: "rooted_move p q d = (case resolve_path p d1 of Inl e \<Rightarrow> (Inl e, d1)
     | Inr sp \<Rightarrow> (case resolve_path q d1 of Inl e \<Rightarrow> (Inl e, d1)
     | Inr tp \<Rightarrow> rename_no_replace sp tp d1))"
    "files d1 = files d" "present_directories d1 = present_directories d" "quiet d1"
    using assms(1) unfolding rooted_move_def disk_healthy_def by (auto elim: with_faults_quiet)
  have r: "resolve_path p d1 = Inr p" "resolve_path q d1 = Inr q"
    using assms(1,2) resolve_path_cong [OF d1(3)] by (auto simp: disk_healthy_def reachable_path_def)
  obtain d2 where "rename_no_replace p q d1 = (Inr (), d2)" "quiet d2"
    "present_directories d2 = present_directories d"
    using assms(3,4) d1(2-4) by (auto simp: rename_no_replace_def quiet_def)
  with d1(1) r show ?thesis
    using resolve_path_cong [of d2 d] by (auto simp: disk_healthy_def reachable_path_def)
qed

lemma rooted_unlink_healthy:
  assumes "disk_healthy d p"
  shows "\<exists>d'. rooted_unlink p d = (Inr (), d') \<and> (\<forall>q. disk_healthy d q \<longrightarrow> disk_healthy d' q)"
proof -
  obtain d1 where d1: "rooted_unlink p d = (case resolve_path p d1 of Inl e \<Rightarrow> (Inl e, d1)
     | Inr q \<Rightarrow> (Inr (), d1\<lparr>files := AList.delete q (files d1)\<rparr>))"
    "files d1 = files d" "present_directories d1 = present_directories d" "quiet d1"
    using assms unfolding rooted_unlink_def disk_healthy_def by (auto elim: with_faults_quiet)
  let ?d2 = "d1\<lparr>files := AList.delete p (files d1)\<rparr>"
  have "resolve_path q ?d2 = resolve_path q d" for q
    by (rule resolve_path_cong) (simp add: d1(3))
  moreover have "quiet ?d2"
    using d1(4) by (simp add: quiet_def)
  moreover have "rooted_unlink p d = (Inr (), ?d2)"
    using d1(1) assms resolve_path_cong [OF d1(3)] by (simp add: disk_healthy_def reachable_path_def)
  ultimately show ?thesis
    by (intro exI [of _ ?d2]) (simp add: disk_healthy_def reachable_path_def)
qed

lemma rooted_select [simp]:
  "fs_exists RootedFilesystem = rooted_exists" "fs_move RootedFilesystem = rooted_move"
  "fs_unlink RootedFilesystem = rooted_unlink" "fs_read_bytes RootedFilesystem = rooted_read_bytes"
  "fs_file_size RootedFilesystem = rooted_file_size"
  "fs_replace_bytes_atomic RootedFilesystem = rooted_replace_bytes_atomic"
  "fs_iter_files RootedFilesystem = rooted_iter_files"
  by (simp_all add: RootedFilesystem_def)

interpretation rooted: catalog_filesystem RootedFilesystem disk_view disk_healthy
  unfolding disk_view_def
  by (unfold_locales; unfold rooted_select)
    (erule rooted_exists_view rooted_move_view rooted_unlink_view rooted_read_view
      rooted_size_view rooted_replace_view
    | rule rooted_exists_healthy rooted_move_healthy rooted_unlink_healthy; assumption)+

end
