(* ===== verification/Catalog_Model.thy ===== *)
theory Catalog_Model
  imports Retention Managed_Files
begin

text \<open>
  The durable catalog's data: \<^verbatim>\<open>src/dashcam/catalog/models.py\<close> and the SQLite schema, row
  helpers and validators of \<^verbatim>\<open>src/dashcam/catalog/database.py\<close>.

  \<^item> A table is the list of its rows in insertion order. An \<^verbatim>\<open>INSERT\<close> checks the primary key,
    the unique indexes (retention order, one pending intent per clip), the foreign keys and
    the \<^verbatim>\<open>CHECK\<close> constraints and otherwise raises \<open>IntegrityError\<close>; an \<^verbatim>\<open>UPDATE ... WHERE\<close> by
    primary key is \<open>row_update\<close>; \<^verbatim>\<open>ORDER BY ... LIMIT\<close> is a stable sort and \<open>take\<close>.
  \<^item> A clip row is the \<open>CatalogClip\<close> value plus the three bookkeeping columns. The \<^verbatim>\<open>CHECK\<close> on
    the four lease columns makes them all null or all set, which is what the two optional
    fields of \<open>CatalogClip\<close> hold.
  \<^item> A transaction is a function from the catalog to \<open>('a \<times> catalog) result\<close>: an exception
    discards every change, as \<^verbatim>\<open>ROLLBACK\<close> does.
  \<^item> \<^verbatim>\<open>uuid4()\<close> draws the next element of an arbitrary stream carried by the catalog; nothing
    is assumed of it, so a collision is an \<open>IntegrityError\<close> here too.
  Not modelled: lock waits and the 64-bit bound of SQLite integers, except in
  \<open>next_retention_order\<close>, which tests it.
\<close>

section \<open>Rows\<close>

datatype EventSource = WEB | GPIO | API

datatype EventTargetRole = PREVIOUS | CURRENT | NEXT

record CatalogClip =
  cc_clip_id :: uuid
  cc_lifecycle :: ClipLifecycle
  video_path :: string
  sidecar_path :: string
  start_monotonic_ns :: int
  end_monotonic_ns :: "int option"
  cc_retention_order :: int
  cc_size_bytes :: int
  cc_protected :: bool
  protection_reason :: "string option"
  cc_pair_reconciled :: bool
  cc_managed :: bool
  cc_download_lease :: "DownloadLease option"
  lease_boot_id :: "string option"

record clip_row = CatalogClip +
  created_catalog_ns :: int
  updated_catalog_ns :: int
  protection_revision :: int

datatype IntentStatus = PENDING | COMPLETE

record intent_row =
  ir_intent_id :: uuid
  ir_clip_id :: uuid
  ir_kind :: IntentKind
  ir_created_ns :: int
  ir_paths :: PairPaths
  ir_status :: IntentStatus
  last_problem :: "ProblemCode list option"
  completed_monotonic_ns :: "int option"
  expected_protection_revision :: "int option"
  reconciliation_sidecar :: "bytes option"
  reconciliation_source_sha256 :: "string option"

record event_row =
  ev_event_id :: uuid
  ev_source :: EventSource
  triggered_monotonic_ns :: int
  current_clip_id :: uuid
  requested_previous :: int
  requested_next :: int
  missing_previous :: int
  remaining_next :: int

record target_row =
  tg_event_id :: uuid
  tg_clip_id :: uuid
  tg_role :: EventTargetRole
  tg_ordinal :: int

record RetentionThresholdLatch =
  volume_uuid :: string
  capacity_bytes :: int
  reclaim_latched :: bool

record catalog =
  clips :: "clip_row list"
  operation_intents :: "intent_row list"
  protection_events :: "event_row list"
  protection_event_targets :: "target_row list"
  threshold_latch :: "RetentionThresholdLatch option"
  uuid4_stream :: "nat \<Rightarrow> uuid"
  uuid4_used :: nat

record ActiveClipProtectionState =
  acp_protected :: bool
  acp_reason :: "string option"
  acp_revision :: int

record EventProtectionResult =
  epr_event_id :: uuid
  protected_clip_ids :: "uuid list"
  missing_previous_count :: int
  pending_next_count :: int
  queued_intent_ids :: "uuid list"

record IntentReconciliationResult =
  irr_intent :: OperationIntent
  actions_attempted :: int
  irr_complete :: bool
  irr_problems :: "ProblemCode list"

type_synonym 'a transaction = "catalog \<Rightarrow> ('a \<times> catalog) result"

section \<open>Validators\<close>

definition MAX_PENDING_EVENT_WINDOWS :: int where
  "MAX_PENDING_EVENT_WINDOWS = 64"

definition MAX_QUERY_ROWS :: int where
  "MAX_QUERY_ROWS = 10000"

definition non_negative_integer :: "int \<Rightarrow> unit result" where
  "non_negative_integer n = (if n < 0 then Inl ValueError else Inr ())"

definition positive_integer :: "int \<Rightarrow> unit result" where
  "positive_integer n = (if n \<le> 0 then Inl ValueError else Inr ())"

definition row_limit :: "int \<Rightarrow> unit result" where
  "row_limit n = bindR (positive_integer n) (\<lambda>_. if n > MAX_QUERY_ROWS then Inl ValueError else Inr ())"

definition bounded_count :: "int \<Rightarrow> unit result" where
  "bounded_count n = bindR (non_negative_integer n) (\<lambda>_. if n > 32 then Inl ValueError else Inr ())"

definition check_reason :: "string \<Rightarrow> unit result" where
  "check_reason s = (if s = [] \<or> length s > 256 then Inl ValueError
     else if \<not> list_all is_ascii s \<or> (\<exists>c \<in> set s. (of_char c :: nat) < 32) then Inl ValueError
     else Inr ())"

definition check_boot_id :: "string \<Rightarrow> unit result" where
  "check_boot_id b = (if length b > 128 \<or> \<not> safe_identifier b then Inl ValueError else Inr ())"

definition mk_latch :: "string \<Rightarrow> int \<Rightarrow> bool \<Rightarrow> RetentionThresholdLatch result" where
  "mk_latch v n b = (if v = [] \<or> length v > 128 then Inl ValueError
     else bindR (non_negative_integer n) (\<lambda>_. if n = 0 then Inl ValueError
     else Inr \<lparr>volume_uuid = v, capacity_bytes = n, reclaim_latched = b\<rparr>))"

definition validate_clip :: "CatalogClip \<Rightarrow> unit result" where
  "validate_clip clip =
     bindR (mk_pair_paths (video_path clip) (sidecar_path clip) None None) (\<lambda>_.
     bindR (mk_clip_file_pair (path_name (video_path clip)) (path_name (sidecar_path clip))) (\<lambda>_.
     if path_parent (video_path clip) \<noteq> path_parent (sidecar_path clip) then Inl ValueError
     else if path_parent (video_path clip) \<notin> set MANAGED_DIRECTORIES then Inl ValueError
     else bindR (non_negative_integer (start_monotonic_ns clip)) (\<lambda>_.
     bindR (case end_monotonic_ns clip of None \<Rightarrow> Inr ()
            | Some e \<Rightarrow> bindR (non_negative_integer e) (\<lambda>_.
                if e \<le> start_monotonic_ns clip then Inl ValueError else Inr ())) (\<lambda>_.
     bindR (non_negative_integer (cc_retention_order clip)) (\<lambda>_.
     bindR (non_negative_integer (cc_size_bytes clip)) (\<lambda>_.
     if cc_lifecycle clip = FINALIZED \<and> end_monotonic_ns clip = None then Inl ValueError
     else bindR (if cc_protected clip
                 then (case protection_reason clip of None \<Rightarrow> Inl ValueError | Some s \<Rightarrow> check_reason s)
                 else if protection_reason clip \<noteq> None then Inl ValueError else Inr ()) (\<lambda>_.
     if cc_download_lease clip = None \<and> lease_boot_id clip \<noteq> None then Inl ValueError
     else if cc_download_lease clip \<noteq> None
     then (if cc_lifecycle clip \<noteq> FINALIZED then Inl ValueError
           else case lease_boot_id clip of None \<Rightarrow> Inl ValueError | Some b \<Rightarrow> check_boot_id b)
     else Inr ()))))))) "

section \<open>Row helpers\<close>

definition fresh_uuid :: "catalog \<Rightarrow> uuid \<times> catalog" where
  "fresh_uuid c = (uuid4_stream c (uuid4_used c), c\<lparr>uuid4_used := Suc (uuid4_used c)\<rparr>)"

definition update_clip :: "uuid \<Rightarrow> (clip_row \<Rightarrow> clip_row) \<Rightarrow> catalog \<Rightarrow> catalog" where
  "update_clip k f c = c\<lparr>clips := row_update cc_clip_id k f (clips c)\<rparr>"

definition update_intent :: "uuid \<Rightarrow> (intent_row \<Rightarrow> intent_row) \<Rightarrow> catalog \<Rightarrow> catalog" where
  "update_intent k f c = c\<lparr>operation_intents := row_update ir_intent_id k f (operation_intents c)\<rparr>"

definition update_event :: "uuid \<Rightarrow> (event_row \<Rightarrow> event_row) \<Rightarrow> catalog \<Rightarrow> catalog" where
  "update_event k f c = c\<lparr>protection_events := row_update ev_event_id k f (protection_events c)\<rparr>"

definition find_clip :: "catalog \<Rightarrow> uuid \<Rightarrow> clip_row option" where
  "find_clip c k = row_get cc_clip_id k (clips c)"

definition is_pending :: "intent_row \<Rightarrow> bool" where
  "is_pending i = (ir_status i = PENDING)"

definition required_clip_row :: "catalog \<Rightarrow> uuid \<Rightarrow> clip_row result" where
  "required_clip_row c k = (case find_clip c k of None \<Rightarrow> Inl ClipNotFoundError | Some r \<Rightarrow> Inr r)"

definition pending_intent_row :: "catalog \<Rightarrow> uuid \<Rightarrow> intent_row option" where
  "pending_intent_row c k = find (\<lambda>i. ir_clip_id i = k \<and> is_pending i) (operation_intents c)"

definition row_has_active_lease :: "clip_row \<Rightarrow> int \<Rightarrow> string \<Rightarrow> bool" where
  "row_has_active_lease r now boot = (case cc_download_lease r of None \<Rightarrow> False
     | Some l \<Rightarrow> lease_boot_id r = Some boot \<and> now < expires_at_monotonic_ns l)"

definition row_has_unexpired_lease :: "clip_row \<Rightarrow> int \<Rightarrow> bool" where
  "row_has_unexpired_lease r now = (case cc_download_lease r of None \<Rightarrow> False
     | Some l \<Rightarrow> now < expires_at_monotonic_ns l)"

definition clip_from_row :: "clip_row \<Rightarrow> CatalogClip result" where
  "clip_from_row r =
     bindR (case cc_download_lease r of None \<Rightarrow> Inr None
            | Some l \<Rightarrow> bindR (mk_lease (holder l) (issued_at_monotonic_ns l) (expires_at_monotonic_ns l))
                (\<lambda>l'. Inr (Some l'))) (\<lambda>lease.
       Inr (CatalogClip.truncate (r\<lparr>cc_download_lease := lease\<rparr>)))"

definition intent_from_row :: "intent_row \<Rightarrow> OperationIntent result" where
  "intent_from_row i =
     bindR (mk_pair_paths (video_source (ir_paths i)) (sidecar_source (ir_paths i))
              (video_target (ir_paths i)) (sidecar_target (ir_paths i))) (\<lambda>ps.
       mk_operation_intent (ir_intent_id i) (ir_clip_id i) (ir_kind i) (ir_created_ns i) ps 1)"

definition move_paths :: "string \<Rightarrow> string \<Rightarrow> string \<Rightarrow> PairPaths result" where
  "move_paths vs ss target_directory =
     mk_pair_paths vs ss (Some (join_path target_directory (path_name vs)))
       (Some (join_path target_directory (path_name ss)))"

section \<open>Inserts\<close>

definition end_after :: "int \<Rightarrow> int option \<Rightarrow> bool" where
  "end_after start e = (case e of None \<Rightarrow> True | Some x \<Rightarrow> x > start)"

definition check_clip_row :: "clip_row \<Rightarrow> bool" where
  "check_clip_row r = (0 \<le> cc_size_bytes r \<and> 0 \<le> start_monotonic_ns r
     \<and> end_after (start_monotonic_ns r) (end_monotonic_ns r)
     \<and> (cc_download_lease r = None) = (lease_boot_id r = None) \<and> 0 \<le> protection_revision r)"

definition insert_clip_locked :: "CatalogClip \<Rightarrow> int \<Rightarrow> catalog \<Rightarrow> catalog result" where
  "insert_clip_locked clip now c =
     (let r = CatalogClip.extend clip
            \<lparr>created_catalog_ns = now, updated_catalog_ns = now, protection_revision = 0\<rparr>
      in if cc_clip_id r \<in> set (map cc_clip_id (clips c))
            \<or> cc_retention_order r \<in> set (map cc_retention_order (clips c))
            \<or> \<not> check_clip_row r
         then Inl IntegrityError else Inr (c\<lparr>clips := clips c @ [r]\<rparr>))"

definition insert_intent_row :: "intent_row \<Rightarrow> catalog \<Rightarrow> catalog result" where
  "insert_intent_row i c =
     (if ir_intent_id i \<in> set (map ir_intent_id (operation_intents c))
         \<or> ir_clip_id i \<notin> set (map cc_clip_id (clips c))
         \<or> pending_intent_row c (ir_clip_id i) \<noteq> None
         \<or> (case expected_protection_revision i of None \<Rightarrow> False | Some n \<Rightarrow> n < 0)
      then Inl IntegrityError
      else Inr (c\<lparr>operation_intents := operation_intents c @ [i]\<rparr>))"

definition row_of_intent :: "OperationIntent \<Rightarrow> int option \<Rightarrow> bytes option \<Rightarrow> string option \<Rightarrow> intent_row" where
  "row_of_intent i rv payload sha = \<lparr>ir_intent_id = intent_id i, ir_clip_id = oi_clip_id i,
     ir_kind = oi_kind i, ir_created_ns = created_monotonic_ns i, ir_paths = oi_paths i,
     ir_status = PENDING, last_problem = None, completed_monotonic_ns = None,
     expected_protection_revision = rv, reconciliation_sidecar = payload,
     reconciliation_source_sha256 = sha\<rparr>"

definition insert_intent_locked ::
  "uuid \<Rightarrow> IntentKind \<Rightarrow> PairPaths \<Rightarrow> int \<Rightarrow> int option \<Rightarrow> OperationIntent transaction" where
  "insert_intent_locked k kind ps now rv c =
     (case fresh_uuid c of (u, c1) \<Rightarrow>
      bindR (mk_operation_intent u k kind now ps 1) (\<lambda>i.
      bindR (insert_intent_row (row_of_intent i rv None None) c1) (\<lambda>c2. Inr (i, c2))))"

definition insert_event_row :: "event_row \<Rightarrow> catalog \<Rightarrow> catalog result" where
  "insert_event_row e c =
     (if ev_event_id e \<in> set (map ev_event_id (protection_events c))
         \<or> current_clip_id e \<notin> set (map cc_clip_id (clips c))
         \<or> requested_previous e < 0 \<or> requested_next e < 0 \<or> missing_previous e < 0
         \<or> remaining_next e < 0
      then Inl IntegrityError else Inr (c\<lparr>protection_events := protection_events c @ [e]\<rparr>))"

definition target_key :: "target_row \<Rightarrow> uuid \<times> uuid" where
  "target_key t = (tg_event_id t, tg_clip_id t)"

definition insert_target_row :: "target_row \<Rightarrow> catalog \<Rightarrow> catalog result" where
  "insert_target_row t c =
     (if target_key t \<in> set (map target_key (protection_event_targets c))
         \<or> tg_event_id t \<notin> set (map ev_event_id (protection_events c))
         \<or> tg_clip_id t \<notin> set (map cc_clip_id (clips c))
      then Inl IntegrityError
      else Inr (c\<lparr>protection_event_targets := protection_event_targets c @ [t]\<rparr>))"

section \<open>Tables as keyed rows\<close>

interpretation clip_table: keyed_rows "cc_clip_id :: clip_row \<Rightarrow> uuid" .

interpretation intent_table: keyed_rows ir_intent_id .

interpretation event_table: keyed_rows ev_event_id .

end
