(* ===== verification/Catalog_Ops.thy ===== *)
theory Catalog_Ops
  imports Catalog_Model
begin

text \<open>
  The transactions of \<^verbatim>\<open>ClipCatalog\<close> (\<^verbatim>\<open>src/dashcam/catalog/database.py\<close>) that do not touch
  the recording volume: registration, download leases, the retention queries, protection,
  deletion, event windows and finalization. Arguments keep the order of the source; the
  catalog comes last. An operation that returns a value and changes the catalog has type
  \<open>'a transaction\<close>; a query returns its rows.
\<close>

section \<open>Ordering and latch\<close>

definition MAX_SQLITE_INTEGER :: int where
  "MAX_SQLITE_INTEGER = 9223372036854775807"

definition next_retention_order :: "catalog \<Rightarrow> int result" where
  "next_retention_order c =
     (let value = (if clips c = [] then -1 else Max (set (map cc_retention_order (clips c)))) + 1
      in if 0 \<le> value \<and> value \<le> MAX_SQLITE_INTEGER then Inr value else Inl CatalogConflictError)"

definition retention_threshold_latch :: "catalog \<Rightarrow> RetentionThresholdLatch option result" where
  "retention_threshold_latch c = (case threshold_latch c of None \<Rightarrow> Inr None
     | Some l \<Rightarrow> bindR (mk_latch (volume_uuid l) (capacity_bytes l) (reclaim_latched l)) (\<lambda>x. Inr (Some x)))"

definition store_retention_threshold_latch :: "RetentionThresholdLatch \<Rightarrow> unit transaction" where
  "store_retention_threshold_latch latch c =
     (let row = (case threshold_latch c of None \<Rightarrow> latch | Some l \<Rightarrow> l)
      in if volume_uuid row = volume_uuid latch \<and> capacity_bytes row = capacity_bytes latch
         then Inr ((), c\<lparr>threshold_latch := Some (row\<lparr>reclaim_latched := reclaim_latched latch\<rparr>)\<rparr>)
         else Inl CatalogConflictError)"

section \<open>Registration\<close>

definition register_clip :: "CatalogClip \<Rightarrow> int \<Rightarrow> unit transaction" where
  "register_clip clip now c =
     bindR (validate_clip clip) (\<lambda>_. bindR (non_negative_integer now) (\<lambda>_.
     bindR (insert_clip_locked clip now c) (\<lambda>c'. Inr ((), c'))))"

text \<open>\<^verbatim>\<open>except ClipNameError as exc: raise CatalogConflictError\<close>.\<close>

definition as_conflict :: "'a result \<Rightarrow> 'a result" where
  "as_conflict m = (case m of Inl e \<Rightarrow> Inl (if e = ClipNameError then CatalogConflictError else e)
     | Inr x \<Rightarrow> Inr x)"

definition register_writing_clip :: "CatalogClip \<Rightarrow> int \<Rightarrow> unit transaction" where
  "register_writing_clip clip now c =
     bindR (validate_clip clip) (\<lambda>_. bindR (non_negative_integer now) (\<lambda>_.
     if cc_lifecycle clip \<noteq> WRITING \<or> path_parent (video_path clip) \<noteq> ''pending''
        \<or> path_parent (sidecar_path clip) \<noteq> ''pending'' \<or> end_monotonic_ns clip \<noteq> None
        \<or> cc_size_bytes clip \<noteq> 0 \<or> cc_protected clip \<or> protection_reason clip \<noteq> None
        \<or> cc_pair_reconciled clip \<or> \<not> cc_managed clip \<or> cc_download_lease clip \<noteq> None
     then Inl CatalogConflictError
     else bindR (as_conflict (mk_clip_file_pair (path_name (video_path clip)) (path_name (sidecar_path clip))))
       (\<lambda>pair. bindR (as_conflict (parse_clip_filename (video_name pair))) (\<lambda>parsed.
       if \<not> partial parsed then Inl CatalogConflictError
       else bindR (insert_clip_locked clip now c) (\<lambda>c'. Inr ((), c'))))))"

definition mark_writing_clip_orphaned :: "uuid \<Rightarrow> int \<Rightarrow> bool transaction" where
  "mark_writing_clip_orphaned k now c =
     bindR (non_negative_integer now) (\<lambda>_.
       case find_clip c k of None \<Rightarrow> Inr (False, c)
       | Some r \<Rightarrow> if cc_lifecycle r = WRITING
           then Inr (True, update_clip k (\<lambda>r. r\<lparr>cc_lifecycle := MISSING_SIDECAR,
                  cc_pair_reconciled := False, updated_catalog_ns := now\<rparr>) c)
           else Inr (False, c))"

definition register_finalizing_clip ::
  "CatalogClip \<Rightarrow> PairPaths \<Rightarrow> int \<Rightarrow> int option \<Rightarrow> uuid transaction" where
  "register_finalizing_clip clip promotion now expected c =
     bindR (validate_clip clip) (\<lambda>_. bindR (non_negative_integer now) (\<lambda>_.
     (case (video_target promotion, sidecar_target promotion) of
        (Some target_video, Some target_sidecar) \<Rightarrow>
     if cc_lifecycle clip \<noteq> FINALIZING \<or> end_monotonic_ns clip = None
        \<or> path_parent (video_path clip) \<noteq> ''pending'' \<or> cc_pair_reconciled clip
        \<or> \<not> cc_managed clip \<or> cc_download_lease clip \<noteq> None
        \<or> video_source promotion \<noteq> video_path clip \<or> sidecar_source promotion \<noteq> sidecar_path clip
        \<or> path_parent target_video \<noteq> ''clips'' \<or> path_parent target_sidecar \<noteq> ''clips''
     then Inl CatalogConflictError
     else bindR (as_conflict (mk_clip_file_pair (path_name (video_path clip)) (path_name (sidecar_path clip)))) (\<lambda>_.
     bindR (as_conflict (mk_clip_file_pair (path_name target_video) (path_name target_sidecar))) (\<lambda>_.
     bindR (as_conflict (parse_clip_filename (path_name (video_path clip)))) (\<lambda>source_identity.
     bindR (as_conflict (parse_clip_filename (path_name target_video))) (\<lambda>target_identity.
     if \<not> partial source_identity \<or> partial target_identity
        \<or> pn_boot_id source_identity \<noteq> pn_boot_id target_identity
        \<or> pn_sequence source_identity \<noteq> pn_sequence target_identity
     then Inl CatalogConflictError
     else bindR (case expected of None \<Rightarrow> Inr () | Some n \<Rightarrow> non_negative_integer n) (\<lambda>_.
     bindR (case find_clip c (cc_clip_id clip) of
         None \<Rightarrow> if expected \<noteq> None then Inl CatalogConflictError else insert_clip_locked clip now c
       | Some row \<Rightarrow> (case expected of
             None \<Rightarrow> Inl CatalogConflictError
           | Some revision \<Rightarrow>
               if protection_revision row \<noteq> revision then Inl ActiveClipProtectionChanged
               else if cc_lifecycle row \<noteq> WRITING \<or> video_path row \<noteq> video_path clip
                  \<or> sidecar_path row \<noteq> sidecar_path clip
                  \<or> start_monotonic_ns row \<noteq> start_monotonic_ns clip
                  \<or> cc_retention_order row \<noteq> cc_retention_order clip
                  \<or> cc_protected row \<noteq> cc_protected clip
                  \<or> protection_reason row \<noteq> protection_reason clip
                  \<or> \<not> cc_managed row \<or> cc_pair_reconciled row
               then Inl CatalogConflictError
               else Inr (update_clip (cc_clip_id clip) (\<lambda>r. r\<lparr>cc_lifecycle := FINALIZING,
                      end_monotonic_ns := end_monotonic_ns clip, cc_size_bytes := cc_size_bytes clip,
                      updated_catalog_ns := now\<rparr>) c))) (\<lambda>c1.
     bindR (insert_intent_locked (cc_clip_id clip) FINALIZE promotion now None c1) (\<lambda>(i, c2).
       Inr (intent_id i, c2))))))))
      | _ \<Rightarrow> Inl CatalogConflictError)))"

section \<open>Queries\<close>

definition order_key :: "clip_row \<Rightarrow> int \<times> uuid" where
  "order_key r = (cc_retention_order r, cc_clip_id r)"

definition get_clip :: "uuid \<Rightarrow> catalog \<Rightarrow> CatalogClip result" where
  "get_clip k c = (case find_clip c k of None \<Rightarrow> Inl ClipNotFoundError | Some r \<Rightarrow> clip_from_row r)"

definition list_writing_clips :: "int \<Rightarrow> catalog \<Rightarrow> CatalogClip list result" where
  "list_writing_clips limit c = bindR (row_limit limit) (\<lambda>_.
     mapR clip_from_row (take (nat limit)
       (sort_key order_key (filter (\<lambda>r. cc_lifecycle r = WRITING) (clips c)))))"

definition list_clips :: "int \<Rightarrow> int \<Rightarrow> catalog \<Rightarrow> CatalogClip list result" where
  "list_clips limit after_order c = bindR (row_limit limit) (\<lambda>_.
     if after_order < -1 then Inl ValueError
     else mapR clip_from_row (take (nat limit)
       (sort_key order_key (filter (\<lambda>r. after_order < cc_retention_order r) (clips c)))))"

definition intent_key :: "intent_row \<Rightarrow> int \<times> uuid" where
  "intent_key i = (ir_created_ns i, ir_intent_id i)"

definition pending_intents_where :: "(intent_row \<Rightarrow> bool) \<Rightarrow> int \<Rightarrow> catalog \<Rightarrow> OperationIntent list result" where
  "pending_intents_where sel limit c =
     mapR intent_from_row (take (nat limit)
       (sort_key intent_key (filter (\<lambda>i. is_pending i \<and> sel i) (operation_intents c))))"

definition list_pending_intents :: "int \<Rightarrow> catalog \<Rightarrow> OperationIntent list result" where
  "list_pending_intents limit c = bindR (row_limit limit) (\<lambda>_. pending_intents_where (\<lambda>_. True) limit c)"

definition list_pending_delete_intents :: "int \<Rightarrow> catalog \<Rightarrow> OperationIntent list result" where
  "list_pending_delete_intents limit c =
     bindR (row_limit limit) (\<lambda>_. pending_intents_where (\<lambda>i. ir_kind i = DELETE) limit c)"

definition check_kinds :: "IntentKind list \<Rightarrow> unit result" where
  "check_kinds ks = (if ks = [] \<or> length ks > 5 \<or> \<not> distinct ks then Inl ValueError else Inr ())"

definition list_pending_intents_by_kind :: "IntentKind list \<Rightarrow> int \<Rightarrow> catalog \<Rightarrow> OperationIntent list result" where
  "list_pending_intents_by_kind kinds limit c = bindR (row_limit limit) (\<lambda>_. bindR (check_kinds kinds) (\<lambda>_.
     pending_intents_where (\<lambda>i. ir_kind i \<in> set kinds) limit c))"

definition get_pending_intent :: "uuid \<Rightarrow> catalog \<Rightarrow> OperationIntent option result" where
  "get_pending_intent k c = (case find (\<lambda>i. ir_intent_id i = k \<and> is_pending i) (operation_intents c) of
     None \<Rightarrow> Inr None | Some i \<Rightarrow> bindR (intent_from_row i) (\<lambda>x. Inr (Some x)))"

definition list_pending_intents_for_clip ::
  "uuid \<Rightarrow> IntentKind list \<Rightarrow> int \<Rightarrow> catalog \<Rightarrow> OperationIntent list result" where
  "list_pending_intents_for_clip k kinds limit c = bindR (row_limit limit) (\<lambda>_. bindR (check_kinds kinds) (\<lambda>_.
     pending_intents_where (\<lambda>i. ir_clip_id i = k \<and> ir_kind i \<in> set kinds) limit c))"

section \<open>Protection\<close>

definition mark_unreconciled :: "uuid \<Rightarrow> int \<Rightarrow> catalog \<Rightarrow> catalog" where
  "mark_unreconciled k now = update_clip k (\<lambda>r. r\<lparr>cc_pair_reconciled := False, updated_catalog_ns := now\<rparr>)"

definition set_protection :: "uuid \<Rightarrow> string \<Rightarrow> int \<Rightarrow> catalog \<Rightarrow> catalog" where
  "set_protection k reason now = update_clip k (\<lambda>r. r\<lparr>cc_protected := True,
     protection_reason := Some reason, protection_revision := protection_revision r + 1,
     updated_catalog_ns := now\<rparr>)"

text \<open>Insert a move intent into another managed directory and mark the pair unreconciled.\<close>

definition queue_move :: "uuid \<Rightarrow> IntentKind \<Rightarrow> string \<Rightarrow> string \<Rightarrow> string \<Rightarrow> int \<Rightarrow> int option
    \<Rightarrow> uuid transaction" where
  "queue_move k kind vs ss directory now rv c =
     bindR (move_paths vs ss directory) (\<lambda>ps.
     bindR (insert_intent_locked k kind ps now rv c) (\<lambda>(i, c1).
       Inr (intent_id i, mark_unreconciled k now c1)))"

definition prepare_protect_locked :: "uuid \<Rightarrow> string \<Rightarrow> int \<Rightarrow> bool \<Rightarrow> uuid option transaction" where
  "prepare_protect_locked k reason now allow_existing c =
     bindR (required_clip_row c k) (\<lambda>row.
     if row_has_unexpired_lease row now then Inl DownloadLeaseError
     else if cc_lifecycle row \<in> {DELETING, DELETED} then Inl CatalogConflictError
     else (case pending_intent_row c k of
       Some pending \<Rightarrow>
         if ir_kind pending = PROTECT \<and> cc_protected row then Inr (Some (ir_intent_id pending), c)
         else if allow_existing \<and> cc_protected row \<and> ir_kind pending \<in> {FINALIZE, RECONCILE_NAME}
         then Inr (None, c)
         else Inl CatalogConflictError
     | None \<Rightarrow>
       let c1 = set_protection k reason now c in
       if cc_lifecycle row \<noteq> FINALIZED then Inr (None, c1)
       else if path_parent (video_path row) = ''protected'' then Inr (None, c1)
       else bindR (queue_move k PROTECT (video_path row) (sidecar_path row) ''protected'' now None c1)
         (\<lambda>(u, c2). Inr (Some u, c2))))"

definition prepare_protect :: "uuid \<Rightarrow> string \<Rightarrow> int \<Rightarrow> uuid option transaction" where
  "prepare_protect k reason now c =
     bindR (check_reason reason) (\<lambda>_. bindR (non_negative_integer now) (\<lambda>_.
       prepare_protect_locked k reason now False c))"

definition prepare_unprotect :: "uuid \<Rightarrow> int \<Rightarrow> uuid option transaction" where
  "prepare_unprotect k now c =
     bindR (non_negative_integer now) (\<lambda>_. bindR (required_clip_row c k) (\<lambda>row.
     if row_has_unexpired_lease row now then Inl DownloadLeaseError
     else if \<not> cc_protected row then Inr (None, c)
     else (case pending_intent_row c k of
       Some pending \<Rightarrow> if ir_kind pending = UNPROTECT then Inr (Some (ir_intent_id pending), c)
         else Inl CatalogConflictError
     | None \<Rightarrow>
       if cc_lifecycle row \<noteq> FINALIZED then Inl CatalogConflictError
       else if path_parent (video_path row) = ''clips''
       then Inr (None, update_clip k (\<lambda>r. r\<lparr>cc_protected := False, protection_reason := None,
              updated_catalog_ns := now\<rparr>) c)
       else bindR (queue_move k UNPROTECT (video_path row) (sidecar_path row) ''clips'' now
                    (Some (protection_revision row)) c) (\<lambda>(u, c1). Inr (Some u, c1)))))"

definition protect_for_event_locked :: "uuid \<Rightarrow> string \<Rightarrow> int \<Rightarrow> uuid option transaction" where
  "protect_for_event_locked k reason now c =
     bindR (required_clip_row c k) (\<lambda>row.
     if cc_lifecycle row \<in> {DELETING, DELETED} then Inr (None, c)
     else let pending = pending_intent_row c k in
     if (case pending of None \<Rightarrow> False | Some p \<Rightarrow> ir_kind p = DELETE) then Inr (None, c)
     else let c1 = set_protection k reason now c in
     (case pending of
       Some p \<Rightarrow> Inr (if ir_kind p = PROTECT then Some (ir_intent_id p) else None, c1)
     | None \<Rightarrow>
       if row_has_unexpired_lease row now then Inr (None, c1)
       else if cc_lifecycle row \<noteq> FINALIZED then Inr (None, c1)
       else if path_parent (video_path row) = ''protected'' then Inr (None, c1)
       else bindR (queue_move k PROTECT (video_path row) (sidecar_path row) ''protected'' now None c1)
         (\<lambda>(u, c2). Inr (Some u, c2))))"

definition queue_directory_invariant_repair_locked :: "clip_row \<Rightarrow> int \<Rightarrow> uuid option transaction" where
  "queue_directory_invariant_repair_locked row now c =
     (let k = cc_clip_id row; directory = path_parent (video_path row) in
      if cc_lifecycle row \<noteq> FINALIZED \<or> pending_intent_row c k \<noteq> None \<or> row_has_unexpired_lease row now
      then Inr (None, c)
      else if path_parent (sidecar_path row) \<noteq> directory then Inr (None, c)
      else if cc_protected row \<and> directory = ''clips''
      then bindR (queue_move k PROTECT (video_path row) (sidecar_path row) ''protected'' now None c)
             (\<lambda>(u, c1). Inr (Some u, c1))
      else if \<not> cc_protected row \<and> directory = ''protected''
      then bindR (queue_move k UNPROTECT (video_path row) (sidecar_path row) ''clips'' now
                   (Some (protection_revision row)) c) (\<lambda>(u, c1). Inr (Some u, c1))
      else Inr (None, c))"

definition queue_directory_invariant_repair :: "uuid \<Rightarrow> int \<Rightarrow> bool transaction" where
  "queue_directory_invariant_repair k now c =
     bindR (required_clip_row c k) (\<lambda>row.
     bindR (queue_directory_invariant_repair_locked row now c) (\<lambda>(u, c1). Inr (u \<noteq> None, c1)))"

section \<open>Download leases\<close>

definition clear_lease_locked :: "uuid \<Rightarrow> catalog \<Rightarrow> catalog" where
  "clear_lease_locked k = update_clip k (\<lambda>r. r\<lparr>cc_download_lease := None, lease_boot_id := None\<rparr>)"

definition catalog_acquire_download_lease ::
  "uuid \<Rightarrow> string \<Rightarrow> int \<Rightarrow> int \<Rightarrow> string \<Rightarrow> int \<Rightarrow> DownloadLease transaction" where
  "catalog_acquire_download_lease k h now dur boot max_active c =
     bindR (check_boot_id boot) (\<lambda>_. bindR (row_limit max_active) (\<lambda>_.
     bindR (issue h now dur) (\<lambda>lease.
     bindR (required_clip_row c k) (\<lambda>row.
     if cc_lifecycle row \<noteq> FINALIZED then Inl DownloadLeaseError
     else if \<not> cc_pair_reconciled row then Inl DownloadLeaseError
     else if pending_intent_row c k \<noteq> None then Inl DownloadLeaseError
     else if row_has_active_lease row now boot then Inl DownloadLeaseError
     else if int (length (filter (\<lambda>r. row_has_active_lease r now boot) (clips c))) \<ge> max_active
     then Inl DownloadLeaseCapacityReached
     else Inr (lease, update_clip k (\<lambda>r. r\<lparr>cc_download_lease := Some lease,
            lease_boot_id := Some boot, updated_catalog_ns := now\<rparr>) c)))))"

definition catalog_release_download_lease :: "uuid \<Rightarrow> string \<Rightarrow> int \<Rightarrow> bool transaction" where
  "catalog_release_download_lease k h now c =
     bindR (non_negative_integer now) (\<lambda>_. bindR (required_clip_row c k) (\<lambda>row.
     (case cc_download_lease row of None \<Rightarrow> Inr (False, c)
      | Some l \<Rightarrow> if holder l \<noteq> h then Inl DownloadLeaseError
         else let c1 = clear_lease_locked k c in
           bindR (required_clip_row c1 k) (\<lambda>row1.
           bindR (queue_directory_invariant_repair_locked row1 now c1) (\<lambda>(_, c2). Inr (True, c2))))))"

definition lease_expired :: "string \<Rightarrow> int \<Rightarrow> clip_row \<Rightarrow> bool" where
  "lease_expired boot now r = (case cc_download_lease r of None \<Rightarrow> False
     | Some l \<Rightarrow> lease_boot_id r \<noteq> Some boot \<or> expires_at_monotonic_ns l \<le> now)"

definition lease_key :: "clip_row \<Rightarrow> int \<times> uuid" where
  "lease_key r = (case cc_download_lease r of None \<Rightarrow> 0 | Some l \<Rightarrow> expires_at_monotonic_ns l, cc_clip_id r)"

definition clear_one_expired :: "int \<Rightarrow> clip_row \<Rightarrow> catalog \<Rightarrow> catalog result" where
  "clear_one_expired now row c =
     (let c1 = clear_lease_locked (cc_clip_id row) c in
      bindR (required_clip_row c1 (cc_clip_id row)) (\<lambda>row1.
      bindR (queue_directory_invariant_repair_locked row1 now c1) (\<lambda>(_, c2). Inr c2)))"

definition clear_expired_download_leases :: "int \<Rightarrow> string \<Rightarrow> int \<Rightarrow> (int \<times> bool) transaction" where
  "clear_expired_download_leases now boot limit c =
     bindR (non_negative_integer now) (\<lambda>_. bindR (check_boot_id boot) (\<lambda>_. bindR (row_limit limit) (\<lambda>_.
     let rows = take (nat (limit + 1)) (sort_key lease_key (filter (lease_expired boot now) (clips c)));
         selected = take (nat limit) rows
     in bindR (foldR (clear_one_expired now) selected c) (\<lambda>c1.
          Inr ((int (length selected), int (length rows) > limit), c1)))))"

section \<open>Retention and deletion\<close>

definition candidate_of_row :: "catalog \<Rightarrow> int \<Rightarrow> string \<Rightarrow> clip_row \<Rightarrow> RetentionCandidate" where
  "candidate_of_row c now boot r = \<lparr>rc_clip_id = cc_clip_id r, retention_order = cc_retention_order r,
     size_bytes = cc_size_bytes r, managed = cc_managed r, finalized = (cc_lifecycle r = FINALIZED),
     pair_reconciled = cc_pair_reconciled r, rc_protected = cc_protected r,
     mutation_in_progress = (pending_intent_row c (cc_clip_id r) \<noteq> None),
     lease_expires_monotonic_ns = (if row_has_active_lease r now boot
        then map_option expires_at_monotonic_ns (cc_download_lease r) else None)\<rparr>"

definition retention_candidates :: "int \<Rightarrow> string \<Rightarrow> int \<Rightarrow> catalog \<Rightarrow> RetentionCandidate list result" where
  "retention_candidates now boot limit c =
     bindR (non_negative_integer now) (\<lambda>_. bindR (check_boot_id boot) (\<lambda>_. bindR (row_limit limit) (\<lambda>_.
     mapR (\<lambda>r. let x = candidate_of_row c now boot r in bindR (check_candidate x) (\<lambda>_. Inr x))
       (take (nat limit) (sort_key order_key (filter (\<lambda>r. cc_lifecycle r \<noteq> DELETED) (clips c)))))))"

definition plan_retention :: "int \<Rightarrow> int \<Rightarrow> string \<Rightarrow> int \<Rightarrow> catalog \<Rightarrow> RetentionPlan result" where
  "plan_retention requested now boot candidate_limit c =
     bindR (retention_candidates now boot candidate_limit c) (\<lambda>cs.
       select_oldest_eligible cs requested now)"

definition prepare_delete_row_locked :: "clip_row \<Rightarrow> int \<Rightarrow> string \<Rightarrow> uuid transaction" where
  "prepare_delete_row_locked row now boot c =
     (let k = cc_clip_id row in
      case pending_intent_row c k of
        Some pending \<Rightarrow> if ir_kind pending = DELETE then Inr (ir_intent_id pending, c)
          else Inl CatalogConflictError
      | None \<Rightarrow>
        if cc_lifecycle row \<noteq> FINALIZED then Inl CatalogConflictError
        else if cc_protected row then Inl CatalogConflictError
        else if \<not> cc_pair_reconciled row \<or> \<not> cc_managed row then Inl CatalogConflictError
        else if row_has_active_lease row now boot then Inl CatalogConflictError
        else bindR (mk_pair_paths (video_path row) (sidecar_path row) None None) (\<lambda>ps.
        if path_parent (video_source ps) \<noteq> ''clips'' \<or> path_parent (sidecar_source ps) \<noteq> ''clips''
        then Inl CatalogConflictError
        else bindR (insert_intent_locked k DELETE ps now None c) (\<lambda>(i, c1).
          Inr (intent_id i, update_clip k (\<lambda>r. r\<lparr>cc_lifecycle := DELETING, cc_pair_reconciled := False,
            cc_download_lease := None, lease_boot_id := None, updated_catalog_ns := now\<rparr>) c1))))"

definition prepare_delete :: "uuid \<Rightarrow> int \<Rightarrow> string \<Rightarrow> uuid transaction" where
  "prepare_delete k now boot c =
     bindR (non_negative_integer now) (\<lambda>_. bindR (check_boot_id boot) (\<lambda>_.
     bindR (required_clip_row c k) (\<lambda>row. prepare_delete_row_locked row now boot c)))"

definition sql_eligible :: "catalog \<Rightarrow> int \<Rightarrow> string \<Rightarrow> clip_row \<Rightarrow> bool" where
  "sql_eligible c now boot r = (cc_lifecycle r = FINALIZED \<and> cc_managed r \<and> cc_pair_reconciled r
     \<and> \<not> cc_protected r \<and> pending_intent_row c (cc_clip_id r) = None
     \<and> \<not> row_has_active_lease r now boot)"

definition prepare_oldest_eligible_delete :: "int \<Rightarrow> string \<Rightarrow> uuid option transaction" where
  "prepare_oldest_eligible_delete now boot c =
     bindR (non_negative_integer now) (\<lambda>_. bindR (check_boot_id boot) (\<lambda>_.
     (case sort_key order_key (filter (sql_eligible c now boot) (clips c)) of
        [] \<Rightarrow> Inr (None, c)
      | row # _ \<Rightarrow> bindR (prepare_delete_row_locked row now boot c) (\<lambda>(u, c1). Inr (Some u, c1)))))"

section \<open>Event windows\<close>

fun source_value :: "EventSource \<Rightarrow> string" where
  "source_value WEB = ''web''"
| "source_value GPIO = ''gpio''"
| "source_value API = ''api''"

fun role_rank :: "EventTargetRole \<Rightarrow> int" where
  "role_rank PREVIOUS = 0"
| "role_rank CURRENT = 1"
| "role_rank NEXT = 2"

definition event_key :: "event_row \<Rightarrow> int \<times> uuid" where
  "event_key e = (triggered_monotonic_ns e, ev_event_id e)"

definition window_open_for :: "catalog \<Rightarrow> clip_row \<Rightarrow> event_row \<Rightarrow> bool" where
  "window_open_for c row e =
     (remaining_next e > 0 \<and> current_clip_id e \<noteq> cc_clip_id row
      \<and> (case find_clip c (current_clip_id e) of None \<Rightarrow> False
         | Some cur \<Rightarrow> cc_retention_order cur < cc_retention_order row)
      \<and> (ev_event_id e, cc_clip_id row) \<notin> set (map target_key (protection_event_targets c)))"

definition pending_event_windows :: "catalog \<Rightarrow> clip_row \<Rightarrow> event_row list" where
  "pending_event_windows c row = take (nat MAX_PENDING_EVENT_WINDOWS)
     (sort_key event_key (filter (window_open_for c row) (protection_events c)))"

definition next_target :: "uuid \<Rightarrow> event_row \<Rightarrow> target_row" where
  "next_target k e = \<lparr>tg_event_id = ev_event_id e, tg_clip_id = k, tg_role = NEXT,
     tg_ordinal = requested_next e - remaining_next e + 1\<rparr>"

definition pending_window_reason :: "uuid \<Rightarrow> string" where
  "pending_window_reason e = ''event:'' @ uuid_str e @ '':pending-window''"

text \<open>One iteration of the loop of \<^verbatim>\<open>active_closing_protection\<close>.\<close>

definition consume_window :: "uuid \<Rightarrow> int \<Rightarrow> event_row \<Rightarrow> catalog \<Rightarrow> catalog result" where
  "consume_window k now e c =
     bindR (insert_target_row (next_target k e) c) (\<lambda>c1.
     let c2 = update_event (ev_event_id e)
           (\<lambda>x. if remaining_next x > 0 then x\<lparr>remaining_next := remaining_next x - 1\<rparr> else x) c1
     in bindR (protect_for_event_locked k (pending_window_reason (ev_event_id e)) now c2)
          (\<lambda>(_, c3). Inr c3))"

definition active_closing_protection :: "uuid \<Rightarrow> int \<Rightarrow> ActiveClipProtectionState transaction" where
  "active_closing_protection k now c =
     bindR (non_negative_integer now) (\<lambda>_. bindR (required_clip_row c k) (\<lambda>row.
     if cc_lifecycle row \<noteq> WRITING then Inl CatalogConflictError
     else bindR (foldR (consume_window k now) (pending_event_windows c row) c) (\<lambda>c1.
       bindR (required_clip_row c1 k) (\<lambda>refreshed.
       Inr (\<lparr>acp_protected = cc_protected refreshed, acp_reason = protection_reason refreshed,
             acp_revision = protection_revision refreshed\<rparr>, c1)))))"

definition event_reason :: "uuid \<Rightarrow> EventSource \<Rightarrow> string" where
  "event_reason e src = ''event:'' @ uuid_str e @ '':'' @ source_value src"

definition target_order :: "target_row \<Rightarrow> int \<times> int \<times> uuid" where
  "target_order t = (role_rank (tg_role t), tg_ordinal t, tg_clip_id t)"

definition replay_event :: "event_row \<Rightarrow> catalog \<Rightarrow> EventProtectionResult" where
  "replay_event e c =
     (let target_ids = map tg_clip_id (sort_key target_order
            (filter (\<lambda>t. tg_event_id t = ev_event_id e) (protection_event_targets c)))
      in \<lparr>epr_event_id = ev_event_id e, protected_clip_ids = target_ids,
          missing_previous_count = missing_previous e, pending_next_count = remaining_next e,
          queued_intent_ids = concat (map (\<lambda>t. case pending_intent_row c t of None \<Rightarrow> []
             | Some p \<Rightarrow> if ir_kind p = PROTECT then [ir_intent_id p] else []) target_ids)\<rparr>)"

text \<open>
  One iteration of the target loop of \<^verbatim>\<open>trigger_event\<close>; the accumulator is the list of queued
  intents and the catalog.
\<close>

definition protect_target :: "uuid \<Rightarrow> string \<Rightarrow> int \<Rightarrow> uuid \<times> EventTargetRole \<times> int
    \<Rightarrow> uuid list \<times> catalog \<Rightarrow> (uuid list \<times> catalog) result" where
  "protect_target eid reason now t acc =
     (case t of (target, role, ordinal) \<Rightarrow>
      bindR (protect_for_event_locked target reason now (snd acc)) (\<lambda>(iid, c1).
      bindR (insert_target_row \<lparr>tg_event_id = eid, tg_clip_id = target, tg_role = role,
               tg_ordinal = ordinal\<rparr> c1) (\<lambda>c2.
        Inr (fst acc @ (case iid of None \<Rightarrow> [] | Some u \<Rightarrow> [u]), c2))))"

definition previous_rows :: "clip_row \<Rightarrow> int \<Rightarrow> catalog \<Rightarrow> clip_row list" where
  "previous_rows current previous_count c = take (nat previous_count) (rev (sort_key order_key
     (filter (\<lambda>r. cc_retention_order r < cc_retention_order current \<and> cc_lifecycle r = FINALIZED) (clips c))))"

definition event_targets :: "uuid \<Rightarrow> clip_row list \<Rightarrow> (uuid \<times> EventTargetRole \<times> int) list" where
  "event_targets current prev =
     map (\<lambda>(i, r). (cc_clip_id r, PREVIOUS, int i)) (enumerate 1 (rev prev)) @ [(current, CURRENT, 0)]"

definition trigger_new_event :: "uuid \<Rightarrow> uuid option \<Rightarrow> EventSource \<Rightarrow> int \<Rightarrow> int \<Rightarrow> int \<Rightarrow> bool
    \<Rightarrow> EventProtectionResult transaction" where
  "trigger_new_event eid current_id src now previous_count next_count require_writing c =
     (case current_id of None \<Rightarrow> Inl CatalogConflictError | Some k \<Rightarrow>
     bindR (required_clip_row c k) (\<lambda>current.
     if require_writing \<and> cc_lifecycle current \<noteq> WRITING then Inl CatalogConflictError
     else if cc_lifecycle current \<in> {DELETING, DELETED} then Inl CatalogConflictError
     else if next_count \<noteq> 0 \<and> int (length (filter (\<lambda>e. remaining_next e > 0) (protection_events c)))
               \<ge> MAX_PENDING_EVENT_WINDOWS then Inl CatalogConflictError
     else let prev = previous_rows current previous_count c;
              missing = previous_count - int (length prev) in
     bindR (insert_event_row \<lparr>ev_event_id = eid, ev_source = src, triggered_monotonic_ns = now,
              current_clip_id = k, requested_previous = previous_count, requested_next = next_count,
              missing_previous = missing, remaining_next = next_count\<rparr> c) (\<lambda>c1.
     bindR (foldR (protect_target eid (event_reason eid src) now) (event_targets k prev) ([], c1))
       (\<lambda>(queued, c2).
       Inr (\<lparr>epr_event_id = eid, protected_clip_ids = map fst (event_targets k prev),
             missing_previous_count = missing, pending_next_count = next_count,
             queued_intent_ids = queued\<rparr>, c2)))))"

definition trigger_event :: "uuid option \<Rightarrow> EventSource \<Rightarrow> int \<Rightarrow> int \<Rightarrow> int \<Rightarrow> uuid option \<Rightarrow> bool
    \<Rightarrow> EventProtectionResult transaction" where
  "trigger_event current_id src now previous_count next_count event_id require_writing c =
     bindR (non_negative_integer now) (\<lambda>_. bindR (bounded_count previous_count) (\<lambda>_.
     bindR (bounded_count next_count) (\<lambda>_.
     (case (case event_id of None \<Rightarrow> fresh_uuid c | Some e \<Rightarrow> (e, c)) of (eid, c0) \<Rightarrow>
     (case row_get ev_event_id eid (protection_events c0) of
        Some existing \<Rightarrow>
          if ev_source existing \<noteq> src \<or> requested_previous existing \<noteq> previous_count
             \<or> requested_next existing \<noteq> next_count
          then Inl CatalogConflictError else Inr (replay_event existing c0, c0)
      | None \<Rightarrow> trigger_new_event eid current_id src now previous_count next_count require_writing c0)))))"

text \<open>One iteration of the loop of \<^verbatim>\<open>finalize_clip\<close>: \<^verbatim>\<open>INSERT OR IGNORE\<close> and the countdown.\<close>

definition insert_or_ignore_target :: "target_row \<Rightarrow> catalog \<Rightarrow> catalog result" where
  "insert_or_ignore_target t c =
     (if target_key t \<in> set (map target_key (protection_event_targets c)) then Inr c
      else insert_target_row t c)"

definition count_window :: "uuid \<Rightarrow> event_row \<Rightarrow> catalog \<Rightarrow> catalog result" where
  "count_window k e c =
     bindR (insert_or_ignore_target (next_target k e) c) (\<lambda>c1.
       let c2 = update_event (ev_event_id e) (\<lambda>x. x\<lparr>remaining_next := remaining_next x - 1\<rparr>) c1
       in if \<exists>x \<in> set (protection_events c2). ev_event_id x = ev_event_id e \<and> remaining_next x < 0 then Inl IntegrityError else Inr c2)"

text \<open>The tail of \<^verbatim>\<open>finalize_clip\<close>: protect the clip for its events or its earlier protection.\<close>

definition finalize_protection :: "uuid \<Rightarrow> event_row list \<Rightarrow> int \<Rightarrow> uuid list transaction" where
  "finalize_protection k windows now c =
     bindR (required_clip_row c k) (\<lambda>refreshed.
     if \<not> cc_protected refreshed \<and> windows = [] then Inr ([], c)
     else bindR (case protection_reason refreshed of
              Some (ch # s) \<Rightarrow> Inr (ch # s)
            | _ \<Rightarrow> (case windows of e # _ \<Rightarrow> Inr (pending_window_reason (ev_event_id e))
                    | [] \<Rightarrow> Inl IndexError)) (\<lambda>reason.
     bindR (if windows \<noteq> [] then protect_for_event_locked k reason now c
            else prepare_protect_locked k reason now True c) (\<lambda>(iid, c1).
       Inr (case iid of None \<Rightarrow> [] | Some u \<Rightarrow> [u], c1))))"

definition finalize_clip :: "uuid \<Rightarrow> int \<Rightarrow> int \<Rightarrow> int \<Rightarrow> uuid list transaction" where
  "finalize_clip k end_ns nbytes now c =
     bindR (non_negative_integer end_ns) (\<lambda>_. bindR (non_negative_integer nbytes) (\<lambda>_.
     bindR (non_negative_integer now) (\<lambda>_. bindR (required_clip_row c k) (\<lambda>row.
     if cc_lifecycle row \<notin> {CREATING, WRITING, FINALIZING, FINALIZED} then Inl CatalogConflictError
     else if end_ns \<le> start_monotonic_ns row then Inl ValueError
     else let c1 = update_clip k (\<lambda>r. r\<lparr>cc_lifecycle := FINALIZED, end_monotonic_ns := Some end_ns,
                cc_size_bytes := nbytes, updated_catalog_ns := now\<rparr>) c;
              windows = pending_event_windows c1 row
     in bindR (foldR (count_window k) windows c1) (finalize_protection k windows now)))))"

end
