(* ===== verification/Py_Float.thy ===== *)
theory Py_Float
  imports Dashcam_Prelude
begin

text \<open>
  Python floats. A finite binary double is \<open>Finite n k\<close> with the exact value \<open>n / 2^k\<close>; infinities
  and NaN are \<open>NotFinite\<close>. \<open>float_of_ratio p q\<close> is the double nearest to \<open>p / q\<close>, ties to even, with 53
  significant bits and the smallest exponent of binary64; \<open>NotFinite\<close> is overflow. The sources
  never look at the sign of a zero, so there is one zero.
\<close>

section \<open>Values and comparisons\<close>

datatype pyfloat = Finite int nat | NotFinite

fun float_le :: "pyfloat \<Rightarrow> pyfloat \<Rightarrow> bool" where
  "float_le (Finite a j) (Finite b k) = (a * 2 ^ k \<le> b * 2 ^ j)"
| "float_le _ _ = False"

fun float_less :: "pyfloat \<Rightarrow> pyfloat \<Rightarrow> bool" where
  "float_less (Finite a j) (Finite b k) = (a * 2 ^ k < b * 2 ^ j)"
| "float_less _ _ = False"

fun float_neg :: "pyfloat \<Rightarrow> pyfloat" where
  "float_neg (Finite a j) = Finite (- a) j"
| "float_neg NotFinite = NotFinite"

section \<open>Rounding\<close>

fun bit_count :: "nat \<Rightarrow> nat" where
  "bit_count n = (if n = 0 then 0 else Suc (bit_count (n div 2)))"

declare bit_count.simps [simp del]

definition round_quotient :: "nat \<Rightarrow> nat \<Rightarrow> nat" where
  "round_quotient p q = (let d = p div q; r = p mod q
     in if 2 * r < q \<or> (2 * r = q \<and> even d) then d else d + 1)"

text \<open>\<open>scaled p q s\<close> is the fraction \<open>p / q * 2^s\<close>.\<close>

definition scaled :: "nat \<Rightarrow> nat \<Rightarrow> int \<Rightarrow> nat \<times> nat" where
  "scaled p q s = (if 0 \<le> s then (p * 2 ^ nat s, q) else (p, q * 2 ^ nat (- s)))"

definition binary_scale :: "nat \<Rightarrow> nat \<Rightarrow> int" where
  "binary_scale p q =
     (let s = 53 + int (bit_count q) - int (bit_count p); f = scaled p q s
      in min 1074 (if fst f div snd f \<ge> 2 ^ 53 then s - 1 else s))"

definition float_of_ratio :: "nat \<Rightarrow> nat \<Rightarrow> pyfloat" where
  "float_of_ratio p q =
     (let s = binary_scale p q; f = scaled p q s; m = round_quotient (fst f) (snd f)
      in if p = 0 then Finite 0 0
         else if 0 \<le> s then Finite (int m) (nat s)
         else if m * 2 ^ nat (- s) \<ge> 2 ^ 1024 then NotFinite
         else Finite (int (m * 2 ^ nat (- s))) 0)"

text \<open>\<^verbatim>\<open>float(n)\<close> of an integer.\<close>

definition float_of_int :: "int \<Rightarrow> pyfloat result" where
  "float_of_int n = (let v = float_of_ratio (nat \<bar>n\<bar>) 1
     in if v = NotFinite then Inl OverflowError else Inr (if n < 0 then float_neg v else v))"

section \<open>Lemmas\<close>

lemma round_quotient_le:
  assumes "0 < q" "p \<le> b * q"
  shows "round_quotient p q \<le> b"
proof -
  have d: "p = p div q * q + p mod q" "p mod q < q"
    using assms(1) by simp_all
  show ?thesis
  proof (cases "p mod q = 0")
    case True
    then have "p div q * q \<le> b * q" using d assms(2) by linarith
    then have "p div q \<le> b" using assms(1) by simp
    with True assms(1) show ?thesis by (simp add: round_quotient_def)
  next
    case False
    then have "p div q * q < b * q" using d assms(2) by linarith
    then have "p div q < b" by simp
    then show ?thesis by (simp add: round_quotient_def Let_def)
  qed
qed

lemma round_quotient_ge:
  assumes "b * q \<le> p" "0 < q"
  shows "b \<le> round_quotient p q"
proof -
  have "b \<le> p div q"
    using assms by (metis div_le_mono nonzero_mult_div_cancel_right less_numeral_extra(3))
  then show ?thesis by (auto simp: round_quotient_def Let_def)
qed

lemma bit_count_bounds: "n < 2 ^ bit_count n \<and> (0 < n \<longrightarrow> 2 ^ (bit_count n - 1) \<le> n)"
proof (induction n rule: bit_count.induct)
  case (1 n)
  show ?case
  proof (cases "n = 0")
    case False
    note IH = 1 [OF False]
    have b: "bit_count n = Suc (bit_count (n div 2))"
      using False by (simp add: bit_count.simps [of n])
    show ?thesis
    proof (cases "n div 2 = 0")
      case True
      then have "n = 1" using False by simp
      then show ?thesis using b by (simp add: bit_count.simps)
    next
      case nz: False
      then have "bit_count (n div 2) \<noteq> 0" by (simp add: bit_count.simps [of "n div 2"])
      then have "2 ^ bit_count (n div 2) = 2 * (2 :: nat) ^ (bit_count (n div 2) - 1)"
        by (metis Suc_diff_1 not_gr_zero power_Suc)
      then show ?thesis using IH b nz by simp presburger
    qed
  qed (simp add: bit_count.simps)
qed

lemma bit_count_le: "n < 2 ^ k \<Longrightarrow> bit_count n \<le> k"
proof (rule ccontr)
  assume n: "n < 2 ^ k" and "\<not> bit_count n \<le> k"
  then have k: "k \<le> bit_count n - 1" and "bit_count n \<noteq> 0" by simp_all
  then have "0 < n" by (cases "n = 0") (simp_all add: bit_count.simps)
  then have "2 ^ (bit_count n - 1) \<le> n" using bit_count_bounds by simp
  moreover have "(2 :: nat) ^ k \<le> 2 ^ (bit_count n - 1)"
    using k by (rule power_increasing) simp
  ultimately show False using n by linarith
qed

text \<open>A quotient between zero and an integer bound that fits 52 bits rounds into the same range.\<close>

lemma float_of_ratio_bounds:
  assumes "0 < q" "p \<le> b * q" "b < 2 ^ 52"
  shows "\<exists>m k. float_of_ratio p q = Finite m k \<and> 0 \<le> m \<and> m \<le> int b * 2 ^ k"
proof (cases "p = 0")
  case True
  then show ?thesis by (auto simp: float_of_ratio_def Let_def)
next
  case False
  define s where "s = binary_scale p q"
  have "p < 2 ^ (52 + bit_count q)"
  proof -
    have "b * q < 2 ^ 52 * q" using assms by simp
    also have "\<dots> \<le> 2 ^ 52 * 2 ^ bit_count q"
      using bit_count_bounds [of q] by (intro mult_le_mono) simp_all
    finally show ?thesis using assms(2) by (simp only: power_add)
  qed
  then have "bit_count p \<le> 52 + bit_count q" by (rule bit_count_le)
  then have s: "0 \<le> s" by (auto simp: s_def binary_scale_def Let_def)
  then have "scaled p q s = (p * 2 ^ nat s, q)" by (simp add: scaled_def)
  moreover have "round_quotient (p * 2 ^ nat s) q \<le> b * 2 ^ nat s"
    using assms(1,2) by (intro round_quotient_le) (simp_all add: mult.commute mult.left_commute)
  ultimately show ?thesis
    using s False by (simp add: float_of_ratio_def Let_def s_def [symmetric])
      (metis of_nat_le_iff of_nat_mult of_nat_numeral of_nat_power)
qed

end
