(* ===== verification/Metadata_Schema.thy ===== *)
theory Metadata_Schema
  imports Clip_Naming Clip_State Py_Float
begin

text \<open>
  The typed per-clip metadata of \<^verbatim>\<open>src/dashcam/metadata/schema.py\<close>: the value classes with the
  checks of their constructors. Constructing a value is \<open>check_... x = Inr ()\<close>; every failed check
  raises \<open>MetadataValidationError\<close>.

  \<^item> Strings are strings of 8-bit characters.
  \<^item> A \<open>local_time\<close> is a date-time with the zone object it carries: \<open>Some name\<close> for the interned
    \<^verbatim>\<open>ZoneInfo(name)\<close>, \<open>None\<close> for a fixed offset. Two aware values with the same zone object compare by
    their wall-clock fields; with different ones they compare as instants, and are unequal when the
    offset of one of them depends on its fold (PEP 495).
  \<^item> The installed zone database is the parameter \<open>zone_info\<close> (see \<open>Civil_Time\<close>).
\<close>

section \<open>Values\<close>

record local_time =
  lc_time :: datetime
  lc_zone :: "string option"

datatype TimeAnchorSource = ANCHOR_GPS | ANCHOR_SYSTEM_CLOCK

record TimeAnchor =
  ta_source :: TimeAnchorSource
  ta_monotonic_ns :: int
  ta_utc :: datetime
  ta_uncertainty_ns :: int
  ta_provenance :: string

record VideoSummary =
  vi_codec :: string
  vi_width :: int
  vi_height :: int
  vi_fps_nominal :: pyfloat
  vi_target_bitrate_bps :: int
  vi_measured_bitrate_bps :: int
  vi_frames_written :: int
  vi_dropped_frames :: int

record AudioSummary =
  au_available :: bool
  au_codec :: "string option"
  au_sample_rate_hz :: "int option"
  au_channels :: "int option"
  au_target_bitrate_bps :: "int option"

record GpsSample =
  gs_monotonic_ns :: int
  gs_utc :: "datetime option"
  gs_timestamp_quality :: TimestampQuality
  gs_lat_deg :: "pyfloat option"
  gs_lon_deg :: "pyfloat option"
  gs_speed_mps :: "pyfloat option"
  gs_course_deg :: "pyfloat option"
  gs_altitude_m :: "pyfloat option"
  gs_fix_quality :: "int option"
  gs_satellites :: "int option"
  gs_hdop :: "pyfloat option"

record GpsSummary =
  gp_available :: bool
  gp_first_fix_utc :: "datetime option"
  gp_samples :: "GpsSample list"

record ClipSidecar =
  sc_schema_version :: int
  sc_clip_id :: uuid
  sc_boot_id :: uuid
  sc_sequence :: int
  video_file :: string
  metadata_file :: string
  sc_start_utc :: "datetime option"
  sc_end_utc :: "datetime option"
  sc_start_ns :: int
  sc_end_ns :: int
  sc_gps_time_state :: GpsTimeState
  sc_system_clock_state :: SystemClockState
  sc_timestamp_quality :: TimestampQuality
  sc_time_anchor :: "TimeAnchor option"
  sc_timezone :: string
  sc_start_local :: "local_time option"
  sc_video :: VideoSummary
  sc_audio :: AudioSummary
  sc_gps :: GpsSummary
  sc_protected :: bool
  sc_protection_reason :: "string option"
  sc_software_version :: string
  sc_warnings :: "string list"

section \<open>Bounds\<close>

definition MAX_MONOTONIC_NS :: int where
  "MAX_MONOTONIC_NS = 9223372036854775807"

definition MAX_UNCERTAINTY_NS :: int where
  "MAX_UNCERTAINTY_NS = 86400000000000"

definition MAX_GPS_SAMPLES :: nat where
  "MAX_GPS_SAMPLES = 600"

definition MAX_DURATION_ROUNDING_ERROR_NS :: int where
  "MAX_DURATION_ROUNDING_ERROR_NS = 1000000"

definition MAX_WARNINGS :: nat where
  "MAX_WARNINGS = 32"

section \<open>Scalar checks\<close>

definition invalid_if :: "bool \<Rightarrow> unit result" where
  "invalid_if b = (if b then Inl MetadataValidationError else Inr ())"

definition check_integer :: "int \<Rightarrow> int \<Rightarrow> int \<Rightarrow> unit result" where
  "check_integer minimum maximum v = invalid_if (\<not> (minimum \<le> v \<and> v \<le> maximum))"

definition check_monotonic :: "int \<Rightarrow> unit result" where
  "check_monotonic v = check_integer 0 MAX_MONOTONIC_NS v"

definition check_finite :: "pyfloat \<Rightarrow> pyfloat \<Rightarrow> bool \<Rightarrow> pyfloat \<Rightarrow> unit result" where
  "check_finite minimum maximum exclusive v =
     invalid_if (\<not> (float_le minimum v \<and> (if exclusive then float_less v maximum else float_le v maximum)))"

definition check_text :: "nat \<Rightarrow> string \<Rightarrow> unit result" where
  "check_text maximum s = invalid_if (s = [] \<or> length s > maximum \<or> list_ex (code_between 0 31) s)"

definition utc_value :: "datetime \<Rightarrow> datetime result" where
  "utc_value d = (if dt_offset d = Some 0 then Inr d else Inl MetadataValidationError)"

definition check_utc :: "datetime \<Rightarrow> unit result" where
  "check_utc d = bindR (utc_value d) (\<lambda>_. Inr ())"

definition check_option :: "('a \<Rightarrow> unit result) \<Rightarrow> 'a option \<Rightarrow> unit result" where
  "check_option f v = (case v of None \<Rightarrow> Inr () | Some x \<Rightarrow> f x)"

fun opt_all :: "('a \<Rightarrow> bool) \<Rightarrow> 'a option \<Rightarrow> bool" where
  "opt_all P None = True"
| "opt_all P (Some x) = P x"

text \<open>A required value given as \<^verbatim>\<open>None\<close> fails the type check of the helper.\<close>

definition check_required :: "('a \<Rightarrow> unit result) \<Rightarrow> 'a option \<Rightarrow> unit result" where
  "check_required f v = (case v of None \<Rightarrow> Inl MetadataValidationError | Some x \<Rightarrow> f x)"

fun checks :: "unit result list \<Rightarrow> unit result" where
  "checks [] = Inr ()"
| "checks (c # cs) = bindR c (\<lambda>_. checks cs)"

section \<open>Constructors\<close>

definition check_anchor :: "TimeAnchor \<Rightarrow> unit result" where
  "check_anchor a = checks [check_monotonic (ta_monotonic_ns a), check_utc (ta_utc a),
     check_integer 0 MAX_UNCERTAINTY_NS (ta_uncertainty_ns a), check_text 256 (ta_provenance a)]"

abbreviation int_float :: "int \<Rightarrow> pyfloat" where
  "int_float n \<equiv> Finite n 0"

definition check_video :: "VideoSummary \<Rightarrow> unit result" where
  "check_video v = checks [check_text 32 (vi_codec v), check_integer 1 16384 (vi_width v),
     check_integer 1 16384 (vi_height v), check_finite (float_of_ratio 1 10) (int_float 1000) False (vi_fps_nominal v),
     check_integer 1 1000000000 (vi_target_bitrate_bps v), check_integer 0 1000000000 (vi_measured_bitrate_bps v),
     check_monotonic (vi_frames_written v), check_monotonic (vi_dropped_frames v)]"

definition check_audio :: "AudioSummary \<Rightarrow> unit result" where
  "check_audio a =
     (if \<not> au_available a
      then invalid_if (au_codec a \<noteq> None \<or> au_sample_rate_hz a \<noteq> None \<or> au_channels a \<noteq> None
                       \<or> au_target_bitrate_bps a \<noteq> None)
      else checks [check_required (check_text 32) (au_codec a), check_required (check_integer 1 768000) (au_sample_rate_hz a),
        check_required (check_integer 1 32) (au_channels a), check_required (check_integer 1 100000000) (au_target_bitrate_bps a)])"

definition check_sample :: "GpsSample \<Rightarrow> unit result" where
  "check_sample g = checks [check_monotonic (gs_monotonic_ns g),
     (if gs_timestamp_quality g = MONOTONIC_ONLY then invalid_if (gs_utc g \<noteq> None)
      else check_required check_utc (gs_utc g)),
     check_option (check_finite (int_float (-90)) (int_float 90) False) (gs_lat_deg g), check_option (check_finite (int_float (-180)) (int_float 180) False) (gs_lon_deg g),
     check_option (check_finite (int_float 0) (int_float 1000) False) (gs_speed_mps g), check_option (check_finite (int_float 0) (int_float 360) True) (gs_course_deg g),
     check_option (check_finite (int_float (-2000)) (int_float 100000) False) (gs_altitude_m g), check_option (check_finite (int_float 0) (int_float 1000) False) (gs_hdop g),
     check_option (check_integer 0 8) (gs_fix_quality g), check_option (check_integer 0 255) (gs_satellites g),
     invalid_if ((gs_lat_deg g = None) \<noteq> (gs_lon_deg g = None))]"

text \<open>The samples of a summary are values that were constructed, hence checked, before.\<close>

definition check_gps :: "GpsSummary \<Rightarrow> unit result" where
  "check_gps g = checks [check_option check_utc (gp_first_fix_utc g),
     invalid_if (length (gp_samples g) > MAX_GPS_SAMPLES),
     invalid_if (\<not> gp_available g \<and> (gp_first_fix_utc g \<noteq> None \<or> gp_samples g \<noteq> []))]"

section \<open>Local times\<close>

definition zone_or_invalid :: "zone_database \<Rightarrow> string \<Rightarrow> zone_rules result" where
  "zone_or_invalid zone_info name = (case zone_info name of
       Inl e \<Rightarrow> Inl (if e \<in> {TypeError, ZoneInfoNotFoundError} then MetadataValidationError else e)
     | Inr z \<Rightarrow> Inr z)"

text \<open>\<^verbatim>\<open>u.astimezone(ZoneInfo(name))\<close>; leaving the years 1 to 9999 raises OverflowError.\<close>

definition local_of :: "string \<Rightarrow> zone_rules \<Rightarrow> datetime \<Rightarrow> local_time result" where
  "local_of name z u =
     (let off = fst (zone_at z (dt_us u)) * 1000000
      in if us_in_range (dt_us u + off)
         then Inr \<lparr>lc_time = \<lparr>dt_us = dt_us u + off, dt_offset = Some off\<rparr>, lc_zone = Some name\<rparr>
         else Inl OverflowError)"

definition instant :: "datetime \<Rightarrow> int" where
  "instant d = dt_us d - (case dt_offset d of None \<Rightarrow> 0 | Some off \<Rightarrow> off)"

text \<open>Whether the offset of an aware local time changes with its fold.\<close>

definition fold_dependent :: "zone_database \<Rightarrow> local_time \<Rightarrow> bool" where
  "fold_dependent zone_info lt = (case lc_zone lt of None \<Rightarrow> False
     | Some name \<Rightarrow> (case zone_info name of Inl _ \<Rightarrow> False | Inr z \<Rightarrow> zone_folded z (instant (lc_time lt))))"

text \<open>\<^verbatim>\<open>a == b\<close> of two aware local times.\<close>

definition same_local :: "zone_database \<Rightarrow> local_time \<Rightarrow> local_time \<Rightarrow> bool" where
  "same_local zone_info a b =
     (if lc_zone a \<noteq> None \<and> lc_zone a = lc_zone b then dt_us (lc_time a) = dt_us (lc_time b)
      else \<not> fold_dependent zone_info a \<and> \<not> fold_dependent zone_info b
        \<and> instant (lc_time a) = instant (lc_time b))"

section \<open>The sidecar\<close>

definition check_civil_times :: "zone_database \<Rightarrow> zone_rules \<Rightarrow> ClipSidecar \<Rightarrow> datetime \<Rightarrow> datetime \<Rightarrow> local_time
    \<Rightarrow> TimeAnchor \<Rightarrow> unit result" where
  "check_civil_times zone_info z sc start_utc end_utc start_local anc =
     bindR (utc_value start_utc) (\<lambda>su. bindR (utc_value end_utc) (\<lambda>eu.
     bindR (checks [invalid_if (dt_us eu \<le> dt_us su),
       invalid_if (\<bar>(dt_us eu - dt_us su) * 1000 - (sc_end_ns sc - sc_start_ns sc)\<bar> > MAX_DURATION_ROUNDING_ERROR_NS),
       invalid_if (dt_offset (lc_time start_local) = None)]) (\<lambda>_.
     bindR (local_of (sc_timezone sc) z su) (\<lambda>expected.
     checks [invalid_if (\<not> same_local zone_info start_local expected
                         \<or> dt_offset (lc_time start_local) \<noteq> dt_offset (lc_time expected)),
       (if sc_timestamp_quality sc = GPS_ANCHORED
        then invalid_if (ta_source anc \<noteq> ANCHOR_GPS \<or> sc_gps_time_state sc = UNSYNCED)
        else if sc_timestamp_quality sc = SYSTEM_DERIVED
        then invalid_if (ta_source anc \<noteq> ANCHOR_SYSTEM_CLOCK \<or> sc_system_clock_state sc \<noteq> SYNCHRONIZED)
        else Inr ())]))))"

definition check_times :: "zone_database \<Rightarrow> zone_rules \<Rightarrow> ClipSidecar \<Rightarrow> unit result" where
  "check_times zone_info z sc =
     (if sc_timestamp_quality sc = MONOTONIC_ONLY
      then invalid_if (sc_start_utc sc \<noteq> None \<or> sc_end_utc sc \<noteq> None \<or> sc_start_local sc \<noteq> None
             \<or> sc_time_anchor sc \<noteq> None \<or> sc_gps_time_state sc \<noteq> UNSYNCED \<or> gp_first_fix_utc (sc_gps sc) \<noteq> None)
      else (case (sc_start_utc sc, sc_end_utc sc, sc_start_local sc, sc_time_anchor sc) of
          (Some su, Some eu, Some sl, Some a) \<Rightarrow> check_civil_times zone_info z sc su eu sl a
        | _ \<Rightarrow> Inl MetadataValidationError))"

definition check_sample_utc :: "ClipSidecar \<Rightarrow> datetime option \<Rightarrow> unit result" where
  "check_sample_utc sc v = (case (v, sc_start_utc sc, sc_end_utc sc) of
     (Some u, Some su, Some eu) \<Rightarrow> bindR (utc_value u) (\<lambda>x. invalid_if (\<not> (dt_us su \<le> dt_us x \<and> dt_us x \<le> dt_us eu)))
   | _ \<Rightarrow> Inr ())"

fun check_window :: "ClipSidecar \<Rightarrow> int \<Rightarrow> GpsSample list \<Rightarrow> unit result" where
  "check_window sc previous [] = Inr ()"
| "check_window sc previous (g # gs) =
     bindR (checks [invalid_if (\<not> (sc_start_ns sc \<le> gs_monotonic_ns g \<and> gs_monotonic_ns g < sc_end_ns sc)),
       invalid_if (gs_monotonic_ns g < previous), check_sample_utc sc (gs_utc g)])
     (\<lambda>_. check_window sc (gs_monotonic_ns g) gs)"

definition check_first_fix :: "ClipSidecar \<Rightarrow> unit result" where
  "check_first_fix sc = (case (gp_first_fix_utc (sc_gps sc), sc_start_utc sc, sc_end_utc sc) of
     (Some f, Some su, Some eu) \<Rightarrow> invalid_if (\<not> (dt_us su \<le> dt_us f \<and> dt_us f \<le> dt_us eu))
   | _ \<Rightarrow> Inr ())"

definition check_protection :: "ClipSidecar \<Rightarrow> unit result" where
  "check_protection sc = (if sc_protected sc then check_required (check_text 128) (sc_protection_reason sc)
     else invalid_if (sc_protection_reason sc \<noteq> None))"

definition as_invalid :: "'a result \<Rightarrow> 'a result" where
  "as_invalid m = (case m of Inl e \<Rightarrow> Inl (if e = ClipNameError then MetadataValidationError else e) | Inr x \<Rightarrow> Inr x)"

definition check_name :: "ClipSidecar \<Rightarrow> ParsedClipName \<Rightarrow> unit result" where
  "check_name sc nm = checks [
     invalid_if (sc_timestamp_quality sc = MONOTONIC_ONLY \<and> \<not> provisional nm),
     invalid_if (sc_timestamp_quality sc \<noteq> MONOTONIC_ONLY \<and> provisional nm),
     (case (sc_start_utc sc, utc_started_at nm) of
        (Some su, Some nu) \<Rightarrow> bindR (utc_value su) (\<lambda>x.
          invalid_if (dt_us nu \<noteq> dt_us x - dt_us x mod 1000))
      | _ \<Rightarrow> Inr ())]"

definition check_sidecar :: "zone_database \<Rightarrow> ClipSidecar \<Rightarrow> unit result" where
  "check_sidecar zone_info sc =
     bindR (checks [invalid_if (sc_schema_version sc \<noteq> 1), check_integer 0 999999 (sc_sequence sc)]) (\<lambda>_.
     bindR (as_invalid (mk_clip_file_pair (video_file sc) (metadata_file sc))) (\<lambda>_.
     bindR (as_invalid (parse_clip_filename (video_file sc))) (\<lambda>nm.
     bindR (checks [invalid_if (pn_sequence nm \<noteq> sc_sequence sc), check_monotonic (sc_start_ns sc),
       check_monotonic (sc_end_ns sc), invalid_if (sc_end_ns sc \<le> sc_start_ns sc), check_name sc nm,
       check_text 128 (sc_timezone sc)]) (\<lambda>_.
     bindR (zone_or_invalid zone_info (sc_timezone sc)) (\<lambda>z. bindR (check_times zone_info z sc) (\<lambda>_.
       checks [check_window sc (sc_start_ns sc) (gp_samples (sc_gps sc)), check_first_fix sc, check_protection sc,
         check_text 128 (sc_software_version sc), invalid_if (length (sc_warnings sc) > MAX_WARNINGS),
         checks (map (check_text 256) (sc_warnings sc))]))))))"

section \<open>Lemmas\<close>

lemma invalid_if_ok [simp]: "invalid_if b = Inr () \<longleftrightarrow> \<not> b" "invalid_if False = Inr ()"
  by (simp_all add: invalid_if_def)

lemma checks_ok [simp]: "checks cs = Inr () \<longleftrightarrow> list_all (\<lambda>c. c = Inr ()) cs"
  by (induction cs) (auto simp: bindR_eq_Inr)

declare checks.simps [simp del]

lemma check_integer_ok [simp]: "check_integer lo hi v = Inr () \<longleftrightarrow> lo \<le> v \<and> v \<le> hi"
  by (simp add: check_integer_def)

lemma utc_value_eq: "utc_value d = Inr u \<longleftrightarrow> dt_offset d = Some 0 \<and> u = d"
  by (auto simp: utc_value_def)

lemma check_utc_ok [simp]: "check_utc d = Inr () \<longleftrightarrow> dt_offset d = Some 0"
  by (simp add: check_utc_def utc_value_def bindR_eq_Inr)

lemma check_option_ok: "check_option f v = Inr () \<longleftrightarrow> (\<forall>x. v = Some x \<longrightarrow> f x = Inr ())"
  by (cases v) (simp_all add: check_option_def)

lemma check_required_ok: "check_required f v = Inr () \<longleftrightarrow> (\<exists>x. v = Some x \<and> f x = Inr ())"
  by (cases v) (simp_all add: check_required_def)

lemma as_invalid_ok [simp]: "as_invalid m = Inr x \<longleftrightarrow> m = Inr x"
  by (cases m) (simp_all add: as_invalid_def)

text \<open>A constructed sidecar, read as one conjunction.\<close>

lemma check_sidecar_ok:
  "check_sidecar zone_info sc = Inr () \<longleftrightarrow> sc_schema_version sc = 1 \<and> 0 \<le> sc_sequence sc \<and> sc_sequence sc \<le> 999999
     \<and> is_ok (mk_clip_file_pair (video_file sc) (metadata_file sc))
     \<and> (\<exists>nm z. parse_clip_filename (video_file sc) = Inr nm \<and> zone_info (sc_timezone sc) = Inr z
          \<and> pn_sequence nm = sc_sequence sc \<and> check_monotonic (sc_start_ns sc) = Inr ()
          \<and> check_monotonic (sc_end_ns sc) = Inr () \<and> sc_start_ns sc < sc_end_ns sc \<and> check_name sc nm = Inr ()
          \<and> check_text 128 (sc_timezone sc) = Inr () \<and> check_times zone_info z sc = Inr ())
     \<and> check_window sc (sc_start_ns sc) (gp_samples (sc_gps sc)) = Inr () \<and> check_first_fix sc = Inr ()
     \<and> check_protection sc = Inr () \<and> check_text 128 (sc_software_version sc) = Inr ()
     \<and> length (sc_warnings sc) \<le> MAX_WARNINGS \<and> list_all (\<lambda>w. check_text 256 w = Inr ()) (sc_warnings sc)"
proof -
  have z: "zone_or_invalid zone_info n = Inr z \<longleftrightarrow> zone_info n = Inr z" for n z
    by (cases "zone_info n") (simp_all add: zone_or_invalid_def)
  have p: "is_ok m \<longleftrightarrow> (\<exists>x. m = Inr x)" for m :: "'b result"
    by (cases m) (simp_all add: is_ok_def)
  show ?thesis
    by (simp add: check_sidecar_def bindR_eq_Inr z p list.pred_map comp_def not_less not_le) blast
qed

section \<open>Instances\<close>

text \<open>
  A clip of one minute with one GPS fix, an anchor inside it, and a zone one hour ahead. In the zone
  \<^verbatim>\<open>Etc/Fold\<close> every wall-clock time occurs twice.
\<close>

definition ex_zones :: zone_database where
  "ex_zones name = (if name \<in> {''Etc/Test'', ''Etc/Fold''}
     then Inr \<lparr>zone_key = name, zone_at = (\<lambda>_. (3600, ''TST'', Some 0)), zone_folded = (\<lambda>_. name = ''Etc/Fold'')\<rparr>
     else Inl ZoneInfoNotFoundError)"

definition ex_sample :: GpsSample where
  "ex_sample = \<lparr>gs_monotonic_ns = 2000000000, gs_utc = None, gs_timestamp_quality = MONOTONIC_ONLY,
     gs_lat_deg = Some (Finite 32 0), gs_lon_deg = Some (Finite 139 2), gs_speed_mps = None, gs_course_deg = None,
     gs_altitude_m = None, gs_fix_quality = Some 1, gs_satellites = Some 7, gs_hdop = None\<rparr>"

definition ex_video :: VideoSummary where
  "ex_video = \<lparr>vi_codec = ''H264'', vi_width = 1920, vi_height = 1080, vi_fps_nominal = Finite 30 0,
     vi_target_bitrate_bps = 10000000, vi_measured_bitrate_bps = 9000000, vi_frames_written = 1800, vi_dropped_frames = 0\<rparr>"

definition ex_audio :: AudioSummary where
  "ex_audio = \<lparr>au_available = False, au_codec = None, au_sample_rate_hz = None, au_channels = None,
     au_target_bitrate_bps = None\<rparr>"

definition ex_clip :: ClipSidecar where
  "ex_clip = \<lparr>sc_schema_version = 1, sc_clip_id = UUID 7, sc_boot_id = UUID 0, sc_sequence = 4,
     video_file = ''boot-000000000000-000004.mp4'', metadata_file = ''boot-000000000000-000004.json'',
     sc_start_utc = None, sc_end_utc = None, sc_start_ns = 1000000000, sc_end_ns = 61000000000,
     sc_gps_time_state = UNSYNCED, sc_system_clock_state = UNSET, sc_timestamp_quality = MONOTONIC_ONLY,
     sc_time_anchor = None, sc_timezone = ''Etc/Test'', sc_start_local = None, sc_video = ex_video, sc_audio = ex_audio,
     sc_gps = \<lparr>gp_available = True, gp_first_fix_utc = None, gp_samples = [ex_sample]\<rparr>,
     sc_protected = False, sc_protection_reason = None, sc_software_version = ''1.0'', sc_warnings = []\<rparr>"

definition ex_anchor :: TimeAnchor where
  "ex_anchor = \<lparr>ta_source = ANCHOR_GPS, ta_monotonic_ns = 30000000123, ta_utc = \<lparr>dt_us = 63871545601234567, dt_offset = Some 0\<rparr>,
     ta_uncertainty_ns = 1000000, ta_provenance = ''NMEA''\<rparr>"

text \<open>The same clip with civil times, recorded at 22:30 UTC on the day the clocks are set back.\<close>

definition ex_anchored :: "string \<Rightarrow> ClipSidecar" where
  "ex_anchored tz = ex_clip\<lparr>video_file := ''20241027T223000.000Z_000000000000_s000004.mp4'',
     metadata_file := ''20241027T223000.000Z_000000000000_s000004.json'',
     sc_start_utc := Some \<lparr>dt_us = 63865665000000000, dt_offset = Some 0\<rparr>, sc_end_utc := Some \<lparr>dt_us = 63865665060000000, dt_offset = Some 0\<rparr>,
     sc_gps_time_state := GPS_TIME_VALID, sc_timestamp_quality := GPS_ANCHORED,
     sc_time_anchor := Some (ex_anchor\<lparr>ta_utc := \<lparr>dt_us = 63865665000000000, dt_offset = Some 0\<rparr>\<rparr>), sc_timezone := tz,
     sc_start_local := Some \<lparr>lc_time = \<lparr>dt_us = 63865668600000000, dt_offset = Some 3600000000\<rparr>, lc_zone = Some tz\<rparr>,
     sc_gps := \<lparr>gp_available = False, gp_first_fix_utc = None, gp_samples = []\<rparr>\<rparr>"

lemma ex_clip_ok: "check_sidecar ex_zones ex_clip = Inr ()" "check_gps (sc_gps ex_clip) = Inr ()"
  "list_all (\<lambda>g. check_sample g = Inr ()) (gp_samples (sc_gps ex_clip))" "check_anchor ex_anchor = Inr ()"
  by code_simp+

lemma float_tenth: "float_of_ratio 1 10 = Finite 7205759403792794 56"
  by (simp add: float_of_ratio_def binary_scale_def scaled_def round_quotient_def bit_count.simps Let_def)

lemma ex_video_ok: "check_video ex_video = Inr ()"
proof -
  have "check_text 32 (vi_codec ex_video) = Inr ()" by code_simp
  then show ?thesis
    by (simp add: check_video_def ex_video_def float_tenth [simplified] check_finite_def check_monotonic_def MAX_MONOTONIC_NS_def)
qed

end
