(* ===== verification/Catalog_Reconcile.thy ===== *)
theory Catalog_Reconcile
  imports Catalog_Ops Metadata_Schema
begin

text \<open>
  The part of \<^verbatim>\<open>src/dashcam/catalog/database.py\<close> that moves files: completion of an intent,
  \<^verbatim>\<open>reconcile_intent\<close> and name reconciliation.

  \<^item> The filesystem is an argument of type \<open>'f CatalogFilesystem\<close> and its state is threaded
    through; an exception keeps the filesystem state it was raised in, while the catalog is
    rolled back.
  \<^item> \<open>parse_sidecar\<close> stands for \<^verbatim>\<open>parse_sidecar_bytes\<close>, \<open>canonical\<close> for
    \<^verbatim>\<open>ClipSidecar.to_canonical_json\<close> and \<open>sha256\<close> for \<^verbatim>\<open>hashlib.sha256(...).hexdigest()\<close>. They
    are parameters and no theorem assumes anything of them. \<open>ClipSidecar\<close> is the value of
    \<open>Metadata_Schema\<close>; its parser up to the text of the JSON document is in \<open>Sidecar_Codec\<close>.
\<close>

section \<open>Effects\<close>

definition bindF :: "'a result \<times> 'f \<Rightarrow> ('a \<Rightarrow> 'f \<Rightarrow> 'b result \<times> 'f) \<Rightarrow> 'b result \<times> 'f" where
  "bindF m k = (case m of (Inl e, s) \<Rightarrow> (Inl e, s) | (Inr x, s) \<Rightarrow> k x s)"

definition is_os_error :: "exn \<Rightarrow> bool" where
  "is_os_error e = (e \<in> {OSError, FileExistsError, FileNotFoundError})"

definition is_value_error :: "exn \<Rightarrow> bool" where
  "is_value_error e = (e \<in> {ValueError, ClipNameError, DownloadLeaseError, StateTransitionError,
     MetadataValidationError, MetadataReconciliationError})"

definition catch_as :: "(exn \<Rightarrow> bool) \<Rightarrow> 'a \<Rightarrow> 'a result \<times> 'f \<Rightarrow> 'a result \<times> 'f" where
  "catch_as caught v m = (case m of (Inl e, s) \<Rightarrow> (if caught e then Inr v else Inl e, s) | (Inr x, s) \<Rightarrow> (Inr x, s))"

fun loopF :: "('a \<Rightarrow> 'f \<Rightarrow> unit result \<times> 'f) \<Rightarrow> 'a list \<Rightarrow> 'f \<Rightarrow> unit result \<times> 'f" where
  "loopF f [] s = (Inr (), s)"
| "loopF f (x # xs) s = bindF (f x s) (\<lambda>_. loopF f xs)"

section \<open>Sidecars\<close>

type_synonym sidecar_parser = "bytes \<Rightarrow> ClipSidecar result"

definition MAX_SIDECAR_BYTES :: int where
  "MAX_SIDECAR_BYTES = 512 * 1024"

definition sidecar_error :: "exn \<Rightarrow> bool" where
  "sidecar_error e = (is_os_error e \<or> is_value_error e \<or> e = SidecarParseError)"

definition names_of :: "ClipSidecar \<Rightarrow> uuid \<Rightarrow> string \<Rightarrow> string \<Rightarrow> bool" where
  "names_of sc k video sidecar = (sc_clip_id sc = k \<and> video_file sc = path_name video
     \<and> metadata_file sc = path_name sidecar)"

definition validate_finalize_sidecar :: "'f CatalogFilesystem \<Rightarrow> sidecar_parser \<Rightarrow> OperationIntent
    \<Rightarrow> string \<Rightarrow> 'f \<Rightarrow> ProblemCode option result \<times> 'f" where
  "validate_finalize_sidecar fs parse_sidecar intent path s =
     catch_as sidecar_error (Some INVALID_FINALIZE_SIDECAR)
       (bindF (fs_read_bytes fs path MAX_SIDECAR_BYTES s) (\<lambda>raw s1.
        case parse_sidecar raw of Inl e \<Rightarrow> (Inl e, s1) | Inr sc \<Rightarrow>
        (case (video_target (oi_paths intent), sidecar_target (oi_paths intent)) of
           (Some vt, Some st) \<Rightarrow>
             (Inr (if names_of sc (oi_clip_id intent) vt st then None
                   else Some FINALIZE_SIDECAR_IDENTITY_MISMATCH), s1)
         | _ \<Rightarrow> (Inl AssertionError, s1))))"

definition is_sha256_text :: "string \<Rightarrow> bool" where
  "is_sha256_text h = (length h = 64 \<and> list_all is_hex_lower h)"

definition install_target_sidecar :: "'f CatalogFilesystem \<Rightarrow> sidecar_parser \<Rightarrow> (bytes \<Rightarrow> string)
    \<Rightarrow> OperationIntent \<Rightarrow> bytes \<Rightarrow> string \<Rightarrow> 'f \<Rightarrow> ProblemCode option result \<times> 'f" where
  "install_target_sidecar fs parse_sidecar sha256 intent raw_payload raw_source_hash s =
     (let src = sidecar_source (oi_paths intent) in
      bindF (fs_read_bytes fs src MAX_SIDECAR_BYTES s) (\<lambda>current s1.
      if current = raw_payload then (Inr None, s1)
      else if sha256 current \<noteq> raw_source_hash then (Inr (Some NAME_RECONCILIATION_SOURCE_CHANGED), s1)
      else case parse_sidecar current of Inl e \<Rightarrow> (Inl e, s1) | Inr sc \<Rightarrow>
      if \<not> names_of sc (oi_clip_id intent) (video_source (oi_paths intent)) src
      then (Inr (Some NAME_RECONCILIATION_SOURCE_IDENTITY_MISMATCH), s1)
      else bindF (fs_replace_bytes_atomic fs src raw_payload MAX_SIDECAR_BYTES s1) (\<lambda>_ s2.
      bindF (fs_read_bytes fs src MAX_SIDECAR_BYTES s2) (\<lambda>back s3.
        (Inr (if back = raw_payload then None
              else Some NAME_RECONCILIATION_REPLACE_READBACK_MISMATCH), s3)))))"

definition prepare_name_reconciliation_sidecar :: "'f CatalogFilesystem \<Rightarrow> sidecar_parser
    \<Rightarrow> (bytes \<Rightarrow> string) \<Rightarrow> OperationIntent \<Rightarrow> intent_row \<Rightarrow> 'f \<Rightarrow> ProblemCode option result \<times> 'f" where
  "prepare_name_reconciliation_sidecar fs parse_sidecar sha256 intent row s =
     (case (reconciliation_sidecar row, reconciliation_source_sha256 row) of
        (Some raw_payload, Some raw_source_hash) \<Rightarrow>
          if raw_payload = [] \<or> int (length raw_payload) > MAX_SIDECAR_BYTES
             \<or> \<not> is_sha256_text raw_source_hash
          then (Inr (Some NAME_RECONCILIATION_RECOVERY_DATA_MISSING), s)
          else catch_as sidecar_error (Some INVALID_NAME_RECONCILIATION_SIDECAR)
            (case parse_sidecar raw_payload of Inl e \<Rightarrow> (Inl e, s) | Inr target_sidecar \<Rightarrow>
             (case (video_target (oi_paths intent), sidecar_target (oi_paths intent)) of
                (Some vt, Some st) \<Rightarrow>
                  if \<not> names_of target_sidecar (oi_clip_id intent) vt st
                  then (Inr (Some NAME_RECONCILIATION_TARGET_IDENTITY_MISMATCH), s)
                  else bindF (fs_exists fs (sidecar_source (oi_paths intent)) s) (\<lambda>at_source s1.
                    if at_source
                    then install_target_sidecar fs parse_sidecar sha256 intent raw_payload raw_source_hash s1
                    else bindF (fs_exists fs st s1) (\<lambda>at_target s2.
                      if at_target
                      then bindF (fs_read_bytes fs st MAX_SIDECAR_BYTES s2) (\<lambda>raw s3.
                             (Inr (if raw = raw_payload then None
                                   else Some NAME_RECONCILIATION_TARGET_PAYLOAD_MISMATCH), s3))
                      else (Inr None, s2)))
              | _ \<Rightarrow> (Inl TypeError, s)))
      | _ \<Rightarrow> (Inr (Some NAME_RECONCILIATION_RECOVERY_DATA_MISSING), s))"

definition register_name_reconciliation :: "(ClipSidecar \<Rightarrow> bytes) \<Rightarrow> (bytes \<Rightarrow> string)
    \<Rightarrow> OperationIntent \<Rightarrow> ClipSidecar \<Rightarrow> ClipSidecar \<Rightarrow> int \<Rightarrow> uuid transaction" where
  "register_name_reconciliation canonical sha256 intent plan_sidecar source_sidecar now c =
     bindR (non_negative_integer now) (\<lambda>_.
     if oi_kind intent \<noteq> RECONCILE_NAME then Inl CatalogConflictError
     else (case (video_target (oi_paths intent), sidecar_target (oi_paths intent)) of
        (Some vt, Some st) \<Rightarrow>
     let vs = video_source (oi_paths intent); ss = sidecar_source (oi_paths intent) in
     if created_monotonic_ns intent \<noteq> now
        \<or> sc_clip_id source_sidecar \<noteq> sc_clip_id plan_sidecar
        \<or> \<not> names_of source_sidecar (oi_clip_id intent) vs ss
        \<or> video_file plan_sidecar \<noteq> path_name vt \<or> metadata_file plan_sidecar \<noteq> path_name st
        \<or> sc_start_ns source_sidecar \<noteq> sc_start_ns plan_sidecar
        \<or> sc_end_ns source_sidecar \<noteq> sc_end_ns plan_sidecar
     then Inl CatalogConflictError
     else if int (length (canonical source_sidecar)) > MAX_SIDECAR_BYTES
        \<or> int (length (canonical plan_sidecar)) > MAX_SIDECAR_BYTES then Inl CatalogConflictError
     else bindR (as_conflict (parse_clip_filename (video_file source_sidecar))) (\<lambda>source_name.
     bindR (as_conflict (parse_clip_filename (video_file plan_sidecar))) (\<lambda>target_name.
     if partial source_name \<or> \<not> provisional source_name \<or> provisional target_name
        \<or> partial target_name \<or> pn_boot_id source_name \<noteq> pn_boot_id target_name
        \<or> pn_sequence source_name \<noteq> pn_sequence target_name then Inl CatalogConflictError
     else bindR (required_clip_row c (oi_clip_id intent)) (\<lambda>row.
     if cc_lifecycle row \<noteq> FINALIZED \<or> \<not> cc_pair_reconciled row \<or> \<not> cc_managed row
        \<or> cc_download_lease row \<noteq> None \<or> video_path row \<noteq> vs \<or> sidecar_path row \<noteq> ss
        \<or> pending_intent_row c (oi_clip_id intent) \<noteq> None then Inl CatalogConflictError
     else if path_parent ss \<noteq> path_parent vs \<or> path_parent vt \<noteq> path_parent vs
        \<or> path_parent st \<noteq> path_parent vs \<or> path_parent vs \<notin> {''clips'', ''protected''}
     then Inl CatalogConflictError
     else bindR (insert_intent_row (row_of_intent intent None (Some (canonical plan_sidecar))
                   (Some (sha256 (canonical source_sidecar)))) c) (\<lambda>c1.
       Inr (intent_id intent, mark_unreconciled (oi_clip_id intent) now c1)))))
      | _ \<Rightarrow> Inl TypeError))"

section \<open>Completion\<close>

definition mark_intent_complete :: "uuid \<Rightarrow> int \<Rightarrow> catalog \<Rightarrow> catalog" where
  "mark_intent_complete iid now = update_intent iid (\<lambda>i. i\<lparr>ir_status := COMPLETE,
     last_problem := None, completed_monotonic_ns := Some now\<rparr>)"

text \<open>Queue the compensating protect move after another move ended outside \<^verbatim>\<open>protected/\<close>.\<close>

definition requeue_protect :: "uuid \<Rightarrow> string \<Rightarrow> string \<Rightarrow> int \<Rightarrow> catalog \<Rightarrow> catalog result" where
  "requeue_protect k vt st now c =
     bindR (move_paths vt st ''protected'') (\<lambda>ps.
     bindR (insert_intent_locked k PROTECT ps now None c) (\<lambda>(_, c1). Inr c1))"

definition complete_delete :: "OperationIntent \<Rightarrow> int \<Rightarrow> catalog \<Rightarrow> catalog" where
  "complete_delete intent now c = mark_intent_complete (intent_id intent) now
     (update_clip (oi_clip_id intent) (\<lambda>r. r\<lparr>cc_lifecycle := DELETED, cc_pair_reconciled := True,
        cc_size_bytes := 0, cc_download_lease := None, lease_boot_id := None,
        updated_catalog_ns := now\<rparr>) c)"

definition newer_protection :: "intent_row \<Rightarrow> clip_row \<Rightarrow> bool" where
  "newer_protection i clip = (case expected_protection_revision i of None \<Rightarrow> True
     | Some n \<Rightarrow> protection_revision clip > n)"

definition unprotected_row :: "bool \<Rightarrow> string \<Rightarrow> string \<Rightarrow> int \<Rightarrow> clip_row \<Rightarrow> clip_row" where
  "unprotected_row newer vt st now r = r\<lparr>video_path := vt, sidecar_path := st, cc_protected := newer,
     protection_reason := (if newer then protection_reason r else None),
     cc_pair_reconciled := \<not> newer, updated_catalog_ns := now\<rparr>"

definition complete_unprotect :: "OperationIntent \<Rightarrow> string \<Rightarrow> string \<Rightarrow> int \<Rightarrow> catalog \<Rightarrow> catalog result" where
  "complete_unprotect intent vt st now c =
     (case row_get ir_intent_id (intent_id intent) (operation_intents c) of
        None \<Rightarrow> Inl AssertionError
      | Some irow \<Rightarrow> bindR (required_clip_row c (oi_clip_id intent)) (\<lambda>clip.
          let newer = newer_protection irow clip;
              c1 = update_clip (oi_clip_id intent) (unprotected_row newer vt st now) c;
              c2 = mark_intent_complete (intent_id intent) now c1
          in if newer then requeue_protect (oi_clip_id intent) vt st now c2 else Inr c2))"

definition complete_protect :: "OperationIntent \<Rightarrow> string \<Rightarrow> string \<Rightarrow> int \<Rightarrow> catalog \<Rightarrow> catalog" where
  "complete_protect intent vt st now c = mark_intent_complete (intent_id intent) now
     (update_clip (oi_clip_id intent) (\<lambda>r. r\<lparr>video_path := vt, sidecar_path := st,
        cc_protected := True, cc_pair_reconciled := True, updated_catalog_ns := now\<rparr>) c)"

definition promoted_row :: "bool \<Rightarrow> string \<Rightarrow> string \<Rightarrow> int \<Rightarrow> clip_row \<Rightarrow> clip_row" where
  "promoted_row needs_move vt st now r = r\<lparr>video_path := vt, sidecar_path := st,
     cc_pair_reconciled := \<not> needs_move, cc_lifecycle := FINALIZED, updated_catalog_ns := now\<rparr>"

definition complete_promotion :: "OperationIntent \<Rightarrow> string \<Rightarrow> string \<Rightarrow> int \<Rightarrow> catalog \<Rightarrow> catalog result" where
  "complete_promotion intent vt st now c =
     bindR (required_clip_row c (oi_clip_id intent)) (\<lambda>clip.
       let needs_protect_move = (cc_protected clip \<and> path_parent vt \<noteq> ''protected'');
           c1 = update_clip (oi_clip_id intent) (promoted_row needs_protect_move vt st now) c;
           c2 = mark_intent_complete (intent_id intent) now c1
       in if needs_protect_move then requeue_protect (oi_clip_id intent) vt st now c2 else Inr c2)"

definition complete_intent_locked :: "OperationIntent \<Rightarrow> int \<Rightarrow> catalog \<Rightarrow> catalog result" where
  "complete_intent_locked intent now c =
     (if oi_kind intent = DELETE then Inr (complete_delete intent now c)
      else case (video_target (oi_paths intent), sidecar_target (oi_paths intent)) of
        (Some vt, Some st) \<Rightarrow>
          if oi_kind intent = UNPROTECT then complete_unprotect intent vt st now c
          else if oi_kind intent = PROTECT then Inr (complete_protect intent vt st now c)
          else complete_promotion intent vt st now c
      | _ \<Rightarrow> Inl AssertionError)"

section \<open>Carrying out one intent\<close>

definition observe_optional :: "'f CatalogFilesystem \<Rightarrow> string option \<Rightarrow> 'f \<Rightarrow> bool result \<times> 'f" where
  "observe_optional fs p s = (case p of None \<Rightarrow> (Inr False, s) | Some q \<Rightarrow> fs_exists fs q s)"

definition observe_plan :: "'f CatalogFilesystem \<Rightarrow> OperationIntent \<Rightarrow> 'f
    \<Rightarrow> ReconciliationPlan result \<times> 'f" where
  "observe_plan fs intent s =
     (let ps = oi_paths intent in
      bindF (observe_optional fs (video_target ps) s) (\<lambda>vt s1.
      bindF (observe_optional fs (sidecar_target ps) s1) (\<lambda>st s2.
      bindF (fs_exists fs (video_source ps) s2) (\<lambda>vs s3.
      bindF (fs_exists fs (sidecar_source ps) s3) (\<lambda>ss s4.
        (Inr (plan_reconciliation intent \<lparr>source_exists = vs, target_exists = vt\<rparr>
                \<lparr>source_exists = ss, target_exists = st\<rparr>), s4))))))"

definition validate_sidecars :: "'f CatalogFilesystem \<Rightarrow> sidecar_parser \<Rightarrow> (bytes \<Rightarrow> string)
    \<Rightarrow> OperationIntent \<Rightarrow> intent_row \<Rightarrow> 'f \<Rightarrow> ProblemCode option result \<times> 'f" where
  "validate_sidecars fs parse_sidecar sha256 intent row s =
     (if oi_kind intent = RECONCILE_NAME
      then prepare_name_reconciliation_sidecar fs parse_sidecar sha256 intent row s
      else if oi_kind intent = FINALIZE
      then bindF (fs_exists fs (sidecar_source (oi_paths intent)) s) (\<lambda>at_source s1.
             case (if at_source then Some (sidecar_source (oi_paths intent))
                   else sidecar_target (oi_paths intent)) of
               None \<Rightarrow> (Inl AssertionError, s1)
             | Some path \<Rightarrow> validate_finalize_sidecar fs parse_sidecar intent path s1)
      else (Inr None, s))"

text \<open>
  For a DELETE, absence of a member after an interrupted unlink is confirmed through the
  idempotent unlink, which fsyncs the verified parent.
\<close>

definition confirm_absent :: "'f CatalogFilesystem \<Rightarrow> OperationIntent \<Rightarrow> ReconciliationPlan \<Rightarrow> 'f
    \<Rightarrow> unit result \<times> 'f" where
  "confirm_absent fs intent plan s =
     (if oi_kind intent = DELETE
      then loopF (fs_unlink fs) (filter (\<lambda>p. p \<notin> set (map ra_source (actions plan)))
             [video_source (oi_paths intent), sidecar_source (oi_paths intent)]) s
      else (Inr (), s))"

definition run_action :: "'f CatalogFilesystem \<Rightarrow> ReconciliationAction \<Rightarrow> 'f \<Rightarrow> unit result \<times> 'f" where
  "run_action fs a s = (case ra_kind a of
       MOVE \<Rightarrow> (case ra_target a of None \<Rightarrow> (Inl AssertionError, s)
                | Some t \<Rightarrow> fs_move fs (ra_source a) t s)
     | UNLINK \<Rightarrow> fs_unlink fs (ra_source a) s)"

definition set_last_problem :: "uuid \<Rightarrow> ProblemCode list option \<Rightarrow> catalog \<Rightarrow> catalog" where
  "set_last_problem iid p = update_intent iid (\<lambda>i. i\<lparr>last_problem := p\<rparr>)"

definition reconcile_body :: "'f CatalogFilesystem \<Rightarrow> sidecar_parser \<Rightarrow> (bytes \<Rightarrow> string)
    \<Rightarrow> intent_row \<Rightarrow> OperationIntent \<Rightarrow> int \<Rightarrow> int \<Rightarrow> catalog \<Rightarrow> 'f
    \<Rightarrow> (IntentReconciliationResult \<times> catalog) result \<times> 'f" where
  "reconcile_body fs parse_sidecar sha256 row intent now max_actions c s =
     (let iid = intent_id intent;
          res = (\<lambda>n ok ps. \<lparr>irr_intent = intent, actions_attempted = n, irr_complete = ok, irr_problems = ps\<rparr>)
      in bindF (observe_plan fs intent s) (\<lambda>plan s1.
      if problems plan \<noteq> []
      then let ps = map rp_code (problems plan)
           in (Inr (res 0 False ps, set_last_problem iid (Some ps) c), s1)
      else bindF (validate_sidecars fs parse_sidecar sha256 intent row s1) (\<lambda>problem s2.
      (case problem of
         Some p \<Rightarrow> (Inr (res 0 False [p], set_last_problem iid (Some [p]) c), s2)
       | None \<Rightarrow>
      bindF (confirm_absent fs intent plan s2) (\<lambda>_ s3.
      let todo = take (nat max_actions) (actions plan) in
      bindF (loopF (run_action fs) todo s3) (\<lambda>_ s4.
      bindF (observe_plan fs intent s4) (\<lambda>final_plan s5.
      let ps = map rp_code (problems final_plan); n = int (length todo) in
      if complete final_plan
      then (case complete_intent_locked intent now c of Inl e \<Rightarrow> (Inl e, s5)
            | Inr c' \<Rightarrow> (Inr (res n True ps, c'), s5))
      else (Inr (res n False ps, set_last_problem iid (if ps = [] then None else Some ps) c), s5))))))))"

definition reconcile_intent :: "'f CatalogFilesystem \<Rightarrow> sidecar_parser \<Rightarrow> (bytes \<Rightarrow> string)
    \<Rightarrow> uuid \<Rightarrow> int \<Rightarrow> int \<Rightarrow> catalog \<times> 'f \<Rightarrow> IntentReconciliationResult result \<times> (catalog \<times> 'f)" where
  "reconcile_intent fs parse_sidecar sha256 iid now max_actions cs =
     (case cs of (c, s) \<Rightarrow>
      (case (case bindR (non_negative_integer now) (\<lambda>_. bindR (positive_integer max_actions) (\<lambda>_.
               case row_get ir_intent_id iid (operation_intents c) of
                 None \<Rightarrow> Inl CatalogConflictError
               | Some row \<Rightarrow> bindR (intent_from_row row) (\<lambda>intent. Inr (row, intent)))) of
         Inl e \<Rightarrow> (Inl e, s)
       | Inr (row, intent) \<Rightarrow>
           if ir_status row = COMPLETE
           then (Inr (\<lparr>irr_intent = intent, actions_attempted = 0, irr_complete = True, irr_problems = []\<rparr>, c), s)
           else reconcile_body fs parse_sidecar sha256 row intent now max_actions c s) of
         (Inl e, s') \<Rightarrow> (Inl e, (c, s'))
       | (Inr (r, c'), s') \<Rightarrow> (Inr r, (c', s'))))"

end
