(* ===== verification/Catalog_Inv.thy ===== *)
theory Catalog_Inv
  imports Catalog_Reconcile
begin

text \<open>
  The catalog's structural invariant and that every transaction keeps it. The invariant has
  the integrity constraints of the schema (keys, unique indexes, foreign keys, row checks)
  and what the code maintains beyond them: every stored intent can be read back, a pending
  DELETE belongs to an unprotected unleased \<^verbatim>\<open>DELETING\<close> clip whose two files are in
  \<^verbatim>\<open>clips/\<close>, a \<^verbatim>\<open>DELETING\<close> clip has no other pending intent, and a deleted clip has none.
\<close>

section \<open>The invariant\<close>

definition intent_row_ok :: "intent_row \<Rightarrow> bool" where
  "intent_row_ok i = is_ok (intent_from_row i)"

definition link_ok :: "intent_row \<Rightarrow> clip_row \<Rightarrow> bool" where
  "link_ok i r = (cc_lifecycle r \<noteq> DELETED
     \<and> (cc_lifecycle r = DELETING \<longrightarrow> ir_kind i = DELETE)
     \<and> (ir_kind i = DELETE \<longrightarrow> cc_lifecycle r = DELETING \<and> \<not> cc_protected r
          \<and> cc_download_lease r = None
          \<and> video_source (ir_paths i) = video_path r \<and> sidecar_source (ir_paths i) = sidecar_path r
          \<and> path_parent (video_path r) = ''clips'' \<and> path_parent (sidecar_path r) = ''clips''))"

definition catalog_inv :: "catalog \<Rightarrow> bool" where
  "catalog_inv c = (distinct (map cc_clip_id (clips c))
     \<and> distinct (map cc_retention_order (clips c))
     \<and> distinct (map ir_intent_id (operation_intents c))
     \<and> distinct (map ir_clip_id (filter is_pending (operation_intents c)))
     \<and> (\<forall>i \<in> set (operation_intents c). ir_clip_id i \<in> set (map cc_clip_id (clips c)) \<and> intent_row_ok i)
     \<and> (\<forall>r \<in> set (clips c). check_clip_row r)
     \<and> (\<forall>r \<in> set (clips c). \<forall>i \<in> set (operation_intents c).
          is_pending i \<and> ir_clip_id i = cc_clip_id r \<longrightarrow> link_ok i r))"

definition pair_paths_ok :: "PairPaths \<Rightarrow> bool" where
  "pair_paths_ok ps =
     (mk_pair_paths (video_source ps) (sidecar_source ps) (video_target ps) (sidecar_target ps) = Inr ps)"

definition operation_intent_ok :: "OperationIntent \<Rightarrow> bool" where
  "operation_intent_ok i = (pair_paths_ok (oi_paths i)
     \<and> mk_operation_intent (intent_id i) (oi_clip_id i) (oi_kind i) (created_monotonic_ns i) (oi_paths i) 1 = Inr i)"

lemma catalog_invD:
  assumes "catalog_inv c"
  shows inv_ids: "distinct (map cc_clip_id (clips c))"
    and inv_orders: "distinct (map cc_retention_order (clips c))"
    and inv_iids: "distinct (map ir_intent_id (operation_intents c))"
    and inv_pending: "distinct (map ir_clip_id (filter is_pending (operation_intents c)))"
    and inv_refs: "i \<in> set (operation_intents c) \<Longrightarrow> ir_clip_id i \<in> set (map cc_clip_id (clips c)) \<and> intent_row_ok i"
    and inv_checks: "r \<in> set (clips c) \<Longrightarrow> check_clip_row r"
    and inv_links: "r \<in> set (clips c) \<Longrightarrow> i \<in> set (operation_intents c) \<Longrightarrow> is_pending i
      \<Longrightarrow> ir_clip_id i = cc_clip_id r \<Longrightarrow> link_ok i r"
  using assms unfolding catalog_inv_def by blast+

lemma catalog_invI:
  assumes "distinct (map cc_clip_id (clips c))" "distinct (map cc_retention_order (clips c))"
    "distinct (map ir_intent_id (operation_intents c))"
    "distinct (map ir_clip_id (filter is_pending (operation_intents c)))"
    "\<And>i. i \<in> set (operation_intents c) \<Longrightarrow> ir_clip_id i \<in> set (map cc_clip_id (clips c)) \<and> intent_row_ok i"
    "\<And>r. r \<in> set (clips c) \<Longrightarrow> check_clip_row r"
    "\<And>r i. r \<in> set (clips c) \<Longrightarrow> i \<in> set (operation_intents c) \<Longrightarrow> is_pending i
      \<Longrightarrow> ir_clip_id i = cc_clip_id r \<Longrightarrow> link_ok i r"
  shows "catalog_inv c"
  using assms unfolding catalog_inv_def by blast

section \<open>Reading rows\<close>

lemma find_clip_Some_iff:
  "catalog_inv c \<Longrightarrow> find_clip c k = Some r \<longleftrightarrow> r \<in> set (clips c) \<and> cc_clip_id r = k"
  by (simp add: find_clip_def clip_table.get_Some_iff catalog_inv_def)

lemma required_clip_rowD:
  "required_clip_row c k = Inr r \<Longrightarrow> find_clip c k = Some r \<and> r \<in> set (clips c) \<and> cc_clip_id r = k"
  by (auto simp: required_clip_row_def find_clip_def split: option.splits dest: clip_table.get_SomeD)

lemma unique_row:
  "catalog_inv c \<Longrightarrow> r \<in> set (clips c) \<Longrightarrow> r' \<in> set (clips c) \<Longrightarrow> cc_clip_id r = cc_clip_id r' \<Longrightarrow> r = r'"
  unfolding catalog_inv_def by (auto simp: distinct_map dest: inj_onD)

lemma pending_intent_rowD:
  "pending_intent_row c k = Some i \<Longrightarrow> i \<in> set (operation_intents c) \<and> is_pending i \<and> ir_clip_id i = k"
  by (auto simp: pending_intent_row_def find_Some_iff)

lemma pending_None_iff:
  "pending_intent_row c k = None
   \<longleftrightarrow> (\<forall>i \<in> set (operation_intents c). is_pending i \<longrightarrow> ir_clip_id i \<noteq> k)"
  by (auto simp: pending_intent_row_def find_None_iff)

lemma pending_unique:
  assumes "catalog_inv c" "i \<in> set (operation_intents c)" "j \<in> set (operation_intents c)"
    "is_pending i" "is_pending j" "ir_clip_id i = ir_clip_id j"
  shows "i = j"
  using assms unfolding catalog_inv_def by (auto simp: distinct_map dest: inj_onD)

lemma pending_Some_iff:
  assumes "catalog_inv c"
  shows "pending_intent_row c k = Some i
     \<longleftrightarrow> i \<in> set (operation_intents c) \<and> is_pending i \<and> ir_clip_id i = k"
proof
  assume i: "i \<in> set (operation_intents c) \<and> is_pending i \<and> ir_clip_id i = k"
  then obtain j where "pending_intent_row c k = Some j"
    using pending_None_iff [of c k] by fastforce
  with i pending_unique [OF assms] show "pending_intent_row c k = Some i"
    by (metis pending_intent_rowD)
qed (rule pending_intent_rowD)

lemma linkD:
  "catalog_inv c \<Longrightarrow> find_clip c k = Some r \<Longrightarrow> pending_intent_row c k = Some i \<Longrightarrow> link_ok i r"
  using pending_intent_rowD [of c k i] inv_links [of c r i] find_clip_Some_iff [of c k r] by simp

lemma checkD: "catalog_inv c \<Longrightarrow> r \<in> set (clips c) \<Longrightarrow> check_clip_row r"
  by (simp add: catalog_inv_def)

lemma catalog_inv_cong:
  "clips c' = clips c \<Longrightarrow> operation_intents c' = operation_intents c \<Longrightarrow> catalog_inv c' = catalog_inv c"
  by (simp add: catalog_inv_def)

lemma pending_cong: "operation_intents c' = operation_intents c \<Longrightarrow> pending_intent_row c' k = pending_intent_row c k"
  by (simp add: pending_intent_row_def)

section \<open>Single changes\<close>

lemma clips_update [simp]:
  "clips (update_clip k f c) = row_update cc_clip_id k f (clips c)"
  "operation_intents (update_clip k f c) = operation_intents c"
  "protection_events (update_clip k f c) = protection_events c"
  "protection_event_targets (update_clip k f c) = protection_event_targets c"
  "clips (update_intent j g c) = clips c"
  "operation_intents (update_intent j g c) = row_update ir_intent_id j g (operation_intents c)"
  "clips (update_event e h c) = clips c"
  "operation_intents (update_event e h c) = operation_intents c"
  by (simp_all add: update_clip_def update_intent_def update_event_def)

lemma row_update_keeps:
  "(\<And>r. g (f r) = g r) \<Longrightarrow> map g (row_update key k f rows) = map g rows"
  by (auto simp: row_update_def)

lemma inv_update_clip:
  assumes inv: "catalog_inv c"
    and ids: "\<And>r. cc_clip_id (f r) = cc_clip_id r" "\<And>r. cc_retention_order (f r) = cc_retention_order r"
    and check: "\<And>r. find_clip c k = Some r \<Longrightarrow> check_clip_row (f r)"
    and link: "\<And>r i. find_clip c k = Some r \<Longrightarrow> pending_intent_row c k = Some i \<Longrightarrow> link_ok i r \<Longrightarrow> link_ok i (f r)"
  shows "catalog_inv (update_clip k f c)"
proof -
  have rows: "\<exists>q \<in> set (clips c). r = (if cc_clip_id q = k then f q else q)"
    if "r \<in> set (clips (update_clip k f c))" for r
    using that by (simp add: clip_table.in_update_iff)
  have "check_clip_row r" if "r \<in> set (clips (update_clip k f c))" for r
    using rows [OF that] check find_clip_Some_iff [OF inv] checkD [OF inv] by (auto split: if_splits)
  moreover have "link_ok i r" if r: "r \<in> set (clips (update_clip k f c))"
    and i: "i \<in> set (operation_intents c)" "is_pending i" "ir_clip_id i = cc_clip_id r" for r i
  proof -
    obtain q where q: "q \<in> set (clips c)" "r = (if cc_clip_id q = k then f q else q)"
      using rows [OF r] by blast
    have "cc_clip_id q = cc_clip_id r"
      using q(2) ids(1) by simp
    then have lq: "link_ok i q" "pending_intent_row c (cc_clip_id q) = Some i" "find_clip c (cc_clip_id q) = Some q"
      using inv i q(1) pending_Some_iff [OF inv] find_clip_Some_iff [OF inv]
      unfolding catalog_inv_def by auto
    show ?thesis
      using q(2) lq link by auto
  qed
  ultimately show ?thesis
    using inv row_update_keeps [of cc_clip_id f cc_clip_id k "clips c"]
      row_update_keeps [of cc_retention_order f cc_clip_id k "clips c"] ids
    unfolding catalog_inv_def by (simp del: set_map add: set_map [symmetric])
qed

text \<open>Inserting a pending intent and then updating its clip, with the link checked at the end.\<close>

lemma inv_insert_then_update:
  assumes inv: "catalog_inv c" and ins: "insert_intent_row i c = Inr c'"
    and pend: "is_pending i" "intent_row_ok i"
    and ids: "\<And>r. cc_clip_id (f r) = cc_clip_id r" "\<And>r. cc_retention_order (f r) = cc_retention_order r"
    and row: "\<And>r. find_clip c (ir_clip_id i) = Some r \<Longrightarrow> check_clip_row (f r) \<and> link_ok i (f r)"
  shows "catalog_inv (update_clip (ir_clip_id i) f c')"
proof -
  let ?k = "ir_clip_id i" and ?c2 = "update_clip (ir_clip_id i) f c'"
  have c': "clips c' = clips c" "operation_intents c' = operation_intents c @ [i]"
    and new: "ir_intent_id i \<notin> set (map ir_intent_id (operation_intents c))"
      "?k \<in> set (map cc_clip_id (clips c))" "pending_intent_row c ?k = None"
    using ins by (auto simp: insert_intent_row_def split: if_splits)
  have "check_clip_row r \<and> (\<forall>j \<in> set (operation_intents ?c2). is_pending j \<and> ir_clip_id j = cc_clip_id r \<longrightarrow> link_ok j r)"
    if r: "r \<in> set (clips ?c2)" for r
  proof -
    obtain q where q: "q \<in> set (clips c)" "r = (if cc_clip_id q = ?k then f q else q)"
      using r c'(1) by (auto simp: clip_table.in_update_iff)
    show ?thesis
    proof (cases "cc_clip_id q = ?k")
      case True
      then have "check_clip_row r" "link_ok i r"
        using row q find_clip_Some_iff [OF inv] by auto
      moreover have "cc_clip_id r = ?k"
        using True q(2) ids(1) by simp
      ultimately show ?thesis
        using new(3) c'(2) pending_None_iff [of c ?k] by auto
    next
      case False
      then show ?thesis
        using q inv c'(2) unfolding catalog_inv_def by auto
    qed
  qed
  moreover have "distinct (map ir_clip_id (filter is_pending (operation_intents ?c2)))"
    using inv new(3) c'(2) pend(1) pending_None_iff [of c ?k] unfolding catalog_inv_def by auto
  ultimately show ?thesis
    using inv new c' pend row_update_keeps [of cc_clip_id f cc_clip_id ?k "clips c"]
      row_update_keeps [of cc_retention_order f cc_clip_id ?k "clips c"] ids
    unfolding catalog_inv_def by (auto simp del: set_map simp: set_map [symmetric])
qed

lemma update_clip_id: "update_clip k (\<lambda>r. r) c = c"
  by (simp add: update_clip_def row_update_def)

lemma inv_insert_intent_row:
  assumes "catalog_inv c" "insert_intent_row i c = Inr c'" "is_pending i" "intent_row_ok i"
    and "\<And>r. find_clip c (ir_clip_id i) = Some r \<Longrightarrow> link_ok i r"
  shows "catalog_inv c'"
  using inv_insert_then_update [OF assms(1-4), of "\<lambda>r. r"] assms(5) checkD [OF assms(1)]
    find_clip_Some_iff [OF assms(1)] by (simp add: update_clip_id)

lemma insert_intent_lockedD:
  assumes "insert_intent_locked k kind ps now rv c = Inr (i, c')"
  shows "\<exists>c1. clips c1 = clips c \<and> operation_intents c1 = operation_intents c
    \<and> insert_intent_row (row_of_intent i rv None None) c1 = Inr c'
    \<and> mk_operation_intent (intent_id i) k kind now ps 1 = Inr i
    \<and> oi_clip_id i = k \<and> oi_kind i = kind \<and> oi_paths i = ps"
proof (intro exI conjI)
  let ?c1 = "c\<lparr>uuid4_used := Suc (uuid4_used c)\<rparr>"
  have m: "mk_operation_intent (uuid4_stream c (uuid4_used c)) k kind now ps 1 = Inr i"
    and r: "insert_intent_row (row_of_intent i rv None None) ?c1 = Inr c'"
    using assms unfolding insert_intent_locked_def fresh_uuid_def by (auto simp: result_simps)
  note i = mk_operation_intentD [OF m]
  show "clips ?c1 = clips c" "operation_intents ?c1 = operation_intents c"
    "insert_intent_row (row_of_intent i rv None None) ?c1 = Inr c'"
    using r by simp_all
  show "oi_clip_id i = k" "oi_kind i = kind" "oi_paths i = ps"
    using i by simp_all
  have "intent_id i = uuid4_stream c (uuid4_used c)"
    using i by simp
  with m show "mk_operation_intent (intent_id i) k kind now ps 1 = Inr i"
    by simp
qed

lemma row_of_intent_simps [simp]:
  "is_pending (row_of_intent i rv p h)" "ir_clip_id (row_of_intent i rv p h) = oi_clip_id i"
  "ir_kind (row_of_intent i rv p h) = oi_kind i" "ir_paths (row_of_intent i rv p h) = oi_paths i"
  "ir_intent_id (row_of_intent i rv p h) = intent_id i"
  "expected_protection_revision (row_of_intent i rv p h) = rv"
  by (simp_all add: row_of_intent_def is_pending_def)

lemma row_of_intent_ok:
  assumes "pair_paths_ok (oi_paths i)"
    "mk_operation_intent (intent_id i) (oi_clip_id i) (oi_kind i) n (oi_paths i) 1 = Inr i"
  shows "intent_row_ok (row_of_intent i rv p h)"
  using assms mk_operation_intentD [OF assms(2)]
  by (auto simp: intent_row_ok_def intent_from_row_def row_of_intent_def pair_paths_ok_def)
    (metis OperationIntent.select_convs is_ok_simps(1))

lemma find_clip_cong: "clips c = clips c' \<Longrightarrow> find_clip c = find_clip c'"
  by (simp add: find_clip_def fun_eq_iff)

lemma inv_insert_intent_locked:
  assumes "catalog_inv c" "insert_intent_locked k kind ps now rv c = Inr (i, c')" "pair_paths_ok ps"
    and ids: "\<And>r. cc_clip_id (f r) = cc_clip_id r" "\<And>r. cc_retention_order (f r) = cc_retention_order r"
    and row: "\<And>r. find_clip c k = Some r \<Longrightarrow> check_clip_row (f r) \<and> link_ok (row_of_intent i rv None None) (f r)"
  shows "catalog_inv (update_clip k f c')"
proof -
  obtain c1 where c1: "clips c1 = clips c" "operation_intents c1 = operation_intents c"
    "insert_intent_row (row_of_intent i rv None None) c1 = Inr c'"
    and i: "mk_operation_intent (intent_id i) k kind now ps 1 = Inr i" "oi_clip_id i = k" "oi_kind i = kind"
      "oi_paths i = ps"
    using insert_intent_lockedD [OF assms(2)] by blast
  have "catalog_inv c1"
    using assms(1) catalog_inv_cong [OF c1(1,2)] by simp
  moreover have "intent_row_ok (row_of_intent i rv None None)"
    using assms(3) i by (intro row_of_intent_ok) auto
  ultimately show ?thesis
    using inv_insert_then_update [of c1 "row_of_intent i rv None None" c' f] c1(3) ids row
      find_clip_cong [OF c1(1)] i(2) by simp
qed

lemma inv_set_last_problem: "catalog_inv c \<Longrightarrow> catalog_inv (set_last_problem iid p c)"
proof -
  assume inv: "catalog_inv c"
  let ?g = "\<lambda>i. i\<lparr>last_problem := p\<rparr>"
  let ?is = "row_update ir_intent_id iid ?g (operation_intents c)"
  have ids: "map ir_intent_id ?is = map ir_intent_id (operation_intents c)"
    by (rule row_update_keeps) simp
  have same: "is_pending (?g i) = is_pending i" "intent_row_ok (?g i) = intent_row_ok i"
    "link_ok (?g i) r = link_ok i r" for i r
    by (simp_all add: is_pending_def intent_row_ok_def intent_from_row_def link_ok_def)
  have "map ir_clip_id (filter is_pending (row_update ir_intent_id iid ?g xs))
      = map ir_clip_id (filter is_pending xs)" for xs
    by (induction xs) (auto simp: row_update_def same)
  moreover have "\<exists>q \<in> set (operation_intents c). ir_clip_id i = ir_clip_id q
      \<and> is_pending i = is_pending q \<and> intent_row_ok i = intent_row_ok q \<and> link_ok i = link_ok q"
    if "i \<in> set ?is" for i
    using that unfolding intent_table.in_update_iff by (auto simp: same fun_eq_iff)
  ultimately show ?thesis
    using inv ids unfolding set_last_problem_def catalog_inv_def clips_update by metis
qed

text \<open>Updating a clip and completing its pending intent.\<close>

lemma inv_complete:
  assumes inv: "catalog_inv c" and row: "row_get ir_intent_id iid (operation_intents c) = Some i" "is_pending i"
    and ids: "\<And>r. cc_clip_id (f r) = cc_clip_id r" "\<And>r. cc_retention_order (f r) = cc_retention_order r"
    and check: "\<And>r. find_clip c (ir_clip_id i) = Some r \<Longrightarrow> check_clip_row (f r)"
  shows "catalog_inv (mark_intent_complete iid now (update_clip (ir_clip_id i) f c))
    \<and> pending_intent_row (mark_intent_complete iid now (update_clip (ir_clip_id i) f c)) (ir_clip_id i) = None"
proof -
  let ?k = "ir_clip_id i" and ?g = "\<lambda>i. i\<lparr>ir_status := COMPLETE, last_problem := None, completed_monotonic_ns := Some now\<rparr>"
  let ?c2 = "mark_intent_complete iid now (update_clip ?k f c)"
  have i: "i \<in> set (operation_intents c)" "ir_intent_id i = iid"
    using intent_table.get_SomeD [OF row(1)] by auto
  have dist: "distinct (map ir_intent_id (operation_intents c))"
    using inv by (simp add: catalog_inv_def)
  have rows: "operation_intents ?c2 = row_update ir_intent_id iid ?g (operation_intents c)"
    "clips ?c2 = row_update cc_clip_id ?k f (clips c)"
    by (simp_all add: mark_intent_complete_def)
  have pend: "j \<in> set (operation_intents c) \<and> ir_clip_id j \<noteq> ?k"
    if j: "j \<in> set (operation_intents ?c2)" "is_pending j" for j
  proof -
    obtain q where q: "q \<in> set (operation_intents c)" "j = (if ir_intent_id q = iid then ?g q else q)"
      using j(1) unfolding rows intent_table.in_update_iff by blast
    with j(2) have "ir_intent_id q \<noteq> iid" "j = q"
      by (auto simp: is_pending_def split: if_splits)
    with q i row(2) j(2) pending_unique [OF inv q(1) i(1)] show ?thesis by auto
  qed
  have sub: "set (filter is_pending (operation_intents ?c2)) \<subseteq> set (filter is_pending (operation_intents c))"
    using pend by auto
  have "filter is_pending (row_update ir_intent_id iid ?g xs)
      = filter (\<lambda>j. ir_intent_id j \<noteq> iid) (filter is_pending xs)" for xs
    by (induction xs) (auto simp: row_update_def is_pending_def)
  then have "filter is_pending (operation_intents ?c2)
      = filter (\<lambda>j. ir_intent_id j \<noteq> iid) (filter is_pending (operation_intents c))"
    unfolding rows .
  then have dpend: "distinct (map ir_clip_id (filter is_pending (operation_intents ?c2)))"
    using distinct_map_filter [OF inv_pending [OF inv]] by simp
  have src: "\<exists>q \<in> set (operation_intents c). ir_clip_id j = ir_clip_id q \<and> intent_row_ok j = intent_row_ok q"
    if "j \<in> set (operation_intents ?c2)" for j
    using that unfolding rows intent_table.in_update_iff
    by (auto simp: intent_row_ok_def intent_from_row_def)
  have clip: "\<exists>q \<in> set (clips c). r = (if cc_clip_id q = ?k then f q else q)" if "r \<in> set (clips ?c2)" for r
    using that unfolding rows clip_table.in_update_iff by blast
  have keys: "map cc_clip_id (clips ?c2) = map cc_clip_id (clips c)"
    "map cc_retention_order (clips ?c2) = map cc_retention_order (clips c)"
    "map ir_intent_id (operation_intents ?c2) = map ir_intent_id (operation_intents c)"
    unfolding rows using ids by (simp_all add: row_update_keeps)
  have "catalog_inv ?c2"
  proof (rule catalog_invI)
    fix j
    assume "j \<in> set (operation_intents ?c2)"
    with src inv_refs [OF inv] keys(1)
    show "ir_clip_id j \<in> set (map cc_clip_id (clips ?c2)) \<and> intent_row_ok j" by metis
  next
    fix r
    assume "r \<in> set (clips ?c2)"
    with clip check find_clip_Some_iff [OF inv] inv_checks [OF inv]
    show "check_clip_row r" by metis
  next
    fix r j
    assume "r \<in> set (clips ?c2)" "j \<in> set (operation_intents ?c2)" "is_pending j" "ir_clip_id j = cc_clip_id r"
    moreover then obtain q where "q \<in> set (clips c)" "r = (if cc_clip_id q = ?k then f q else q)"
      using clip by blast
    ultimately show "link_ok j r"
      using pend [of j] inv_links [OF inv, of q j] ids(1) by (auto split: if_splits)
  qed (use keys dpend inv_ids [OF inv] inv_orders [OF inv] inv_iids [OF inv] in simp_all)
  moreover have "pending_intent_row ?c2 ?k = None"
    using pend by (auto simp: pending_None_iff)
  ultimately show ?thesis by blast
qed

lemma inv_insert_clip:
  assumes inv: "catalog_inv c" and ins: "insert_clip_locked clip now c = Inr c'"
  shows "catalog_inv c'"
proof -
  obtain r where r: "c' = c\<lparr>clips := clips c @ [r]\<rparr>" "cc_clip_id r \<notin> set (map cc_clip_id (clips c))"
    "cc_retention_order r \<notin> set (map cc_retention_order (clips c))" "check_clip_row r"
    using ins by (auto simp: insert_clip_locked_def Let_def split: if_splits)
  moreover have "\<forall>i \<in> set (operation_intents c). ir_clip_id i \<noteq> cc_clip_id r"
    using inv r(2) unfolding catalog_inv_def by metis
  ultimately show ?thesis
    using inv unfolding catalog_inv_def by auto
qed

end
