(* ===== verification/Catalog_Steps.thy ===== *)
theory Catalog_Steps
  imports Catalog_Inv
begin

text \<open>
  Every transaction of the catalog keeps the catalog invariant, the catalog as a transition
  system, and the properties that hold in all reachable catalogs.
\<close>

section \<open>The catalog as a transition system\<close>

text \<open>
  One step is one committed transaction of \<^verbatim>\<open>ClipCatalog\<close>; \<^verbatim>\<open>reconcile_intent\<close> runs against
  arbitrary filesystem operations on an arbitrary disk, so whatever the disk does is covered. Clips
  are registered by the recorder and by recovery in one of four lifecycles, and
  \<open>promotion\<close> and \<open>intent\<close> are values their constructors accept.
\<close>

inductive catalog_step :: "catalog \<Rightarrow> catalog \<Rightarrow> bool" where
  register: "register_clip clip now c = Inr (x1, c') \<Longrightarrow> catalog_step c c'"
| writing: "register_writing_clip clip now c = Inr (x2, c') \<Longrightarrow> catalog_step c c'"
| finalizing: "pair_paths_ok promotion \<Longrightarrow>
    register_finalizing_clip clip promotion now rv c = Inr (x3, c') \<Longrightarrow> catalog_step c c'"
| name: "operation_intent_ok intent \<Longrightarrow>
    register_name_reconciliation canonical sha256 intent ps ss now c = Inr (x4, c') \<Longrightarrow> catalog_step c c'"
| closing: "active_closing_protection k now c = Inr (x5, c') \<Longrightarrow> catalog_step c c'"
| orphaned: "mark_writing_clip_orphaned k now c = Inr (x6, c') \<Longrightarrow> catalog_step c c'"
| lease: "catalog_acquire_download_lease k h now dur boot cap c = Inr (x7, c') \<Longrightarrow> catalog_step c c'"
| release: "catalog_release_download_lease k h now c = Inr (x8, c') \<Longrightarrow> catalog_step c c'"
| expire: "clear_expired_download_leases now boot lim c = Inr (x9, c') \<Longrightarrow> catalog_step c c'"
| protect: "prepare_protect k reason now c = Inr (x10, c') \<Longrightarrow> catalog_step c c'"
| unprotect: "prepare_unprotect k now c = Inr (x11, c') \<Longrightarrow> catalog_step c c'"
| delete: "prepare_delete k now boot c = Inr (x12, c') \<Longrightarrow> catalog_step c c'"
| delete_oldest: "prepare_oldest_eligible_delete now boot c = Inr (x13, c') \<Longrightarrow> catalog_step c c'"
| event: "trigger_event cur src now prev nxt eid strict c = Inr (x14, c') \<Longrightarrow> catalog_step c c'"
| finalize: "finalize_clip k end_ns nbytes now c = Inr (x15, c') \<Longrightarrow> catalog_step c c'"
| repair: "queue_directory_invariant_repair k now c = Inr (x16, c') \<Longrightarrow> catalog_step c c'"
| latch: "store_retention_threshold_latch l c = Inr (x17, c') \<Longrightarrow> catalog_step c c'"
| reconcile: "reconcile_intent (fs :: disk CatalogFilesystem) parse_sidecar sha256 iid now max_actions (c, s) = (x18, (c', s'))
    \<Longrightarrow> catalog_step c c'"

definition empty_catalog :: "(nat \<Rightarrow> uuid) \<Rightarrow> catalog" where
  "empty_catalog stream = \<lparr>clips = [], operation_intents = [], protection_events = [],
     protection_event_targets = [], threshold_latch = None, uuid4_stream = stream, uuid4_used = 0\<rparr>"

inductive catalog_reach :: "catalog \<Rightarrow> bool" where
  initial: "catalog_reach (empty_catalog stream)"
| step: "catalog_reach c \<Longrightarrow> catalog_step c c' \<Longrightarrow> catalog_reach c'"

definition yields :: "(catalog \<Rightarrow> bool) \<Rightarrow> ('r \<times> catalog) result \<times> 'f \<Rightarrow> bool" where
  "yields P m = (case m of (Inr (_, c'), _) \<Rightarrow> P c' | (Inl _, _) \<Rightarrow> True)"

section \<open>Small pieces\<close>

lemma find_clip_update:
  "(\<And>r. cc_clip_id (f r) = cc_clip_id r) \<Longrightarrow>
   find_clip (update_clip k f c) j = (if j = k then map_option f (find_clip c k) else find_clip c j)"
  by (simp add: find_clip_def clip_table.get_update)

lemma pending_update_clip [simp]: "pending_intent_row (update_clip k f c) j = pending_intent_row c j"
  by (simp add: pending_intent_row_def)

lemma move_paths_ok: "move_paths vs ss d = Inr ps \<Longrightarrow> pair_paths_ok ps"
  unfolding move_paths_def pair_paths_ok_def by (frule mk_pair_pathsD) simp

lemma pair_paths_okI: "mk_pair_paths vs ss vt st = Inr ps \<Longrightarrow> pair_paths_ok ps"
  unfolding pair_paths_ok_def by (frule mk_pair_pathsD) simp

definition live :: "clip_row \<Rightarrow> bool" where
  "live r = (cc_lifecycle r \<noteq> DELETING \<and> cc_lifecycle r \<noteq> DELETED)"

lemma inv_queue_move:
  assumes "catalog_inv c" "queue_move k kind vs ss d now rv c = Inr (u, c')" "kind \<noteq> DELETE"
    and "\<And>r. find_clip c k = Some r \<Longrightarrow> live r"
  shows "catalog_inv c'"
proof -
  obtain ps i c1 where ps: "move_paths vs ss d = Inr ps"
    and i: "insert_intent_locked k kind ps now rv c = Inr (i, c1)" and c': "c' = mark_unreconciled k now c1"
    using assms(2) unfolding queue_move_def by (auto simp: result_simps)
  have kind: "oi_kind i = kind"
    using insert_intent_lockedD [OF i] by blast
  show ?thesis
    unfolding c' mark_unreconciled_def
  proof (rule inv_insert_intent_locked [OF assms(1) i move_paths_ok [OF ps]])
    fix r
    assume r: "find_clip c k = Some r"
    have "check_clip_row r"
      using r find_clip_Some_iff [OF assms(1)] checkD [OF assms(1)] by blast
    with assms(3) assms(4) [OF r] kind
    show "check_clip_row (r\<lparr>cc_pair_reconciled := False, updated_catalog_ns := now\<rparr>)
        \<and> link_ok (row_of_intent i rv None None) (r\<lparr>cc_pair_reconciled := False, updated_catalog_ns := now\<rparr>)"
      by (auto simp: check_clip_row_def link_ok_def live_def)
  qed simp_all
qed

lemma inv_set_protection:
  assumes "catalog_inv c" "\<And>i. pending_intent_row c k = Some i \<Longrightarrow> ir_kind i \<noteq> DELETE"
  shows "catalog_inv (set_protection k reason now c)"
  unfolding set_protection_def
proof (rule inv_update_clip [OF assms(1)])
  fix r
  assume "find_clip c k = Some r"
  then have "check_clip_row r"
    using find_clip_Some_iff [OF assms(1)] checkD [OF assms(1)] by blast
  then show "check_clip_row (r\<lparr>cc_protected := True, protection_reason := Some reason,
       protection_revision := protection_revision r + 1, updated_catalog_ns := now\<rparr>)"
    by (simp add: check_clip_row_def)
next
  fix r i
  assume "pending_intent_row c k = Some i" "link_ok i r"
  then show "link_ok i (r\<lparr>cc_protected := True, protection_reason := Some reason,
       protection_revision := protection_revision r + 1, updated_catalog_ns := now\<rparr>)"
    using assms(2) by (simp add: link_ok_def)
qed simp_all

lemma find_clip_set_protection:
  "find_clip (set_protection k reason now c) k = Some r' \<Longrightarrow>
   \<exists>r. find_clip c k = Some r \<and> cc_lifecycle r' = cc_lifecycle r \<and> cc_protected r'"
  unfolding set_protection_def by (auto simp: find_clip_update)

lemma live_if_not_delete:
  assumes "catalog_inv c" "find_clip c k = Some r" "pending_intent_row c k = Some i" "ir_kind i \<noteq> DELETE"
  shows "live r"
  using linkD [OF assms(1-3)] assms(4) by (auto simp: link_ok_def live_def)

section \<open>Each transaction keeps the invariant\<close>

lemma inv_prepare_protect_locked:
  assumes inv: "catalog_inv c" and op: "prepare_protect_locked k reason now allow c = Inr (u, c')"
  shows "catalog_inv c'"
proof -
  obtain row where row: "required_clip_row c k = Inr row"
    using op unfolding prepare_protect_locked_def by (auto simp: result_simps)
  note r = required_clip_rowD [OF row]
  have live: "live row"
    using op row unfolding prepare_protect_locked_def live_def by (auto split: if_splits)
  show ?thesis
  proof (cases "pending_intent_row c k")
    case (Some i)
    then show ?thesis
      using op row inv unfolding prepare_protect_locked_def by (auto split: if_splits)
  next
    case None
    let ?c1 = "set_protection k reason now c"
    have inv1: "catalog_inv ?c1"
      using inv None by (intro inv_set_protection) simp_all
    have "\<And>q. find_clip ?c1 k = Some q \<Longrightarrow> live q"
      using find_clip_set_protection r live unfolding live_def by fastforce
    from inv_queue_move [OF inv1 _ _ this] show ?thesis
      using op row inv1 None unfolding prepare_protect_locked_def
      by (auto simp: result_simps Let_def split: if_splits)
  qed
qed

lemma inv_protect_for_event:
  assumes inv: "catalog_inv c" and op: "protect_for_event_locked k reason now c = Inr (u, c')"
  shows "catalog_inv c'"
proof -
  obtain row where row: "required_clip_row c k = Inr row"
    using op unfolding protect_for_event_locked_def by (auto simp: result_simps)
  note r = required_clip_rowD [OF row]
  let ?c1 = "set_protection k reason now c"
  consider (noop) "c' = c" | (work) "live row" "\<And>i. pending_intent_row c k = Some i \<Longrightarrow> ir_kind i \<noteq> DELETE"
    using op row unfolding protect_for_event_locked_def live_def
    by (cases "pending_intent_row c k") (auto simp: Let_def split: if_splits)
  then show ?thesis
  proof cases
    case noop
    with inv show ?thesis by simp
  next
    case work
    have inv1: "catalog_inv ?c1"
      using inv work(2) by (rule inv_set_protection)
    have "\<And>q. find_clip ?c1 k = Some q \<Longrightarrow> live q"
      using find_clip_set_protection r work(1) unfolding live_def by fastforce
    from inv_queue_move [OF inv1 _ _ this] show ?thesis
      using op row inv1 inv unfolding protect_for_event_locked_def
      by (cases "pending_intent_row c k") (auto simp: result_simps Let_def split: if_splits)
  qed
qed

lemma inv_queue_repair:
  assumes inv: "catalog_inv c" and row: "find_clip c (cc_clip_id row) = Some row"
    and op: "queue_directory_invariant_repair_locked row now c = Inr (u, c')"
  shows "catalog_inv c'"
proof -
  have "\<And>q. cc_lifecycle row = FINALIZED \<Longrightarrow> find_clip c (cc_clip_id row) = Some q \<Longrightarrow> live q"
    using row by (simp add: live_def)
  note qm = inv_queue_move [OF inv _ _ this]
  show ?thesis
    using op inv qm unfolding queue_directory_invariant_repair_locked_def
    by (auto simp: result_simps Let_def split: if_splits)
qed

lemma inv_clear_lease: "catalog_inv c \<Longrightarrow> catalog_inv (clear_lease_locked k c)"
  unfolding clear_lease_locked_def
proof (rule inv_update_clip)
  fix r
  assume "catalog_inv c" "find_clip c k = Some r"
  then have "check_clip_row r"
    using find_clip_Some_iff checkD by blast
  then show "check_clip_row (r\<lparr>cc_download_lease := None, lease_boot_id := None\<rparr>)"
    by (simp add: check_clip_row_def)
qed (simp_all add: link_ok_def)

lemma inv_clear_then_repair:
  assumes "catalog_inv c" "required_clip_row (clear_lease_locked k c) k = Inr row"
    "queue_directory_invariant_repair_locked row now (clear_lease_locked k c) = Inr (u, c')"
  shows "catalog_inv c'"
  using inv_queue_repair [OF inv_clear_lease [OF assms(1)] _ assms(3)] required_clip_rowD [OF assms(2)]
  by simp

lemma inv_prepare_delete_row:
  assumes inv: "catalog_inv c" and row: "find_clip c (cc_clip_id row) = Some row"
    and op: "prepare_delete_row_locked row now boot c = Inr (u, c')"
  shows "catalog_inv c'"
proof (cases "pending_intent_row c (cc_clip_id row)")
  case (Some i)
  then show ?thesis
    using op inv unfolding prepare_delete_row_locked_def by (auto split: if_splits)
next
  case None
  let ?k = "cc_clip_id row" and ?f = "\<lambda>r. r\<lparr>cc_lifecycle := DELETING, cc_pair_reconciled := False,
            cc_download_lease := None, lease_boot_id := None, updated_catalog_ns := now\<rparr>"
  obtain ps i c1 where ps: "mk_pair_paths (video_path row) (sidecar_path row) None None = Inr ps"
    and ins: "insert_intent_locked ?k DELETE ps now None c = Inr (i, c1)" and c': "c' = update_clip ?k ?f c1"
    and ok: "\<not> cc_protected row" "path_parent (video_source ps) = ''clips''"
      "path_parent (sidecar_source ps) = ''clips''"
    using op None unfolding prepare_delete_row_locked_def
    by (auto simp: result_simps Let_def split: if_splits)
  have i: "oi_kind i = DELETE" "oi_paths i = ps"
    using insert_intent_lockedD [OF ins] by blast+
  have "check_clip_row row"
    using row find_clip_Some_iff [OF inv] checkD [OF inv] by blast
  then have "check_clip_row (?f row) \<and> link_ok (row_of_intent i None None None) (?f row)"
    using i ok mk_pair_pathsD [OF ps] by (simp add: check_clip_row_def link_ok_def)
  then show ?thesis
    unfolding c' by (intro inv_insert_intent_locked [OF inv ins pair_paths_okI [OF ps]]) (simp_all add: row)
qed

lemma inv_prepare_oldest:
  assumes inv: "catalog_inv c" and op: "prepare_oldest_eligible_delete now boot c = Inr (u, c')"
  shows "catalog_inv c'"
proof (cases "sort_key order_key (filter (sql_eligible c now boot) (clips c))")
  case Nil
  then show ?thesis
    using op inv unfolding prepare_oldest_eligible_delete_def by (auto simp: result_simps)
next
  case (Cons row rows)
  then have "row \<in> set (sort_key order_key (filter (sql_eligible c now boot) (clips c)))"
    by simp
  then have "find_clip c (cc_clip_id row) = Some row"
    using find_clip_Some_iff [OF inv] by simp
  with Cons show ?thesis
    using op inv_prepare_delete_row [OF inv] unfolding prepare_oldest_eligible_delete_def
    by (auto simp: result_simps)
qed

lemma inv_prepare_unprotect:
  assumes inv: "catalog_inv c" and op: "prepare_unprotect k now c = Inr (u, c')"
  shows "catalog_inv c'"
proof -
  obtain row where row: "required_clip_row c k = Inr row"
    using op unfolding prepare_unprotect_def by (auto simp: result_simps)
  note r = required_clip_rowD [OF row]
  let ?f = "\<lambda>r. r\<lparr>cc_protected := False, protection_reason := None, updated_catalog_ns := now\<rparr>"
  have "check_clip_row (?f row)"
    using checkD [OF inv] r by (simp add: check_clip_row_def)
  then have upd: "catalog_inv (update_clip k ?f c)" if "pending_intent_row c k = None"
    using r that by (intro inv_update_clip [OF inv]) simp_all
  have "cc_lifecycle row = FINALIZED \<Longrightarrow> find_clip c k = Some q \<Longrightarrow> live q" for q
    using r by (simp add: live_def)
  note qm = inv_queue_move [OF inv _ _ this]
  show ?thesis
    using op row inv upd qm unfolding prepare_unprotect_def
    by (auto simp: result_simps split: if_splits option.splits)
qed

lemma inv_release_lease:
  assumes "catalog_inv c" "catalog_release_download_lease k h now c = Inr (b, c')"
  shows "catalog_inv c'"
  using assms(2) assms(1) inv_clear_then_repair [OF assms(1)] unfolding catalog_release_download_lease_def
  by (auto simp: result_simps Let_def split: option.splits if_splits)

lemma inv_clear_expired:
  assumes inv: "catalog_inv c" and op: "clear_expired_download_leases now boot lim c = Inr (n, c')"
  shows "catalog_inv c'"
proof -
  obtain rows where "foldR (clear_one_expired now) rows c = Inr c'"
    using op unfolding clear_expired_download_leases_def by (auto simp: result_simps Let_def)
  then show ?thesis
    using inv
    by (rule foldR_invariant)
      (auto simp: clear_one_expired_def result_simps Let_def intro: inv_clear_then_repair)
qed

lemma inv_acquire_lease:
  assumes inv: "catalog_inv c" and op: "catalog_acquire_download_lease k h now dur boot cap c = Inr (l, c')"
  shows "catalog_inv c'"
proof -
  obtain row where row: "required_clip_row c k = Inr row" and none: "pending_intent_row c k = None"
    and c': "c' = update_clip k (\<lambda>r. r\<lparr>cc_download_lease := Some l, lease_boot_id := Some boot,
      updated_catalog_ns := now\<rparr>) c"
    using op unfolding catalog_acquire_download_lease_def by (auto simp: result_simps split: if_splits)
  have "check_clip_row row"
    using required_clip_rowD [OF row] checkD [OF inv] by blast
  then show ?thesis
    unfolding c' using required_clip_rowD [OF row] none
    by (intro inv_update_clip [OF inv]) (simp_all add: check_clip_row_def)
qed

subsection \<open>Event windows\<close>

lemma insert_target_rowD:
  "insert_target_row t c = Inr c' \<Longrightarrow> clips c' = clips c \<and> operation_intents c' = operation_intents c"
  by (auto simp: insert_target_row_def split: if_splits)

lemma insert_event_rowD:
  "insert_event_row e c = Inr c' \<Longrightarrow> clips c' = clips c \<and> operation_intents c' = operation_intents c"
  by (auto simp: insert_event_row_def split: if_splits)

lemma inv_consume_window:
  assumes "catalog_inv c" "consume_window k now e c = Inr c'"
  shows "catalog_inv c'"
proof -
  obtain c1 where c1: "insert_target_row (next_target k e) c = Inr c1"
    and p: "\<exists>u. protect_for_event_locked k (pending_window_reason (ev_event_id e)) now
      (update_event (ev_event_id e)
        (\<lambda>x. if remaining_next x > 0 then x\<lparr>remaining_next := remaining_next x - 1\<rparr> else x) c1) = Inr (u, c')"
    using assms(2) unfolding consume_window_def by (auto simp: result_simps Let_def)
  have "catalog_inv (update_event (ev_event_id e) g c1)" for g
    using insert_target_rowD [OF c1] assms(1) catalog_inv_cong [of "update_event (ev_event_id e) g c1" c] by simp
  with p show ?thesis
    using inv_protect_for_event by blast
qed

lemma inv_active_closing:
  assumes "catalog_inv c" "active_closing_protection k now c = Inr (x, c')"
  shows "catalog_inv c'"
proof -
  obtain es where "foldR (consume_window k now) es c = Inr c'"
    using assms(2) unfolding active_closing_protection_def by (auto simp: result_simps split: if_splits)
  then show ?thesis
    using assms(1) by (rule foldR_invariant) (rule inv_consume_window)
qed

lemma inv_protect_target:
  assumes "catalog_inv (snd acc)" "protect_target eid reason now t acc = Inr acc'"
  shows "catalog_inv (snd acc')"
proof -
  obtain u c1 c2 where p: "protect_for_event_locked (fst t) reason now (snd acc) = Inr (u, c1)"
    and i: "insert_target_row \<lparr>tg_event_id = eid, tg_clip_id = fst t, tg_role = fst (snd t),
               tg_ordinal = snd (snd t)\<rparr> c1 = Inr c2" and a: "snd acc' = c2"
    using assms(2) unfolding protect_target_def by (auto simp: result_simps split: prod.splits)
  show ?thesis
    using inv_protect_for_event [OF assms(1) p] insert_target_rowD [OF i] catalog_inv_cong [of c2 c1] a
    by simp
qed

lemma inv_trigger_new:
  assumes inv: "catalog_inv c" and op: "trigger_new_event eid cur src now pc nc strict c = Inr (x, c')"
  shows "catalog_inv c'"
proof -
  obtain e c1 ts q where e: "insert_event_row e c = Inr c1"
    and f: "foldR (protect_target eid (event_reason eid src) now) ts ([], c1) = Inr (q, c')"
    using op unfolding trigger_new_event_def
    by (auto simp: result_simps Let_def split: option.splits if_splits)
  have "catalog_inv (snd ([] :: uuid list, c1))"
    using insert_event_rowD [OF e] inv catalog_inv_cong [of c1 c] by simp
  from foldR_invariant [where P = "\<lambda>a. catalog_inv (snd a)", OF f this] show ?thesis
    using inv_protect_target by auto
qed

lemma inv_trigger_event:
  assumes inv: "catalog_inv c" and op: "trigger_event cur src now pc nc eid strict c = Inr (x, c')"
  shows "catalog_inv c'"
proof -
  obtain e c0 where c0: "(case eid of None \<Rightarrow> fresh_uuid c | Some e \<Rightarrow> (e, c)) = (e, c0)"
    by fastforce
  have "clips c0 = clips c \<and> operation_intents c0 = operation_intents c"
    using c0 by (auto simp: fresh_uuid_def split: option.splits)
  then have "catalog_inv c0"
    using inv catalog_inv_cong [of c0 c] by simp
  moreover have "c' = c0 \<or> trigger_new_event e cur src now pc nc strict c0 = Inr (x, c')"
    using op c0 unfolding trigger_event_def
    by (auto simp: result_simps split: option.splits if_splits)
  ultimately show ?thesis
    using inv_trigger_new by blast
qed

lemma count_windowD:
  "count_window k e c = Inr c' \<Longrightarrow> clips c' = clips c \<and> operation_intents c' = operation_intents c"
  unfolding count_window_def insert_or_ignore_target_def
  by (auto simp: result_simps Let_def split: if_splits dest: insert_target_rowD)

lemma inv_finalize_clip:
  assumes inv: "catalog_inv c" and op: "finalize_clip k end_ns nbytes now c = Inr (x, c')"
  shows "catalog_inv c'"
proof -
  obtain row where row: "required_clip_row c k = Inr row"
    using op unfolding finalize_clip_def by (auto simp: result_simps)
  note r = required_clip_rowD [OF row]
  let ?f = "\<lambda>r. r\<lparr>cc_lifecycle := FINALIZED, end_monotonic_ns := Some end_ns,
                cc_size_bytes := nbytes, updated_catalog_ns := now\<rparr>"
  have pre: "cc_lifecycle row \<in> {CREATING, WRITING, FINALIZING, FINALIZED}" "start_monotonic_ns row < end_ns"
    "0 \<le> nbytes"
    using op row unfolding finalize_clip_def non_negative_integer_def
    by (auto simp: result_simps split: if_splits)
  have inv1: "catalog_inv (update_clip k ?f c)"
  proof (rule inv_update_clip [OF inv])
    fix q
    assume "find_clip c k = Some q"
    then show "check_clip_row (?f q)"
      using r pre checkD [OF inv, of row] by (simp add: check_clip_row_def end_after_def)
  next
    fix q i
    assume "find_clip c k = Some q" "link_ok i q"
    then show "link_ok i (?f q)"
      using r pre(1) by (auto simp: link_ok_def)
  qed simp_all
  obtain es c2 where c2: "foldR (count_window k) es (update_clip k ?f c) = Inr c2"
    and tail: "finalize_protection k es now c2 = Inr (x, c')"
    using op row unfolding finalize_clip_def by (auto simp: result_simps Let_def split: if_splits)
  have fin: "c' = c2 \<or> (\<exists>reason u. protect_for_event_locked k reason now c2 = Inr (u, c')
                \<or> prepare_protect_locked k reason now True c2 = Inr (u, c'))"
    using tail unfolding finalize_protection_def by (auto simp: result_simps split: if_splits)
  have "catalog_inv c2"
    using c2 inv1 by (rule foldR_invariant) (metis count_windowD catalog_inv_cong)
  then show ?thesis
    using fin inv_protect_for_event inv_prepare_protect_locked by blast
qed

subsection \<open>Registration\<close>

lemma insert_clip_lockedD:
  assumes "insert_clip_locked clip now c = Inr c'"
  shows "\<exists>r. clips c' = clips c @ [r] \<and> operation_intents c' = operation_intents c
    \<and> cc_clip_id r = cc_clip_id clip \<and> cc_lifecycle r = cc_lifecycle clip
    \<and> cc_clip_id r \<notin> set (map cc_clip_id (clips c))"
  using assms by (auto simp: insert_clip_locked_def Let_def CatalogClip.extend_def split: if_splits)

definition finalizing_row :: "CatalogClip \<Rightarrow> int \<Rightarrow> clip_row \<Rightarrow> clip_row" where
  "finalizing_row clip now r = r\<lparr>cc_lifecycle := FINALIZING, end_monotonic_ns := end_monotonic_ns clip,
     cc_size_bytes := cc_size_bytes clip, updated_catalog_ns := now\<rparr>"

lemma register_finalizingD:
  assumes "register_finalizing_clip clip promotion now rv c = Inr (u, c')"
  shows "\<exists>c1 i. validate_clip clip = Inr () \<and> cc_lifecycle clip = FINALIZING
    \<and> insert_intent_locked (cc_clip_id clip) FINALIZE promotion now None c1 = Inr (i, c')
    \<and> ((find_clip c (cc_clip_id clip) = None \<and> insert_clip_locked clip now c = Inr c1)
       \<or> (\<exists>row. find_clip c (cc_clip_id clip) = Some row \<and> cc_lifecycle row = WRITING
            \<and> start_monotonic_ns row = start_monotonic_ns clip
            \<and> c1 = update_clip (cc_clip_id clip) (finalizing_row clip now) c))"
proof -
  have f: "(\<lambda>r. r\<lparr>cc_lifecycle := FINALIZING, end_monotonic_ns := end_monotonic_ns clip,
     cc_size_bytes := cc_size_bytes clip, updated_catalog_ns := now\<rparr>) = finalizing_row clip now"
    by (simp add: finalizing_row_def fun_eq_iff)
  show ?thesis
    using assms unfolding register_finalizing_clip_def f
    by (auto simp: result_simps split: option.splits if_splits)
qed

lemma inv_register_finalizing:
  assumes inv: "catalog_inv c" and ps: "pair_paths_ok promotion"
    and op: "register_finalizing_clip clip promotion now rv c = Inr (u, c')"
  shows "catalog_inv c'"
proof -
  let ?k = "cc_clip_id clip"
  let ?f = "finalizing_row clip now"
  obtain c1 i where val: "validate_clip clip = Inr ()" and life: "cc_lifecycle clip = FINALIZING"
    and c1: "(find_clip c ?k = None \<and> insert_clip_locked clip now c = Inr c1)
       \<or> (\<exists>row. find_clip c ?k = Some row \<and> cc_lifecycle row = WRITING
            \<and> start_monotonic_ns row = start_monotonic_ns clip \<and> c1 = update_clip ?k ?f c)"
    and i: "insert_intent_locked ?k FINALIZE promotion now None c1 = Inr (i, c')"
    using register_finalizingD [OF op] by blast
  have kind: "oi_kind i = FINALIZE"
    using insert_intent_lockedD [OF i] by blast
  have c1': "catalog_inv c1 \<and> (\<forall>r. find_clip c1 ?k = Some r \<longrightarrow> cc_lifecycle r = FINALIZING)"
    using c1
  proof (elim disjE conjE exE)
    assume new: "find_clip c ?k = None" "insert_clip_locked clip now c = Inr c1"
    obtain r where r: "clips c1 = clips c @ [r]" "cc_clip_id r = ?k" "cc_lifecycle r = FINALIZING"
      using insert_clip_lockedD [OF new(2)] life by auto
    have "find_clip c1 ?k = Some r"
      using new(1) r(1,2) by (simp add: find_clip_def clip_table.get_append)
    with r(3) inv_insert_clip [OF inv new(2)] show ?thesis by simp
  next
    fix row
    assume row: "find_clip c ?k = Some row" "cc_lifecycle row = WRITING"
      "start_monotonic_ns row = start_monotonic_ns clip" "c1 = update_clip ?k ?f c"
    have chk: "check_clip_row row"
      using row(1) find_clip_Some_iff [OF inv] checkD [OF inv] by blast
    have "0 \<le> cc_size_bytes clip" "end_after (start_monotonic_ns clip) (end_monotonic_ns clip)"
      using val unfolding validate_clip_def end_after_def
      by (auto simp: result_simps non_negative_integer_def split: option.splits if_splits)
    with chk row(3) have "check_clip_row (?f row)"
      by (simp add: check_clip_row_def finalizing_row_def)
    with row show ?thesis
      by (auto simp: find_clip_update link_ok_def finalizing_row_def intro!: inv_update_clip [OF inv])
  qed
  have "catalog_inv (update_clip ?k (\<lambda>r. r) c')"
  proof (rule inv_insert_intent_locked [OF conjunct1 [OF c1'] i ps])
    fix r
    assume "find_clip c1 ?k = Some r"
    then show "check_clip_row r \<and> link_ok (row_of_intent i None None None) r"
      using c1' kind find_clip_Some_iff checkD by (fastforce simp: link_ok_def)
  qed simp_all
  then show ?thesis
    by (simp add: update_clip_id)
qed

lemma inv_register_name:
  assumes inv: "catalog_inv c" and ok: "operation_intent_ok intent"
    and op: "register_name_reconciliation canonical sha256 intent ps ss now c = Inr (u, c')"
  shows "catalog_inv c'"
proof -
  obtain row c1 p h where row: "required_clip_row c (oi_clip_id intent) = Inr row"
    and life: "cc_lifecycle row = FINALIZED" and kind: "oi_kind intent = RECONCILE_NAME"
    and c1: "insert_intent_row (row_of_intent intent None p h) c = Inr c1"
    and c': "c' = mark_unreconciled (oi_clip_id intent) now c1"
    using op unfolding register_name_reconciliation_def
    by (auto simp: result_simps Let_def split: option.splits if_splits)
  note r = required_clip_rowD [OF row]
  have "intent_row_ok (row_of_intent intent None p h)"
    using ok unfolding operation_intent_ok_def by (intro row_of_intent_ok) auto
  moreover have "check_clip_row row"
    using r checkD [OF inv] by blast
  ultimately show ?thesis
    using inv_insert_then_update [OF inv c1, of "\<lambda>r. r\<lparr>cc_pair_reconciled := False, updated_catalog_ns := now\<rparr>"]
      r life kind unfolding c' mark_unreconciled_def
    by (simp add: check_clip_row_def link_ok_def)
qed

lemma inv_mark_orphaned:
  assumes inv: "catalog_inv c" and op: "mark_writing_clip_orphaned k now c = Inr (b, c')"
  shows "catalog_inv c'"
proof -
  let ?f = "\<lambda>r. r\<lparr>cc_lifecycle := MISSING_SIDECAR, cc_pair_reconciled := False, updated_catalog_ns := now\<rparr>"
  consider "c' = c" | row where "find_clip c k = Some row" "cc_lifecycle row = WRITING" "c' = update_clip k ?f c"
    using op unfolding mark_writing_clip_orphaned_def
    by (auto simp: result_simps split: option.splits if_splits)
  then show ?thesis
  proof cases
    case 2
    have "check_clip_row row"
      using 2(1) find_clip_Some_iff [OF inv] checkD [OF inv] by blast
    with 2 show ?thesis
      by (auto simp: check_clip_row_def link_ok_def intro!: inv_update_clip [OF inv])
  qed (use inv in simp)
qed

subsection \<open>Completion\<close>

lemma inv_requeue_protect:
  assumes "catalog_inv c" "requeue_protect k vt st now c = Inr c'"
    and "\<And>r. find_clip c k = Some r \<Longrightarrow> live r"
  shows "catalog_inv c'"
proof -
  obtain ps i where ps: "move_paths vt st ''protected'' = Inr ps"
    and i: "insert_intent_locked k PROTECT ps now None c = Inr (i, c')"
    using assms(2) unfolding requeue_protect_def by (auto simp: result_simps)
  have kind: "oi_kind i = PROTECT"
    using insert_intent_lockedD [OF i] by blast
  have "catalog_inv (update_clip k (\<lambda>r. r) c')"
  proof (rule inv_insert_intent_locked [OF assms(1) i move_paths_ok [OF ps]])
    fix r
    assume "find_clip c k = Some r"
    then show "check_clip_row r \<and> link_ok (row_of_intent i None None None) r"
      using assms(3) find_clip_Some_iff [OF assms(1)] checkD [OF assms(1)] kind
      by (auto simp: link_ok_def live_def)
  qed simp_all
  then show ?thesis
    by (simp add: update_clip_id)
qed

lemma find_clip_complete:
  "(\<And>r. cc_clip_id (f r) = cc_clip_id r) \<Longrightarrow>
   find_clip (mark_intent_complete iid now (update_clip k f c)) k = map_option f (find_clip c k)"
  by (simp add: mark_intent_complete_def update_intent_def find_clip_def clip_table.get_update)

lemma inv_complete_intent:
  assumes inv: "catalog_inv c"
    and irow: "row_get ir_intent_id (intent_id intent) (operation_intents c) = Some i" "is_pending i"
      "ir_clip_id i = oi_clip_id intent" "ir_kind i = oi_kind intent"
    and op: "complete_intent_locked intent now c = Inr c'"
  shows "catalog_inv c'"
proof -
  let ?k = "oi_clip_id intent"
  have pend: "pending_intent_row c ?k = Some i"
    using irow intent_table.get_SomeD [OF irow(1)] pending_Some_iff [OF inv] by simp
  have chk: "find_clip c ?k = Some r \<Longrightarrow> check_clip_row r" for r
    using find_clip_Some_iff [OF inv] checkD [OF inv] by blast
  have live: "find_clip c ?k = Some r \<Longrightarrow> oi_kind intent \<noteq> DELETE \<Longrightarrow> live r" for r
    using live_if_not_delete [OF inv _ pend] irow(4) by simp
  note comp = inv_complete [OF inv irow(1,2), unfolded irow(3)]
  show ?thesis
  proof (cases "oi_kind intent = DELETE")
    case True
    with op show ?thesis
      unfolding complete_intent_locked_def complete_delete_def
      by (auto intro!: conjunct1 [OF comp] dest!: chk simp: check_clip_row_def)
  next
    case False
    then obtain vt st where t: "video_target (oi_paths intent) = Some vt" "sidecar_target (oi_paths intent) = Some st"
      using op unfolding complete_intent_locked_def by (auto split: option.splits)
    have gen: "catalog_inv c'"
      if f: "\<And>r. cc_clip_id (f r) = cc_clip_id r" "\<And>r. cc_retention_order (f r) = cc_retention_order r"
        "\<And>r. check_clip_row r \<Longrightarrow> check_clip_row (f r)" "\<And>r. live r \<Longrightarrow> live (f r)"
      and res: "c' = mark_intent_complete (intent_id intent) now (update_clip ?k f c)
        \<or> requeue_protect ?k vt st now (mark_intent_complete (intent_id intent) now (update_clip ?k f c)) = Inr c'"
      for f
    proof -
      let ?c2 = "mark_intent_complete (intent_id intent) now (update_clip ?k f c)"
      have "catalog_inv ?c2"
        using comp [of f now] f chk by blast
      moreover have "\<And>r. find_clip ?c2 ?k = Some r \<Longrightarrow> live r"
        using live [OF _ False] f by (auto simp: find_clip_complete)
      ultimately show ?thesis
        using res inv_requeue_protect by blast
    qed
    have "complete_intent_locked intent now c =
      (if oi_kind intent = UNPROTECT then complete_unprotect intent vt st now c
       else if oi_kind intent = PROTECT then Inr (complete_protect intent vt st now c)
       else complete_promotion intent vt st now c)"
      unfolding complete_intent_locked_def t using False by simp
    with op consider (u) "oi_kind intent = UNPROTECT" "complete_unprotect intent vt st now c = Inr c'"
      | (p) "oi_kind intent = PROTECT" "c' = complete_protect intent vt st now c"
      | (f) "complete_promotion intent vt st now c = Inr c'"
      by (metis sum.inject(2))
    then show ?thesis
    proof cases
      case u
      then obtain n where "c' = mark_intent_complete (intent_id intent) now
             (update_clip ?k (unprotected_row n vt st now) c)
        \<or> requeue_protect ?k vt st now (mark_intent_complete (intent_id intent) now
             (update_clip ?k (unprotected_row n vt st now) c)) = Inr c'"
        unfolding complete_unprotect_def Let_def
        by (cases "row_get ir_intent_id (intent_id intent) (operation_intents c)";
            cases "required_clip_row c ?k") (auto split: if_splits)
      then show ?thesis
        by (rule gen [rotated 4]) (simp_all add: check_clip_row_def live_def unprotected_row_def)
    next
      case p
      then show ?thesis
        unfolding complete_protect_def
        by (intro gen [where f = "\<lambda>r. r\<lparr>video_path := vt, sidecar_path := st,
            cc_protected := True, cc_pair_reconciled := True, updated_catalog_ns := now\<rparr>"])
          (simp_all add: check_clip_row_def live_def)
    next
      case f
      then obtain n where "c' = mark_intent_complete (intent_id intent) now
             (update_clip ?k (promoted_row n vt st now) c)
        \<or> requeue_protect ?k vt st now (mark_intent_complete (intent_id intent) now
             (update_clip ?k (promoted_row n vt st now) c)) = Inr c'"
        unfolding complete_promotion_def Let_def
        by (cases "required_clip_row c ?k") (auto split: if_splits)
      then show ?thesis
        by (rule gen [rotated 4]) (simp_all add: check_clip_row_def live_def promoted_row_def)
    qed
  qed
qed

lemma bindF_eq_Inr [result_simps]:
  "bindF m k = (Inr y, s') \<longleftrightarrow> (\<exists>x s1. m = (Inr x, s1) \<and> k x s1 = (Inr y, s'))"
  by (auto simp: bindF_def split: prod.splits sum.splits)

text \<open>\<open>yields P m\<close>: if the computation returns, the catalog it returns satisfies \<open>P\<close>.\<close>

lemma yields_bindF:
  assumes "\<And>x s1. yields P (k x s1)"
  shows "yields P (bindF m k)"
proof (cases m)
  case (Pair r s1)
  then show ?thesis
    using assms by (cases r) (simp_all add: bindF_def yields_def)
qed

lemma yields_rules:
  shows yields_if: "(b \<Longrightarrow> yields P m1) \<Longrightarrow> (\<not> b \<Longrightarrow> yields P m2) \<Longrightarrow> yields P (if b then m1 else m2)"
    and yields_option: "(o1 = None \<Longrightarrow> yields P m1) \<Longrightarrow> (\<And>x. o1 = Some x \<Longrightarrow> yields P (g x))
      \<Longrightarrow> yields P (case o1 of None \<Rightarrow> m1 | Some x \<Rightarrow> g x)"
    and yields_sum: "(\<And>e. r1 = Inl e \<Longrightarrow> yields P (h e)) \<Longrightarrow> (\<And>x. r1 = Inr x \<Longrightarrow> yields P (l x))
      \<Longrightarrow> yields P (case r1 of Inl e \<Rightarrow> h e | Inr x \<Rightarrow> l x)"
    and yields_Inl: "yields P (Inl e, s)"
    and yields_Inr: "P c' \<Longrightarrow> yields P (Inr (r, c'), s)"
  by (auto simp: yields_def split: sum.splits option.splits)

text \<open>What a reconciliation attempt can do to the catalog.\<close>

lemma reconcile_body_catalog:
  assumes "reconcile_body fs ps sha row intent now m c s = (Inr (r, c'), s')"
  shows "(\<exists>p. c' = set_last_problem (intent_id intent) p c) \<or> complete_intent_locked intent now c = Inr c'"
proof -
  let ?P = "\<lambda>c'. (\<exists>p. c' = set_last_problem (intent_id intent) p c) \<or> complete_intent_locked intent now c = Inr c'"
  have "yields ?P (reconcile_body fs ps sha row intent now m c s)"
    unfolding reconcile_body_def Let_def
    by (intro yields_bindF yields_if yields_option yields_sum yields_Inl yields_Inr) blast+
  with assms show ?thesis
    by (simp add: yields_def)
qed

lemma intent_from_rowD:
  assumes "intent_from_row row = Inr intent"
  shows "intent_id intent = ir_intent_id row \<and> oi_clip_id intent = ir_clip_id row
    \<and> oi_kind intent = ir_kind row \<and> oi_paths intent = ir_paths row"
  using assms unfolding intent_from_row_def
  by (auto simp: result_simps dest!: mk_pair_pathsD mk_operation_intentD)

lemma reconcile_intent_catalog:
  assumes "reconcile_intent fs ps sha iid now m (c, s) = (r, (c', s'))"
  shows "c' = c \<or> (\<exists>p. c' = set_last_problem iid p c)
    \<or> (\<exists>row intent. row_get ir_intent_id iid (operation_intents c) = Some row \<and> is_pending row
         \<and> intent_from_row row = Inr intent \<and> complete_intent_locked intent now c = Inr c')"
proof -
  let ?pre = "bindR (non_negative_integer now) (\<lambda>_. bindR (positive_integer m) (\<lambda>_.
               case row_get ir_intent_id iid (operation_intents c) of
                 None \<Rightarrow> Inl CatalogConflictError
               | Some row \<Rightarrow> bindR (intent_from_row row) (\<lambda>intent. Inr (row, intent))))"
  show ?thesis
  proof (cases ?pre)
    case (Inl e)
    with assms show ?thesis
      by (auto simp: reconcile_intent_def)
  next
    case (Inr ri)
    then obtain row intent where ri: "ri = (row, intent)"
      and row: "row_get ir_intent_id iid (operation_intents c) = Some row" "intent_from_row row = Inr intent"
      by (auto simp: result_simps split: option.splits)
    have iid: "intent_id intent = iid"
      using intent_from_rowD [OF row(2)] intent_table.get_SomeD [OF row(1)] by simp
    show ?thesis
    proof (cases "ir_status row = COMPLETE")
      case True
      with assms Inr ri show ?thesis
        by (auto simp: reconcile_intent_def)
    next
      case False
      then have "is_pending row"
        by (cases "ir_status row") (auto simp: is_pending_def)
      moreover have "c' = c \<or> (\<exists>x. reconcile_body fs ps sha row intent now m c s = (Inr (x, c'), s'))"
        using assms Inr ri False unfolding reconcile_intent_def
        by (auto split: prod.splits sum.splits)
      ultimately show ?thesis
        using row iid by (elim disjE exE) (auto dest: reconcile_body_catalog)
    qed
  qed
qed

lemma inv_reconcile:
  assumes inv: "catalog_inv c" and op: "reconcile_intent fs ps sha iid now m (c, s) = (r, (c', s'))"
  shows "catalog_inv c'"
  using reconcile_intent_catalog [OF op]
proof (elim disjE exE conjE)
  fix row intent
  assume row: "row_get ir_intent_id iid (operation_intents c) = Some row" "is_pending row"
    "intent_from_row row = Inr intent" "complete_intent_locked intent now c = Inr c'"
  note i = intent_from_rowD [OF row(3)] intent_table.get_SomeD [OF row(1)]
  show ?thesis
    using i row by (intro inv_complete_intent [OF inv, of intent row]) auto
qed (use inv inv_set_last_problem in auto)

lemma step_keeps_inv: "catalog_step c c' \<Longrightarrow> catalog_inv c \<Longrightarrow> catalog_inv c'"
proof (induction rule: catalog_step.induct)
  case (register clip now c x1 c')
  then show ?case
    by (auto simp: register_clip_def result_simps intro: inv_insert_clip)
next
  case (writing clip now c x2 c')
  then show ?case
    by (auto simp: register_writing_clip_def result_simps split: if_splits intro: inv_insert_clip)
next
  case (protect k reason now c x10 c')
  then show ?case
    by (auto simp: prepare_protect_def result_simps intro: inv_prepare_protect_locked)
next
  case (delete k now boot c x12 c')
  then obtain row where "required_clip_row c k = Inr row" "prepare_delete_row_locked row now boot c = Inr (x12, c')"
    by (auto simp: prepare_delete_def result_simps)
  with delete.prems show ?case
    using required_clip_rowD inv_prepare_delete_row by metis
next
  case (repair k now c x16 c')
  then obtain row u where "required_clip_row c k = Inr row"
    "queue_directory_invariant_repair_locked row now c = Inr (u, c')"
    by (auto simp: queue_directory_invariant_repair_def result_simps)
  with repair.prems show ?case
    using required_clip_rowD inv_queue_repair by metis
next
  case (latch l c x17 c')
  then show ?case
    by (auto simp: store_retention_threshold_latch_def Let_def catalog_inv_def pending_intent_row_def
        split: if_splits)
qed (auto intro: inv_register_finalizing inv_register_name inv_active_closing inv_mark_orphaned
    inv_acquire_lease inv_release_lease inv_clear_expired inv_prepare_unprotect inv_prepare_oldest
    inv_trigger_event inv_finalize_clip inv_reconcile)

lemma empty_inv: "catalog_inv (empty_catalog stream)"
  by (simp add: catalog_inv_def empty_catalog_def)

lemma reach_inv: "catalog_reach c \<Longrightarrow> catalog_inv c"
  by (induction rule: catalog_reach.induct) (simp_all only: empty_inv step_keeps_inv)

end
