(* ===== verification/Catalog_Evolution.thy ===== *)
theory Catalog_Evolution
  imports Catalog_Steps
begin

text \<open>
  What a transaction can do to a clip row. Apart from the two deletion transitions every
  transaction only lets rows evolve: identity, order and start stay, protection revisions
  grow, a live row stays live and a row in deletion keeps its lifecycle.
\<close>

section \<open>Evolution of rows\<close>

definition row_evolves :: "clip_row \<Rightarrow> clip_row \<Rightarrow> bool" where
  "row_evolves r r' = (cc_clip_id r' = cc_clip_id r \<and> cc_retention_order r' = cc_retention_order r
     \<and> start_monotonic_ns r' = start_monotonic_ns r \<and> cc_managed r' = cc_managed r
     \<and> protection_revision r \<le> protection_revision r'
     \<and> (live r \<longrightarrow> live r') \<and> (\<not> live r \<longrightarrow> cc_lifecycle r' = cc_lifecycle r))"

definition evolves :: "catalog \<Rightarrow> catalog \<Rightarrow> bool" where
  "evolves c c' = (\<forall>k r. find_clip c k = Some r \<longrightarrow> (\<exists>r'. find_clip c' k = Some r' \<and> row_evolves r r'))"

lemma row_evolves_refl: "row_evolves r r"
  by (simp add: row_evolves_def)

lemma row_evolves_trans: "row_evolves r s \<Longrightarrow> row_evolves s t \<Longrightarrow> row_evolves r t"
  by (auto simp: row_evolves_def live_def)

lemma evolves_refl: "evolves c c"
  by (simp add: evolves_def row_evolves_refl)

lemma evolves_trans: "evolves a b \<Longrightarrow> evolves b c \<Longrightarrow> evolves a c"
  unfolding evolves_def by (meson row_evolves_trans)

lemma evolves_same_clips: "clips c' = clips c \<Longrightarrow> evolves c c'"
  using find_clip_cong [of c' c] by (simp add: evolves_def row_evolves_refl)

lemma evolves_from_same_clips: "evolves c c' \<Longrightarrow> clips c = clips c0 \<Longrightarrow> evolves c0 c'"
  using find_clip_cong [of c c0] by (simp add: evolves_def)

lemma evolves_to_same_clips: "evolves c c' \<Longrightarrow> clips c2 = clips c' \<Longrightarrow> evolves c c2"
  using find_clip_cong [of c2 c'] by (simp add: evolves_def)

lemma evolves_append: "clips c' = clips c @ [r] \<Longrightarrow> evolves c c'"
  by (auto simp: evolves_def find_clip_def clip_table.get_append row_evolves_refl)

lemma evolves_update:
  assumes "\<And>r. cc_clip_id (f r) = cc_clip_id r" "\<And>r. find_clip c k = Some r \<Longrightarrow> row_evolves r (f r)"
  shows "evolves c (update_clip k f c)"
  using assms by (auto simp: evolves_def find_clip_update row_evolves_refl)

lemma evolves_foldR:
  assumes "foldR f xs c = Inr c'" "\<And>x t t'. f x t = Inr t' \<Longrightarrow> evolves t t'"
  shows "evolves c c'"
  using assms(1) evolves_refl by (rule foldR_invariant) (blast intro: evolves_trans assms(2))

lemma evolves_insert_intent: "insert_intent_locked k kind ps now rv c = Inr (i, c') \<Longrightarrow> evolves c c'"
  by (rule evolves_same_clips)
    (auto simp: insert_intent_locked_def insert_intent_row_def fresh_uuid_def result_simps split: if_splits)

lemma evolves_mark_unreconciled: "evolves c (mark_unreconciled k now c)"
  unfolding mark_unreconciled_def by (rule evolves_update) (simp_all add: row_evolves_def live_def)

lemma evolves_set_protection: "evolves c (set_protection k reason now c)"
  unfolding set_protection_def by (rule evolves_update) (simp_all add: row_evolves_def live_def)

lemma evolves_clear_lease: "evolves c (clear_lease_locked k c)"
  unfolding clear_lease_locked_def by (rule evolves_update) (simp_all add: row_evolves_def live_def)

lemma evolves_queue_move: "queue_move k kind vs ss d now rv c = Inr (u, c') \<Longrightarrow> evolves c c'"
  unfolding queue_move_def
  by (auto simp: result_simps intro: evolves_trans evolves_insert_intent evolves_mark_unreconciled)

lemma evolves_prepare_protect: "prepare_protect_locked k reason now allow c = Inr (u, c') \<Longrightarrow> evolves c c'"
  unfolding prepare_protect_locked_def
  by (auto simp: result_simps Let_def evolves_refl evolves_set_protection split: if_splits option.splits
      intro: evolves_trans [OF evolves_set_protection evolves_queue_move])

lemma evolves_protect_event: "protect_for_event_locked k reason now c = Inr (u, c') \<Longrightarrow> evolves c c'"
  unfolding protect_for_event_locked_def
  by (auto simp: result_simps Let_def evolves_refl evolves_set_protection split: if_splits option.splits
      intro: evolves_trans [OF evolves_set_protection evolves_queue_move])

lemma evolves_repair: "queue_directory_invariant_repair_locked row now c = Inr (u, c') \<Longrightarrow> evolves c c'"
  unfolding queue_directory_invariant_repair_locked_def
  by (auto simp: result_simps Let_def evolves_refl split: if_splits intro: evolves_queue_move)

lemma evolves_consume_window: "consume_window k now e c = Inr c' \<Longrightarrow> evolves c c'"
  unfolding consume_window_def
  by (auto simp: result_simps Let_def dest!: insert_target_rowD evolves_protect_event
      intro: evolves_from_same_clips)

lemma evolves_protect_target: "protect_target eid reason now t acc = Inr acc' \<Longrightarrow> evolves (snd acc) (snd acc')"
  unfolding protect_target_def
  by (auto simp: result_simps dest!: insert_target_rowD evolves_protect_event split: prod.splits
      intro: evolves_to_same_clips)

lemma evolves_count_window: "count_window k e c = Inr c' \<Longrightarrow> evolves c c'"
  by (rule evolves_same_clips) (simp add: count_windowD)

lemma evolves_trigger_new:
  assumes "trigger_new_event eid cur src now pc nc strict c = Inr (x, c')"
  shows "evolves c c'"
proof -
  obtain e c1 ts q where e: "insert_event_row e c = Inr c1"
    and f: "foldR (protect_target eid (event_reason eid src) now) ts ([], c1) = Inr (q, c')"
    using assms unfolding trigger_new_event_def
    by (auto simp: result_simps Let_def split: option.splits if_splits)
  have "evolves c1 (snd (q, c'))"
    using f by (rule foldR_invariant [where P = "\<lambda>a. evolves c1 (snd a)"])
      (auto simp: evolves_refl dest: evolves_protect_target intro: evolves_trans)
  then show ?thesis
    using evolves_same_clips [of c1 c] insert_event_rowD [OF e] evolves_trans by auto
qed

lemma evolves_trigger_event:
  assumes "trigger_event cur src now pc nc eid strict c = Inr (x, c')"
  shows "evolves c c'"
proof -
  obtain e c0 where c0: "(case eid of None \<Rightarrow> fresh_uuid c | Some e \<Rightarrow> (e, c)) = (e, c0)"
    by fastforce
  have "clips c0 = clips c"
    using c0 by (auto simp: fresh_uuid_def split: option.splits)
  moreover have "c' = c0 \<or> trigger_new_event e cur src now pc nc strict c0 = Inr (x, c')"
    using assms c0 unfolding trigger_event_def
    by (auto simp: result_simps split: option.splits if_splits)
  ultimately show ?thesis
    using evolves_trigger_new evolves_same_clips evolves_trans by blast
qed

lemma evolves_finalize:
  assumes "finalize_clip k end_ns nbytes now c = Inr (x, c')"
  shows "evolves c c'"
proof -
  let ?f = "\<lambda>r. r\<lparr>cc_lifecycle := FINALIZED, end_monotonic_ns := Some end_ns,
                cc_size_bytes := nbytes, updated_catalog_ns := now\<rparr>"
  obtain row es c2 where row: "required_clip_row c k = Inr row"
    and life: "cc_lifecycle row \<in> {CREATING, WRITING, FINALIZING, FINALIZED}"
    and c2: "foldR (count_window k) es (update_clip k ?f c) = Inr c2"
    and tail: "finalize_protection k es now c2 = Inr (x, c')"
    using assms unfolding finalize_clip_def by (auto simp: result_simps Let_def split: if_splits)
  have "evolves c (update_clip k ?f c)"
    using required_clip_rowD [OF row] life
    by (intro evolves_update) (auto simp: row_evolves_def live_def)
  moreover have "evolves (update_clip k ?f c) c2"
    using c2 evolves_count_window by (rule evolves_foldR)
  moreover have "evolves c2 c'"
    using tail unfolding finalize_protection_def
    by (auto simp: result_simps evolves_refl split: if_splits
        dest: evolves_protect_event evolves_prepare_protect)
  ultimately show ?thesis
    by (blast intro: evolves_trans)
qed

lemma evolves_register_finalizing:
  assumes "register_finalizing_clip clip promotion now rv c = Inr (u, c')"
  shows "evolves c c'"
proof -
  let ?k = "cc_clip_id clip"
  obtain c1 i where c1: "insert_clip_locked clip now c = Inr c1
       \<or> (\<exists>row. find_clip c ?k = Some row \<and> cc_lifecycle row = WRITING
            \<and> c1 = update_clip ?k (finalizing_row clip now) c)"
    and i: "insert_intent_locked ?k FINALIZE promotion now None c1 = Inr (i, c')"
    using register_finalizingD [OF assms] by blast
  have "evolves c c1"
    using c1
  proof (elim disjE exE conjE)
    assume "insert_clip_locked clip now c = Inr c1"
    then show ?thesis
      using insert_clip_lockedD evolves_append by blast
  next
    fix row
    assume "find_clip c ?k = Some row" "cc_lifecycle row = WRITING"
      "c1 = update_clip ?k (finalizing_row clip now) c"
    then show ?thesis
      by (auto intro!: evolves_update simp: row_evolves_def live_def finalizing_row_def)
  qed
  then show ?thesis
    using evolves_insert_intent [OF i] evolves_trans by blast
qed

lemma evolves_register_name:
  assumes "register_name_reconciliation canonical sha256 intent ps ss now c = Inr (u, c')"
  shows "evolves c c'"
proof -
  obtain c1 i where c1: "insert_intent_row i c = Inr c1" and c': "c' = mark_unreconciled (oi_clip_id intent) now c1"
    using assms unfolding register_name_reconciliation_def
    by (auto simp: result_simps Let_def split: option.splits if_splits)
  have "evolves c c1"
    using c1 by (intro evolves_same_clips) (auto simp: insert_intent_row_def split: if_splits)
  then show ?thesis
    unfolding c' using evolves_mark_unreconciled evolves_trans by blast
qed

lemma evolves_unprotect: "prepare_unprotect k now c = Inr (u, c') \<Longrightarrow> evolves c c'"
  unfolding prepare_unprotect_def
  by (auto simp: result_simps evolves_refl split: if_splits option.splits
      intro: evolves_queue_move evolves_update simp: row_evolves_def live_def)

lemma evolves_orphaned: "mark_writing_clip_orphaned k now c = Inr (b, c') \<Longrightarrow> evolves c c'"
  unfolding mark_writing_clip_orphaned_def
  by (auto simp: result_simps evolves_refl split: if_splits option.splits
      intro!: evolves_update simp: row_evolves_def live_def)

lemma evolves_acquire: "catalog_acquire_download_lease k h now dur boot cap c = Inr (l, c') \<Longrightarrow> evolves c c'"
  unfolding catalog_acquire_download_lease_def
  by (auto simp: result_simps split: if_splits intro!: evolves_update simp: row_evolves_def live_def)

lemma evolves_clear_then_repair:
  "queue_directory_invariant_repair_locked row now (clear_lease_locked k c) = Inr (u, c') \<Longrightarrow> evolves c c'"
  using evolves_trans [OF evolves_clear_lease evolves_repair] .

lemma evolves_release: "catalog_release_download_lease k h now c = Inr (b, c') \<Longrightarrow> evolves c c'"
  unfolding catalog_release_download_lease_def
  by (auto simp: result_simps Let_def evolves_refl split: if_splits option.splits
      intro: evolves_clear_then_repair)

lemma evolves_clear_expired:
  assumes "clear_expired_download_leases now boot lim c = Inr (n, c')"
  shows "evolves c c'"
proof -
  obtain rows where "foldR (clear_one_expired now) rows c = Inr c'"
    using assms unfolding clear_expired_download_leases_def by (auto simp: result_simps Let_def)
  then show ?thesis
    by (rule evolves_foldR)
      (auto simp: clear_one_expired_def result_simps Let_def intro: evolves_clear_then_repair)
qed

lemma evolves_mark_complete: "evolves c (mark_intent_complete iid now c)"
  by (rule evolves_same_clips) (simp add: mark_intent_complete_def)

lemma evolves_requeue: "requeue_protect k vt st now c = Inr c' \<Longrightarrow> evolves c c'"
  unfolding requeue_protect_def by (auto simp: result_simps intro: evolves_insert_intent)

lemma evolves_complete:
  assumes op: "complete_intent_locked intent now c = Inr c'" and kind: "oi_kind intent \<noteq> DELETE"
    and live: "\<And>r. find_clip c (oi_clip_id intent) = Some r \<Longrightarrow> live r"
  shows "evolves c c'"
proof -
  let ?k = "oi_clip_id intent"
  obtain vt st where t: "video_target (oi_paths intent) = Some vt" "sidecar_target (oi_paths intent) = Some st"
    using op kind unfolding complete_intent_locked_def by (auto split: option.splits)
  have upd: "evolves c (update_clip ?k f c)"
    if "\<And>r. cc_clip_id (f r) = cc_clip_id r" "\<And>r. live r \<Longrightarrow> row_evolves r (f r)" for f
    by (rule evolves_update [OF that(1)]) (rule that(2), rule live)
  have fin: "evolves c c'" if f: "evolves c (update_clip ?k f c)"
    and res: "c' = mark_intent_complete (intent_id intent) now (update_clip ?k f c)
      \<or> requeue_protect ?k vt st now (mark_intent_complete (intent_id intent) now (update_clip ?k f c)) = Inr c'" for f
    using res
  proof (elim disjE)
    assume "c' = mark_intent_complete (intent_id intent) now (update_clip ?k f c)"
    then show ?thesis
      using evolves_trans [OF f evolves_mark_complete] by simp
  next
    assume "requeue_protect ?k vt st now (mark_intent_complete (intent_id intent) now (update_clip ?k f c)) = Inr c'"
    from evolves_requeue [OF this] show ?thesis
      by (rule evolves_trans [OF evolves_trans [OF f evolves_mark_complete]])
  qed
  have "complete_intent_locked intent now c =
      (if oi_kind intent = UNPROTECT then complete_unprotect intent vt st now c
       else if oi_kind intent = PROTECT then Inr (complete_protect intent vt st now c)
       else complete_promotion intent vt st now c)"
    unfolding complete_intent_locked_def t using kind by simp
  with op consider (u) "complete_unprotect intent vt st now c = Inr c'"
    | (p) "c' = complete_protect intent vt st now c"
    | (f) "complete_promotion intent vt st now c = Inr c'"
    by (metis sum.inject(2))
  then show ?thesis
  proof cases
    case u
    then obtain n where "c' = mark_intent_complete (intent_id intent) now (update_clip ?k (unprotected_row n vt st now) c)
      \<or> requeue_protect ?k vt st now (mark_intent_complete (intent_id intent) now
           (update_clip ?k (unprotected_row n vt st now) c)) = Inr c'"
      unfolding complete_unprotect_def Let_def
      by (cases "row_get ir_intent_id (intent_id intent) (operation_intents c)";
          cases "required_clip_row c ?k") (auto split: if_splits)
    then show ?thesis
      by (rule fin [rotated]) (rule upd, simp_all add: unprotected_row_def row_evolves_def live_def)
  next
    case p
    then show ?thesis
      unfolding complete_protect_def
      by (intro fin [OF upd, of "\<lambda>r. r\<lparr>video_path := vt, sidecar_path := st,
            cc_protected := True, cc_pair_reconciled := True, updated_catalog_ns := now\<rparr>"])
        (simp_all add: row_evolves_def live_def)
  next
    case f
    then obtain n where "c' = mark_intent_complete (intent_id intent) now (update_clip ?k (promoted_row n vt st now) c)
      \<or> requeue_protect ?k vt st now (mark_intent_complete (intent_id intent) now
           (update_clip ?k (promoted_row n vt st now) c)) = Inr c'"
      unfolding complete_promotion_def Let_def
      by (cases "required_clip_row c ?k") (auto split: if_splits)
    then show ?thesis
      by (rule fin [rotated]) (rule upd, simp_all add: promoted_row_def row_evolves_def live_def)
  qed
qed

section \<open>The two deletion transitions\<close>

definition row_reserved :: "clip_row \<Rightarrow> clip_row \<Rightarrow> bool" where
  "row_reserved r r' = (cc_clip_id r' = cc_clip_id r \<and> cc_retention_order r' = cc_retention_order r
     \<and> cc_lifecycle r = FINALIZED \<and> \<not> cc_protected r \<and> cc_pair_reconciled r \<and> cc_managed r
     \<and> path_parent (video_path r) = ''clips'' \<and> path_parent (sidecar_path r) = ''clips''
     \<and> cc_lifecycle r' = DELETING)"

definition row_deleted :: "clip_row \<Rightarrow> clip_row \<Rightarrow> bool" where
  "row_deleted r r' = (cc_clip_id r' = cc_clip_id r \<and> cc_retention_order r' = cc_retention_order r
     \<and> cc_lifecycle r = DELETING \<and> \<not> cc_protected r \<and> cc_lifecycle r' = DELETED
     \<and> cc_download_lease r' = None)"

definition row_fate :: "clip_row \<Rightarrow> clip_row \<Rightarrow> bool" where
  "row_fate r r' = (row_evolves r r' \<or> row_reserved r r' \<or> row_deleted r r')"

definition fates :: "catalog \<Rightarrow> catalog \<Rightarrow> bool" where
  "fates c c' = (\<forall>k r. find_clip c k = Some r \<longrightarrow> (\<exists>r'. find_clip c' k = Some r' \<and> row_fate r r'))"

lemma evolves_fates: "evolves c c' \<Longrightarrow> fates c c'"
  unfolding evolves_def fates_def row_fate_def by blast

lemma fates_update:
  assumes "\<And>r. cc_clip_id (f r) = cc_clip_id r" "\<And>r. find_clip c k = Some r \<Longrightarrow> row_fate r (f r)"
    and "clips c1 = clips c"
  shows "fates c (update_clip k f c1)"
  using assms(1,2) find_clip_cong [OF assms(3)]
  by (auto simp: fates_def find_clip_update row_fate_def row_evolves_refl)

lemma prepare_delete_rowD:
  assumes op: "prepare_delete_row_locked row now boot c = Inr (u, c')"
    and new: "pending_intent_row c (cc_clip_id row) = None"
  shows "\<exists>i ps c1. mk_pair_paths (video_path row) (sidecar_path row) None None = Inr ps
    \<and> insert_intent_locked (cc_clip_id row) DELETE ps now None c = Inr (i, c1) \<and> u = intent_id i
    \<and> c' = update_clip (cc_clip_id row) (\<lambda>r. r\<lparr>cc_lifecycle := DELETING, cc_pair_reconciled := False,
            cc_download_lease := None, lease_boot_id := None, updated_catalog_ns := now\<rparr>) c1
    \<and> cc_lifecycle row = FINALIZED \<and> \<not> cc_protected row \<and> cc_pair_reconciled row \<and> cc_managed row
    \<and> \<not> row_has_active_lease row now boot
    \<and> path_parent (video_path row) = ''clips'' \<and> path_parent (sidecar_path row) = ''clips''"
proof -
  obtain ps i c1 where ps: "mk_pair_paths (video_path row) (sidecar_path row) None None = Inr ps"
    and rest: "insert_intent_locked (cc_clip_id row) DELETE ps now None c = Inr (i, c1)" "u = intent_id i"
      "c' = update_clip (cc_clip_id row) (\<lambda>r. r\<lparr>cc_lifecycle := DELETING, cc_pair_reconciled := False,
            cc_download_lease := None, lease_boot_id := None, updated_catalog_ns := now\<rparr>) c1"
      "cc_lifecycle row = FINALIZED" "\<not> cc_protected row" "cc_pair_reconciled row" "cc_managed row"
      "\<not> row_has_active_lease row now boot"
      "path_parent (video_source ps) = ''clips''" "path_parent (sidecar_source ps) = ''clips''"
    using assms unfolding prepare_delete_row_locked_def
    by (auto simp: result_simps Let_def split: if_splits)
  have "video_source ps = video_path row" "sidecar_source ps = sidecar_path row"
    using mk_pair_pathsD [OF ps] by simp_all
  with ps rest show ?thesis
    by metis
qed

lemma insert_intent_locked_clips:
  "insert_intent_locked k kind ps now rv c = Inr (i, c') \<Longrightarrow> clips c' = clips c"
  by (auto simp: insert_intent_locked_def insert_intent_row_def fresh_uuid_def result_simps split: if_splits)

lemma fates_prepare_delete_row:
  assumes row: "find_clip c (cc_clip_id row) = Some row"
    and op: "prepare_delete_row_locked row now boot c = Inr (u, c')"
  shows "fates c c'"
proof (cases "pending_intent_row c (cc_clip_id row)")
  case (Some i)
  then show ?thesis
    using op evolves_fates [OF evolves_refl] unfolding prepare_delete_row_locked_def by (auto split: if_splits)
next
  case None
  from prepare_delete_rowD [OF op None] obtain i ps c1 where
    i: "insert_intent_locked (cc_clip_id row) DELETE ps now None c = Inr (i, c1)"
    and c': "c' = update_clip (cc_clip_id row) (\<lambda>r. r\<lparr>cc_lifecycle := DELETING, cc_pair_reconciled := False,
            cc_download_lease := None, lease_boot_id := None, updated_catalog_ns := now\<rparr>) c1"
    and ok: "cc_lifecycle row = FINALIZED" "\<not> cc_protected row" "cc_pair_reconciled row" "cc_managed row"
      "path_parent (video_path row) = ''clips''" "path_parent (sidecar_path row) = ''clips''"
    by blast
  show ?thesis
    unfolding c' using row ok insert_intent_locked_clips [OF i]
    by (intro fates_update) (auto simp: row_fate_def row_reserved_def)
qed

lemma fates_complete:
  assumes inv: "catalog_inv c"
    and irow: "row_get ir_intent_id (intent_id intent) (operation_intents c) = Some i" "is_pending i"
      "ir_clip_id i = oi_clip_id intent" "ir_kind i = oi_kind intent"
    and op: "complete_intent_locked intent now c = Inr c'"
  shows "fates c c'"
proof -
  let ?k = "oi_clip_id intent"
  have pend: "pending_intent_row c ?k = Some i"
    using irow intent_table.get_SomeD [OF irow(1)] pending_Some_iff [OF inv] by simp
  show ?thesis
  proof (cases "oi_kind intent = DELETE")
    case True
    let ?f = "\<lambda>r. r\<lparr>cc_lifecycle := DELETED, cc_pair_reconciled := True,
        cc_size_bytes := 0, cc_download_lease := None, lease_boot_id := None, updated_catalog_ns := now\<rparr>"
    have "fates c (update_clip ?k ?f c)"
      using linkD [OF inv _ pend] irow(4) True
      by (intro fates_update) (auto simp: row_fate_def row_deleted_def link_ok_def)
    moreover have "c' = mark_intent_complete (intent_id intent) now (update_clip ?k ?f c)"
      using op True by (simp add: complete_intent_locked_def complete_delete_def)
    ultimately show ?thesis
      using find_clip_cong [of c' "update_clip ?k ?f c"] by (simp add: fates_def mark_intent_complete_def)
  next
    case False
    have "\<And>r. find_clip c ?k = Some r \<Longrightarrow> live r"
      using live_if_not_delete [OF inv _ pend] irow(4) False by simp
    from evolves_complete [OF op False this] show ?thesis
      by (rule evolves_fates)
  qed
qed

lemma fates_step: "catalog_step c c' \<Longrightarrow> catalog_inv c \<Longrightarrow> fates c c'"
proof (induction rule: catalog_step.induct)
  case (register clip now c x1 c')
  then have "insert_clip_locked clip now c = Inr c'"
    by (auto simp: register_clip_def result_simps)
  then show ?case
    using insert_clip_lockedD evolves_append evolves_fates by blast
next
  case (writing clip now c x2 c')
  then have "insert_clip_locked clip now c = Inr c'"
    by (auto simp: register_writing_clip_def result_simps split: if_splits)
  then show ?case
    using insert_clip_lockedD evolves_append evolves_fates by blast
next
  case (closing k now c x5 c')
  then obtain es where "foldR (consume_window k now) es c = Inr c'"
    unfolding active_closing_protection_def by (auto simp: result_simps split: if_splits)
  then show ?case
    using evolves_foldR evolves_consume_window evolves_fates by blast
next
  case (protect k reason now c x10 c')
  then show ?case
    by (auto simp: prepare_protect_def result_simps intro: evolves_fates evolves_prepare_protect)
next
  case (delete k now boot c x12 c')
  then obtain row where "required_clip_row c k = Inr row" "prepare_delete_row_locked row now boot c = Inr (x12, c')"
    by (auto simp: prepare_delete_def result_simps)
  then show ?case
    using required_clip_rowD fates_prepare_delete_row by metis
next
  case (delete_oldest now boot c x13 c')
  show ?case
  proof (cases "sort_key order_key (filter (sql_eligible c now boot) (clips c))")
    case Nil
    then show ?thesis
      using delete_oldest evolves_fates [OF evolves_refl]
      unfolding prepare_oldest_eligible_delete_def by (auto simp: result_simps)
  next
    case (Cons row rows)
    then have "row \<in> set (sort_key order_key (filter (sql_eligible c now boot) (clips c)))"
      by simp
    then have "find_clip c (cc_clip_id row) = Some row"
      using find_clip_Some_iff [OF delete_oldest.prems] by simp
    with Cons delete_oldest show ?thesis
      using fates_prepare_delete_row unfolding prepare_oldest_eligible_delete_def
      by (auto simp: result_simps)
  qed
next
  case (repair k now c x16 c')
  then show ?case
    by (auto simp: queue_directory_invariant_repair_def result_simps intro: evolves_fates evolves_repair)
next
  case (latch l c x17 c')
  then show ?case
    by (auto simp: store_retention_threshold_latch_def Let_def split: if_splits
        intro!: evolves_fates evolves_same_clips)
next
  case (reconcile fs parse_sidecar sha256 iid now max_actions c s x18 c' s')
  from reconcile_intent_catalog [OF this(1)] show ?case
  proof (elim disjE exE conjE)
    fix row intent
    assume row: "row_get ir_intent_id iid (operation_intents c) = Some row" "is_pending row"
      "intent_from_row row = Inr intent" "complete_intent_locked intent now c = Inr c'"
    note i = intent_from_rowD [OF row(3)] intent_table.get_SomeD [OF row(1)]
    show ?thesis
      using i row by (intro fates_complete [OF reconcile.prems, of intent row]) auto
  qed (auto intro!: evolves_fates evolves_refl evolves_same_clips simp: set_last_problem_def)
qed (auto intro: evolves_fates evolves_register_finalizing evolves_register_name evolves_orphaned
    evolves_acquire evolves_release evolves_clear_expired evolves_unprotect
    evolves_trigger_event evolves_finalize)

end
