(* ===== verification/Event_Windows.thy ===== *)
theory Event_Windows
  imports Catalog_Evolution
begin

text \<open>
  Event windows: the accounting of \<^verbatim>\<open>protection_events\<close> and \<^verbatim>\<open>protection_event_targets\<close>. An event
  protects up to \<open>requested_previous\<close> earlier clips, the current one, and the next
  \<open>requested_next\<close> clips that are closed; the tables always account for every one of them.

  The locale \<open>silent_relation\<close> proves once, for any relation on catalogs that is
  insensitive to changes of clip and intent rows, that every transaction that is not about
  events stays inside the relation; it is interpreted on ``the event tables are unchanged''.
\<close>

section \<open>Transactions that are silent about events\<close>

locale silent_relation =
  fixes R :: "catalog \<Rightarrow> catalog \<Rightarrow> bool"
  assumes refl: "R c c"
    and trans: "R a b \<Longrightarrow> R b d \<Longrightarrow> R a d"
    and update_clip: "(\<And>r. cc_clip_id (f r) = cc_clip_id r) \<Longrightarrow> R c (update_clip k f c)"
    and update_intent: "R c (update_intent iid g c)"
    and fresh: "R c (c\<lparr>uuid4_used := n\<rparr>)"
    and add_clip: "R c (c\<lparr>clips := clips c @ [r]\<rparr>)"
    and add_intent: "R c (c\<lparr>operation_intents := operation_intents c @ [i]\<rparr>)"
begin

lemma insert_clip: "insert_clip_locked clip now c = Inr c' \<Longrightarrow> R c c'"
  by (auto simp: insert_clip_locked_def Let_def add_clip split: if_splits)

lemma insert_intent: "insert_intent_row i c = Inr c' \<Longrightarrow> R c c'"
  by (auto simp: insert_intent_row_def add_intent split: if_splits)

lemma insert_intent_locked: "insert_intent_locked k kind ps now rv c = Inr (i, c') \<Longrightarrow> R c c'"
  unfolding insert_intent_locked_def fresh_uuid_def
  by (auto simp: result_simps intro: trans [OF fresh insert_intent])

lemma mark_unreconciled: "R c (mark_unreconciled k now c)"
  unfolding mark_unreconciled_def by (rule update_clip) simp

lemma set_protection: "R c (set_protection k reason now c)"
  unfolding set_protection_def by (rule update_clip) simp

lemma clear_lease: "R c (clear_lease_locked k c)"
  unfolding clear_lease_locked_def by (rule update_clip) simp

lemma queue_move: "queue_move k kind vs ss d now rv c = Inr (u, c') \<Longrightarrow> R c c'"
  unfolding queue_move_def
  by (auto simp: result_simps intro: trans insert_intent_locked mark_unreconciled)

lemma prepare_protect_locked: "prepare_protect_locked k reason now allow c = Inr (u, c') \<Longrightarrow> R c c'"
  unfolding prepare_protect_locked_def
  by (auto simp: result_simps Let_def refl set_protection split: if_splits option.splits
      intro: trans [OF set_protection queue_move])

lemma protect_for_event: "protect_for_event_locked k reason now c = Inr (u, c') \<Longrightarrow> R c c'"
  unfolding protect_for_event_locked_def
  by (auto simp: result_simps Let_def refl set_protection split: if_splits option.splits
      intro: trans [OF set_protection queue_move])

lemma repair_locked: "queue_directory_invariant_repair_locked row now c = Inr (u, c') \<Longrightarrow> R c c'"
  unfolding queue_directory_invariant_repair_locked_def
  by (auto simp: result_simps Let_def refl split: if_splits intro: queue_move)

lemma clear_then_repair:
  "queue_directory_invariant_repair_locked row now (clear_lease_locked k c) = Inr (u, c') \<Longrightarrow> R c c'"
  using trans [OF clear_lease repair_locked] .

lemma fold_keeps:
  assumes "foldR f xs c = Inr c'" "\<And>x t t'. f x t = Inr t' \<Longrightarrow> R t t'"
  shows "R c c'"
  using assms(1) refl by (rule foldR_invariant) (blast intro: trans assms(2))

lemma prepare_delete_row: "prepare_delete_row_locked row now boot c = Inr (u, c') \<Longrightarrow> R c c'"
  unfolding prepare_delete_row_locked_def
  by (auto simp: result_simps Let_def refl split: if_splits option.splits
      intro!: trans [OF insert_intent_locked update_clip])

lemma mark_complete: "R c (mark_intent_complete iid now c)"
  unfolding mark_intent_complete_def by (rule update_intent)

lemma requeue: "requeue_protect k vt st now c = Inr c' \<Longrightarrow> R c c'"
  unfolding requeue_protect_def by (auto simp: result_simps intro: insert_intent_locked)

lemma update_complete:
  "(\<And>r. cc_clip_id (f r) = cc_clip_id r) \<Longrightarrow> R c (mark_intent_complete iid now (update_clip k f c))"
  using trans [OF update_clip mark_complete] .

lemma complete_requeue:
  "requeue_protect k vt st now (mark_intent_complete iid now1 (update_clip k1 f c)) = Inr c' \<Longrightarrow>
   (\<And>r. cc_clip_id (f r) = cc_clip_id r) \<Longrightarrow> R c c'"
  using trans [OF update_complete requeue] .

lemma complete: "complete_intent_locked intent now c = Inr c' \<Longrightarrow> R c c'"
  unfolding complete_intent_locked_def complete_delete_def complete_unprotect_def complete_protect_def
    complete_promotion_def unprotected_row_def promoted_row_def
  by (auto simp: result_simps Let_def split: if_splits option.splits
      intro!: update_complete elim!: complete_requeue)

lemma silent_steps:
  "register_clip clip now c = Inr (x1, c') \<Longrightarrow> R c c'"
  "register_writing_clip clip now c = Inr (x1, c') \<Longrightarrow> R c c'"
  "mark_writing_clip_orphaned k now c = Inr (x2, c') \<Longrightarrow> R c c'"
  "catalog_acquire_download_lease k h now dur boot cap c = Inr (x3, c') \<Longrightarrow> R c c'"
  "catalog_release_download_lease k h now c = Inr (x4, c') \<Longrightarrow> R c c'"
  "prepare_protect k reason now c = Inr (x5, c') \<Longrightarrow> R c c'"
  "prepare_unprotect k now c = Inr (x6, c') \<Longrightarrow> R c c'"
  "prepare_delete k now boot c = Inr (x7, c') \<Longrightarrow> R c c'"
  "prepare_oldest_eligible_delete now boot c = Inr (x8, c') \<Longrightarrow> R c c'"
  "queue_directory_invariant_repair k now c = Inr (x9, c') \<Longrightarrow> R c c'"
  unfolding register_clip_def register_writing_clip_def mark_writing_clip_orphaned_def
    catalog_acquire_download_lease_def catalog_release_download_lease_def prepare_protect_def
    prepare_unprotect_def prepare_delete_def prepare_oldest_eligible_delete_def
    queue_directory_invariant_repair_def
  by (auto simp: result_simps Let_def refl split: if_splits option.splits list.splits
      intro: insert_clip clear_then_repair prepare_protect_locked queue_move prepare_delete_row
        repair_locked intro!: update_clip)

lemma clear_expired:
  assumes "clear_expired_download_leases now boot lim c = Inr (n, c')"
  shows "R c c'"
proof -
  obtain rows where "foldR (clear_one_expired now) rows c = Inr c'"
    using assms unfolding clear_expired_download_leases_def by (auto simp: result_simps Let_def)
  then show ?thesis
    by (rule fold_keeps)
      (auto simp: clear_one_expired_def result_simps Let_def intro: clear_then_repair)
qed

lemma register_finalizing:
  assumes "register_finalizing_clip clip promotion now rv c = Inr (u, c')"
  shows "R c c'"
proof -
  obtain c1 i where c1: "insert_clip_locked clip now c = Inr c1
       \<or> c1 = update_clip (cc_clip_id clip) (finalizing_row clip now) c"
    and i: "insert_intent_locked (cc_clip_id clip) FINALIZE promotion now None c1 = Inr (i, c')"
    using register_finalizingD [OF assms] by blast
  have "R c (update_clip (cc_clip_id clip) (finalizing_row clip now) c)"
    by (rule update_clip) (simp add: finalizing_row_def)
  with c1 insert_clip have "R c c1" by blast
  then show ?thesis
    using insert_intent_locked [OF i] trans by blast
qed

lemma register_name:
  "register_name_reconciliation canonical sha256 intent ps ss now c = Inr (u, c') \<Longrightarrow> R c c'"
  unfolding register_name_reconciliation_def
  by (auto simp: result_simps Let_def split: option.splits if_splits
      intro: trans [OF insert_intent mark_unreconciled])

lemma reconcile:
  assumes "reconcile_intent fs ps sha iid now m (c, s) = (r, (c', s'))"
  shows "R c c'"
  using reconcile_intent_catalog [OF assms]
  by (auto simp: refl set_last_problem_def update_intent intro: complete)

end

definition same_events :: "catalog \<Rightarrow> catalog \<Rightarrow> bool" where
  "same_events c c' = (protection_events c' = protection_events c
     \<and> protection_event_targets c' = protection_event_targets c
     \<and> set (map cc_clip_id (clips c)) \<subseteq> set (map cc_clip_id (clips c')))"

interpretation events: silent_relation same_events
proof
  show "same_events c (update_clip k f c)" if "\<And>r. cc_clip_id (f r) = cc_clip_id r" for c k f
    using row_update_keeps [of cc_clip_id f cc_clip_id k "clips c", OF that]
    by (simp add: same_events_def del: set_map)
qed (auto simp: same_events_def update_intent_def)

section \<open>Accounting\<close>

definition role_count :: "catalog \<Rightarrow> uuid \<Rightarrow> EventTargetRole \<Rightarrow> int" where
  "role_count c e role = int (length (filter (\<lambda>t. tg_event_id t = e \<and> tg_role t = role)
     (protection_event_targets c)))"

definition event_accounts :: "catalog \<Rightarrow> event_row \<Rightarrow> bool" where
  "event_accounts c e = (0 \<le> remaining_next e \<and> 0 \<le> missing_previous e
     \<and> missing_previous e + role_count c (ev_event_id e) PREVIOUS = requested_previous e
     \<and> role_count c (ev_event_id e) CURRENT = 1
     \<and> remaining_next e + role_count c (ev_event_id e) NEXT = requested_next e)"

definition event_inv :: "catalog \<Rightarrow> bool" where
  "event_inv c = (distinct (map ev_event_id (protection_events c))
     \<and> distinct (map target_key (protection_event_targets c))
     \<and> (\<forall>t \<in> set (protection_event_targets c). tg_event_id t \<in> set (map ev_event_id (protection_events c)))
     \<and> (\<forall>e \<in> set (protection_events c). event_accounts c e))"

lemma event_inv_same: "same_events c c' \<Longrightarrow> event_inv c \<Longrightarrow> event_inv c'"
  by (simp add: same_events_def event_inv_def event_accounts_def role_count_def)

lemma insert_targetD:
  assumes "insert_target_row t c = Inr c'"
  shows "c' = c\<lparr>protection_event_targets := protection_event_targets c @ [t]\<rparr>
    \<and> target_key t \<notin> set (map target_key (protection_event_targets c))
    \<and> tg_event_id t \<in> set (map ev_event_id (protection_events c))"
  using assms by (auto simp: insert_target_row_def split: if_splits)

lemma event_unique:
  "event_inv c \<Longrightarrow> e \<in> set (protection_events c) \<Longrightarrow> e' \<in> set (protection_events c)
   \<Longrightarrow> ev_event_id e = ev_event_id e' \<Longrightarrow> e = e'"
  unfolding event_inv_def by (auto simp: distinct_map dest: inj_onD)

lemma role_count_add:
  "protection_event_targets c' = protection_event_targets c @ [t] \<Longrightarrow>
   role_count c' e role = role_count c e role + (if tg_event_id t = e \<and> tg_role t = role then 1 else 0)"
  by (simp add: role_count_def)

text \<open>Consuming one NEXT slot of an open window keeps the accounts.\<close>

lemma window_step:
  assumes inv: "event_inv c" and e: "e \<in> set (protection_events c)" "remaining_next e > 0"
    and ins: "insert_target_row (next_target k e) c = Inr c1"
    and g: "\<And>x. ev_event_id (g x) = ev_event_id x" "g e = e\<lparr>remaining_next := remaining_next e - 1\<rparr>"
  shows "event_inv (update_event (ev_event_id e) g c1)
    \<and> (\<forall>x \<in> set (protection_events c). ev_event_id x \<noteq> ev_event_id e
         \<longrightarrow> x \<in> set (protection_events (update_event (ev_event_id e) g c1)))"
proof -
  let ?c2 = "update_event (ev_event_id e) g c1"
  have c1: "protection_events c1 = protection_events c"
    "protection_event_targets c1 = protection_event_targets c @ [next_target k e]"
    "target_key (next_target k e) \<notin> set (map target_key (protection_event_targets c))"
    using insert_targetD [OF ins] by auto
  have c2: "protection_events ?c2 = row_update ev_event_id (ev_event_id e) g (protection_events c)"
    "protection_event_targets ?c2 = protection_event_targets c @ [next_target k e]"
    using c1 by (simp_all add: update_event_def)
  have ids: "map ev_event_id (protection_events ?c2) = map ev_event_id (protection_events c)"
    unfolding c2 by (rule row_update_keeps) (rule g(1))
  have rc: "role_count ?c2 x role = role_count c x role + (if x = ev_event_id e \<and> role = NEXT then 1 else 0)" for x role
    using role_count_add [OF c2(2)] by (auto simp: next_target_def)
  have acc: "event_accounts ?c2 x" if x: "x \<in> set (protection_events ?c2)" for x
  proof -
    obtain y where y: "y \<in> set (protection_events c)" "x = (if ev_event_id y = ev_event_id e then g y else y)"
      using x unfolding c2 event_table.in_update_iff by blast
    have "event_accounts c y"
      using inv y(1) by (simp add: event_inv_def)
    show ?thesis
    proof (cases "ev_event_id y = ev_event_id e")
      case True
      then have "y = e"
        using event_unique [OF inv y(1) e(1)] by simp
      then show ?thesis
        using y(2) \<open>event_accounts c y\<close> g(2) e(2) by (simp add: event_accounts_def rc)
    next
      case False
      then show ?thesis
        using y(2) \<open>event_accounts c y\<close> by (simp add: event_accounts_def rc)
    qed
  qed
  have "event_inv ?c2"
    using inv c1(3) ids acc e(1) unfolding event_inv_def c2(2)
    by (auto simp: next_target_def)
  moreover have "\<forall>x \<in> set (protection_events c). ev_event_id x \<noteq> ev_event_id e \<longrightarrow> x \<in> set (protection_events ?c2)"
    unfolding c2 by (auto simp: event_table.in_update_iff)
  ultimately show ?thesis by blast
qed

lemma same_events_tables:
  "same_events c c' \<Longrightarrow> protection_events c' = protection_events c"
  "same_events c c' \<Longrightarrow> protection_event_targets c' = protection_event_targets c"
  by (simp_all add: same_events_def)

lemma event_inv_consume_fold:
  assumes "foldR (consume_window k now) es c = Inr c'" "event_inv c" "distinct (map ev_event_id es)"
    "set es \<subseteq> set (protection_events c)" "\<forall>e \<in> set es. remaining_next e > 0"
  shows "event_inv c'"
  using assms
proof (induction es arbitrary: c)
  case Nil
  then show ?case by simp
next
  case (Cons e es)
  let ?g = "\<lambda>x. if remaining_next x > 0 then x\<lparr>remaining_next := remaining_next x - 1\<rparr> else x"
  obtain c3 where one: "consume_window k now e c = Inr c3"
    and rest: "foldR (consume_window k now) es c3 = Inr c'"
    using Cons.prems(1) by (auto simp: result_simps)
  obtain c1 u where ins: "insert_target_row (next_target k e) c = Inr c1"
    and p: "protect_for_event_locked k (pending_window_reason (ev_event_id e)) now
              (update_event (ev_event_id e) ?g c1) = Inr (u, c3)"
    using one by (auto simp: consume_window_def result_simps Let_def)
  have ne: "\<forall>x \<in> set es. ev_event_id x \<noteq> ev_event_id e"
    using Cons.prems(3) by (metis distinct.simps(2) list.map(2) image_eqI set_map)
  have "e \<in> set (protection_events c)" "remaining_next e > 0"
    using Cons.prems(4,5) by auto
  from window_step [OF Cons.prems(2) this ins, of ?g]
  have w: "event_inv (update_event (ev_event_id e) ?g c1)"
    "\<forall>x \<in> set (protection_events c). ev_event_id x \<noteq> ev_event_id e
       \<longrightarrow> x \<in> set (protection_events (update_event (ev_event_id e) ?g c1))"
    using \<open>remaining_next e > 0\<close> by auto
  note se = events.protect_for_event [OF p]
  show ?case
  proof (rule Cons.IH [OF rest])
    show "event_inv c3"
      using event_inv_same [OF se w(1)] .
    show "set es \<subseteq> set (protection_events c3)"
      unfolding same_events_tables(1) [OF se] using w(2) ne Cons.prems(4) by auto
    show "distinct (map ev_event_id es)" "\<forall>e \<in> set es. remaining_next e > 0"
      using Cons.prems(3,5) by simp_all
  qed
qed

lemma event_inv_count_fold:
  assumes "foldR (count_window k) es c = Inr c'" "event_inv c" "distinct (map ev_event_id es)"
    "set es \<subseteq> set (protection_events c)" "\<forall>e \<in> set es. remaining_next e > 0"
    "\<forall>e \<in> set es. (ev_event_id e, k) \<notin> set (map target_key (protection_event_targets c))"
  shows "event_inv c'"
  using assms
proof (induction es arbitrary: c)
  case Nil
  then show ?case by simp
next
  case (Cons e es)
  let ?g = "\<lambda>x. x\<lparr>remaining_next := remaining_next x - 1\<rparr>"
  obtain c2 where one: "count_window k e c = Inr c2" and rest2: "foldR (count_window k) es c2 = Inr c'"
    using Cons.prems(1) by (auto simp: result_simps)
  have "target_key (next_target k e) \<notin> set (map target_key (protection_event_targets c))"
    using Cons.prems(6) by (simp add: next_target_def target_key_def)
  then obtain c1 where ins: "insert_target_row (next_target k e) c = Inr c1"
    and c2: "c2 = update_event (ev_event_id e) ?g c1"
    using one unfolding count_window_def insert_or_ignore_target_def
    by (auto simp: result_simps Let_def split: if_splits)
  have rest: "foldR (count_window k) es (update_event (ev_event_id e) ?g c1) = Inr c'"
    using rest2 unfolding c2 .
  have ne: "\<forall>x \<in> set es. ev_event_id x \<noteq> ev_event_id e"
    using Cons.prems(3) by (metis distinct.simps(2) list.map(2) image_eqI set_map)
  have "e \<in> set (protection_events c)" "remaining_next e > 0"
    using Cons.prems(4,5) by auto
  from window_step [OF Cons.prems(2) this ins, of ?g]
  have w: "event_inv (update_event (ev_event_id e) ?g c1)"
    "\<forall>x \<in> set (protection_events c). ev_event_id x \<noteq> ev_event_id e
       \<longrightarrow> x \<in> set (protection_events (update_event (ev_event_id e) ?g c1))"
    by auto
  show ?case
  proof (rule Cons.IH [OF rest w(1)])
    show "set es \<subseteq> set (protection_events (update_event (ev_event_id e) ?g c1))"
      using w(2) ne Cons.prems(4) by auto
    show "distinct (map ev_event_id es)" "\<forall>e \<in> set es. remaining_next e > 0"
      using Cons.prems(3,5) by simp_all
    show "\<forall>x \<in> set es. (ev_event_id x, k)
        \<notin> set (map target_key (protection_event_targets (update_event (ev_event_id e) ?g c1)))"
      using insert_targetD [OF ins] Cons.prems(6) ne
      by (auto simp: update_event_def next_target_def target_key_def)
  qed
qed

lemma windows_facts:
  assumes "event_inv c"
  shows "distinct (map ev_event_id (pending_event_windows c row))"
    "set (pending_event_windows c row) \<subseteq> set (protection_events c)"
    "\<forall>e \<in> set (pending_event_windows c row). remaining_next e > 0
       \<and> (ev_event_id e, cc_clip_id row) \<notin> set (map target_key (protection_event_targets c))"
proof -
  let ?ws = "sort_key event_key (filter (window_open_for c row) (protection_events c))"
  have sub: "set (pending_event_windows c row) \<subseteq> set ?ws"
    unfolding pending_event_windows_def by (rule set_take_subset)
  have "distinct (map ev_event_id (protection_events c))"
    using assms by (simp add: event_inv_def)
  then have d: "distinct (protection_events c)" "inj_on ev_event_id (set (protection_events c))"
    by (auto simp: distinct_map)
  then show "distinct (map ev_event_id (pending_event_windows c row))"
    using sub by (auto simp: distinct_map pending_event_windows_def intro: inj_on_subset)
  show "set (pending_event_windows c row) \<subseteq> set (protection_events c)"
    "\<forall>e \<in> set (pending_event_windows c row). remaining_next e > 0
       \<and> (ev_event_id e, cc_clip_id row) \<notin> set (map target_key (protection_event_targets c))"
    using sub by (auto simp: window_open_for_def)
qed

section \<open>Protecting one target\<close>

text \<open>The pending PROTECT intent of a clip, as the list the event results hold.\<close>

definition protect_ids :: "catalog \<Rightarrow> uuid \<Rightarrow> uuid list" where
  "protect_ids c k = (case pending_intent_row c k of None \<Rightarrow> []
     | Some p \<Rightarrow> if ir_kind p = PROTECT then [ir_intent_id p] else [])"

definition option_list :: "'a option \<Rightarrow> 'a list" where
  "option_list x = (case x of None \<Rightarrow> [] | Some y \<Rightarrow> [y])"

definition target_of :: "uuid \<Rightarrow> uuid \<times> EventTargetRole \<times> int \<Rightarrow> target_row" where
  "target_of eid t = \<lparr>tg_event_id = eid, tg_clip_id = fst t, tg_role = fst (snd t), tg_ordinal = snd (snd t)\<rparr>"

lemma queue_move_pending:
  assumes "queue_move k kind vs ss d now rv c = Inr (u, c')"
  shows "\<exists>p. pending_intent_row c' k = Some p \<and> ir_intent_id p = u \<and> ir_kind p = kind"
    and "j \<noteq> k \<Longrightarrow> pending_intent_row c' j = pending_intent_row c j"
proof -
  obtain ps i c1 where i: "insert_intent_locked k kind ps now rv c = Inr (i, c1)"
    and c': "c' = mark_unreconciled k now c1" and u: "u = intent_id i"
    using assms unfolding queue_move_def by (auto simp: result_simps)
  obtain c0 where c0: "operation_intents c0 = operation_intents c"
    "insert_intent_row (row_of_intent i rv None None) c0 = Inr c1" "oi_clip_id i = k" "oi_kind i = kind"
    using insert_intent_lockedD [OF i] by blast
  have c1: "operation_intents c1 = operation_intents c @ [row_of_intent i rv None None]"
    "pending_intent_row c k = None"
    using c0 pending_cong [OF c0(1)] by (auto simp: insert_intent_row_def split: if_splits)
  have app: "find P (xs @ [x]) = (case find P xs of None \<Rightarrow> if P x then Some x else None | Some y \<Rightarrow> Some y)"
    for P xs and x :: intent_row
    by (induction xs) auto
  have "pending_intent_row c1 k = Some (row_of_intent i rv None None)"
    using c1 c0(3) unfolding pending_intent_row_def by (simp add: app)
  then show "\<exists>p. pending_intent_row c' k = Some p \<and> ir_intent_id p = u \<and> ir_kind p = kind"
    using c0(4) u unfolding c' mark_unreconciled_def by simp
  show "j \<noteq> k \<Longrightarrow> pending_intent_row c' j = pending_intent_row c j"
    using c1(1) c0(3) unfolding c' mark_unreconciled_def
    by (auto simp: pending_intent_row_def app split: option.splits)
qed

lemma pending_set_protection [simp]:
  "pending_intent_row (set_protection k reason now c) j = pending_intent_row c j"
  by (simp add: set_protection_def)

lemma protect_for_event_pending:
  assumes inv: "catalog_inv c" and op: "protect_for_event_locked k reason now c = Inr (u, c')"
  shows "option_list u = protect_ids c' k"
    and "j \<noteq> k \<Longrightarrow> pending_intent_row c' j = pending_intent_row c j"
proof -
  obtain row where row: "required_clip_row c k = Inr row"
    using op unfolding protect_for_event_locked_def by (auto simp: result_simps)
  let ?c1 = "set_protection k reason now c"
  note op' = op [unfolded protect_for_event_locked_def row bindR_simps Let_def]
  have "option_list u = protect_ids c' k \<and> (j \<noteq> k \<longrightarrow> pending_intent_row c' j = pending_intent_row c j)"
  proof (cases "pending_intent_row c k")
    case (Some p)
    have "cc_lifecycle row \<in> {DELETING, DELETED} \<Longrightarrow> ir_kind p \<noteq> PROTECT"
      using linkD [OF inv _ Some] required_clip_rowD [OF row] by (auto simp: link_ok_def)
    with Some show ?thesis
      using op' by (auto simp: protect_ids_def option_list_def split: if_splits)
  next
    case None
    then show ?thesis
      using op' queue_move_pending [where c = ?c1]
      by (auto simp: protect_ids_def option_list_def result_simps split: if_splits) fastforce+
  qed
  then show "option_list u = protect_ids c' k"
    "j \<noteq> k \<Longrightarrow> pending_intent_row c' j = pending_intent_row c j"
    by simp_all
qed

lemma protect_fold:
  assumes "foldR (protect_target eid reason now) ts (q, c) = Inr (q', c')" "catalog_inv c"
    "distinct (map fst ts)"
  shows "protection_events c' = protection_events c
    \<and> protection_event_targets c' = protection_event_targets c @ map (target_of eid) ts
    \<and> (distinct (map target_key (protection_event_targets c)) \<longrightarrow>
        distinct (map target_key (protection_event_targets c')))
    \<and> (\<forall>j. j \<notin> fst ` set ts \<longrightarrow> pending_intent_row c' j = pending_intent_row c j)
    \<and> q' = q @ concat (map (protect_ids c' \<circ> fst) ts)"
  using assms
proof (induction ts arbitrary: q c)
  case Nil
  then show ?case by simp
next
  case (Cons t ts)
  obtain q1 c2 where one: "protect_target eid reason now t (q, c) = Inr (q1, c2)"
    and rest: "foldR (protect_target eid reason now) ts (q1, c2) = Inr (q', c')"
    using Cons.prems(1) by (auto simp: result_simps)
  obtain u c1 where p: "protect_for_event_locked (fst t) reason now c = Inr (u, c1)"
    and i: "insert_target_row (target_of eid t) c1 = Inr c2" and q1: "q1 = q @ option_list u"
    using one unfolding protect_target_def target_of_def option_list_def
    by (auto simp: result_simps split: prod.splits)
  note tab = same_events_tables [OF events.protect_for_event [OF p]]
  note ins = insert_targetD [OF i]
  note pend = protect_for_event_pending [OF Cons.prems(2) p]
  have p2: "pending_intent_row c2 j = pending_intent_row c1 j" for j
    using ins by (simp add: pending_intent_row_def)
  have inv2: "catalog_inv c2"
    using inv_protect_for_event [OF Cons.prems(2) p] insert_target_rowD [OF i] catalog_inv_cong [of c2 c1] by simp
  have d: "distinct (map fst ts)" "fst t \<notin> fst ` set ts"
    using Cons.prems(3) by auto
  note IH = Cons.IH [OF rest inv2 d(1)]
  have "protect_ids c' (fst t) = option_list u"
    using IH d(2) pend(1) p2 by (simp add: protect_ids_def)
  moreover have dc2: "distinct (map target_key (protection_event_targets c)) \<longrightarrow>
      distinct (map target_key (protection_event_targets c2))"
    using tab ins by simp
  have "distinct (map target_key (protection_event_targets c)) \<longrightarrow>
      distinct (map target_key (protection_event_targets c'))"
    using dc2 IH by blast
  moreover have tabs: "protection_events c2 = protection_events c"
    "protection_event_targets c2 = protection_event_targets c @ [target_of eid t]"
    using tab ins by simp_all
  ultimately show ?case
    using IH pend(2) p2 unfolding q1 tabs by (intro conjI) (assumption | simp)+
qed

section \<open>A new event\<close>

lemma previous_rows_facts:
  assumes inv: "catalog_inv c" and row: "find_clip c k = Some current"
  shows "distinct (map cc_clip_id (previous_rows current pc c))"
    "\<forall>r \<in> set (previous_rows current pc c). r \<in> set (clips c) \<and> cc_clip_id r \<noteq> k \<and> cc_lifecycle r = FINALIZED
       \<and> cc_retention_order r < cc_retention_order current"
    "length (previous_rows current pc c) \<le> nat pc"
proof -
  let ?xs = "rev (sort_key order_key (filter (\<lambda>r. cc_retention_order r < cc_retention_order current
     \<and> cc_lifecycle r = FINALIZED) (clips c)))"
  have sub: "set (previous_rows current pc c) \<subseteq> set ?xs"
    unfolding previous_rows_def by (rule set_take_subset)
  have d: "distinct (clips c)" "inj_on cc_clip_id (set (clips c))"
    using inv_ids [OF inv] by (auto simp: distinct_map)
  show "distinct (map cc_clip_id (previous_rows current pc c))"
    using sub d by (auto simp: distinct_map previous_rows_def intro: inj_on_subset)
  show "\<forall>r \<in> set (previous_rows current pc c). r \<in> set (clips c) \<and> cc_clip_id r \<noteq> k \<and> cc_lifecycle r = FINALIZED
       \<and> cc_retention_order r < cc_retention_order current"
  proof
    fix r
    assume "r \<in> set (previous_rows current pc c)"
    then have r: "r \<in> set (clips c)" "cc_lifecycle r = FINALIZED"
      "cc_retention_order r < cc_retention_order current"
      using sub by auto
    have "cc_clip_id r \<noteq> k"
      using r(3) row find_clip_Some_iff [OF inv, of k current] unique_row [OF inv r(1), of current] by auto
    with r show "r \<in> set (clips c) \<and> cc_clip_id r \<noteq> k \<and> cc_lifecycle r = FINALIZED
       \<and> cc_retention_order r < cc_retention_order current" by simp
  qed
  show "length (previous_rows current pc c) \<le> nat pc"
    by (simp add: previous_rows_def)
qed

lemma event_targets_fst: "map fst (event_targets k prev) = map cc_clip_id (rev prev) @ [k]"
  by (simp add: event_targets_def case_prod_beta comp_def)
    (metis (no_types, lifting) map_map map_snd_enumerate rev_map comp_def map_eq_conv)

lemma sorted_enumerate: "sorted (map (\<lambda>(i, r). (0 :: int, int i, g r)) (enumerate n xs))"
  by (induction xs arbitrary: n) (auto simp: in_set_enumerate_eq)

lemma sorted_event_targets: "sorted (map target_order (map (target_of eid) (event_targets k prev)))"
proof -
  have "map target_order (map (target_of eid) (event_targets k prev))
      = map (\<lambda>(i, r). (0, int i, cc_clip_id r)) (enumerate 1 (rev prev)) @ [(1, 0, k)]"
    by (auto simp: event_targets_def target_of_def target_order_def)
  then show ?thesis
    using sorted_enumerate [of cc_clip_id 1 "rev prev"] by (auto simp: sorted_append)
qed

lemma event_targets_roles:
  "length (filter (\<lambda>t. fst (snd t) = PREVIOUS) (event_targets k prev)) = length prev"
  "length (filter (\<lambda>t. fst (snd t) = CURRENT) (event_targets k prev)) = 1"
  "length (filter (\<lambda>t. fst (snd t) = NEXT) (event_targets k prev)) = 0"
proof -
  have "filter (\<lambda>t. fst (snd t) = role) (map (\<lambda>(i, r). (cc_clip_id r, PREVIOUS, int i)) (enumerate 1 (rev prev)))
      = (if role = PREVIOUS then map (\<lambda>(i, r). (cc_clip_id r, PREVIOUS, int i)) (enumerate 1 (rev prev)) else [])"
    for role :: EventTargetRole
    by (auto simp: filter_map comp_def case_prod_beta)
  then show "length (filter (\<lambda>t. fst (snd t) = PREVIOUS) (event_targets k prev)) = length prev"
    "length (filter (\<lambda>t. fst (snd t) = CURRENT) (event_targets k prev)) = 1"
    "length (filter (\<lambda>t. fst (snd t) = NEXT) (event_targets k prev)) = 0"
    by (simp_all add: event_targets_def)
qed

definition new_event_row :: "uuid \<Rightarrow> uuid \<Rightarrow> EventSource \<Rightarrow> int \<Rightarrow> int \<Rightarrow> int \<Rightarrow> int \<Rightarrow> event_row" where
  "new_event_row eid k src now pc nc missing = \<lparr>ev_event_id = eid, ev_source = src,
     triggered_monotonic_ns = now, current_clip_id = k, requested_previous = pc, requested_next = nc,
     missing_previous = missing, remaining_next = nc\<rparr>"

lemma trigger_newD:
  assumes inv: "catalog_inv c" and op: "trigger_new_event eid cur src now pc nc strict c = Inr (res, c')"
  obtains k current c1 prev e where "cur = Some k" "find_clip c k = Some current"
    "prev = previous_rows current pc c" "e = new_event_row eid k src now pc nc (pc - int (length prev))"
    "live current"
    "insert_event_row e c = Inr c1" "c1 = c\<lparr>protection_events := protection_events c @ [e]\<rparr>"
    "ev_event_id e \<notin> set (map ev_event_id (protection_events c))" "catalog_inv c1"
    "distinct (map fst (event_targets k prev))"
    "foldR (protect_target eid (event_reason eid src) now) (event_targets k prev) ([], c1)
       = Inr (queued_intent_ids res, c')"
    "res = \<lparr>epr_event_id = eid, protected_clip_ids = map fst (event_targets k prev),
       missing_previous_count = pc - int (length prev), pending_next_count = nc,
       queued_intent_ids = queued_intent_ids res\<rparr>"
proof -
  obtain k current c1 where k: "cur = Some k" "required_clip_row c k = Inr current" "live current"
    and e: "insert_event_row (new_event_row eid k src now pc nc
         (pc - int (length (previous_rows current pc c)))) c = Inr c1"
    and f: "foldR (protect_target eid (event_reason eid src) now)
         (event_targets k (previous_rows current pc c)) ([], c1) = Inr (queued_intent_ids res, c')"
    and res: "res = \<lparr>epr_event_id = eid,
       protected_clip_ids = map fst (event_targets k (previous_rows current pc c)),
       missing_previous_count = pc - int (length (previous_rows current pc c)), pending_next_count = nc,
       queued_intent_ids = queued_intent_ids res\<rparr>"
    using op unfolding trigger_new_event_def new_event_row_def live_def
    by (auto simp: result_simps Let_def split: option.splits if_splits)
  have c1: "c1 = c\<lparr>protection_events := protection_events c @ [new_event_row eid k src now pc nc
         (pc - int (length (previous_rows current pc c)))]\<rparr>" "eid \<notin> set (map ev_event_id (protection_events c))"
    using e by (auto simp: insert_event_row_def new_event_row_def split: if_splits)
  have row: "find_clip c k = Some current"
    using required_clip_rowD [OF k(2)] by simp
  have "distinct (map fst (event_targets k (previous_rows current pc c)))"
    using previous_rows_facts(1,2) [OF inv row, of pc] unfolding event_targets_fst
    by (auto simp: rev_map [symmetric])
  moreover have "catalog_inv c1"
    using inv catalog_inv_cong [of c1 c] c1(1) by simp
  ultimately show ?thesis
    using that [OF k(1) row refl refl k(3) e c1(1)] f res c1(2) by (simp add: new_event_row_def)
qed

lemma role_count_targets:
  assumes "protection_event_targets c' = protection_event_targets c @ map (target_of eid) ts"
  shows "role_count c' x role = role_count c x role
    + (if x = eid then int (length (filter (\<lambda>t. fst (snd t) = role) ts)) else 0)"
  using assms by (simp add: role_count_def filter_map comp_def target_of_def)

lemma event_inv_trigger_new:
  assumes inv: "catalog_inv c" and ev: "event_inv c" and n: "0 \<le> pc" "0 \<le> nc"
    and op: "trigger_new_event eid cur src now pc nc strict c = Inr (res, c')"
  shows "event_inv c'"
proof -
  obtain k current c1 prev e where t: "find_clip c k = Some current"
    "prev = previous_rows current pc c" "e = new_event_row eid k src now pc nc (pc - int (length prev))"
    "c1 = c\<lparr>protection_events := protection_events c @ [e]\<rparr>"
    "ev_event_id e \<notin> set (map ev_event_id (protection_events c))" "catalog_inv c1"
    "distinct (map fst (event_targets k prev))"
    "foldR (protect_target eid (event_reason eid src) now) (event_targets k prev) ([], c1)
       = Inr (queued_intent_ids res, c')"
    using trigger_newD [OF inv op] by metis
  note f = protect_fold [OF t(8,6,7)]
  have tabs: "protection_events c' = protection_events c @ [e]"
    "protection_event_targets c' = protection_event_targets c @ map (target_of eid) (event_targets k prev)"
    using f t(4) by simp_all
  have e: "ev_event_id e = eid" "remaining_next e = nc" "requested_next e = nc" "requested_previous e = pc"
    "missing_previous e = pc - int (length prev)"
    using t(3) by (simp_all add: new_event_row_def)
  have "tg_event_id x \<noteq> eid" if "x \<in> set (protection_event_targets c)" for x
    using that ev t(5) e(1) unfolding event_inv_def by metis
  then have none: "role_count c eid role = 0" for role
    unfolding role_count_def by (auto simp: filter_empty_conv)
  have "event_accounts c' e"
    using previous_rows_facts(3) [OF inv t(1), of pc] t(2) n e none event_targets_roles [of k prev]
    by (simp add: event_accounts_def role_count_targets [OF tabs(2)])
  moreover have "event_accounts c' x" if "x \<in> set (protection_events c)" for x
  proof -
    have "ev_event_id x \<in> set (map ev_event_id (protection_events c))"
      using that by simp
    then have "ev_event_id x \<noteq> eid" "event_accounts c x"
      using that t(5) e(1) ev by (metis, simp add: event_inv_def)
    then show ?thesis
      by (simp add: event_accounts_def role_count_targets [OF tabs(2)])
  qed
  moreover have "distinct (map target_key (protection_event_targets c1))"
    using t(4) ev by (simp add: event_inv_def)
  then have "distinct (map target_key (protection_event_targets c'))"
    using f by blast
  ultimately show ?thesis
    using ev t(5) e(1) unfolding event_inv_def tabs by (auto simp: target_of_def)
qed

lemma event_inv_step:
  assumes "catalog_step c c'" "catalog_inv c" "event_inv c"
  shows "event_inv c'"
  using assms
proof (induction rule: catalog_step.induct)
  case (closing k now c x5 c')
  then obtain row where "required_clip_row c k = Inr row"
    "foldR (consume_window k now) (pending_event_windows c row) c = Inr c'"
    unfolding active_closing_protection_def by (auto simp: result_simps split: if_splits)
  then show ?case
    using event_inv_consume_fold closing.prems(2) windows_facts [OF closing.prems(2), of row] by blast
next
  case (finalize k end_ns nbytes now c x15 c')
  let ?f = "\<lambda>r. r\<lparr>cc_lifecycle := FINALIZED, end_monotonic_ns := Some end_ns,
                cc_size_bytes := nbytes, updated_catalog_ns := now\<rparr>"
  let ?c1 = "update_clip k ?f c"
  obtain row c2 where row: "required_clip_row c k = Inr row"
    and c2: "foldR (count_window k) (pending_event_windows ?c1 row) ?c1 = Inr c2"
    and tail: "finalize_protection k (pending_event_windows ?c1 row) now c2 = Inr (x15, c')"
    using finalize(1) unfolding finalize_clip_def by (auto simp: result_simps Let_def split: if_splits)
  have inv1: "event_inv ?c1"
    using event_inv_same [OF events.update_clip finalize.prems(2)] by simp
  have "event_inv c2"
    using event_inv_count_fold [OF c2 inv1] windows_facts [OF inv1, of row] required_clip_rowD [OF row] by blast
  moreover have "same_events c2 c'"
    using tail events.protect_for_event events.prepare_protect_locked events.refl
    unfolding finalize_protection_def by (auto simp: result_simps split: if_splits)
  ultimately show ?case
    using event_inv_same by blast
next
  case (event cur src now prev nxt eid strict c x14 c')
  obtain e c0 where c0: "(case eid of None \<Rightarrow> fresh_uuid c | Some e \<Rightarrow> (e, c)) = (e, c0)"
    by fastforce
  have se: "same_events c c0" "operation_intents c0 = operation_intents c" "clips c0 = clips c"
    using c0 by (auto simp: fresh_uuid_def same_events_def split: option.splits)
  have "0 \<le> prev" "0 \<le> nxt"
    using event(1) unfolding trigger_event_def bounded_count_def non_negative_integer_def
    by (auto simp: result_simps split: if_splits)
  moreover have "c' = c0 \<or> trigger_new_event e cur src now prev nxt strict c0 = Inr (x14, c')"
    using event(1) c0 unfolding trigger_event_def
    by (auto simp: result_simps split: option.splits if_splits)
  moreover have "catalog_inv c0" "event_inv c0"
    using event.prems se catalog_inv_cong [of c0 c] event_inv_same by auto
  ultimately show ?case
    using event_inv_trigger_new by blast
next
  case (latch l c x17 c')
  then show ?case
    by (auto simp: store_retention_threshold_latch_def Let_def event_inv_def event_accounts_def
        role_count_def split: if_splits)
qed (rule event_inv_same,
    erule events.silent_steps events.clear_expired events.register_finalizing
      events.register_name events.reconcile, assumption)+

lemma reach_event_inv: "catalog_reach c \<Longrightarrow> event_inv c"
proof (induction rule: catalog_reach.induct)
  case (initial stream)
  then show ?case
    by (simp add: event_inv_def empty_catalog_def)
next
  case (step c c')
  then show ?case
    using event_inv_step reach_inv by blast
qed

section \<open>Replay\<close>

lemma replay_new_event:
  assumes inv: "catalog_inv c" and ev: "event_inv c"
    and op: "trigger_new_event eid cur src now pc nc strict c = Inr (res, c')"
  shows "\<exists>e. row_get ev_event_id eid (protection_events c') = Some e \<and> ev_source e = src
    \<and> requested_previous e = pc \<and> requested_next e = nc \<and> replay_event e c' = res \<and> epr_event_id res = eid"
proof -
  obtain k current c1 prev e where t:
    "e = new_event_row eid k src now pc nc (pc - int (length prev))"
    "c1 = c\<lparr>protection_events := protection_events c @ [e]\<rparr>"
    "ev_event_id e \<notin> set (map ev_event_id (protection_events c))" "catalog_inv c1"
    "distinct (map fst (event_targets k prev))"
    "foldR (protect_target eid (event_reason eid src) now) (event_targets k prev) ([], c1)
       = Inr (queued_intent_ids res, c')"
    "res = \<lparr>epr_event_id = eid, protected_clip_ids = map fst (event_targets k prev),
       missing_previous_count = pc - int (length prev), pending_next_count = nc,
       queued_intent_ids = queued_intent_ids res\<rparr>"
    using trigger_newD [OF inv op] by metis
  note f = protect_fold [OF t(6,4,5)]
  have e: "ev_event_id e = eid" "ev_source e = src" "requested_previous e = pc" "requested_next e = nc"
    "missing_previous e = pc - int (length prev)" "remaining_next e = nc"
    using t(1) by (simp_all add: new_event_row_def)
  have tabs: "protection_events c' = protection_events c @ [e]"
    "protection_event_targets c' = protection_event_targets c @ map (target_of eid) (event_targets k prev)"
    "queued_intent_ids res = concat (map (protect_ids c' \<circ> fst) (event_targets k prev))"
    using f t(2) by simp_all
  have "row_get ev_event_id eid (protection_events c) = None"
    using t(3) e(1) by (simp add: event_table.get_None_iff)
  then have get: "row_get ev_event_id eid (protection_events c') = Some e"
    using e(1) unfolding tabs event_table.get_append by simp
  have "tg_event_id x \<noteq> eid" if "x \<in> set (protection_event_targets c)" for x
    using that ev t(3) e(1) unfolding event_inv_def by metis
  then have "filter (\<lambda>t. tg_event_id t = ev_event_id e) (protection_event_targets c')
      = map (target_of eid) (event_targets k prev)"
    unfolding tabs e(1) by (auto simp: filter_empty_conv target_of_def intro!: filter_True)
  then have ids: "map tg_clip_id (sort_key target_order (filter (\<lambda>t. tg_event_id t = ev_event_id e)
      (protection_event_targets c'))) = map fst (event_targets k prev)"
    by (simp only: sort_key_id_if_sorted [OF sorted_event_targets]) (simp add: target_of_def)
  have "replay_event e c' = \<lparr>epr_event_id = eid, protected_clip_ids = map fst (event_targets k prev),
      missing_previous_count = pc - int (length prev), pending_next_count = nc,
      queued_intent_ids = concat (map (protect_ids c') (map fst (event_targets k prev)))\<rparr>"
    unfolding replay_event_def ids Let_def by (simp add: e protect_ids_def [abs_def])
  also have "\<dots> = res"
    using t(7) tabs(3) by (simp add: comp_def)
  finally show ?thesis
    using get e t(7) by (metis EventProtectionResult.select_convs(1))
qed

lemma replay_is_stable:
  assumes "row_get ev_event_id eid (protection_events c) = Some e" "ev_source e = src"
    "requested_previous e = pc" "requested_next e = nc" "0 \<le> now" "bounded_count pc = Inr ()"
    "bounded_count nc = Inr ()"
  shows "trigger_event cur src now pc nc (Some eid) strict c = Inr (replay_event e c, c)"
  using assms by (simp add: trigger_event_def non_negative_integer_def)

section \<open>What protection does to the rows\<close>

definition row_protected_by :: "string \<Rightarrow> clip_row \<Rightarrow> clip_row \<Rightarrow> bool" where
  "row_protected_by reason r r' = (cc_lifecycle r' = cc_lifecycle r
     \<and> video_path r' = video_path r \<and> sidecar_path r' = sidecar_path r
     \<and> (live r \<longrightarrow> cc_protected r' \<and> protection_reason r' = Some reason
                    \<and> protection_revision r' = protection_revision r + 1)
     \<and> (\<not> live r \<longrightarrow> r' = r))"

lemma find_clip_queue_move:
  assumes "queue_move k kind vs ss d now rv c = Inr (u, c')"
  shows "find_clip c' j = (if j = k then map_option (\<lambda>r. r\<lparr>cc_pair_reconciled := False,
     updated_catalog_ns := now\<rparr>) (find_clip c k) else find_clip c j)"
proof -
  obtain ps i c1 where i: "insert_intent_locked k kind ps now rv c = Inr (i, c1)"
    and c': "c' = mark_unreconciled k now c1"
    using assms unfolding queue_move_def by (auto simp: result_simps)
  show ?thesis
    using find_clip_cong [OF insert_intent_locked_clips [OF i]]
    unfolding c' mark_unreconciled_def by (simp add: find_clip_update)
qed

lemma find_clip_set_protection_iff:
  "find_clip (set_protection k reason now c) j = (if j = k then map_option (\<lambda>r. r\<lparr>cc_protected := True,
     protection_reason := Some reason, protection_revision := protection_revision r + 1,
     updated_catalog_ns := now\<rparr>) (find_clip c k) else find_clip c j)"
  unfolding set_protection_def by (simp add: find_clip_update)

lemma protect_for_event_row:
  assumes inv: "catalog_inv c" and op: "protect_for_event_locked k reason now c = Inr (u, c')"
  shows "(\<exists>r r'. find_clip c k = Some r \<and> find_clip c' k = Some r' \<and> row_protected_by reason r r')
    \<and> (\<forall>j. j \<noteq> k \<longrightarrow> find_clip c' j = find_clip c j)"
proof -
  obtain row where row: "required_clip_row c k = Inr row"
    using op unfolding protect_for_event_locked_def by (auto simp: result_simps)
  have r: "find_clip c k = Some row"
    using required_clip_rowD [OF row] by simp
  let ?c1 = "set_protection k reason now c"
  note op' = op [unfolded protect_for_event_locked_def row bindR_simps Let_def]
  have del: "ir_kind p \<noteq> DELETE" if "live row" "pending_intent_row c k = Some p" for p
    using linkD [OF inv r that(2)] that(1) by (auto simp: link_ok_def live_def)
  consider (dead) "c' = c" "\<not> live row"
    | (set) "c' = ?c1" "live row"
    | (move) u' where "queue_move k PROTECT (video_path row) (sidecar_path row) ''protected'' now None ?c1 = Inr (u', c')"
        "live row"
    using op' del unfolding live_def
    by (cases "pending_intent_row c k") (auto simp: result_simps split: if_splits)
  then show ?thesis
  proof cases
    case dead
    then show ?thesis
      using r by (auto simp: row_protected_by_def)
  next
    case set
    then show ?thesis
      using r by (auto simp: row_protected_by_def find_clip_set_protection_iff)
  next
    case move
    then show ?thesis
      using r by (auto simp: row_protected_by_def find_clip_set_protection_iff find_clip_queue_move [OF move(1)])
  qed
qed

lemma protect_fold_rows:
  assumes "foldR (protect_target eid reason now) ts (q, c) = Inr (q', c')" "catalog_inv c"
    "distinct (map fst ts)"
  shows "(\<forall>k \<in> set (map fst ts). \<exists>r r'. find_clip c k = Some r \<and> find_clip c' k = Some r'
       \<and> row_protected_by reason r r')
    \<and> (\<forall>j. j \<notin> set (map fst ts) \<longrightarrow> find_clip c' j = find_clip c j)"
  using assms
proof (induction ts arbitrary: q c)
  case Nil
  then show ?case by simp
next
  case (Cons t ts)
  obtain q1 c2 where one: "protect_target eid reason now t (q, c) = Inr (q1, c2)"
    and rest: "foldR (protect_target eid reason now) ts (q1, c2) = Inr (q', c')"
    using Cons.prems(1) by (auto simp: result_simps)
  obtain u c1 where p: "protect_for_event_locked (fst t) reason now c = Inr (u, c1)"
    and i: "insert_target_row (target_of eid t) c1 = Inr c2"
    using one unfolding protect_target_def target_of_def
    by (auto simp: result_simps split: prod.splits)
  have same: "find_clip c2 = find_clip c1"
    using insert_target_rowD [OF i] find_clip_cong by blast
  have inv2: "catalog_inv c2"
    using inv_protect_for_event [OF Cons.prems(2) p] insert_target_rowD [OF i] catalog_inv_cong [of c2 c1] by simp
  have d: "distinct (map fst ts)" "fst t \<notin> set (map fst ts)"
    using Cons.prems(3) by simp_all
  note IH = Cons.IH [OF rest inv2 d(1), unfolded same]
  note row = protect_for_event_row [OF Cons.prems(2) p]
  show ?case
  proof (intro conjI ballI allI impI)
    fix k
    assume "k \<in> set (map fst (t # ts))"
    then consider "k = fst t" | "k \<noteq> fst t" "k \<in> set (map fst ts)"
      by auto
    then show "\<exists>r r'. find_clip c k = Some r \<and> find_clip c' k = Some r' \<and> row_protected_by reason r r'"
    proof cases
      case 1
      then show ?thesis
        using row IH d(2) by simp
    next
      case 2
      then obtain r r' where "find_clip c1 k = Some r" "find_clip c' k = Some r'" "row_protected_by reason r r'"
        using IH by blast
      then show ?thesis
        using row 2(1) by auto
    qed
  next
    fix j
    assume "j \<notin> set (map fst (t # ts))"
    then show "find_clip c' j = find_clip c j"
      using row IH by simp
  qed
qed

end
