(* ===== verification/Catalog_Examples.thy ===== *)
theory Catalog_Examples
  imports Catalog_Steps
begin

text \<open>
  A concrete reachable catalog the witnesses use: one finalized clip in \<^verbatim>\<open>clips/\<close> and the
  clip being written in \<^verbatim>\<open>pending/\<close>, both registered through the real transactions.
\<close>

definition ex_stream :: "nat \<Rightarrow> uuid" where
  "ex_stream n = UUID (of_nat (1000 + n))"

definition ex_final :: CatalogClip where
  "ex_final = \<lparr>cc_clip_id = UUID 1, cc_lifecycle = FINALIZED,
     video_path = ''clips/boot-abcde-000001.mp4'', sidecar_path = ''clips/boot-abcde-000001.json'',
     start_monotonic_ns = 1, end_monotonic_ns = Some 2, cc_retention_order = 1, cc_size_bytes = 100,
     cc_protected = False, protection_reason = None, cc_pair_reconciled = True, cc_managed = True,
     cc_download_lease = None, lease_boot_id = None\<rparr>"

definition ex_writing :: CatalogClip where
  "ex_writing = \<lparr>cc_clip_id = UUID 2, cc_lifecycle = WRITING,
     video_path = ''pending/boot-abcde-000002.partial.mp4'',
     sidecar_path = ''pending/boot-abcde-000002.partial.json'',
     start_monotonic_ns = 2, end_monotonic_ns = None, cc_retention_order = 2, cc_size_bytes = 0,
     cc_protected = False, protection_reason = None, cc_pair_reconciled = False, cc_managed = True,
     cc_download_lease = None, lease_boot_id = None\<rparr>"

definition ex_row :: "CatalogClip \<Rightarrow> clip_row" where
  "ex_row clip = CatalogClip.extend clip
     \<lparr>created_catalog_ns = 0, updated_catalog_ns = 0, protection_revision = 0\<rparr>"

definition ex_catalog :: catalog where
  "ex_catalog = (empty_catalog ex_stream)\<lparr>clips := [ex_row ex_final, ex_row ex_writing]\<rparr>"

definition ex_protect_paths :: PairPaths where
  "ex_protect_paths = \<lparr>video_source = ''clips/boot-abcde-000001.mp4'',
     sidecar_source = ''clips/boot-abcde-000001.json'',
     video_target = Some ''protected/boot-abcde-000001.mp4'',
     sidecar_target = Some ''protected/boot-abcde-000001.json''\<rparr>"

lemma ex_paths:
  "mk_pair_paths ''clips/boot-abcde-000001.mp4'' ''clips/boot-abcde-000001.json'' None None
     = Inr \<lparr>video_source = ''clips/boot-abcde-000001.mp4'', sidecar_source = ''clips/boot-abcde-000001.json'',
            video_target = None, sidecar_target = None\<rparr>"
  "mk_pair_paths ''pending/boot-abcde-000002.partial.mp4'' ''pending/boot-abcde-000002.partial.json'' None None
     = Inr \<lparr>video_source = ''pending/boot-abcde-000002.partial.mp4'',
            sidecar_source = ''pending/boot-abcde-000002.partial.json'',
            video_target = None, sidecar_target = None\<rparr>"
  by code_simp+

lemma ex_move_paths:
  "move_paths ''clips/boot-abcde-000001.mp4'' ''clips/boot-abcde-000001.json'' ''protected''
     = Inr ex_protect_paths"
  by code_simp

lemma ex_names:
  "mk_clip_file_pair ''boot-abcde-000001.mp4'' ''boot-abcde-000001.json''
     = Inr \<lparr>video_name = ''boot-abcde-000001.mp4'', metadata_name = ''boot-abcde-000001.json''\<rparr>"
  "mk_clip_file_pair ''boot-abcde-000002.partial.mp4'' ''boot-abcde-000002.partial.json''
     = Inr \<lparr>video_name = ''boot-abcde-000002.partial.mp4'', metadata_name = ''boot-abcde-000002.partial.json''\<rparr>"
  by code_simp+

lemma ex_parse:
  "parse_clip_filename ''boot-abcde-000002.partial.mp4'' = Inr \<lparr>pn_boot_id = ''abcde'', pn_sequence = 2,
     utc_started_at = None, extension = ''mp4'', provisional = True, partial = True\<rparr>"
  by code_simp

lemma ex_path_parts [simp]:
  "path_name ''clips/boot-abcde-000001.mp4'' = ''boot-abcde-000001.mp4''"
  "path_name ''clips/boot-abcde-000001.json'' = ''boot-abcde-000001.json''"
  "path_name ''pending/boot-abcde-000002.partial.mp4'' = ''boot-abcde-000002.partial.mp4''"
  "path_name ''pending/boot-abcde-000002.partial.json'' = ''boot-abcde-000002.partial.json''"
  "path_parent ''clips/boot-abcde-000001.mp4'' = ''clips''"
  "path_parent ''clips/boot-abcde-000001.json'' = ''clips''"
  "path_parent ''pending/boot-abcde-000002.partial.mp4'' = ''pending''"
  "path_parent ''pending/boot-abcde-000002.partial.json'' = ''pending''"
  by code_simp+

lemma ex_valid: "validate_clip ex_final = Inr ()" "validate_clip ex_writing = Inr ()"
  by (simp_all add: validate_clip_def ex_final_def ex_writing_def ex_paths ex_names
      MANAGED_DIRECTORIES_def non_negative_integer_def)

lemma ex_row_simps [simp]:
  "cc_clip_id (ex_row x) = cc_clip_id x" "cc_lifecycle (ex_row x) = cc_lifecycle x"
  "video_path (ex_row x) = video_path x" "sidecar_path (ex_row x) = sidecar_path x"
  "start_monotonic_ns (ex_row x) = start_monotonic_ns x" "end_monotonic_ns (ex_row x) = end_monotonic_ns x"
  "cc_retention_order (ex_row x) = cc_retention_order x" "cc_size_bytes (ex_row x) = cc_size_bytes x"
  "cc_protected (ex_row x) = cc_protected x" "protection_reason (ex_row x) = protection_reason x"
  "cc_pair_reconciled (ex_row x) = cc_pair_reconciled x" "cc_managed (ex_row x) = cc_managed x"
  "cc_download_lease (ex_row x) = cc_download_lease x" "lease_boot_id (ex_row x) = lease_boot_id x"
  "protection_revision (ex_row x) = 0"
  by (simp_all add: ex_row_def CatalogClip.extend_def)

lemma ex_clip_simps [simp]:
  "cc_clip_id ex_final = UUID 1" "cc_lifecycle ex_final = FINALIZED" "cc_retention_order ex_final = 1"
  "cc_size_bytes ex_final = 100" "cc_protected ex_final = False" "cc_pair_reconciled ex_final = True"
  "cc_managed ex_final = True" "cc_download_lease ex_final = None" "lease_boot_id ex_final = None"
  "start_monotonic_ns ex_final = 1" "end_monotonic_ns ex_final = Some 2"
  "video_path ex_final = ''clips/boot-abcde-000001.mp4''"
  "sidecar_path ex_final = ''clips/boot-abcde-000001.json''"
  "cc_clip_id ex_writing = UUID 2" "cc_lifecycle ex_writing = WRITING" "cc_retention_order ex_writing = 2"
  "cc_size_bytes ex_writing = 0" "cc_protected ex_writing = False" "cc_pair_reconciled ex_writing = False"
  "cc_managed ex_writing = True" "cc_download_lease ex_writing = None" "lease_boot_id ex_writing = None"
  "start_monotonic_ns ex_writing = 2" "end_monotonic_ns ex_writing = None"
  "video_path ex_writing = ''pending/boot-abcde-000002.partial.mp4''"
  "sidecar_path ex_writing = ''pending/boot-abcde-000002.partial.json''"
  "protection_reason ex_writing = None" "protection_reason ex_final = None"
  by (simp_all add: ex_final_def ex_writing_def)

lemma ex_catalog_simps [simp]:
  "clips ex_catalog = [ex_row ex_final, ex_row ex_writing]" "operation_intents ex_catalog = []"
  "protection_events ex_catalog = []" "protection_event_targets ex_catalog = []"
  "uuid4_stream ex_catalog = ex_stream" "uuid4_used ex_catalog = 0" "threshold_latch ex_catalog = None"
  by (simp_all add: ex_catalog_def empty_catalog_def)

lemma ex_reach: "catalog_reach ex_catalog"
proof -
  let ?c0 = "empty_catalog ex_stream"
  let ?c1 = "?c0\<lparr>clips := [ex_row ex_final]\<rparr>"
  have "check_clip_row (ex_row ex_final)" "check_clip_row (ex_row ex_writing)"
    by (simp_all add: check_clip_row_def end_after_def)
  then have "register_clip ex_final 0 ?c0 = Inr ((), ?c1)"
    "register_writing_clip ex_writing 0 ?c1 = Inr ((), ex_catalog)"
    by (simp_all add: register_clip_def register_writing_clip_def ex_valid non_negative_integer_def
        insert_clip_locked_def Let_def ex_row_def [symmetric] empty_catalog_def ex_catalog_def
        as_conflict_def ex_names ex_parse)
  then have "catalog_step ?c0 ?c1" "catalog_step ?c1 ex_catalog"
    by (blast intro: catalog_step.register catalog_step.writing)+
  then show ?thesis
    by (blast intro: catalog_reach.intros)
qed

lemma ex_find [simp]:
  "find_clip ex_catalog (UUID 1) = Some (ex_row ex_final)"
  "find_clip ex_catalog (UUID 2) = Some (ex_row ex_writing)"
  by (simp_all add: find_clip_def row_get_def)

end
