(* ===== verification/Catalog_Properties.thy ===== *)
theory Catalog_Properties
  imports Event_Windows Catalog_Examples
begin

text \<open>
  The properties of the catalog's transactions: consistency of every reachable catalog, the
  safety of deletion, agreement of the SQL selection with the pure planner, download leases,
  and event protection.
\<close>

section \<open>Consistency and deletion\<close>




lemma ex_delete_step:
  "\<exists>u c'. prepare_delete (UUID 1) 5 ''b'' ex_catalog = Inr (u, c') \<and> catalog_step ex_catalog c'
     \<and> (\<exists>r'. find_clip c' (UUID 1) = Some r' \<and> cc_lifecycle r' = DELETING)"
proof -
  have b: "check_boot_id ''b'' = Inr ()"
    by code_simp
  have "\<exists>u c'. prepare_delete (UUID 1) 5 ''b'' ex_catalog = Inr (u, c')
     \<and> (\<exists>r'. find_clip c' (UUID 1) = Some r' \<and> cc_lifecycle r' = DELETING)"
    by (simp add: prepare_delete_def b non_negative_integer_def required_clip_row_def
        prepare_delete_row_locked_def pending_intent_row_def row_has_active_lease_def ex_paths
        insert_intent_locked_def fresh_uuid_def mk_operation_intent_def insert_intent_row_def
        find_clip_def row_get_def row_of_intent_def update_clip_def row_update_def)
  then show ?thesis
    by (blast intro: catalog_step.delete)
qed


section \<open>Retention\<close>

lemma candidate_key_le_iff:
  "candidate_key (candidate_of_row c now boot r) \<le> candidate_key (candidate_of_row c now boot r')
   \<longleftrightarrow> order_key r \<le> order_key r'"
  using uuid_str_less_iff [of "cc_clip_id r'" "cc_clip_id r"]
  by (auto simp: candidate_key_def candidate_of_row_def order_key_def less_eq_prod_def less_prod_def
      linorder_not_less [symmetric] simp del: linorder_not_less)

lemma eligible_at_row:
  "0 \<le> now \<Longrightarrow> eligible_at (candidate_of_row c now boot r) now = Inr (sql_eligible c now boot r)"
  by (auto simp: eligible_at_def candidate_of_row_def sql_eligible_def has_active_lease_def
      row_has_active_lease_def split: option.splits)

lemma list_all2_eq_map: "list_all2 (\<lambda>x y. y = f x) xs ys \<Longrightarrow> ys = map f xs"
  by (induction xs ys rule: list_all2_induct) simp_all

lemma retention_candidates_rows:
  assumes "retention_candidates now boot limit c = Inr cs"
  shows "cs = map (candidate_of_row c now boot)
      (take (nat limit) (sort_key order_key (filter (\<lambda>r. cc_lifecycle r \<noteq> DELETED) (clips c)))) \<and> 0 \<le> now"
proof -
  let ?rows = "take (nat limit) (sort_key order_key (filter (\<lambda>r. cc_lifecycle r \<noteq> DELETED) (clips c)))"
  have "list_all2 (\<lambda>r x. (let y = candidate_of_row c now boot r in bindR (check_candidate y) (\<lambda>_. Inr y)) = Inr x) ?rows cs"
    and "0 \<le> now"
    using assms unfolding retention_candidates_def
    by (auto simp: result_simps mapR_eq_Inr_iff non_negative_integer_def split: if_splits)
  moreover from this(1) have "list_all2 (\<lambda>r x. x = candidate_of_row c now boot r) ?rows cs"
    by (rule list_all2_mono) (auto simp: Let_def result_simps)
  then have "cs = map (candidate_of_row c now boot) ?rows"
    by (rule list_all2_eq_map)
  ultimately show ?thesis by simp
qed

text \<open>The planner's eligible candidates are the rows of the SQL query, in the same order.\<close>

lemma eligible_rows:
  assumes cs: "retention_candidates now boot limit c = Inr cs"
    and all: "int (length (filter (\<lambda>r. cc_lifecycle r \<noteq> DELETED) (clips c))) \<le> limit"
  shows "eligible_in_order cs now
    = map (candidate_of_row c now boot) (sort_key order_key (filter (sql_eligible c now boot) (clips c)))"
proof -
  let ?all = "sort_key order_key (filter (\<lambda>r. cc_lifecycle r \<noteq> DELETED) (clips c))"
  let ?el = "sort_key order_key (filter (sql_eligible c now boot) (clips c))"
  have now: "0 \<le> now" and cs': "cs = map (candidate_of_row c now boot) ?all"
    using retention_candidates_rows [OF cs] all by auto
  have "filter (\<lambda>x. eligible_at x now = Inr True) cs = map (candidate_of_row c now boot) (filter (sql_eligible c now boot) ?all)"
    unfolding cs' filter_map by (simp add: comp_def eligible_at_row [OF now])
  also have "filter (sql_eligible c now boot) ?all = ?el"
    unfolding filter_sort filter_filter
    by (rule arg_cong [where f = "sort_key order_key"], rule filter_cong) (auto simp: sql_eligible_def)
  finally have f: "filter (\<lambda>x. eligible_at x now = Inr True) cs = map (candidate_of_row c now boot) ?el" .
  have "sorted_wrt (\<lambda>a b. order_key a \<le> order_key b) ?el"
    using sorted_sort_key [of order_key] by (simp add: sorted_map)
  then have "sorted (map candidate_key (map (candidate_of_row c now boot) ?el))"
    by (simp add: sorted_map sorted_wrt_map candidate_key_le_iff)
  then show ?thesis
    unfolding eligible_in_order_def f by (rule sort_key_id_if_sorted)
qed

text \<open>
  C9: The transactional deletion agrees with the pure retention planner. Whenever the planner
  sees the whole catalog and is asked for any positive number of bytes, it selects nothing
  exactly if the reserving transaction finds no clip, and otherwise the clip the transaction
  reserves, marking it DELETING, is the planner's first selection.
\<close>

theorem oldest_delete_agrees_with_planner:
  assumes plan: "plan_retention req now boot limit c = Inr plan" and pos: "0 < req"
    and all: "int (length (filter (\<lambda>r. cc_lifecycle r \<noteq> DELETED) (clips c))) \<le> limit"
    and op: "prepare_oldest_eligible_delete now boot c = Inr (u, c')"
  shows "case u of
      None \<Rightarrow> selected_clip_ids plan = [] \<and> c' = c
    | Some iid \<Rightarrow> (\<exists>k ks row. selected_clip_ids plan = k # ks \<and> cc_clip_id row = k \<and> row \<in> set (clips c)
         \<and> sql_eligible c now boot row
         \<and> prepare_delete_row_locked row now boot c = Inr (iid, c'))"
proof -
  obtain cs where cs: "retention_candidates now boot limit c = Inr cs" "select_oldest_eligible cs req now = Inr plan"
    using plan unfolding plan_retention_def by (auto simp: result_simps)
  let ?el = "sort_key order_key (filter (sql_eligible c now boot) (clips c))"
  have el: "eligible_in_order cs now = map (candidate_of_row c now boot) ?el"
    by (rule eligible_rows [OF cs(1) all])
  have sel: "selected_clip_ids plan = map rc_clip_id (fst (accumulate req (eligible_in_order cs now) 0))"
    using cs(2) pos unfolding select_oldest_eligible_def
    by (auto simp: Let_def split: prod.splits if_splits)
  show ?thesis
  proof (cases ?el)
    case Nil
    then show ?thesis
      using op sel el unfolding prepare_oldest_eligible_delete_def by (auto simp: result_simps)
  next
    case (Cons row rows)
    then have "row \<in> set ?el" by simp
    then have row: "row \<in> set (clips c)" "sql_eligible c now boot row" by auto
    obtain iid where u: "u = Some iid" "prepare_delete_row_locked row now boot c = Inr (iid, c')"
      using op Cons unfolding prepare_oldest_eligible_delete_def by (auto simp: result_simps)
    have "\<exists>ks. selected_clip_ids plan = cc_clip_id row # ks"
      using sel unfolding el Cons by (auto simp: Let_def candidate_of_row_def split: prod.splits)
    with u row show ?thesis
      by auto
  qed
qed

lemma is_ok_iff: "is_ok m \<longleftrightarrow> (\<exists>x. m = Inr x)"
  by (cases m) auto

lemma ex_plan: "is_ok (plan_retention 50 5 ''b'' 10 ex_catalog)"
  "is_ok (prepare_oldest_eligible_delete 5 ''b'' ex_catalog)"
  by code_simp+

theorem oldest_delete_agrees_with_planner_witness:
  "\<exists>plan u c'. plan_retention 50 5 ''b'' 10 ex_catalog = Inr plan
     \<and> prepare_oldest_eligible_delete 5 ''b'' ex_catalog = Inr (u, c')
     \<and> (u = None \<longrightarrow> selected_clip_ids plan = [])"
proof -
  obtain plan u c' where x: "plan_retention 50 5 ''b'' 10 ex_catalog = Inr plan"
    "prepare_oldest_eligible_delete 5 ''b'' ex_catalog = Inr (u, c')"
    using ex_plan unfolding is_ok_iff by auto
  from oldest_delete_agrees_with_planner [OF x(1) _ _ x(2)] have "u = None \<longrightarrow> selected_clip_ids plan = []"
    by (cases u) simp_all
  with x show ?thesis by blast
qed

section \<open>Download leases\<close>

context keyed_rows
begin

lemma count_update:
  "distinct (map key rows) \<Longrightarrow> row_get key k rows = Some r \<Longrightarrow> \<not> P r \<Longrightarrow>
   length (filter P (row_update key k f rows)) \<le> Suc (length (filter P rows))"
proof (induction rows)
  case Nil
  then show ?case by (simp add: row_update_def)
next
  case (Cons x xs)
  show ?case
  proof (cases "key x = k")
    case True
    with Cons.prems have "k \<notin> key ` set xs" "x = r"
      by (auto simp: row_get_def)
    with True Cons.prems(3) show ?thesis
      using update_absent [of k xs f] by (simp add: row_update_def)
  next
    case False
    with Cons show ?thesis
      by (simp add: row_get_def row_update_def)
  qed
qed

end

lemma acquireD:
  assumes "catalog_acquire_download_lease k h now dur boot cap c = Inr (l, c')"
  obtains r where "find_clip c k = Some r" "cc_lifecycle r = FINALIZED" "cc_pair_reconciled r"
    "pending_intent_row c k = None" "\<not> row_has_active_lease r now boot"
    "int (length (filter (\<lambda>r. row_has_active_lease r now boot) (clips c))) < cap"
    "c' = update_clip k (\<lambda>r. r\<lparr>cc_download_lease := Some l, lease_boot_id := Some boot,
       updated_catalog_ns := now\<rparr>) c" "issue h now dur = Inr l"
  using assms unfolding catalog_acquire_download_lease_def
  by (auto simp: result_simps split: if_splits dest!: required_clip_rowD)

text \<open>
  C21: A granted lease is exclusive and capped. Acquiring a download lease in a reachable
  catalog leaves at most the configured number of leases active; the leased clip is a
  finalized, reconciled pair with no pending intent; and at every time of the lease's
  half-open lifetime no second lease is granted for it in that boot, retention does not
  consider it eligible, and deleting, protecting or unprotecting it by request fails.
\<close>

theorem granted_lease_freezes_pair:
  assumes "catalog_reach c" "catalog_acquire_download_lease k h now dur boot cap c = Inr (l, c')"
  shows "int (length (filter (\<lambda>r. row_has_active_lease r now boot) (clips c'))) \<le> cap
    \<and> (\<exists>r. find_clip c' k = Some r \<and> cc_lifecycle r = FINALIZED \<and> cc_pair_reconciled r
         \<and> cc_download_lease r = Some l \<and> lease_boot_id r = Some boot \<and> pending_intent_row c' k = None
         \<and> (\<forall>t. t < expires_at_monotonic_ns l \<longrightarrow> \<not> sql_eligible c' t boot r))
    \<and> (\<forall>t. t < expires_at_monotonic_ns l \<longrightarrow>
         (\<forall>h' d n. \<not> is_ok (catalog_acquire_download_lease k h' t d boot n c'))
         \<and> \<not> is_ok (prepare_delete k t boot c')
         \<and> (\<forall>reason. \<not> is_ok (prepare_protect k reason t c'))
         \<and> \<not> is_ok (prepare_unprotect k t c'))"
proof -
  let ?f = "\<lambda>r. r\<lparr>cc_download_lease := Some l, lease_boot_id := Some boot, updated_catalog_ns := now\<rparr>"
  obtain r where r: "find_clip c k = Some r" "cc_lifecycle r = FINALIZED" "cc_pair_reconciled r"
    "pending_intent_row c k = None" "\<not> row_has_active_lease r now boot"
    and cap: "int (length (filter (\<lambda>r. row_has_active_lease r now boot) (clips c))) < cap"
    and c': "c' = update_clip k ?f c"
    using assms(2) by (rule acquireD)
  have found: "find_clip c' k = Some (?f r)" and pend: "pending_intent_row c' k = None"
    using r unfolding c' by (simp_all add: find_clip_update)
  have key: "cc_clip_id r = k"
    using r(1) clip_table.get_SomeD unfolding find_clip_def by blast
  have "length (filter (\<lambda>r. row_has_active_lease r now boot) (clips c'))
      \<le> Suc (length (filter (\<lambda>r. row_has_active_lease r now boot) (clips c)))"
    unfolding c' update_clip_def
    using clip_table.count_update [of "clips c" k r "\<lambda>r. row_has_active_lease r now boot" ?f]
      inv_ids [OF reach_inv [OF assms(1)]] r(1,5) by (simp add: find_clip_def)
  moreover have "row_has_active_lease (?f r) t boot" "row_has_unexpired_lease (?f r) t"
    if "t < expires_at_monotonic_ns l" for t
    using that by (simp_all add: row_has_active_lease_def row_has_unexpired_lease_def)
  moreover have "required_clip_row c' k = Inr (?f r)"
    using found by (simp add: required_clip_row_def)
  ultimately show ?thesis
    using cap r found pend key
    by (auto simp: sql_eligible_def catalog_acquire_download_lease_def prepare_delete_def
        prepare_delete_row_locked_def prepare_protect_def prepare_protect_locked_def
        prepare_unprotect_def is_ok_iff result_simps)
qed

lemma ex_lease: "is_ok (catalog_acquire_download_lease (UUID 1) ''h'' 5 10 ''b'' 2 ex_catalog)"
  by code_simp

theorem granted_lease_freezes_pair_witness:
  "\<exists>l c'. catalog_acquire_download_lease (UUID 1) ''h'' 5 10 ''b'' 2 ex_catalog = Inr (l, c')
     \<and> (\<forall>t. t < expires_at_monotonic_ns l \<longrightarrow> \<not> is_ok (prepare_delete (UUID 1) t ''b'' c'))"
proof -
  obtain l c' where x: "catalog_acquire_download_lease (UUID 1) ''h'' 5 10 ''b'' 2 ex_catalog = Inr (l, c')"
    using ex_lease unfolding is_ok_iff by auto
  with granted_lease_freezes_pair [OF ex_reach x] show ?thesis
    by blast
qed

section \<open>Event protection\<close>


lemma ex_trigger:
  "is_ok (trigger_event (Some (UUID 2)) GPIO 5 2 1 (Some (UUID 7)) True ex_catalog)"
  by (simp add: trigger_event_def non_negative_integer_def bounded_count_def row_get_def
      trigger_new_event_def required_clip_row_def MAX_PENDING_EVENT_WINDOWS_def previous_rows_def
      insert_event_row_def event_targets_def protect_target_def protect_for_event_locked_def
      find_clip_def pending_intent_row_def row_has_unexpired_lease_def set_protection_def update_clip_def
      row_update_def queue_move_def ex_move_paths insert_intent_locked_def fresh_uuid_def
      mk_operation_intent_def ex_protect_paths_def insert_intent_row_def row_of_intent_def is_pending_def
      mark_unreconciled_def insert_target_row_def target_key_def Let_def)

lemma trigger_eventD:
  assumes "trigger_event cur src now pc nc oid strict c = Inr (res, c')"
  obtains eid c0 where "(eid, c0) = (case oid of None \<Rightarrow> fresh_uuid c | Some e \<Rightarrow> (e, c))"
    "0 \<le> now" "bounded_count pc = Inr ()" "bounded_count nc = Inr ()"
    "(\<exists>e. row_get ev_event_id eid (protection_events c0) = Some e \<and> ev_source e = src
        \<and> requested_previous e = pc \<and> requested_next e = nc \<and> res = replay_event e c0 \<and> c' = c0)
     \<or> row_get ev_event_id eid (protection_events c0) = None
       \<and> trigger_new_event eid cur src now pc nc strict c0 = Inr (res, c')"
proof -
  obtain eid c0 where e: "(eid, c0) = (case oid of None \<Rightarrow> fresh_uuid c | Some e \<Rightarrow> (e, c))"
    by (metis surj_pair)
  then have "0 \<le> now" "bounded_count pc = Inr ()" "bounded_count nc = Inr ()"
    "(\<exists>e. row_get ev_event_id eid (protection_events c0) = Some e \<and> ev_source e = src
        \<and> requested_previous e = pc \<and> requested_next e = nc \<and> res = replay_event e c0 \<and> c' = c0)
     \<or> row_get ev_event_id eid (protection_events c0) = None
       \<and> trigger_new_event eid cur src now pc nc strict c0 = Inr (res, c')"
    using assms unfolding trigger_event_def e [symmetric]
    by (auto simp: result_simps non_negative_integer_def split: option.splits if_splits)
  then show ?thesis
    by (rule that [OF e])
qed

lemma fresh_uuid_simps:
  assumes "(eid, c0) = (case oid of None \<Rightarrow> fresh_uuid c | Some e \<Rightarrow> (e, c))"
  shows "clips c0 = clips c" "operation_intents c0 = operation_intents c"
    "protection_events c0 = protection_events c" "protection_event_targets c0 = protection_event_targets c"
  using assms by (auto simp: fresh_uuid_def split: option.splits)

lemma ex_event_step:
  "\<exists>res c'. trigger_event (Some (UUID 2)) GPIO 5 2 1 (Some (UUID 7)) True ex_catalog = Inr (res, c')
     \<and> catalog_reach c' \<and> (\<exists>e \<in> set (protection_events c'). ev_event_id e = UUID 7)"
proof -
  obtain res c' where x: "trigger_event (Some (UUID 2)) GPIO 5 2 1 (Some (UUID 7)) True ex_catalog = Inr (res, c')"
    using ex_trigger unfolding is_ok_iff by auto
  then have new: "trigger_new_event (UUID 7) (Some (UUID 2)) GPIO 5 2 1 True ex_catalog = Inr (res, c')"
    by (auto elim!: trigger_eventD simp: row_get_def)
  have "row_get ev_event_id (UUID 7) (protection_events c') \<noteq> None"
    using replay_new_event [OF reach_inv [OF ex_reach] reach_event_inv [OF ex_reach] new] by auto
  moreover have "catalog_reach c'"
    using catalog_step.event [OF x] catalog_reach.step [OF ex_reach] by blast
  ultimately show ?thesis
    using x by (fastforce dest: event_table.get_SomeD)
qed


text \<open>
  C34: Triggering an event is idempotent. If an event call succeeds on a reachable catalog, then
  the same call repeated with the event id it returned, at any later time and whatever clip is
  then current, returns the very same result and changes nothing; a repetition of the id with
  another source or other counts fails.
\<close>

theorem event_replay_is_idempotent:
  assumes "catalog_reach c" "trigger_event cur src now pc nc oid strict c = Inr (res, c')" "0 \<le> now'"
  shows "trigger_event cur' src now' pc nc (Some (epr_event_id res)) strict' c' = Inr (res, c')
    \<and> (\<forall>src' pc' nc'. (src', pc', nc') \<noteq> (src, pc, nc) \<longrightarrow>
         \<not> is_ok (trigger_event cur' src' now' pc' nc' (Some (epr_event_id res)) strict' c'))"
proof -
  obtain eid c0 where t: "(eid, c0) = (case oid of None \<Rightarrow> fresh_uuid c | Some e \<Rightarrow> (e, c))"
    "bounded_count pc = Inr ()" "bounded_count nc = Inr ()"
    and alt: "(\<exists>e. row_get ev_event_id eid (protection_events c0) = Some e \<and> ev_source e = src
        \<and> requested_previous e = pc \<and> requested_next e = nc \<and> res = replay_event e c0 \<and> c' = c0)
     \<or> row_get ev_event_id eid (protection_events c0) = None
       \<and> trigger_new_event eid cur src now pc nc strict c0 = Inr (res, c')"
    using assms(2) by (rule trigger_eventD)
  note same = fresh_uuid_simps [OF t(1)]
  have inv: "catalog_inv c0"
    using reach_inv [OF assms(1)] catalog_inv_cong [of c0 c] same by simp
  have ev: "event_inv c0"
    using event_inv_same [of c c0] reach_event_inv [OF assms(1)] same by (simp add: same_events_def)
  obtain e where e: "row_get ev_event_id (epr_event_id res) (protection_events c') = Some e"
    "ev_source e = src" "requested_previous e = pc" "requested_next e = nc" "replay_event e c' = res"
  proof (cases "row_get ev_event_id eid (protection_events c0)")
    case None
    with alt have new: "trigger_new_event eid cur src now pc nc strict c0 = Inr (res, c')"
      by auto
    from replay_new_event [OF inv ev new] that show ?thesis
      by metis
  next
    case (Some e)
    with alt event_table.get_SomeD [OF Some] that [of e] show ?thesis
      by (auto simp: replay_event_def Let_def)
  qed
  have "\<not> is_ok (trigger_event cur' src' now' pc' nc' (Some (epr_event_id res)) strict' c')"
    if "(src', pc', nc') \<noteq> (src, pc, nc)" for src' pc' nc'
    using that e unfolding is_ok_iff by (auto elim!: trigger_eventD)
  with replay_is_stable [OF e(1-4) assms(3) t(2,3)] e(5) show ?thesis
    by simp
qed

theorem event_replay_is_idempotent_witness:
  "\<exists>res c'. trigger_event (Some (UUID 2)) GPIO 5 2 1 (Some (UUID 7)) True ex_catalog = Inr (res, c')
     \<and> trigger_event None GPIO 9 2 1 (Some (epr_event_id res)) False c' = Inr (res, c')"
proof -
  obtain res c' where x: "trigger_event (Some (UUID 2)) GPIO 5 2 1 (Some (UUID 7)) True ex_catalog = Inr (res, c')"
    using ex_trigger unfolding is_ok_iff by auto
  with event_replay_is_idempotent [OF ex_reach x, of 9] show ?thesis
    by auto
qed

lemma previous_rows_nearest:
  assumes "x \<in> set (clips c)" "cc_lifecycle x = FINALIZED" "cc_retention_order x < cc_retention_order current"
    "x \<notin> set (previous_rows current pc c)"
  shows "length (previous_rows current pc c) = nat pc
    \<and> (\<forall>y \<in> set (previous_rows current pc c). order_key x \<le> order_key y)"
proof -
  let ?xs = "sort_key order_key (filter (\<lambda>r. cc_retention_order r < cc_retention_order current
     \<and> cc_lifecycle r = FINALIZED) (clips c))"
  have prev: "previous_rows current pc c = take (nat pc) (rev ?xs)"
    by (simp add: previous_rows_def)
  have x: "x \<in> set (rev ?xs)"
    using assms(1-3) by simp
  then have x': "x \<in> set (take (nat pc) (rev ?xs)) \<union> set (drop (nat pc) (rev ?xs))"
    by (simp flip: set_append del: set_rev set_sort)
  then have drop: "x \<in> set (drop (nat pc) (rev ?xs))"
    using assms(4) prev by simp
  have "sorted_wrt (\<lambda>a b. order_key b \<le> order_key a) (rev ?xs)"
    using sorted_sort_key [of order_key] by (simp add: sorted_map sorted_wrt_rev)
  then have "sorted_wrt (\<lambda>a b. order_key b \<le> order_key a) (take (nat pc) (rev ?xs) @ drop (nat pc) (rev ?xs))"
    by simp
  then have "\<forall>y \<in> set (take (nat pc) (rev ?xs)). order_key x \<le> order_key y"
    using drop unfolding sorted_wrt_append by blast
  moreover have "nat pc < length (rev ?xs)"
    using drop by (cases "length (rev ?xs) \<le> nat pc") simp_all
  ultimately show ?thesis
    unfolding prev by simp
qed

lemma trigger_new_rows:
  assumes inv: "catalog_inv c" and op: "trigger_new_event eid cur src now pc nc strict c = Inr (res, c')"
  obtains k current where "cur = Some k" "find_clip c k = Some current" "live current"
    "protected_clip_ids res = map cc_clip_id (rev (previous_rows current pc c)) @ [k]"
    "\<forall>j \<in> set (protected_clip_ids res). \<exists>r r'. find_clip c j = Some r \<and> find_clip c' j = Some r'
       \<and> row_protected_by (event_reason eid src) r r'"
    "\<forall>j. j \<notin> set (protected_clip_ids res) \<longrightarrow> find_clip c' j = find_clip c j"
proof -
  obtain k current c1 prev e where t: "cur = Some k" "find_clip c k = Some current"
    "prev = previous_rows current pc c" "live current"
    "c1 = c\<lparr>protection_events := protection_events c @ [e]\<rparr>" "catalog_inv c1"
    "distinct (map fst (event_targets k prev))"
    "foldR (protect_target eid (event_reason eid src) now) (event_targets k prev) ([], c1)
       = Inr (queued_intent_ids res, c')"
    "res = \<lparr>epr_event_id = eid, protected_clip_ids = map fst (event_targets k prev),
       missing_previous_count = pc - int (length prev), pending_next_count = nc,
       queued_intent_ids = queued_intent_ids res\<rparr>"
    using trigger_newD [OF inv op] by metis
  have ids: "protected_clip_ids res = map fst (event_targets k prev)"
    using t(9) by (metis EventProtectionResult.select_convs(2))
  have "find_clip c1 = find_clip c"
    using find_clip_cong [of c1 c] t(5) by simp
  with protect_fold_rows [OF t(8,6,7)] that [OF t(1,2,4)] show ?thesis
    unfolding ids by (simp add: event_targets_fst t(3))
qed

text \<open>
  C19: A new event protects the current clip and the nearest finalized ones before it. If an
  event call on a reachable catalog records a new event, the clips it reports are the current
  one and at most the requested number of finalized clips of lower retention order, each
  newer than every finalized earlier clip it left out, and it left one out only when it has
  the requested number; each reported clip keeps its lifecycle and its files, is protected with
  the event's reason and has its protection revision raised by one, even when it is leased
  or a move of it is pending, and every other clip row is unchanged.
\<close>

theorem event_protects_its_targets:
  assumes "catalog_reach c" "trigger_event cur src now pc nc oid strict c = Inr (res, c')"
    and fresh: "epr_event_id res \<notin> ev_event_id ` set (protection_events c)"
  shows "\<exists>k current. cur = Some k \<and> find_clip c k = Some current \<and> k \<in> set (protected_clip_ids res)
    \<and> length (protected_clip_ids res) \<le> nat pc + 1
    \<and> (\<forall>j \<in> set (protected_clip_ids res). \<exists>r r'. find_clip c j = Some r \<and> find_clip c' j = Some r'
         \<and> (j \<noteq> k \<longrightarrow> cc_lifecycle r = FINALIZED \<and> cc_retention_order r < cc_retention_order current)
         \<and> cc_lifecycle r' = cc_lifecycle r \<and> video_path r' = video_path r \<and> sidecar_path r' = sidecar_path r
         \<and> cc_protected r' \<and> protection_reason r' = Some (event_reason (epr_event_id res) src)
         \<and> protection_revision r' = protection_revision r + 1)
    \<and> (\<forall>j. j \<notin> set (protected_clip_ids res) \<longrightarrow> find_clip c' j = find_clip c j)
    \<and> (\<forall>j x. find_clip c j = Some x \<and> cc_lifecycle x = FINALIZED
         \<and> cc_retention_order x < cc_retention_order current \<and> j \<notin> set (protected_clip_ids res) \<longrightarrow>
         length (protected_clip_ids res) = nat pc + 1
         \<and> (\<forall>i \<in> set (protected_clip_ids res). \<forall>y. find_clip c i = Some y \<longrightarrow>
              cc_retention_order x \<le> cc_retention_order y))"
proof -
  obtain eid c0 where t: "(eid, c0) = (case oid of None \<Rightarrow> fresh_uuid c | Some e \<Rightarrow> (e, c))"
    and alt: "(\<exists>e. row_get ev_event_id eid (protection_events c0) = Some e \<and> ev_source e = src
        \<and> requested_previous e = pc \<and> requested_next e = nc \<and> res = replay_event e c0 \<and> c' = c0)
     \<or> row_get ev_event_id eid (protection_events c0) = None
       \<and> trigger_new_event eid cur src now pc nc strict c0 = Inr (res, c')"
    using assms(2) by (rule trigger_eventD)
  note same = fresh_uuid_simps [OF t]
  have inv: "catalog_inv c0"
    using reach_inv [OF assms(1)] catalog_inv_cong [of c0 c] same by simp
  have find0: "find_clip c0 = find_clip c"
    by (rule find_clip_cong) (rule same(1))
  have new: "trigger_new_event eid cur src now pc nc strict c0 = Inr (res, c')"
    using alt fresh same(3) by (auto simp: replay_event_def Let_def dest: event_table.get_SomeD)
  have eid: "epr_event_id res = eid"
    using trigger_newD [OF inv new] by (metis EventProtectionResult.select_convs(1))
  obtain k current where k: "cur = Some k" "find_clip c0 k = Some current" "live current"
    and ids: "protected_clip_ids res = map cc_clip_id (rev (previous_rows current pc c0)) @ [k]"
    and rows: "\<forall>j \<in> set (protected_clip_ids res). \<exists>r r'. find_clip c0 j = Some r \<and> find_clip c' j = Some r'
       \<and> row_protected_by (event_reason eid src) r r'"
    and others: "\<forall>j. j \<notin> set (protected_clip_ids res) \<longrightarrow> find_clip c' j = find_clip c0 j"
    using trigger_new_rows [OF inv new] by metis
  note prev = previous_rows_facts [OF inv k(2), of pc]
  have prevD: "r \<in> set (previous_rows current pc c0)" if j: "find_clip c0 j = Some r"
    "j \<in> set (protected_clip_ids res)" "j \<noteq> k" for j r
  proof -
    obtain q where q: "q \<in> set (previous_rows current pc c0)" "cc_clip_id q = j"
      using j(2,3) ids by auto
    then have "q = r"
      using j(1) prev(2) find_clip_Some_iff [OF inv, of j r] unique_row [OF inv, of q r] by metis
    with q show ?thesis by simp
  qed
  have nearest: "length (protected_clip_ids res) = nat pc + 1
         \<and> (\<forall>i \<in> set (protected_clip_ids res). \<forall>y. find_clip c i = Some y \<longrightarrow>
              cc_retention_order x \<le> cc_retention_order y)"
    if x: "find_clip c j = Some x" "cc_lifecycle x = FINALIZED" "cc_retention_order x < cc_retention_order current"
      "j \<notin> set (protected_clip_ids res)" for j x
  proof -
    have "x \<in> set (clips c0)" "cc_clip_id x = j"
      using x(1) find_clip_Some_iff [OF inv, of j x] unfolding find0 by auto
    moreover have "x \<notin> set (previous_rows current pc c0)"
      using x(4) ids calculation(2) by auto
    ultimately have near: "length (previous_rows current pc c0) = nat pc
      \<and> (\<forall>y \<in> set (previous_rows current pc c0). order_key x \<le> order_key y)"
      using previous_rows_nearest [of x c0 current pc] x(2,3) by blast
    have "cc_retention_order x \<le> cc_retention_order y"
      if "i \<in> set (protected_clip_ids res)" "find_clip c i = Some y" for i y
    proof (cases "i = k")
      case True
      with that(2) k(2) x(3) find0 show ?thesis by simp
    next
      case False
      with that prevD [of i y] near find0 show ?thesis
        by (fastforce simp: order_key_def less_eq_prod_def)
    qed
    with near ids show ?thesis by simp
  qed
  have each: "\<exists>r r'. find_clip c j = Some r \<and> find_clip c' j = Some r'
         \<and> (j \<noteq> k \<longrightarrow> cc_lifecycle r = FINALIZED \<and> cc_retention_order r < cc_retention_order current)
         \<and> cc_lifecycle r' = cc_lifecycle r \<and> video_path r' = video_path r \<and> sidecar_path r' = sidecar_path r
         \<and> cc_protected r' \<and> protection_reason r' = Some (event_reason (epr_event_id res) src)
         \<and> protection_revision r' = protection_revision r + 1" if j: "j \<in> set (protected_clip_ids res)" for j
  proof -
    obtain r r' where r: "find_clip c0 j = Some r" "find_clip c' j = Some r'"
      "row_protected_by (event_reason eid src) r r'"
      using rows j by blast
    have "j \<noteq> k \<longrightarrow> cc_lifecycle r = FINALIZED \<and> cc_retention_order r < cc_retention_order current"
      using prevD [OF r(1) j] prev(2) by blast
    moreover from this have "live r"
      using r(1) k(2,3) by (cases "j = k") (auto simp: live_def)
    ultimately show ?thesis
      using r unfolding find0 eid row_protected_by_def by blast
  qed
  have "k \<in> set (protected_clip_ids res)" "length (protected_clip_ids res) \<le> nat pc + 1"
    using prev(3) by (simp_all add: ids)
  with k each others nearest show ?thesis
    unfolding find0 by blast
qed

theorem event_protects_its_targets_witness:
  "\<exists>res c'. trigger_event (Some (UUID 2)) GPIO 5 2 1 (Some (UUID 7)) True ex_catalog = Inr (res, c')
     \<and> (\<exists>r'. find_clip c' (UUID 2) = Some r' \<and> cc_protected r')"
proof -
  obtain res c' where x: "trigger_event (Some (UUID 2)) GPIO 5 2 1 (Some (UUID 7)) True ex_catalog = Inr (res, c')"
    using ex_trigger unfolding is_ok_iff by auto
  have "epr_event_id res \<notin> ev_event_id ` set (protection_events ex_catalog)"
    by simp
  from event_protects_its_targets [OF ex_reach x this] x show ?thesis
    by blast
qed

section \<open>Completion and newer protection\<close>

lemma find_append: "find P (xs @ ys) = (case find P xs of None \<Rightarrow> find P ys | Some y \<Rightarrow> Some y)"
  by (induction xs) auto

definition moves_into_protected :: "intent_row \<Rightarrow> string \<Rightarrow> string \<Rightarrow> bool" where
  "moves_into_protected p vt st = (ir_kind p = PROTECT \<and> video_source (ir_paths p) = vt \<and> sidecar_source (ir_paths p) = st
     \<and> video_target (ir_paths p) = Some (join_path ''protected'' (path_name vt))
     \<and> sidecar_target (ir_paths p) = Some (join_path ''protected'' (path_name st)))"

lemma pending_after_requeue:
  assumes "requeue_protect k vt st now c = Inr c'"
  shows "clips c' = clips c \<and> (\<exists>p. pending_intent_row c' k = Some p \<and> moves_into_protected p vt st)"
proof -
  obtain ps i where ps: "move_paths vt st ''protected'' = Inr ps"
    and i: "insert_intent_locked k PROTECT ps now None c = Inr (i, c')"
    using assms unfolding requeue_protect_def by (auto simp: result_simps)
  obtain c1 where c1: "operation_intents c1 = operation_intents c"
    "insert_intent_row (row_of_intent i None None None) c1 = Inr c'" "oi_clip_id i = k" "oi_kind i = PROTECT"
    "oi_paths i = ps"
    using insert_intent_lockedD [OF i] by blast
  have none: "pending_intent_row c1 k = None"
    and ops: "operation_intents c' = operation_intents c1 @ [row_of_intent i None None None]"
    using c1(2,3) by (auto simp: insert_intent_row_def split: if_splits)
  have "pending_intent_row c' k = Some (row_of_intent i None None None)"
    using none c1(3) unfolding pending_intent_row_def ops find_append by simp
  moreover have "moves_into_protected (row_of_intent i None None None) vt st"
    using ps c1(4,5) unfolding move_paths_def moves_into_protected_def by (auto dest!: mk_pair_pathsD)
  ultimately show ?thesis
    using insert_intent_locked_clips [OF i] by blast
qed

text \<open>
  Completing a move never drops protection. When the move of a protected clip completes,
  be it the promotion of a finished recording, a renaming, or an unprotection during which
  the clip was protected again, the clip stays protected for the same reason, its row names
  the files' new place, and unless that is protected/ a move into protected/ is queued in the
  same transaction. An unprotection whose clip was not protected again since it was requested
  drops the protection.
\<close>

theorem completion_respects_protection:
  assumes "catalog_reach c" "row_get ir_intent_id iid (operation_intents c) = Some i" "ir_status i = PENDING"
    "intent_from_row i = Inr intent" "complete_intent_locked intent now c = Inr c'"
    "find_clip c (ir_clip_id i) = Some r" "cc_protected r"
    and kind: "ir_kind i \<in> {FINALIZE, RECONCILE_NAME, UNPROTECT}"
  shows "\<exists>r' vt st. find_clip c' (ir_clip_id i) = Some r' \<and> video_target (ir_paths i) = Some vt
    \<and> sidecar_target (ir_paths i) = Some st \<and> video_path r' = vt \<and> sidecar_path r' = st
    \<and> (if ir_kind i = UNPROTECT \<and> expected_protection_revision i \<noteq> None
           \<and> protection_revision r \<le> the (expected_protection_revision i)
       then \<not> cc_protected r' \<and> protection_reason r' = None
       else cc_protected r' \<and> protection_reason r' = protection_reason r
         \<and> (path_parent vt = ''protected'' \<and> ir_kind i \<noteq> UNPROTECT
            \<or> (\<exists>p. pending_intent_row c' (ir_clip_id i) = Some p \<and> moves_into_protected p vt st)))"
proof -
  note i = intent_from_rowD [OF assms(4)] intent_table.get_SomeD [OF assms(2)]
  let ?k = "ir_clip_id i"
  have row: "required_clip_row c ?k = Inr r"
    using assms(6) by (simp add: required_clip_row_def)
  have get: "row_get ir_intent_id (intent_id intent) (operation_intents c) = Some i"
    using assms(2) i by simp
  have nd: "oi_kind intent \<noteq> DELETE"
    using kind i by auto
  obtain vt st where t: "video_target (oi_paths intent) = Some vt" "sidecar_target (oi_paths intent) = Some st"
    using assms(5) nd unfolding complete_intent_locked_def by (auto split: option.splits)
  show ?thesis
  proof (cases "ir_kind i = UNPROTECT")
    case True
    let ?c2 = "mark_intent_complete (intent_id intent) now (update_clip ?k (unprotected_row (newer_protection i r) vt st now) c)"
    have op: "(if newer_protection i r then requeue_protect ?k vt st now ?c2 else Inr ?c2) = Inr c'"
      using assms(5) True i row get t unfolding complete_intent_locked_def complete_unprotect_def Let_def
      by (simp split: if_splits)
    have c2: "find_clip ?c2 ?k = Some (unprotected_row (newer_protection i r) vt st now r)"
      using assms(6) by (simp add: find_clip_complete unprotected_row_def)
    show ?thesis
    proof (cases "newer_protection i r")
      case newer: True
      with op have q: "requeue_protect ?k vt st now ?c2 = Inr c'" by simp
      from pending_after_requeue [OF q] c2 find_clip_cong [of c' ?c2] True t i assms(7) newer show ?thesis
        by (auto simp: unprotected_row_def newer_protection_def split: option.splits)
    next
      case False
      with op c2 True t i show ?thesis
        by (auto simp: unprotected_row_def newer_protection_def split: option.splits)
    qed
  next
    case False
    let ?needs = "path_parent vt \<noteq> ''protected''"
    let ?c2 = "mark_intent_complete (intent_id intent) now (update_clip ?k (promoted_row ?needs vt st now) c)"
    have "complete_promotion intent vt st now c = Inr c'"
      using assms(5) False kind i t unfolding complete_intent_locked_def by auto
    then have op: "(if ?needs then requeue_protect ?k vt st now ?c2 else Inr ?c2) = Inr c'"
      using i row assms(7) unfolding complete_promotion_def Let_def by (simp split: if_splits)
    have c2: "find_clip ?c2 ?k = Some (promoted_row ?needs vt st now r)"
      using assms(6) by (simp add: find_clip_complete promoted_row_def)
    show ?thesis
    proof (cases ?needs)
      case needs: True
      with op have q: "requeue_protect ?k vt st now ?c2 = Inr c'" by simp
      from pending_after_requeue [OF q] c2 find_clip_cong [of c' ?c2] False t i assms(7) show ?thesis
        by (auto simp: promoted_row_def)
    next
      case False
      with op c2 \<open>ir_kind i \<noteq> UNPROTECT\<close> t i assms(7) show ?thesis
        by (auto simp: promoted_row_def)
    qed
  qed
qed

definition ex_finalizing :: CatalogClip where
  "ex_finalizing = ex_writing\<lparr>cc_lifecycle := FINALIZING, end_monotonic_ns := Some 60, cc_size_bytes := 10,
     cc_protected := True, protection_reason := Some ''web''\<rparr>"

definition ex_promotion :: PairPaths where
  "ex_promotion = \<lparr>video_source = ''pending/boot-abcde-000002.partial.mp4'',
     sidecar_source = ''pending/boot-abcde-000002.partial.json'',
     video_target = Some ''clips/boot-abcde-000002.mp4'', sidecar_target = Some ''clips/boot-abcde-000002.json''\<rparr>"

definition ex_protected :: catalog where
  "ex_protected = set_protection (UUID 2) ''web'' 5 ex_catalog"

definition ex_intent :: OperationIntent where
  "ex_intent = \<lparr>intent_id = UUID 1000, oi_clip_id = UUID 2, oi_kind = FINALIZE, created_monotonic_ns = 61,
     oi_paths = ex_promotion, schema_version = 1\<rparr>"

definition ex_promoting :: catalog where
  "ex_promoting = (update_clip (UUID 2) (\<lambda>r. r\<lparr>cc_lifecycle := FINALIZING, end_monotonic_ns := Some 60,
       cc_size_bytes := 10, updated_catalog_ns := 61\<rparr>) ex_protected)
     \<lparr>uuid4_used := 1, operation_intents := [row_of_intent ex_intent None None None]\<rparr>"

lemma ex_promotion_checks:
  "mk_pair_paths ''pending/boot-abcde-000002.partial.mp4'' ''pending/boot-abcde-000002.partial.json''
     (Some ''clips/boot-abcde-000002.mp4'') (Some ''clips/boot-abcde-000002.json'') = Inr ex_promotion"
  "mk_clip_file_pair ''boot-abcde-000002.mp4'' ''boot-abcde-000002.json''
     = Inr \<lparr>video_name = ''boot-abcde-000002.mp4'', metadata_name = ''boot-abcde-000002.json''\<rparr>"
  "parse_clip_filename ''boot-abcde-000002.mp4'' = Inr \<lparr>pn_boot_id = ''abcde'', pn_sequence = 2,
     utc_started_at = None, extension = ''mp4'', provisional = True, partial = False\<rparr>"
  "path_name ''clips/boot-abcde-000002.mp4'' = ''boot-abcde-000002.mp4''"
  "path_name ''clips/boot-abcde-000002.json'' = ''boot-abcde-000002.json''"
  "path_parent ''clips/boot-abcde-000002.mp4'' = ''clips''"
  "path_parent ''clips/boot-abcde-000002.json'' = ''clips''"
  "check_reason ''web'' = Inr ()"
  by code_simp+

lemma ex_finalizing_valid: "validate_clip ex_finalizing = Inr ()"
  by (simp add: validate_clip_def ex_finalizing_def ex_writing_def ex_paths ex_names
      MANAGED_DIRECTORIES_def non_negative_integer_def ex_promotion_checks)

lemma ex_protected_row: "find_clip ex_protected (UUID 2) = Some ((ex_row ex_writing)\<lparr>cc_protected := True,
    protection_reason := Some ''web'', protection_revision := 1, updated_catalog_ns := 5\<rparr>)"
  by (simp add: ex_protected_def find_clip_set_protection_iff)

lemma ex_protected_simps:
  "operation_intents ex_protected = []" "uuid4_used ex_protected = 0" "uuid4_stream ex_protected = ex_stream"
  "cc_clip_id ` set (clips ex_protected) = {UUID 1, UUID 2}"
  by (simp_all add: ex_protected_def set_protection_def update_clip_def row_update_def)

lemma update_clip_simps:
  "operation_intents (update_clip k f c) = operation_intents c" "uuid4_used (update_clip k f c) = uuid4_used c"
  "uuid4_stream (update_clip k f c) = uuid4_stream c"
  by (simp_all add: update_clip_def)

lemma row_update_ids: "(\<And>r. cc_clip_id (f r) = cc_clip_id r) \<Longrightarrow>
   cc_clip_id ` set (row_update cc_clip_id k f xs) = cc_clip_id ` set (xs :: clip_row list)"
  using arg_cong [OF clip_table.keys_update [of f k xs], of set] by simp

lemma ex_promoting_reach: "catalog_reach ex_promoting"
proof -
  have p: "prepare_protect (UUID 2) ''web'' 5 ex_catalog = Inr (None, ex_protected)"
    by (simp add: prepare_protect_def ex_promotion_checks non_negative_integer_def required_clip_row_def
        prepare_protect_locked_def row_has_unexpired_lease_def pending_intent_row_def ex_protected_def)
  have names: "mk_clip_file_pair (path_name (video_path ex_finalizing)) (path_name (sidecar_path ex_finalizing))
      = Inr \<lparr>video_name = ''boot-abcde-000002.partial.mp4'', metadata_name = ''boot-abcde-000002.partial.json''\<rparr>"
    "parse_clip_filename (path_name (video_path ex_finalizing)) = Inr \<lparr>pn_boot_id = ''abcde'', pn_sequence = 2,
       utc_started_at = None, extension = ''mp4'', provisional = True, partial = True\<rparr>"
    by (simp_all add: ex_finalizing_def ex_names ex_parse)
  have fin: "cc_lifecycle ex_finalizing = FINALIZING" "end_monotonic_ns ex_finalizing = Some 60"
    "cc_size_bytes ex_finalizing = 10" "cc_protected ex_finalizing" "protection_reason ex_finalizing = Some ''web''"
    "cc_clip_id ex_finalizing = UUID 2" "video_path ex_finalizing = ''pending/boot-abcde-000002.partial.mp4''"
    "sidecar_path ex_finalizing = ''pending/boot-abcde-000002.partial.json''" "\<not> cc_pair_reconciled ex_finalizing"
    "cc_managed ex_finalizing" "cc_download_lease ex_finalizing = None" "start_monotonic_ns ex_finalizing = 2"
    "cc_retention_order ex_finalizing = 2"
    by (simp_all add: ex_finalizing_def)
  have "register_finalizing_clip ex_finalizing ex_promotion 61 (Some 1) ex_protected = Inr (UUID 1000, ex_promoting)"
    unfolding register_finalizing_clip_def ex_finalizing_valid names
    by (simp add: non_negative_integer_def ex_promotion_def ex_promotion_checks as_conflict_def fin ex_protected_row
        insert_intent_locked_def fresh_uuid_def mk_operation_intent_def ex_stream_def insert_intent_row_def
        pending_intent_row_def ex_promoting_def ex_intent_def row_of_intent_def ex_protected_simps
        update_clip_simps row_update_ids)
  with p show ?thesis
    by (metis catalog_reach.step catalog_step.protect catalog_step.finalizing ex_promotion_checks(1) ex_reach pair_paths_okI)
qed

theorem completion_respects_protection_witness:
  "\<exists>c' r' p. complete_intent_locked ex_intent 62 ex_promoting = Inr c' \<and> find_clip c' (UUID 2) = Some r'
     \<and> cc_protected r' \<and> pending_intent_row c' (UUID 2) = Some p \<and> ir_kind p = PROTECT"
proof -
  let ?i = "row_of_intent ex_intent None None None"
  have i: "row_get ir_intent_id (UUID 1000) (operation_intents ex_promoting) = Some ?i" "ir_status ?i = PENDING"
    "intent_from_row ?i = Inr ex_intent" "ir_clip_id ?i = UUID 2" "ir_kind ?i = FINALIZE"
    "ir_paths ?i = ex_promotion"
    by (simp_all add: row_get_def ex_promoting_def ex_intent_def row_of_intent_def intent_from_row_def
        ex_promotion_def ex_promotion_checks [unfolded ex_promotion_def] mk_operation_intent_def)
  obtain r where r: "find_clip ex_promoting (UUID 2) = Some r" "cc_protected r"
    by (simp add: ex_promoting_def ex_protected_def set_protection_def update_clip_def row_update_def
        find_clip_def row_get_def)
  have mv: "move_paths ''clips/boot-abcde-000002.mp4'' ''clips/boot-abcde-000002.json'' ''protected''
      = Inr \<lparr>video_source = ''clips/boot-abcde-000002.mp4'', sidecar_source = ''clips/boot-abcde-000002.json'',
          video_target = Some ''protected/boot-abcde-000002.mp4'', sidecar_target = Some ''protected/boot-abcde-000002.json''\<rparr>"
    by code_simp
  obtain c' where c': "complete_intent_locked ex_intent 62 ex_promoting = Inr c'"
    by (simp add: complete_intent_locked_def ex_intent_def ex_promotion_def complete_promotion_def
        required_clip_row_def r ex_promotion_checks requeue_protect_def mv insert_intent_locked_def fresh_uuid_def
        mk_operation_intent_def insert_intent_row_def mark_intent_complete_def ex_promoting_def ex_stream_def
        pending_intent_row_def row_update_def row_of_intent_def is_pending_def update_intent_def update_clip_def
        ex_protected_def set_protection_def promoted_row_def Let_def find_clip_def row_get_def)
  from completion_respects_protection [OF ex_promoting_reach i(1-3) c' _ r(2), unfolded i(4-6)] r(1) i(4)
  show ?thesis
    using c' by (auto simp: ex_promotion_def ex_promotion_checks moves_into_protected_def)
qed

end
