(* ===== verification/Pair_Recovery.thy ===== *)
theory Pair_Recovery
  imports Catalog_Examples
begin

text \<open>
  What reconciliation of one intent does to the managed files, whatever the device does:
  every attempt is a sequence of the intent's own steps (\<open>pair_step\<close>), also when it is
  interrupted by a fault; the files of a pair are never lost or overwritten; and an attempt
  that meets no fault finishes what earlier ones left. The lemmas are proved once against the
  filesystem interface and reach the rooted adapter through its interpretation.
\<close>

section \<open>Specification\<close>

type_synonym file_view = "string \<Rightarrow> bytes option"

text \<open>The steps an intent may take on the files, and nothing else.\<close>

inductive pair_step :: "IntentKind \<Rightarrow> PairPaths \<Rightarrow> bytes option \<Rightarrow> file_view \<Rightarrow> file_view \<Rightarrow> bool"
  for k ps payload where
  video: "k \<noteq> DELETE \<Longrightarrow> video_target ps = Some t \<Longrightarrow> moved m (video_source ps) t m'
    \<Longrightarrow> pair_step k ps payload m m'"
| sidecar: "k \<noteq> DELETE \<Longrightarrow> sidecar_target ps = Some t \<Longrightarrow> moved m (sidecar_source ps) t m'
    \<Longrightarrow> pair_step k ps payload m m'"
| rewrite: "k = RECONCILE_NAME \<Longrightarrow> payload = Some v \<Longrightarrow> m (sidecar_source ps) \<noteq> None
    \<Longrightarrow> m' = m(sidecar_source ps \<mapsto> v) \<Longrightarrow> pair_step k ps payload m m'"
| unlink_video: "k = DELETE \<Longrightarrow> m' = m(video_source ps := None) \<Longrightarrow> pair_step k ps payload m m'"
| unlink_sidecar: "k = DELETE \<Longrightarrow> m' = m(sidecar_source ps := None) \<Longrightarrow> pair_step k ps payload m m'"

text \<open>What the planner sees of a view, and the plan it makes.\<close>

definition observed :: "file_view \<Rightarrow> string \<Rightarrow> string option \<Rightarrow> MemberObservation" where
  "observed m s t = \<lparr>source_exists = (m s \<noteq> None),
     target_exists = (case t of None \<Rightarrow> False | Some q \<Rightarrow> m q \<noteq> None)\<rparr>"

definition view_plan :: "OperationIntent \<Rightarrow> file_view \<Rightarrow> ReconciliationPlan" where
  "view_plan i m = (let ps = oi_paths i in plan_reconciliation i
     (observed m (video_source ps) (video_target ps)) (observed m (sidecar_source ps) (sidecar_target ps)))"

text \<open>A computation whose effect on the files is a sequence of \<open>R\<close>-steps.\<close>

definition files_by :: "(file_view \<Rightarrow> file_view \<Rightarrow> bool) \<Rightarrow> ('f \<Rightarrow> file_view) \<Rightarrow> 'f \<Rightarrow> 'a result \<times> 'f \<Rightarrow> bool" where
  "files_by R v s m = R\<^sup>*\<^sup>* (v s) (v (snd m))"

section \<open>Invariants of the steps\<close>

lemma moved_keeps: "moved m s t m' \<Longrightarrow> m p = Some v \<Longrightarrow> p \<noteq> s \<Longrightarrow> m' p = Some v"
  by (auto simp: moved_def)

lemma moved_carries: "moved m s t m' \<Longrightarrow> m p = Some v \<Longrightarrow> \<exists>q. m' q = Some v"
  by (cases "p = s"; rule exI [of _ "if p = s then t else p"]) (auto simp: moved_def)

lemma pair_step_untouched:
  "pair_step k ps payload m m' \<Longrightarrow> p \<noteq> video_source ps \<Longrightarrow> p \<noteq> sidecar_source ps \<Longrightarrow>
   video_target ps \<noteq> Some p \<Longrightarrow> sidecar_target ps \<noteq> Some p \<Longrightarrow> m' p = m p"
  by (cases rule: pair_step.cases) (auto simp: moved_def)

lemma pair_step_keeps_others:
  "pair_step k ps payload m m' \<Longrightarrow> p \<noteq> video_source ps \<Longrightarrow> p \<noteq> sidecar_source ps \<Longrightarrow>
   m p = Some v \<Longrightarrow> m' p = Some v"
  by (cases rule: pair_step.cases) (auto intro: moved_keeps)

lemma pair_step_loses_nothing:
  "pair_step k ps payload m m' \<Longrightarrow> k \<noteq> DELETE \<Longrightarrow> k \<noteq> RECONCILE_NAME \<Longrightarrow>
   m p = Some v \<Longrightarrow> \<exists>q. m' q = Some v"
  by (cases rule: pair_step.cases) (auto intro: moved_carries)

lemma pair_steps_untouched:
  assumes "(pair_step k ps payload)\<^sup>*\<^sup>* m m'" "p \<noteq> video_source ps" "p \<noteq> sidecar_source ps"
    "video_target ps \<noteq> Some p" "sidecar_target ps \<noteq> Some p"
  shows "m' p = m p"
  using assms(1) by (induction rule: rtranclp_induct) (simp_all add: pair_step_untouched assms(2-))

lemma pair_steps_keep_others:
  assumes "(pair_step k ps payload)\<^sup>*\<^sup>* m m'" "p \<noteq> video_source ps" "p \<noteq> sidecar_source ps" "m p = Some v"
  shows "m' p = Some v"
  using assms(1) by (induction rule: rtranclp_induct) (simp_all add: pair_step_keeps_others assms(2-))

lemma pair_steps_lose_nothing:
  assumes "(pair_step k ps payload)\<^sup>*\<^sup>* m m'" "k \<noteq> DELETE" "k \<noteq> RECONCILE_NAME" "m p = Some v"
  shows "\<exists>q. m' q = Some v"
  using assms(1)
  by (induction rule: rtranclp_induct) (use assms(2-4) pair_step_loses_nothing in blast)+

text \<open>A pair mid-move: each member is at its source or at its target, never at both.\<close>

definition paths_distinct :: "PairPaths \<Rightarrow> bool" where
  "paths_distinct ps = distinct (map Some [video_source ps, sidecar_source ps]
     @ [video_target ps, sidecar_target ps])"

definition member_at_one :: "file_view \<Rightarrow> string \<Rightarrow> string option \<Rightarrow> bool" where
  "member_at_one m s t = (case t of None \<Rightarrow> False | Some q \<Rightarrow> (m s = None) = (m q \<noteq> None))"

definition member_content :: "file_view \<Rightarrow> string \<Rightarrow> string option \<Rightarrow> bytes option" where
  "member_content m s t = (case m s of Some v \<Rightarrow> Some v | None \<Rightarrow> (case t of None \<Rightarrow> None | Some q \<Rightarrow> m q))"

definition resumable :: "PairPaths \<Rightarrow> file_view \<Rightarrow> bool" where
  "resumable ps m = (member_at_one m (video_source ps) (video_target ps)
     \<and> member_at_one m (sidecar_source ps) (sidecar_target ps))"

lemma moved_member:
  assumes "moved m s t m'"
  shows "member_at_one m' s (Some t) \<and> member_content m' s (Some t) = member_content m s (Some t)"
  using assms by (auto simp: moved_def member_at_one_def member_content_def)

lemma member_cong:
  assumes "m' s = m s" "\<And>q. t = Some q \<Longrightarrow> m' q = m q"
  shows "member_at_one m' s t = member_at_one m s t" "member_content m' s t = member_content m s t"
  using assms by (auto simp: member_at_one_def member_content_def split: option.splits)

lemma moved_elsewhere: "moved m s t m' \<Longrightarrow> p \<noteq> s \<Longrightarrow> p \<noteq> t \<Longrightarrow> m' p = m p"
  by (simp add: moved_def)

lemma pair_step_resumable:
  assumes "pair_step k ps payload m m'" "paths_distinct ps" "k \<noteq> DELETE" "resumable ps m"
  shows "resumable ps m'
    \<and> member_content m' (video_source ps) (video_target ps) = member_content m (video_source ps) (video_target ps)
    \<and> (k \<noteq> RECONCILE_NAME \<longrightarrow> member_content m' (sidecar_source ps) (sidecar_target ps)
         = member_content m (sidecar_source ps) (sidecar_target ps))"
  using assms(1)
proof cases
  case (video t)
  have "member_at_one m' (sidecar_source ps) (sidecar_target ps) = member_at_one m (sidecar_source ps) (sidecar_target ps)"
    "member_content m' (sidecar_source ps) (sidecar_target ps) = member_content m (sidecar_source ps) (sidecar_target ps)"
    using assms(2) video by (auto intro!: member_cong moved_elsewhere [OF video(3)] simp: paths_distinct_def)
  with moved_member [OF video(3)] video(2) assms(4) show ?thesis
    by (simp add: resumable_def)
next
  case (sidecar t)
  have "member_at_one m' (video_source ps) (video_target ps) = member_at_one m (video_source ps) (video_target ps)"
    "member_content m' (video_source ps) (video_target ps) = member_content m (video_source ps) (video_target ps)"
    using assms(2) sidecar by (auto intro!: member_cong moved_elsewhere [OF sidecar(3)] simp: paths_distinct_def)
  with moved_member [OF sidecar(3)] sidecar(2) assms(4) show ?thesis
    by (simp add: resumable_def)
next
  case (rewrite v)
  have "member_at_one m' (video_source ps) (video_target ps) = member_at_one m (video_source ps) (video_target ps)"
    "member_content m' (video_source ps) (video_target ps) = member_content m (video_source ps) (video_target ps)"
    using assms(2) rewrite(4) by (auto intro!: member_cong simp: paths_distinct_def)
  moreover have "member_at_one m' (sidecar_source ps) (sidecar_target ps)"
    using assms(2,4) rewrite(3,4)
    by (auto simp: member_at_one_def resumable_def paths_distinct_def split: option.splits)
  ultimately show ?thesis
    using assms(4) rewrite(1) by (simp add: resumable_def)
qed (use assms(3) in simp_all)

lemma pair_steps_resumable:
  assumes "(pair_step k ps payload)\<^sup>*\<^sup>* m m'" "paths_distinct ps" "k \<noteq> DELETE" "resumable ps m"
  shows "resumable ps m'
    \<and> member_content m' (video_source ps) (video_target ps) = member_content m (video_source ps) (video_target ps)
    \<and> (k \<noteq> RECONCILE_NAME \<longrightarrow> member_content m' (sidecar_source ps) (sidecar_target ps)
         = member_content m (sidecar_source ps) (sidecar_target ps))"
  using assms(1)
  by (induction rule: rtranclp_induct) (use assms(2-4) pair_step_resumable in \<open>auto dest: pair_step_resumable\<close>)

text \<open>A resumable pair plans without a problem, and a deletion always does.\<close>

lemma view_plan_problem_free:
  assumes "oi_kind i = DELETE \<longrightarrow> video_target (oi_paths i) = None \<and> sidecar_target (oi_paths i) = None"
    "oi_kind i \<noteq> DELETE \<longrightarrow> resumable (oi_paths i) m"
  shows "problems (view_plan i m) = []"
  using assms by (auto simp: view_plan_def plan_defs observed_def resumable_def member_at_one_def
      split: option.splits)

section \<open>Attempts through the interface\<close>

lemma files_by_refl: "v s = v s' \<Longrightarrow> files_by R v s (r, s')"
  by (simp add: files_by_def)

lemma files_by_step: "R (v s) (v s') \<Longrightarrow> files_by R v s (r, s')"
  by (simp add: files_by_def)

lemma files_by_bindF:
  assumes "files_by R v s m" "\<And>x s1. m = (Inr x, s1) \<Longrightarrow> files_by R v s1 (k x s1)"
  shows "files_by R v s (bindF m k)"
proof -
  obtain r s1 where m: "m = (r, s1)" by fastforce
  show ?thesis
    using assms by (cases r) (auto simp: files_by_def bindF_def m)
qed

lemma files_by_catch: "files_by R v s m \<Longrightarrow> files_by R v s (catch_as caught x m)"
  by (auto simp: files_by_def catch_as_def split: prod.splits sum.splits)

lemma files_by_rules:
  shows files_by_if: "(b \<Longrightarrow> files_by R v s m1) \<Longrightarrow> (\<not> b \<Longrightarrow> files_by R v s m2) \<Longrightarrow> files_by R v s (if b then m1 else m2)"
    and files_by_option: "(o1 = None \<Longrightarrow> files_by R v s m1) \<Longrightarrow> (\<And>x. o1 = Some x \<Longrightarrow> files_by R v s (g x))
      \<Longrightarrow> files_by R v s (case o1 of None \<Rightarrow> m1 | Some x \<Rightarrow> g x)"
    and files_by_sum: "(\<And>e. r1 = Inl e \<Longrightarrow> files_by R v s (h e)) \<Longrightarrow> (\<And>x. r1 = Inr x \<Longrightarrow> files_by R v s (l x))
      \<Longrightarrow> files_by R v s (case r1 of Inl e \<Rightarrow> h e | Inr x \<Rightarrow> l x)"
  by (auto split: option.splits sum.splits)

lemma files_by_loop:
  assumes "\<And>x s. x \<in> set xs \<Longrightarrow> files_by R v s (f x s)"
  shows "files_by R v s (loopF f xs s)"
  using assms
proof (induction xs arbitrary: s)
  case Nil
  then show ?case by (simp add: files_by_def)
next
  case (Cons x xs)
  then show ?case by (auto intro!: files_by_bindF)
qed

lemma bindF_simps [simp]: "bindF (Inr x, s) k = k x s" "bindF (Inl e, s) k = (Inl e, s)"
  by (simp_all add: bindF_def)

lemma loopF_append: "loopF f (xs @ ys) s = bindF (loopF f xs s) (\<lambda>_. loopF f ys)"
proof (induction xs arbitrary: s)
  case Nil
  then show ?case by simp
next
  case (Cons x xs)
  obtain r s1 where "f x s = (r, s1)" by fastforce
  with Cons show ?case by (cases r) simp_all
qed

lemma loopF_map: "(\<And>x. x \<in> set xs \<Longrightarrow> f x = g (h x)) \<Longrightarrow> loopF f xs s = loopF g (map h xs) s"
  by (induction xs arbitrary: s) (simp_all add: bindF_def split: prod.splits sum.splits)

lemma view_plan_moves:
  assumes "oi_kind i \<noteq> DELETE" "resumable (oi_paths i) m"
  shows "actions (view_plan i m) =
    (if m (video_source (oi_paths i)) \<noteq> None
     then [\<lparr>ra_kind = MOVE, ra_member = VIDEO, ra_source = video_source (oi_paths i), ra_target = video_target (oi_paths i)\<rparr>] else [])
    @ (if m (sidecar_source (oi_paths i)) \<noteq> None
     then [\<lparr>ra_kind = MOVE, ra_member = SIDECAR, ra_source = sidecar_source (oi_paths i), ra_target = sidecar_target (oi_paths i)\<rparr>] else [])"
  using assms by (auto simp: view_plan_def plan_defs observed_def resumable_def member_at_one_def
      split: option.splits)

lemma view_plan_unlinks:
  assumes "oi_kind i = DELETE" "video_target (oi_paths i) = None" "sidecar_target (oi_paths i) = None"
  shows "actions (view_plan i m) =
    (if m (video_source (oi_paths i)) \<noteq> None
     then [\<lparr>ra_kind = UNLINK, ra_member = VIDEO, ra_source = video_source (oi_paths i), ra_target = None\<rparr>] else [])
    @ (if m (sidecar_source (oi_paths i)) \<noteq> None
     then [\<lparr>ra_kind = UNLINK, ra_member = SIDECAR, ra_source = sidecar_source (oi_paths i), ra_target = None\<rparr>] else [])"
  using assms by (auto simp: view_plan_def plan_defs observed_def)

lemma view_plan_complete_iff:
  "complete (view_plan i m) \<longleftrightarrow>
     member_done (oi_kind i) (observed m (video_source (oi_paths i)) (video_target (oi_paths i)))
     \<and> member_done (oi_kind i) (observed m (sidecar_source (oi_paths i)) (sidecar_target (oi_paths i)))"
  by (simp add: view_plan_def Let_def complete_iff_done)

lemma view_plan_length: "length (actions (view_plan i m)) \<le> 2"
  by (simp add: view_plan_def Let_def plan_length)

definition attempt_result :: "OperationIntent \<Rightarrow> int \<Rightarrow> int \<Rightarrow> catalog \<Rightarrow> 'f
    \<Rightarrow> (IntentReconciliationResult \<times> catalog) result \<times> 'f" where
  "attempt_result i n now c s = (case complete_intent_locked i now c of Inl e \<Rightarrow> (Inl e, s)
     | Inr c' \<Rightarrow> (Inr (\<lparr>irr_intent = i, actions_attempted = n, irr_complete = True, irr_problems = []\<rparr>, c'), s))"

text \<open>\<open>returns Q m\<close>: whatever the computation returns satisfies \<open>Q\<close>.\<close>

definition returns :: "('a \<Rightarrow> 'f \<Rightarrow> bool) \<Rightarrow> 'a result \<times> 'f \<Rightarrow> bool" where
  "returns Q m = (\<forall>x s. m = (Inr x, s) \<longrightarrow> Q x s)"

lemma returns_bindF: "(\<And>x s1. m = (Inr x, s1) \<Longrightarrow> returns Q (k x s1)) \<Longrightarrow> returns Q (bindF m k)"
  by (auto simp: returns_def bindF_eq_Inr)

lemma returns_rules:
  shows returns_if: "(b \<Longrightarrow> returns Q m1) \<Longrightarrow> (\<not> b \<Longrightarrow> returns Q m2) \<Longrightarrow> returns Q (if b then m1 else m2)"
    and returns_option: "(o1 = None \<Longrightarrow> returns Q m1) \<Longrightarrow> (\<And>x. o1 = Some x \<Longrightarrow> returns Q (g x))
      \<Longrightarrow> returns Q (case o1 of None \<Rightarrow> m1 | Some x \<Rightarrow> g x)"
    and returns_sum: "(\<And>e. r1 = Inl e \<Longrightarrow> returns Q (h e)) \<Longrightarrow> (\<And>x. r1 = Inr x \<Longrightarrow> returns Q (l x))
      \<Longrightarrow> returns Q (case r1 of Inl e \<Rightarrow> h e | Inr x \<Rightarrow> l x)"
    and returns_Inl: "returns Q (Inl e, s)"
    and returns_Inr: "Q x s \<Longrightarrow> returns Q (Inr x, s)"
  by (auto simp: returns_def split: sum.splits option.splits)

context catalog_filesystem
begin

lemma exists_files: "files_by R view s (fs_exists fs p s)"
  by (cases "fs_exists fs p s") (auto intro!: files_by_refl dest: exists_view)

lemma read_files: "files_by R view s (fs_read_bytes fs p n s)"
  by (cases "fs_read_bytes fs p n s") (auto intro!: files_by_refl dest: read_view)

lemma unlink_files:
  "(\<And>m. R m (m(p := None))) \<Longrightarrow> files_by R view s (fs_unlink fs p s)"
  by (cases "fs_unlink fs p s") (metis files_by_refl files_by_step unlink_view)

lemma move_files:
  "(\<And>m m'. moved m p q m' \<Longrightarrow> R m m') \<Longrightarrow> files_by R view s (fs_move fs p q s)"
  by (cases "fs_move fs p q s") (metis files_by_refl files_by_step move_view)

lemma replace_files:
  "(\<And>m. m p \<noteq> None \<Longrightarrow> R m (m(p \<mapsto> v))) \<Longrightarrow> files_by R view s (fs_replace_bytes_atomic fs p v n s)"
  by (cases "fs_replace_bytes_atomic fs p v n s") (metis files_by_refl files_by_step replace_view)

lemma observe_files: "files_by R view s (observe_plan fs i s)"
  unfolding observe_plan_def observe_optional_def Let_def
  by (intro files_by_bindF files_by_option exists_files files_by_refl refl)

lemma observe_optional_view:
  "observe_optional fs t s = (Inr b, s') \<Longrightarrow>
   view s' = view s \<and> b = (case t of None \<Rightarrow> False | Some q \<Rightarrow> view s q \<noteq> None)"
  by (cases t) (auto simp: observe_optional_def dest: exists_view)

lemma observe_plan_view:
  assumes "observe_plan fs i s = (Inr p, s')"
  shows "view s' = view s \<and> p = view_plan i (view s)"
proof -
  obtain vt s1 st s2 vs s3 ss where
    o: "observe_optional fs (video_target (oi_paths i)) s = (Inr vt, s1)"
    "observe_optional fs (sidecar_target (oi_paths i)) s1 = (Inr st, s2)"
    "fs_exists fs (video_source (oi_paths i)) s2 = (Inr vs, s3)"
    "fs_exists fs (sidecar_source (oi_paths i)) s3 = (Inr ss, s')"
    and p: "p = plan_reconciliation i \<lparr>source_exists = vs, target_exists = vt\<rparr>
        \<lparr>source_exists = ss, target_exists = st\<rparr>"
    using assms unfolding observe_plan_def Let_def by (auto simp: bindF_eq_Inr)
  show ?thesis
    using observe_optional_view [OF o(1)] observe_optional_view [OF o(2)] exists_view [OF o(3)] exists_view [OF o(4)]
    unfolding p view_plan_def observed_def Let_def by (simp split: option.splits)
qed

lemma run_action_files:
  assumes "a \<in> set (actions (view_plan i m))"
  shows "files_by (pair_step (oi_kind i) (oi_paths i) payload) view s (run_action fs a s)"
proof -
  have a: "ra_source a = (if ra_member a = VIDEO then video_source (oi_paths i) else sidecar_source (oi_paths i))"
    "if oi_kind i = DELETE then ra_kind a = UNLINK
     else ra_kind a = MOVE \<and> ra_target a = (if ra_member a = VIDEO then video_target (oi_paths i)
                          else sidecar_target (oi_paths i))"
    using plan_actions_safe [of a i] assms unfolding view_plan_def Let_def by (auto split: if_splits)
  show ?thesis
  proof (cases "oi_kind i = DELETE")
    case True
    with a show ?thesis
      by (auto simp: run_action_def intro!: unlink_files intro: pair_step.intros)
  next
    case False
    with a show ?thesis
      by (auto simp: run_action_def intro!: files_by_option move_files files_by_refl
          intro: pair_step.intros split: if_splits)
  qed
qed

lemma confirm_absent_files:
  "files_by (pair_step (oi_kind i) (oi_paths i) payload) view s (confirm_absent fs i plan s)"
  unfolding confirm_absent_def
  by (intro files_by_if files_by_loop unlink_files files_by_refl refl)
    (auto split: if_splits intro: pair_step.intros)

lemma install_files:
  assumes "oi_kind i = RECONCILE_NAME"
  shows "files_by (pair_step (oi_kind i) (oi_paths i) (Some raw)) view s (install_target_sidecar fs parse sha i raw h s)"
  unfolding install_target_sidecar_def Let_def
  by (intro files_by_bindF files_by_if files_by_sum read_files files_by_refl refl replace_files)
    (auto intro: pair_step.rewrite simp: assms)

lemma prepare_name_files:
  assumes "oi_kind i = RECONCILE_NAME"
  shows "files_by (pair_step (oi_kind i) (oi_paths i) (reconciliation_sidecar row)) view s
    (prepare_name_reconciliation_sidecar fs parse sha i row s)"
proof (cases "reconciliation_sidecar row")
  case None
  then show ?thesis
    by (simp add: prepare_name_reconciliation_sidecar_def files_by_refl)
next
  case (Some raw)
  then show ?thesis
    unfolding prepare_name_reconciliation_sidecar_def
    by (auto intro!: files_by_bindF files_by_if files_by_sum files_by_option files_by_catch read_files exists_files
        files_by_refl install_files assms)
qed

lemma validate_files:
  "files_by (pair_step (oi_kind i) (oi_paths i) (reconciliation_sidecar row)) view s
    (validate_sidecars fs parse sha i row s)"
  unfolding validate_sidecars_def validate_finalize_sidecar_def
  by (intro files_by_if prepare_name_files files_by_bindF files_by_option files_by_catch files_by_sum
      exists_files read_files files_by_refl refl) (auto intro: files_by_refl split: option.splits)

lemma reconcile_body_files:
  "files_by (pair_step (oi_kind i) (oi_paths i) (reconciliation_sidecar row)) view s
    (reconcile_body fs parse sha row i now n c s)"
  unfolding reconcile_body_def Let_def
  by (intro files_by_if files_by_bindF files_by_option files_by_sum observe_files validate_files confirm_absent_files
      files_by_loop files_by_refl refl)
    (auto dest!: observe_plan_view in_set_takeD intro: run_action_files)

lemma reconcile_body_returns:
  assumes "reconcile_body fs parse sha row i now n c s = (Inr (res, c'), s')"
  shows "irr_complete res \<and> complete (view_plan i (view s'))
    \<or> \<not> irr_complete res \<and> (\<exists>p. c' = set_last_problem (intent_id i) p c)"
proof -
  have "returns (\<lambda>(res, c') s'. irr_complete res \<and> complete (view_plan i (view s'))
      \<or> \<not> irr_complete res \<and> (\<exists>p. c' = set_last_problem (intent_id i) p c))
    (reconcile_body fs parse sha row i now n c s)"
    unfolding reconcile_body_def Let_def
    by (intro returns_if returns_bindF returns_option returns_sum returns_Inl returns_Inr)
      (auto dest: observe_plan_view)
  with assms show ?thesis
    by (simp add: returns_def)
qed

text \<open>Attempts that meet no fault.\<close>

definition healthy_at :: "'f \<Rightarrow> PairPaths \<Rightarrow> bool" where
  "healthy_at s ps = (healthy s (video_source ps) \<and> healthy s (sidecar_source ps)
     \<and> (\<forall>p. video_target ps = Some p \<or> sidecar_target ps = Some p \<longrightarrow> healthy s p))"

definition stays_healthy :: "'f \<Rightarrow> 'f \<Rightarrow> bool" where
  "stays_healthy s s' = (\<forall>q. healthy s q \<longrightarrow> healthy s' q)"

lemma stays_healthy_trans: "stays_healthy a b \<Longrightarrow> stays_healthy b c \<Longrightarrow> stays_healthy a c"
  by (simp add: stays_healthy_def)

lemma healthy_at_mono: "healthy_at s ps \<Longrightarrow> stays_healthy s s' \<Longrightarrow> healthy_at s' ps"
  by (auto simp: healthy_at_def stays_healthy_def)

lemma exists_ok: "healthy s p \<Longrightarrow> \<exists>s'. fs_exists fs p s = (Inr (view s p \<noteq> None), s') \<and> stays_healthy s s' \<and> view s' = view s"
  using exists_healthy exists_view unfolding stays_healthy_def by metis

lemma optional_ok:
  assumes "\<forall>p. t = Some p \<longrightarrow> healthy s p"
  shows "\<exists>s' b. observe_optional fs t s = (Inr b, s') \<and> stays_healthy s s' \<and> view s' = view s"
proof (cases t)
  case None
  then show ?thesis by (auto simp: observe_optional_def stays_healthy_def)
next
  case (Some p)
  with exists_ok [of s p] assms show ?thesis by (auto simp: observe_optional_def)
qed

lemma observe_ok:
  assumes h: "healthy_at s (oi_paths i)"
  shows "\<exists>s'. observe_plan fs i s = (Inr (view_plan i (view s)), s') \<and> stays_healthy s s' \<and> view s' = view s"
proof -
  obtain s1 b1 where 1: "observe_optional fs (video_target (oi_paths i)) s = (Inr b1, s1)" "stays_healthy s s1" "view s1 = view s"
    using optional_ok h unfolding healthy_at_def by blast
  note h1 = healthy_at_mono [OF h 1(2)]
  obtain s2 b2 where 2: "observe_optional fs (sidecar_target (oi_paths i)) s1 = (Inr b2, s2)" "stays_healthy s1 s2" "view s2 = view s1"
    using optional_ok h1 unfolding healthy_at_def by blast
  note h2 = healthy_at_mono [OF h1 2(2)]
  obtain s3 where 3: "fs_exists fs (video_source (oi_paths i)) s2 = (Inr (view s2 (video_source (oi_paths i)) \<noteq> None), s3)"
      "stays_healthy s2 s3" "view s3 = view s2"
    using exists_ok h2 unfolding healthy_at_def by blast
  note h3 = healthy_at_mono [OF h2 3(2)]
  obtain s4 where 4: "fs_exists fs (sidecar_source (oi_paths i)) s3 = (Inr (view s3 (sidecar_source (oi_paths i)) \<noteq> None), s4)"
      "stays_healthy s3 s4" "view s4 = view s3"
    using exists_ok h3 unfolding healthy_at_def by blast
  obtain p where p: "observe_plan fs i s = (Inr p, s4)"
    unfolding observe_plan_def Let_def by (simp add: bindF_def 1(1) 2(1) 3(1) 4(1))
  with observe_plan_view [OF p] stays_healthy_trans 1(2) 2(2) 3(2) 4(2) show ?thesis
    by blast
qed

lemma unlink_ok:
  "healthy s p \<Longrightarrow> \<exists>s'. fs_unlink fs p s = (Inr (), s') \<and> stays_healthy s s' \<and> view s' = (view s)(p := None)"
  using unlink_healthy unlink_view unfolding stays_healthy_def by metis

lemma unlink_all_ok:
  assumes "\<forall>p \<in> set xs. healthy s p"
  shows "\<exists>s'. loopF (fs_unlink fs) xs s = (Inr (), s') \<and> stays_healthy s s'
    \<and> view s' = (\<lambda>p. if p \<in> set xs then None else view s p)"
  using assms
proof (induction xs arbitrary: s)
  case Nil
  then show ?case by (simp add: stays_healthy_def)
next
  case (Cons x xs)
  obtain s1 where 1: "fs_unlink fs x s = (Inr (), s1)" "stays_healthy s s1" "view s1 = (view s)(x := None)"
    using unlink_ok Cons.prems by fastforce
  have "\<forall>p \<in> set xs. healthy s1 p"
    using Cons.prems 1(2) by (simp add: stays_healthy_def)
  then obtain s2 where "loopF (fs_unlink fs) xs s1 = (Inr (), s2)" "stays_healthy s1 s2"
    "view s2 = (\<lambda>p. if p \<in> set xs then None else view s1 p)"
    using Cons.IH by blast
  with 1 show ?case
    by (intro exI [of _ s2]) (auto simp: bindF_def fun_eq_iff stays_healthy_def)
qed

text \<open>Moving one member that may already have been moved.\<close>

lemma move_member_ok:
  assumes "healthy s p" "healthy s q" "member_at_one (view s) p (Some q)" "p \<noteq> q"
    and a: "ra_kind a = MOVE" "ra_source a = p" "ra_target a = Some q"
  shows "\<exists>s'. loopF (run_action fs) (if view s p \<noteq> None then [a] else []) s = (Inr (), s') \<and> stays_healthy s s'
    \<and> view s' p = None \<and> view s' q = member_content (view s) p (Some q)
    \<and> (\<forall>x. x \<noteq> p \<longrightarrow> x \<noteq> q \<longrightarrow> view s' x = view s x)"
proof (cases "view s p")
  case None
  with assms show ?thesis
    by (auto simp: member_content_def stays_healthy_def)
next
  case (Some v)
  with assms(3) have free: "view s q = None"
    by (simp add: member_at_one_def)
  obtain s' where s': "fs_move fs p q s = (Inr (), s')" "stays_healthy s s'" "moved (view s) p q (view s')"
    using move_healthy [OF assms(1,2)] free Some move_view unfolding stays_healthy_def by blast
  with Some assms(4) a show ?thesis
    by (intro exI [of _ s']) (auto simp: run_action_def moved_def member_content_def bindF_def)
qed

text \<open>The body of an attempt, given how its phases went.\<close>

lemma reconcile_body_phases:
  assumes "observe_plan fs i s = (Inr (view_plan i (view s)), s1)" "problems (view_plan i (view s)) = []"
    "validate_sidecars fs parse sha i row s1 = (Inr None, s2)"
    "confirm_absent fs i (view_plan i (view s)) s2 = (Inr (), s3)"
    "loopF (run_action fs) (actions (view_plan i (view s))) s3 = (Inr (), s4)"
    "observe_plan fs i s4 = (Inr fin, s5)" "complete fin" "2 \<le> n"
  shows "\<exists>k. reconcile_body fs parse sha row i now n c s = attempt_result i k now c s5"
proof -
  have "take (nat n) (actions (view_plan i (view s))) = actions (view_plan i (view s))"
    using view_plan_length [of i "view s"] assms(8) by simp
  moreover have "problems fin = []"
    using assms(7) by (simp add: complete_def)
  ultimately show ?thesis
    using assms
    by (intro exI [of _ "int (length (actions (view_plan i (view s))))"])
      (simp add: reconcile_body_def attempt_result_def Let_def split: sum.splits)
qed

lemma reconcile_move_ok:
  assumes kind: "oi_kind i \<in> {PROTECT, UNPROTECT}" and h: "healthy_at s (oi_paths i)"
    and res: "resumable (oi_paths i) (view s)" and dist: "paths_distinct (oi_paths i)" and n: "2 \<le> n"
    and t: "video_target (oi_paths i) = Some vt" "sidecar_target (oi_paths i) = Some st"
  shows "\<exists>s' k. reconcile_body fs parse sha row i now n c s = attempt_result i k now c s'
    \<and> view s' (video_source (oi_paths i)) = None \<and> view s' (sidecar_source (oi_paths i)) = None
    \<and> view s' vt = member_content (view s) (video_source (oi_paths i)) (Some vt)
    \<and> view s' st = member_content (view s) (sidecar_source (oi_paths i)) (Some st)"
proof -
  let ?p = "video_source (oi_paths i)" and ?q = "sidecar_source (oi_paths i)"
  let ?av = "\<lparr>ra_kind = MOVE, ra_member = VIDEO, ra_source = ?p, ra_target = Some vt\<rparr>"
  let ?as = "\<lparr>ra_kind = MOVE, ra_member = SIDECAR, ra_source = ?q, ra_target = Some st\<rparr>"
  have nd: "oi_kind i \<noteq> DELETE"
    using kind by auto
  have d: "?p \<noteq> vt" "?q \<noteq> st" "?p \<noteq> ?q" "?p \<noteq> st" "?q \<noteq> vt" "vt \<noteq> st"
    using dist t by (auto simp: paths_distinct_def)
  obtain s1 where 1: "observe_plan fs i s = (Inr (view_plan i (view s)), s1)" "stays_healthy s s1" "view s1 = view s"
    using observe_ok [OF h] by blast
  have h1: "healthy s1 ?p" "healthy s1 vt" "healthy s1 ?q" "healthy s1 st"
    using healthy_at_mono [OF h 1(2)] t by (auto simp: healthy_at_def)
  have m1: "member_at_one (view s1) ?p (Some vt)" "member_at_one (view s1) ?q (Some st)"
    using res t 1(3) by (simp_all add: resumable_def)
  obtain s2 where 2: "loopF (run_action fs) (if view s1 ?p \<noteq> None then [?av] else []) s1 = (Inr (), s2)"
    "stays_healthy s1 s2" "view s2 ?p = None" "view s2 vt = member_content (view s1) ?p (Some vt)"
    "\<forall>x. x \<noteq> ?p \<longrightarrow> x \<noteq> vt \<longrightarrow> view s2 x = view s1 x"
    using move_member_ok [OF h1(1,2) m1(1) d(1), of ?av] by auto
  have m2: "member_at_one (view s2) ?q (Some st)" "view s2 ?q = view s1 ?q"
    "member_content (view s2) ?q (Some st) = member_content (view s1) ?q (Some st)"
    using m1(2) 2(5) d by (auto simp: member_at_one_def member_content_def)
  have h2: "healthy s2 ?q" "healthy s2 st"
    using h1 2(2) by (simp_all add: stays_healthy_def)
  obtain s3 where 3: "loopF (run_action fs) (if view s1 ?q \<noteq> None then [?as] else []) s2 = (Inr (), s3)"
    "stays_healthy s2 s3" "view s3 ?q = None" "view s3 st = member_content (view s1) ?q (Some st)"
    "\<forall>x. x \<noteq> ?q \<longrightarrow> x \<noteq> st \<longrightarrow> view s3 x = view s2 x"
    using move_member_ok [OF h2 m2(1) d(2), of ?as] m2 by auto
  have acts: "actions (view_plan i (view s)) = (if view s1 ?p \<noteq> None then [?av] else []) @ (if view s1 ?q \<noteq> None then [?as] else [])"
    using view_plan_moves [OF nd res] t unfolding 1(3) by simp
  have run: "loopF (run_action fs) (actions (view_plan i (view s))) s1 = (Inr (), s3)"
    unfolding acts loopF_append using 2(1) 3(1) by simp
  have h3: "healthy_at s3 (oi_paths i)"
    using healthy_at_mono h 1(2) 2(2) 3(2) by blast
  obtain s4 where 4: "observe_plan fs i s3 = (Inr (view_plan i (view s3)), s4)" "view s4 = view s3"
    using observe_ok [OF h3] by blast
  have fin: "view s3 ?p = None" "view s3 vt = member_content (view s) ?p (Some vt)"
    using 2 3 d 1(3) by auto
  have full: "member_content (view s) ?p (Some vt) \<noteq> None" "member_content (view s) ?q (Some st) \<noteq> None"
    using m1 unfolding 1(3) by (auto simp: member_at_one_def member_content_def split: option.splits)
  have "complete (view_plan i (view s3))"
    using fin full 3(3,4) nd t 1(3) by (simp add: view_plan_complete_iff member_done_def observed_def)
  moreover have "problems (view_plan i (view s)) = []"
    using view_plan_problem_free nd res by blast
  moreover have "validate_sidecars fs parse sha i row s1 = (Inr None, s1)"
    "confirm_absent fs i (view_plan i (view s)) s1 = (Inr (), s1)"
    using kind by (auto simp: validate_sidecars_def confirm_absent_def)
  ultimately have "\<exists>k. reconcile_body fs parse sha row i now n c s = attempt_result i k now c s4"
    using reconcile_body_phases [OF 1(1) _ _ _ run 4(1)] n by blast
  then show ?thesis
    using fin 3(3,4) 4(2) 1(3) by auto
qed

lemma reconcile_delete_ok:
  assumes kind: "oi_kind i = DELETE" "video_target (oi_paths i) = None" "sidecar_target (oi_paths i) = None"
    and h: "healthy_at s (oi_paths i)" and n: "2 \<le> n"
  shows "\<exists>s' k. reconcile_body fs parse sha row i now n c s = attempt_result i k now c s'
    \<and> view s' (video_source (oi_paths i)) = None \<and> view s' (sidecar_source (oi_paths i)) = None"
proof -
  let ?p = "video_source (oi_paths i)" and ?q = "sidecar_source (oi_paths i)"
  let ?plan = "view_plan i (view s)"
  obtain s1 where 1: "observe_plan fs i s = (Inr ?plan, s1)" "stays_healthy s s1" "view s1 = view s"
    using observe_ok [OF h] by blast
  let ?absent = "filter (\<lambda>p. p \<notin> set (map ra_source (actions ?plan))) [?p, ?q]"
  let ?present = "map ra_source (actions ?plan)"
  have pres: "?present = (if view s ?p \<noteq> None then [?p] else []) @ (if view s ?q \<noteq> None then [?q] else [])"
    using view_plan_unlinks [OF kind] by simp
  have h1: "healthy s1 ?p" "healthy s1 ?q"
    using healthy_at_mono [OF h 1(2)] by (auto simp: healthy_at_def)
  obtain s2 where 2: "loopF (fs_unlink fs) ?absent s1 = (Inr (), s2)" "stays_healthy s1 s2"
    "view s2 = (\<lambda>p. if p \<in> set ?absent then None else view s1 p)"
  proof -
    have "\<forall>p \<in> set ?absent. healthy s1 p"
      using h1 by (simp split: if_splits)
    from unlink_all_ok [OF this] show ?thesis
      using that by blast
  qed
  have "\<forall>p \<in> set ?present. healthy s2 p"
    using h1 2(2) unfolding pres by (auto simp: stays_healthy_def)
  then obtain s3 where 3: "loopF (fs_unlink fs) ?present s2 = (Inr (), s3)" "stays_healthy s2 s3"
    "view s3 = (\<lambda>p. if p \<in> set ?present then None else view s2 p)"
    using unlink_all_ok by blast
  have "run_action fs a = fs_unlink fs (ra_source a)" if "a \<in> set (actions ?plan)" for a
    using that view_plan_unlinks [OF kind, of "view s"] by (auto simp: run_action_def fun_eq_iff split: if_splits)
  then have run: "loopF (run_action fs) (actions ?plan) s2 = (Inr (), s3)"
    using 3(1) loopF_map [of "actions ?plan" "run_action fs" "fs_unlink fs" ra_source] by simp
  have gone: "view s3 ?p = None" "view s3 ?q = None"
    unfolding 3(3) 2(3) 1(3) pres by auto
  have h3: "healthy_at s3 (oi_paths i)"
    using healthy_at_mono h 1(2) 2(2) 3(2) by blast
  obtain s4 where 4: "observe_plan fs i s3 = (Inr (view_plan i (view s3)), s4)" "view s4 = view s3"
    using observe_ok [OF h3] by blast
  have "complete (view_plan i (view s3))"
    using gone kind by (simp add: view_plan_complete_iff member_done_def observed_def)
  moreover have "problems ?plan = []"
    using view_plan_problem_free kind by blast
  moreover have "validate_sidecars fs parse sha i row s1 = (Inr None, s1)"
    "confirm_absent fs i ?plan s1 = (Inr (), s2)"
    using kind(1) 2(1) by (simp_all add: validate_sidecars_def confirm_absent_def)
  ultimately have "\<exists>k. reconcile_body fs parse sha row i now n c s = attempt_result i k now c s4"
    using reconcile_body_phases [OF 1(1) _ _ _ run 4(1)] n by blast
  then show ?thesis
    using gone 4(2) by auto
qed

end

section \<open>Attempts on the rooted disk\<close>

text \<open>One call of \<open>reconcile_intent\<close> on a pending intent is one run of its body.\<close>

lemma reconcile_pending:
  assumes "row_get ir_intent_id iid (operation_intents c) = Some i" "is_pending i"
    "intent_from_row i = Inr intent" "0 \<le> now" "0 < n"
  shows "reconcile_intent fs parse sha iid now n (c, s)
    = (case reconcile_body fs parse sha i intent now n c s of
         (Inl e, s') \<Rightarrow> (Inl e, (c, s')) | (Inr (r, c'), s') \<Rightarrow> (Inr r, (c', s')))"
  using assms by (simp add: reconcile_intent_def non_negative_integer_def positive_integer_def is_pending_def)

lemma not_pending_iff: "ir_status i = COMPLETE \<longleftrightarrow> \<not> is_pending i"
  by (cases "ir_status i") (simp_all add: is_pending_def)

lemma reconcile_intent_cases:
  assumes "reconcile_intent fs parse sha iid now n (c, s) = (r, (c', s'))"
    "row_get ir_intent_id iid (operation_intents c) = Some i"
  obtains (idle) "c' = c" "s' = s" "is_pending i \<longrightarrow> (\<exists>e. r = Inl e)"
  | (run) intent where "intent_from_row i = Inr intent" "is_pending i" "0 \<le> now" "0 < n"
      "(\<exists>e. reconcile_body fs parse sha i intent now n c s = (Inl e, s') \<and> r = Inl e \<and> c' = c)
       \<or> (\<exists>res. reconcile_body fs parse sha i intent now n c s = (Inr (res, c'), s') \<and> r = Inr res)"
proof (cases "0 \<le> now \<and> 0 < n \<and> is_pending i \<and> is_ok (intent_from_row i)")
  case True
  then obtain intent where i: "intent_from_row i = Inr intent"
    by (cases "intent_from_row i") auto
  have "(case reconcile_body fs parse sha i intent now n c s of
      (Inl e, s') \<Rightarrow> (Inl e, (c, s')) | (Inr (r, c'), s') \<Rightarrow> (Inr r, (c', s'))) = (r, (c', s'))"
    by (rule trans [OF reconcile_pending [OF assms(2) _ i, symmetric] assms(1)]) (use True in simp_all)
  with True i show ?thesis
    by (intro run [OF i]) (auto split: prod.splits sum.splits)
next
  case False
  with assms show ?thesis
    by (intro idle) (auto simp: reconcile_intent_def non_negative_integer_def positive_integer_def not_pending_iff
        result_simps split: if_splits sum.splits prod.splits)
qed

text \<open>Whatever the device does, an attempt is a sequence of the intent's own steps.\<close>

lemma rooted_attempt_files:
  assumes "reconcile_intent RootedFilesystem parse sha iid now n (c, d) = (r, (c', d'))"
    "row_get ir_intent_id iid (operation_intents c) = Some i"
  shows "(pair_step (ir_kind i) (ir_paths i) (reconciliation_sidecar i))\<^sup>*\<^sup>* (disk_view d) (disk_view d')"
  using assms
proof (cases rule: reconcile_intent_cases)
  case idle
  then show ?thesis by simp
next
  case (run intent)
  have "oi_kind intent = ir_kind i" "oi_paths intent = ir_paths i"
    using intent_from_rowD [OF run(1)] by simp_all
  with rooted.reconcile_body_files [of intent i d parse sha now n c] run(5) show ?thesis
    by (auto simp: files_by_def)
qed


section \<open>Repeated attempts\<close>

text \<open>
  Any number of attempts at one intent, each with its own parameters and its own schedule of
  device faults.
\<close>

inductive attempts :: "uuid \<Rightarrow> catalog \<times> disk \<Rightarrow> catalog \<times> disk \<Rightarrow> bool" for iid x where
  none: "attempts iid x x"
| again: "attempts iid x (c, d) \<Longrightarrow>
    reconcile_intent RootedFilesystem parse sha iid now n (c, d\<lparr>fault_schedule := faults\<rparr>) = (r, y) \<Longrightarrow>
    attempts iid x y"

lemma requeue_ops:
  "requeue_protect k vt st now c = Inr c' \<Longrightarrow> \<exists>extra. operation_intents c' = operation_intents c @ extra"
  unfolding requeue_protect_def
  by (auto simp: result_simps insert_intent_row_def dest!: insert_intent_lockedD split: if_splits)

lemma complete_intent_ops:
  assumes "complete_intent_locked intent now c = Inr c'"
  shows "\<exists>extra. operation_intents c' = operation_intents (mark_intent_complete (intent_id intent) now c) @ extra"
proof -
  have base: "operation_intents (mark_intent_complete iid now (update_clip k f c))
      = operation_intents (mark_intent_complete iid now c)" for iid k f
    by (simp add: mark_intent_complete_def update_intent_def update_clip_def)
  show ?thesis
    using assms unfolding complete_intent_locked_def complete_delete_def complete_unprotect_def
      complete_protect_def complete_promotion_def Let_def
    by (auto simp: base result_simps split: if_splits option.splits dest!: requeue_ops)
qed

lemma row_get_append: "row_get key k xs = Some r \<Longrightarrow> row_get key k (xs @ ys) = Some r"
  by (induction xs) (auto simp: row_get_def)

lemma complete_intent_row:
  assumes "complete_intent_locked intent now c = Inr c'"
    "row_get ir_intent_id (intent_id intent) (operation_intents c) = Some i"
  shows "row_get ir_intent_id (intent_id intent) (operation_intents c')
    = Some (i\<lparr>ir_status := COMPLETE, last_problem := None, completed_monotonic_ns := Some now\<rparr>)"
proof -
  obtain extra where ops: "operation_intents c' = operation_intents (mark_intent_complete (intent_id intent) now c) @ extra"
    using complete_intent_ops [OF assms(1)] by blast
  have "row_get ir_intent_id (intent_id intent) (operation_intents (mark_intent_complete (intent_id intent) now c))
      = Some (i\<lparr>ir_status := COMPLETE, last_problem := None, completed_monotonic_ns := Some now\<rparr>)"
    using assms(2) by (simp add: mark_intent_complete_def update_intent_def intent_table.get_update)
  from row_get_append [OF this] show ?thesis
    unfolding ops .
qed

definition same_intent :: "intent_row \<Rightarrow> intent_row \<Rightarrow> bool" where
  "same_intent i i' = (ir_kind i' = ir_kind i \<and> ir_paths i' = ir_paths i)"

lemma attempt_row:
  assumes op: "reconcile_intent RootedFilesystem parse sha iid now n (c, d) = (r, (c', d'))"
    and row: "row_get ir_intent_id iid (operation_intents c) = Some i"
  shows "\<exists>i'. row_get ir_intent_id iid (operation_intents c') = Some i' \<and> same_intent i i'
    \<and> (is_pending i' \<or> (if is_pending i then disk_view d' (video_source (ir_paths i)) = None
           \<and> disk_view d' (sidecar_source (ir_paths i)) = None else d' = d))"
  using op row
proof (cases rule: reconcile_intent_cases)
  case idle
  with row show ?thesis by (auto simp: same_intent_def)
next
  case (run intent)
  note i = intent_from_rowD [OF run(1)] intent_table.get_SomeD [OF row]
  from run(5) consider (raised) "c' = c" | (returned) res
      where "reconcile_body RootedFilesystem parse sha i intent now n c d = (Inr (res, c'), d')"
    by blast
  then show ?thesis
  proof cases
    case raised
    with row run(2) show ?thesis by (auto simp: same_intent_def)
  next
    case returned
    from rooted.reconcile_body_returns [OF returned] show ?thesis
    proof (elim disjE conjE exE)
      fix p
      assume "c' = set_last_problem (intent_id intent) p c"
      with row run(2) i show ?thesis
        by (simp add: set_last_problem_def update_intent_def intent_table.get_update same_intent_def is_pending_def)
    next
      assume "complete (view_plan intent (disk_view d'))"
      then have gone: "disk_view d' (video_source (ir_paths i)) = None" "disk_view d' (sidecar_source (ir_paths i)) = None"
        using i by (auto simp: view_plan_complete_iff member_done_def observed_def)
      from reconcile_body_catalog [OF returned] show ?thesis
      proof (elim disjE exE)
        fix p
        assume "c' = set_last_problem (intent_id intent) p c"
        with row run(2) i show ?thesis
          by (simp add: set_last_problem_def update_intent_def intent_table.get_update same_intent_def is_pending_def)
      next
        assume "complete_intent_locked intent now c = Inr c'"
        from complete_intent_row [OF this, of i] row i gone run(2) show ?thesis
          by (simp add: same_intent_def)
      qed
    qed
  qed
qed

text \<open>What every number of attempts keeps of a pair that is being moved or deleted.\<close>

lemma attempts_keep:
  assumes "attempts iid (c, d) y" and row: "row_get ir_intent_id iid (operation_intents c) = Some i" "is_pending i"
    and pair: "ir_kind i \<noteq> DELETE \<longrightarrow> paths_distinct (ir_paths i) \<and> resumable (ir_paths i) (disk_view d)"
    and kind: "ir_kind i \<noteq> RECONCILE_NAME"
  shows "\<exists>i'. row_get ir_intent_id iid (operation_intents (fst y)) = Some i' \<and> same_intent i i'
    \<and> (is_pending i' \<or> disk_view (snd y) (video_source (ir_paths i)) = None
          \<and> disk_view (snd y) (sidecar_source (ir_paths i)) = None)
    \<and> (ir_kind i \<noteq> DELETE \<longrightarrow> resumable (ir_paths i) (disk_view (snd y))
        \<and> member_content (disk_view (snd y)) (video_source (ir_paths i)) (video_target (ir_paths i))
            = member_content (disk_view d) (video_source (ir_paths i)) (video_target (ir_paths i))
        \<and> member_content (disk_view (snd y)) (sidecar_source (ir_paths i)) (sidecar_target (ir_paths i))
            = member_content (disk_view d) (sidecar_source (ir_paths i)) (sidecar_target (ir_paths i)))"
  using assms(1)
proof (induction rule: attempts.induct)
  case none
  with row pair show ?case by (simp add: same_intent_def)
next
  case (again c1 d1 parse sha now n faults r y)
  obtain c2 d2 where y: "y = (c2, d2)" by fastforce
  let ?d1 = "d1\<lparr>fault_schedule := faults\<rparr>"
  have v1: "disk_view ?d1 = disk_view d1"
    by (simp add: disk_view_def)
  obtain i1 where i1: "row_get ir_intent_id iid (operation_intents c1) = Some i1" "same_intent i i1"
    "is_pending i1 \<or> disk_view d1 (video_source (ir_paths i)) = None
          \<and> disk_view d1 (sidecar_source (ir_paths i)) = None"
    using again.IH by auto
  have op: "reconcile_intent RootedFilesystem parse sha iid now n (c1, ?d1) = (r, (c2, d2))"
    using again.hyps y by simp
  obtain i2 where i2: "row_get ir_intent_id iid (operation_intents c2) = Some i2" "same_intent i1 i2"
    "is_pending i2 \<or> (if is_pending i1 then disk_view d2 (video_source (ir_paths i1)) = None
           \<and> disk_view d2 (sidecar_source (ir_paths i1)) = None else d2 = ?d1)"
    using attempt_row [OF op i1(1)] by blast
  note steps = rooted_attempt_files [OF op i1(1), unfolded v1]
  have same: "ir_kind i1 = ir_kind i" "ir_paths i1 = ir_paths i" "same_intent i i2"
    using i1(2) i2(2) by (auto simp: same_intent_def)
  have gone: "is_pending i2 \<or> disk_view d2 (video_source (ir_paths i)) = None
          \<and> disk_view d2 (sidecar_source (ir_paths i)) = None"
    using i1(3) i2(3) v1 same by (auto split: if_splits)
  have "ir_kind i \<noteq> DELETE \<longrightarrow> resumable (ir_paths i) (disk_view d2)
        \<and> member_content (disk_view d2) (video_source (ir_paths i)) (video_target (ir_paths i))
            = member_content (disk_view d1) (video_source (ir_paths i)) (video_target (ir_paths i))
        \<and> member_content (disk_view d2) (sidecar_source (ir_paths i)) (sidecar_target (ir_paths i))
            = member_content (disk_view d1) (sidecar_source (ir_paths i)) (sidecar_target (ir_paths i))"
    using pair_steps_resumable [OF steps] pair again.IH kind same by auto
  with again.IH i2(1) same gone show ?case
    unfolding y by auto
qed

lemma member_content_gone: "m s = None \<Longrightarrow> m q = member_content m s (Some q)"
  by (simp add: member_content_def)

lemma rooted_healthy_at:
  "\<forall>p \<in> {video_source ps, sidecar_source ps} \<union> set_option (video_target ps) \<union> set_option (sidecar_target ps).
     reachable_path p d \<Longrightarrow> rooted.healthy_at (d\<lparr>fault_schedule := []\<rparr>) ps"
  by (auto simp: rooted.healthy_at_def disk_healthy_def quiet_def reachable_path_def resolve_path_def)

lemma attempts_reach: "attempts iid (c, d) y \<Longrightarrow> catalog_reach c \<Longrightarrow> catalog_reach (fst y)"
proof (induction rule: attempts.induct)
  case (again c1 d1 parse sha now n faults r y)
  then have "catalog_step c1 (fst y)"
    by (cases y) (auto intro: catalog_step.reconcile)
  with again show ?case
    by (auto intro: catalog_reach.step)
qed simp

lemma intent_targets:
  assumes "intent_from_row i = Inr intent"
  shows "if ir_kind i = DELETE then video_target (ir_paths i) = None \<and> sidecar_target (ir_paths i) = None
    else (\<exists>vt st. video_target (ir_paths i) = Some vt \<and> sidecar_target (ir_paths i) = Some st)"
  using assms unfolding intent_from_row_def
  by (auto simp: result_simps dest!: mk_pair_pathsD mk_operation_intentD split: if_splits)

text \<open>The last, fault-free attempt at an intent that is still pending.\<close>

lemma last_attempt:
  assumes row: "row_get ir_intent_id iid (operation_intents c) = Some i" "is_pending i"
    "intent_from_row i = Inr intent" and kind: "ir_kind i \<in> {PROTECT, DELETE}"
    and pair: "ir_kind i \<noteq> DELETE \<longrightarrow> paths_distinct (ir_paths i) \<and> resumable (ir_paths i) (disk_view d)"
    and h: "rooted.healthy_at d (ir_paths i)" and args: "0 \<le> now" "2 \<le> n"
  shows "\<exists>res c2 d2 i2.
     reconcile_intent RootedFilesystem parse sha iid now n (c, d) = (Inr res, (c2, d2)) \<and> irr_complete res
     \<and> row_get ir_intent_id iid (operation_intents c2) = Some i2 \<and> ir_status i2 = COMPLETE
     \<and> disk_view d2 (video_source (ir_paths i)) = None \<and> disk_view d2 (sidecar_source (ir_paths i)) = None
     \<and> (ir_kind i = PROTECT \<longrightarrow> (\<exists>vt st. video_target (ir_paths i) = Some vt \<and> sidecar_target (ir_paths i) = Some st
          \<and> disk_view d2 vt = member_content (disk_view d) (video_source (ir_paths i)) (Some vt)
          \<and> disk_view d2 st = member_content (disk_view d) (sidecar_source (ir_paths i)) (Some st)))"
proof -
  note i = intent_from_rowD [OF row(3)] intent_table.get_SomeD [OF row(1)]
  note targets = intent_targets [OF row(3)]
  have "0 < n" using args(2) by simp
  note call = reconcile_pending [OF row args(1) this]
  obtain c2 where c2: "complete_intent_locked intent now c = Inr c2"
    using kind targets i by (auto simp: complete_intent_locked_def split: if_splits)
  from complete_intent_row [OF c2, of i] row(1) i
  have i2: "row_get ir_intent_id iid (operation_intents c2)
      = Some (i\<lparr>ir_status := COMPLETE, last_problem := None, completed_monotonic_ns := Some now\<rparr>)"
    by simp
  obtain k d2 where run: "reconcile_body RootedFilesystem parse sha i intent now n c d = attempt_result intent k now c d2"
    and gone: "disk_view d2 (video_source (ir_paths i)) = None" "disk_view d2 (sidecar_source (ir_paths i)) = None"
    and moved: "ir_kind i = PROTECT \<longrightarrow> (\<exists>vt st. video_target (ir_paths i) = Some vt \<and> sidecar_target (ir_paths i) = Some st
          \<and> disk_view d2 vt = member_content (disk_view d) (video_source (ir_paths i)) (Some vt)
          \<and> disk_view d2 st = member_content (disk_view d) (sidecar_source (ir_paths i)) (Some st))"
  proof (cases "ir_kind i = DELETE")
    case True
    with targets i h rooted.reconcile_delete_ok [of intent d n parse sha i now c] args(2) that show ?thesis
      by auto
  next
    case False
    then obtain vt st where t: "video_target (ir_paths i) = Some vt" "sidecar_target (ir_paths i) = Some st"
      using targets by auto
    with False kind pair i h args(2) rooted.reconcile_move_ok [of intent d n vt st parse sha i now c] that show ?thesis
      by auto
  qed
  have "reconcile_intent RootedFilesystem parse sha iid now n (c, d)
      = (Inr \<lparr>irr_intent = intent, actions_attempted = k, irr_complete = True, irr_problems = []\<rparr>, (c2, d2))"
    unfolding call run attempt_result_def c2 by simp
  with i2 gone moved show ?thesis
    by auto
qed

text \<open>
  C20: Interrupted reconciliation converges. Take a pending PROTECT or DELETE intent of a
  reachable catalog, for PROTECT with four different paths and each file of the pair at its
  source or at its target. After any number of attempts, each with its own schedule of device
  faults, one attempt that meets no fault and may do two actions reports completion: both
  sources are gone, the files of a protected pair are at their targets with the content they
  had at the start, and the intent is recorded COMPLETE.
\<close>

theorem interrupted_reconciliation_converges:
  assumes reach: "catalog_reach c" and row: "row_get ir_intent_id iid (operation_intents c) = Some i"
    and pend: "ir_status i = PENDING" and kind: "ir_kind i \<in> {PROTECT, DELETE}"
    and pair: "ir_kind i \<noteq> DELETE \<longrightarrow> paths_distinct (ir_paths i) \<and> resumable (ir_paths i) (disk_view d)"
    and tries: "attempts iid (c, d) (c1, d1)"
    and paths: "\<forall>p \<in> {video_source (ir_paths i), sidecar_source (ir_paths i)}
        \<union> set_option (video_target (ir_paths i)) \<union> set_option (sidecar_target (ir_paths i)). reachable_path p d1"
    and args: "0 \<le> now" "2 \<le> n"
  shows "\<exists>res c2 d2 i2.
     reconcile_intent RootedFilesystem parse sha iid now n (c1, d1\<lparr>fault_schedule := []\<rparr>) = (Inr res, (c2, d2))
     \<and> irr_complete res \<and> row_get ir_intent_id iid (operation_intents c2) = Some i2 \<and> ir_status i2 = COMPLETE
     \<and> disk_view d2 (video_source (ir_paths i)) = None \<and> disk_view d2 (sidecar_source (ir_paths i)) = None
     \<and> (ir_kind i = PROTECT \<longrightarrow> (\<exists>vt st. video_target (ir_paths i) = Some vt \<and> sidecar_target (ir_paths i) = Some st
          \<and> disk_view d2 vt = member_content (disk_view d) (video_source (ir_paths i)) (Some vt)
          \<and> disk_view d2 st = member_content (disk_view d) (sidecar_source (ir_paths i)) (Some st)))"
proof -
  have inv: "catalog_inv c1"
    using attempts_reach [OF tries reach] reach_inv by simp
  obtain i1 where i1: "row_get ir_intent_id iid (operation_intents c1) = Some i1" "same_intent i i1"
    and gone: "is_pending i1 \<or> disk_view d1 (video_source (ir_paths i)) = None
          \<and> disk_view d1 (sidecar_source (ir_paths i)) = None"
    and keep: "ir_kind i \<noteq> DELETE \<longrightarrow> resumable (ir_paths i) (disk_view d1)
        \<and> member_content (disk_view d1) (video_source (ir_paths i)) (video_target (ir_paths i))
            = member_content (disk_view d) (video_source (ir_paths i)) (video_target (ir_paths i))
        \<and> member_content (disk_view d1) (sidecar_source (ir_paths i)) (sidecar_target (ir_paths i))
            = member_content (disk_view d) (sidecar_source (ir_paths i)) (sidecar_target (ir_paths i))"
    using attempts_keep [OF tries row _ pair] pend kind by (auto simp: is_pending_def)
  have same: "ir_kind i1 = ir_kind i" "ir_paths i1 = ir_paths i"
    using i1(2) by (simp_all add: same_intent_def)
  have "i1 \<in> set (operation_intents c1)"
    using intent_table.get_SomeD [OF i1(1)] by blast
  from inv_refs [OF inv this] obtain intent where intent: "intent_from_row i1 = Inr intent"
    by (cases "intent_from_row i1") (simp_all add: intent_row_ok_def)
  let ?d = "d1\<lparr>fault_schedule := []\<rparr>"
  have v: "disk_view ?d = disk_view d1"
    by (simp add: disk_view_def)
  show ?thesis
  proof (cases "is_pending i1")
    case True
    have "ir_kind i1 \<noteq> DELETE \<longrightarrow> paths_distinct (ir_paths i1) \<and> resumable (ir_paths i1) (disk_view ?d)"
      using keep pair unfolding same v by blast
    from last_attempt [OF i1(1) True intent _ this _ args, of parse sha] kind keep rooted_healthy_at [OF paths]
    show ?thesis
      unfolding same v by auto
  next
    case False
    then have "reconcile_intent RootedFilesystem parse sha iid now n (c1, ?d)
        = (Inr \<lparr>irr_intent = intent, actions_attempted = 0, irr_complete = True, irr_problems = []\<rparr>, (c1, ?d))"
      using i1(1) intent args
      by (simp add: reconcile_intent_def non_negative_integer_def positive_integer_def not_pending_iff)
    moreover have "ir_status i1 = COMPLETE"
      using False by (simp add: not_pending_iff)
    moreover have "ir_kind i = PROTECT \<longrightarrow> (\<exists>vt st. video_target (ir_paths i) = Some vt \<and> sidecar_target (ir_paths i) = Some st
          \<and> disk_view ?d vt = member_content (disk_view d) (video_source (ir_paths i)) (Some vt)
          \<and> disk_view ?d st = member_content (disk_view d) (sidecar_source (ir_paths i)) (Some st))"
    proof
      assume protect: "ir_kind i = PROTECT"
      then obtain vt st where t: "video_target (ir_paths i) = Some vt" "sidecar_target (ir_paths i) = Some st"
        using intent_targets [OF intent] unfolding same by auto
      have none: "disk_view d1 (video_source (ir_paths i)) = None" "disk_view d1 (sidecar_source (ir_paths i)) = None"
        using gone False by simp_all
      with protect keep t show "\<exists>vt st. video_target (ir_paths i) = Some vt \<and> sidecar_target (ir_paths i) = Some st
          \<and> disk_view ?d vt = member_content (disk_view d) (video_source (ir_paths i)) (Some vt)
          \<and> disk_view ?d st = member_content (disk_view d) (sidecar_source (ir_paths i)) (Some st)"
        using member_content_gone [of "disk_view d1" "video_source (ir_paths i)" vt]
          member_content_gone [of "disk_view d1" "sidecar_source (ir_paths i)" st]
        unfolding v by simp
    qed
    ultimately show ?thesis
      using i1(1) gone False v by auto
  qed
qed

subsection \<open>Witnesses\<close>

definition ex_disk :: disk where
  "ex_disk = \<lparr>files = [(''clips/boot-abcde-000001.mp4'', [1, 2]), (''clips/boot-abcde-000001.json'', [3])],
     present_directories = [''clips'', ''protected''], fault_schedule = [FailBefore, NoFault, FailAfter]\<rparr>"

lemma ex_disk_view:
  "disk_view (ex_disk\<lparr>fault_schedule := fs\<rparr>) ''clips/boot-abcde-000001.mp4'' = Some [1, 2]"
  "disk_view (ex_disk\<lparr>fault_schedule := fs\<rparr>) ''clips/boot-abcde-000001.json'' = Some [3]"
  "disk_view (ex_disk\<lparr>fault_schedule := fs\<rparr>) ''protected/boot-abcde-000001.mp4'' = None"
  "disk_view (ex_disk\<lparr>fault_schedule := fs\<rparr>) ''protected/boot-abcde-000001.json'' = None"
  by (simp_all add: disk_view_def ex_disk_def)

lemma ex_reachable:
  "reachable_path ''clips/boot-abcde-000001.mp4'' ex_disk" "reachable_path ''clips/boot-abcde-000001.json'' ex_disk"
  "reachable_path ''protected/boot-abcde-000001.mp4'' ex_disk" "reachable_path ''protected/boot-abcde-000001.json'' ex_disk"
  by code_simp+

lemma ex_protect_step:
  "\<exists>c i. catalog_reach c \<and> row_get ir_intent_id (UUID 1000) (operation_intents c) = Some i
     \<and> ir_status i = PENDING \<and> ir_kind i = PROTECT \<and> ir_paths i = ex_protect_paths"
proof -
  have "check_reason ''web'' = Inr ()" "check_boot_id ''b'' = Inr ()"
    by code_simp+
  then have "\<exists>u c. prepare_protect (UUID 1) ''web'' 5 ex_catalog = Inr (u, c)
     \<and> (\<exists>i. row_get ir_intent_id (UUID 1000) (operation_intents c) = Some i
         \<and> ir_status i = PENDING \<and> ir_kind i = PROTECT \<and> ir_paths i = ex_protect_paths)"
    by (simp add: prepare_protect_def non_negative_integer_def required_clip_row_def prepare_protect_locked_def
        row_has_unexpired_lease_def pending_intent_row_def Let_def queue_move_def ex_move_paths
        insert_intent_locked_def fresh_uuid_def mk_operation_intent_def ex_protect_paths_def ex_stream_def
        insert_intent_row_def row_of_intent_def is_pending_def set_protection_def mark_unreconciled_def
        update_clip_def row_update_def row_get_def)
  with catalog_step.protect catalog_reach.step [OF ex_reach] show ?thesis
    by blast
qed


theorem interrupted_reconciliation_converges_witness:
  "\<exists>c res c2 d2. reconcile_intent RootedFilesystem (\<lambda>_. Inl SidecarParseError) (\<lambda>_. []) (UUID 1000) 6 2
       (c, ex_disk\<lparr>fault_schedule := []\<rparr>) = (Inr res, (c2, d2)) \<and> irr_complete res
     \<and> disk_view d2 ''protected/boot-abcde-000001.mp4'' = Some [1, 2]"
proof -
  obtain c i where c: "catalog_reach c" "row_get ir_intent_id (UUID 1000) (operation_intents c) = Some i"
    "ir_status i = PENDING" "ir_kind i = PROTECT" "ir_paths i = ex_protect_paths"
    using ex_protect_step by metis
  have view: "disk_view ex_disk = disk_view (ex_disk\<lparr>fault_schedule := []\<rparr>)"
    by (simp add: disk_view_def)
  have pair: "paths_distinct (ir_paths i)" "resumable (ir_paths i) (disk_view ex_disk)"
    unfolding view c(5)
    by (simp_all add: ex_protect_paths_def paths_distinct_def resumable_def member_at_one_def ex_disk_view)
  have paths: "\<forall>p \<in> {video_source (ir_paths i), sidecar_source (ir_paths i)}
        \<union> set_option (video_target (ir_paths i)) \<union> set_option (sidecar_target (ir_paths i)). reachable_path p ex_disk"
    unfolding c(5) by (simp add: ex_protect_paths_def ex_reachable)
  from interrupted_reconciliation_converges [OF c(1-3) _ _ attempts.none paths, of 6 2] c(4) pair
  obtain res c2 d2 where "reconcile_intent RootedFilesystem (\<lambda>_. Inl SidecarParseError) (\<lambda>_. []) (UUID 1000) 6 2
       (c, ex_disk\<lparr>fault_schedule := []\<rparr>) = (Inr res, (c2, d2))" "irr_complete res"
    "disk_view d2 ''protected/boot-abcde-000001.mp4''
       = member_content (disk_view ex_disk) ''clips/boot-abcde-000001.mp4'' (Some ''protected/boot-abcde-000001.mp4'')"
    unfolding c(5) ex_protect_paths_def by fastforce
  then show ?thesis
    unfolding view by (auto simp: member_content_def ex_disk_view)
qed

end
