(* ===== verification/Startup_Recovery.thy ===== *)
theory Startup_Recovery
  imports Pair_Recovery Clip_Naming
begin

text \<open>
  The bounded startup pass of \<^verbatim>\<open>src/dashcam/catalog/database.py\<close>: \<^verbatim>\<open>reconcile_startup\<close> with the
  observation of indexed pairs, the repair of their directory and the import of unindexed
  sidecars. The state is the catalog with the filesystem; an exception ends the pass and keeps
  the transactions committed before it, as in the code. Issue texts are values of \<open>Issue\<close>.
\<close>

section \<open>Data\<close>

record ReconciliationBounds =
  max_intents :: int
  max_actions :: int
  max_catalog_clips :: int
  max_directory_entries :: int
  max_sidecar_bytes :: int
  max_issues :: int
  max_expired_leases :: int

definition bound_ok :: "int \<Rightarrow> int \<Rightarrow> bool" where
  "bound_ok v maximum = (0 < v \<and> v \<le> maximum)"

definition mk_bounds :: "ReconciliationBounds \<Rightarrow> ReconciliationBounds result" where
  "mk_bounds b =
     (if bound_ok (max_intents b) 1024 \<and> bound_ok (max_actions b) 2048 \<and> bound_ok (max_catalog_clips b) 100000
         \<and> bound_ok (max_directory_entries b) 100000 \<and> bound_ok (max_sidecar_bytes b) (16 * 1048576)
         \<and> bound_ok (max_issues b) 4096 \<and> bound_ok (max_expired_leases b) 10000
      then Inr b else Inl ReconciliationLimitError)"

datatype PairIssue = PAIR_MISSING_SIDECAR | PAIR_MISSING_VIDEO | PAIR_MISSING

datatype Issue = IntentIssue uuid ProblemCode | ClipIssue uuid PairIssue | Unindexed string exn

record StartupReconciliationReport =
  intents_examined :: int
  sr_actions_attempted :: int
  catalog_clips_examined :: int
  directory_entries_examined :: int
  imported_clips :: int
  expired_leases_cleared :: int
  issues :: "Issue list"
  more_work :: bool

definition empty_report :: StartupReconciliationReport where
  "empty_report = \<lparr>intents_examined = 0, sr_actions_attempted = 0, catalog_clips_examined = 0,
     directory_entries_examined = 0, imported_clips = 0, expired_leases_cleared = 0, issues = [], more_work = False\<rparr>"

definition append_issue :: "int \<Rightarrow> Issue \<Rightarrow> Issue list \<Rightarrow> Issue list" where
  "append_issue maximum x xs = (if int (length xs) < maximum then xs @ [x] else xs)"

definition note_issue :: "ReconciliationBounds \<Rightarrow> Issue \<Rightarrow> StartupReconciliationReport \<Rightarrow> StartupReconciliationReport" where
  "note_issue b x rp = rp\<lparr>issues := append_issue (max_issues b) x (issues rp)\<rparr>"

definition note_more :: "bool \<Rightarrow> StartupReconciliationReport \<Rightarrow> StartupReconciliationReport" where
  "note_more m rp = rp\<lparr>more_work := more_work rp \<or> m\<rparr>"

section \<open>Effects\<close>

type_synonym 'f store = "catalog \<times> 'f"

definition in_catalog :: "'a transaction \<Rightarrow> 'f store \<Rightarrow> 'a result \<times> 'f store" where
  "in_catalog f cs = (case f (fst cs) of Inl e \<Rightarrow> (Inl e, cs) | Inr (x, c') \<Rightarrow> (Inr x, (c', snd cs)))"

definition read_catalog :: "(catalog \<Rightarrow> 'a result) \<Rightarrow> 'f store \<Rightarrow> 'a result \<times> 'f store" where
  "read_catalog f cs = (f (fst cs), cs)"

definition on_disk :: "('f \<Rightarrow> 'a result \<times> 'f) \<Rightarrow> 'f store \<Rightarrow> 'a result \<times> 'f store" where
  "on_disk g cs = (case g (snd cs) of (r, s') \<Rightarrow> (r, (fst cs, s')))"

section \<open>Observing an indexed pair\<close>

definition record_pair_observation :: "uuid \<Rightarrow> bool \<Rightarrow> bool \<Rightarrow> int \<Rightarrow> Issue option transaction" where
  "record_pair_observation k video_exists sidecar_exists now c =
     (if video_exists \<and> sidecar_exists
      then bindR (required_clip_row c k) (\<lambda>row.
        let repaired = (if cc_lifecycle row \<in> {MISSING_SIDECAR, MISSING_VIDEO} then FINALIZED else cc_lifecycle row)
        in Inr (None, update_clip k (\<lambda>r. r\<lparr>cc_lifecycle := repaired, cc_pair_reconciled := True,
             updated_catalog_ns := now\<rparr>) c))
      else if video_exists
      then Inr (Some (ClipIssue k PAIR_MISSING_SIDECAR), update_clip k (\<lambda>r. r\<lparr>cc_lifecycle := MISSING_SIDECAR,
             cc_pair_reconciled := False, updated_catalog_ns := now\<rparr>) c)
      else if sidecar_exists
      then Inr (Some (ClipIssue k PAIR_MISSING_VIDEO), update_clip k (\<lambda>r. r\<lparr>cc_lifecycle := MISSING_VIDEO,
             cc_pair_reconciled := False, updated_catalog_ns := now\<rparr>) c)
      else Inr (Some (ClipIssue k PAIR_MISSING), update_clip k (\<lambda>r. r\<lparr>cc_pair_reconciled := False,
             updated_catalog_ns := now\<rparr>) c))"

definition catalog_rows_for_recovery :: "int \<Rightarrow> catalog \<Rightarrow> clip_row list" where
  "catalog_rows_for_recovery limit c =
     take (nat limit) (sort_key order_key (filter (\<lambda>r. cc_lifecycle r \<noteq> DELETED) (clips c)))"

section \<open>Importing an unindexed sidecar\<close>

datatype import_outcome = IMPORTED | IMPORT_ISSUE Issue

definition import_error :: "exn \<Rightarrow> bool" where
  "import_error e = (sidecar_error e \<or> e = TypeError \<or> e = IntegrityError)"

definition recovered_lifecycle :: "string \<Rightarrow> bool \<Rightarrow> ClipLifecycle \<times> bool" where
  "recovered_lifecycle directory pair_exists =
     (if directory = ''pending'' then (if pair_exists then FINALIZING else MISSING_VIDEO, False)
      else if directory = ''quarantine'' then (QUARANTINED, pair_exists)
      else (if pair_exists then FINALIZED else MISSING_VIDEO, pair_exists))"

definition recovered_clip :: "ClipSidecar \<Rightarrow> string \<Rightarrow> bool \<Rightarrow> int \<Rightarrow> CatalogClip" where
  "recovered_clip sc p pair_exists nbytes =
     (let directory = path_parent p; protected = (sc_protected sc \<or> directory = ''protected'')
      in \<lparr>cc_clip_id = sc_clip_id sc, cc_lifecycle = fst (recovered_lifecycle directory pair_exists),
          video_path = join_path directory (video_file sc), sidecar_path = p,
          start_monotonic_ns = sc_start_ns sc, end_monotonic_ns = Some (sc_end_ns sc),
          cc_retention_order = sc_start_ns sc, cc_size_bytes = nbytes, cc_protected = protected,
          protection_reason = (if sc_protected sc then sc_protection_reason sc
             else if protected then Some ''recovered from protected directory'' else None),
          cc_pair_reconciled = snd (recovered_lifecycle directory pair_exists), cc_managed = True,
          cc_download_lease = None, lease_boot_id = None\<rparr>)"

definition import_new :: "'f CatalogFilesystem \<Rightarrow> int \<Rightarrow> string \<Rightarrow> ClipSidecar \<Rightarrow> 'f store
    \<Rightarrow> import_outcome option result \<times> 'f store" where
  "import_new fs now p sc cs =
     bindF (on_disk (fs_exists fs (join_path (path_parent p) (video_file sc))) cs) (\<lambda>pair_exists cs2.
      case get_clip (sc_clip_id sc) (fst cs2) of
        Inr _ \<Rightarrow> (Inr None, cs2)
      | Inl e \<Rightarrow> if e \<noteq> ClipNotFoundError then (Inl e, cs2)
          else bindF (if pair_exists then on_disk (fs_file_size fs (join_path (path_parent p) (video_file sc))) cs2
                      else (Inr 0, cs2)) (\<lambda>nbytes cs3.
          bindF (in_catalog (register_clip (recovered_clip sc p pair_exists nbytes) now) cs3) (\<lambda>_ cs4.
            (Inr (Some IMPORTED), cs4))))"

definition import_body :: "'f CatalogFilesystem \<Rightarrow> sidecar_parser \<Rightarrow> int \<Rightarrow> int \<Rightarrow> string \<Rightarrow> 'f store
    \<Rightarrow> import_outcome option result \<times> 'f store" where
  "import_body fs parse maximum_bytes now p cs =
     bindF (on_disk (fs_read_bytes fs p maximum_bytes) cs) (\<lambda>raw cs1.
     case parse raw of Inl e \<Rightarrow> (Inl e, cs1) | Inr sc \<Rightarrow>
     (case mk_clip_file_pair (video_file sc) (metadata_file sc) of Inl e \<Rightarrow> (Inl e, cs1) | Inr _ \<Rightarrow>
      if metadata_file sc \<noteq> path_name p then (Inl ValueError, cs1) else import_new fs now p sc cs1))"

definition import_sidecar_if_unindexed :: "'f CatalogFilesystem \<Rightarrow> sidecar_parser \<Rightarrow> int \<Rightarrow> int \<Rightarrow> string
    \<Rightarrow> 'f store \<Rightarrow> import_outcome option result \<times> 'f store" where
  "import_sidecar_if_unindexed fs parse maximum_bytes now p cs =
     (if p \<in> set (map sidecar_path (clips (fst cs))) then (Inr None, cs)
      else case parse_clip_filename (path_name p) of
        Inl e \<Rightarrow> if e = ClipNameError then (Inr None, cs) else (Inl e, cs)
      | Inr parsed \<Rightarrow>
          if extension parsed \<noteq> ''json'' then (Inr None, cs)
          else case import_body fs parse maximum_bytes now p cs of
            (Inl e, cs') \<Rightarrow> if import_error e then (Inr (Some (IMPORT_ISSUE (Unindexed p e))), cs') else (Inl e, cs')
          | (Inr v, cs') \<Rightarrow> (Inr v, cs'))"

section \<open>The pass\<close>

fun intent_phase :: "'f CatalogFilesystem \<Rightarrow> sidecar_parser \<Rightarrow> (bytes \<Rightarrow> string) \<Rightarrow> int \<Rightarrow> ReconciliationBounds
    \<Rightarrow> OperationIntent list \<Rightarrow> StartupReconciliationReport \<Rightarrow> 'f store
    \<Rightarrow> StartupReconciliationReport result \<times> 'f store" where
  "intent_phase fs parse sha now b [] rp cs = (Inr rp, cs)"
| "intent_phase fs parse sha now b (intent # rest) rp cs =
     (if sr_actions_attempted rp \<ge> max_actions b then (Inr (note_more True rp), cs)
      else bindF (reconcile_intent fs parse sha (intent_id intent) now
                    (min 2 (max_actions b - sr_actions_attempted rp)) cs) (\<lambda>res.
        intent_phase fs parse sha now b rest
          (fold (\<lambda>p. note_issue b (IntentIssue (intent_id intent) p)) (irr_problems res)
            (rp\<lparr>intents_examined := intents_examined rp + 1,
                sr_actions_attempted := sr_actions_attempted rp + actions_attempted res\<rparr>))))"

definition observe_row :: "'f CatalogFilesystem \<Rightarrow> int \<Rightarrow> ReconciliationBounds \<Rightarrow> clip_row
    \<Rightarrow> StartupReconciliationReport \<Rightarrow> 'f store \<Rightarrow> StartupReconciliationReport result \<times> 'f store" where
  "observe_row fs now b row rp cs =
     (if pending_intent_row (fst cs) (cc_clip_id row) \<noteq> None then (Inr rp, cs)
      else bindF (on_disk (fs_exists fs (video_path row)) cs) (\<lambda>video cs1.
        bindF (on_disk (fs_exists fs (sidecar_path row)) cs1) (\<lambda>sidecar cs2.
        bindF (in_catalog (record_pair_observation (cc_clip_id row) video sidecar now) cs2) (\<lambda>issue cs3.
        case issue of
          Some x \<Rightarrow> (Inr (note_issue b x rp), cs3)
        | None \<Rightarrow> bindF (in_catalog (queue_directory_invariant_repair (cc_clip_id row) now) cs3) (\<lambda>queued cs4.
            (Inr (note_more queued rp), cs4))))))"

fun row_phase :: "'f CatalogFilesystem \<Rightarrow> int \<Rightarrow> ReconciliationBounds \<Rightarrow> clip_row list
    \<Rightarrow> StartupReconciliationReport \<Rightarrow> 'f store \<Rightarrow> StartupReconciliationReport result \<times> 'f store" where
  "row_phase fs now b [] rp cs = (Inr rp, cs)"
| "row_phase fs now b (row # rest) rp cs =
     bindF (observe_row fs now b row rp cs) (\<lambda>rp1. row_phase fs now b rest rp1)"

definition note_import :: "ReconciliationBounds \<Rightarrow> import_outcome option \<Rightarrow> StartupReconciliationReport
    \<Rightarrow> StartupReconciliationReport" where
  "note_import b outcome rp = (case outcome of
       None \<Rightarrow> rp
     | Some IMPORTED \<Rightarrow> rp\<lparr>imported_clips := imported_clips rp + 1\<rparr>
     | Some (IMPORT_ISSUE x) \<Rightarrow> note_issue b x rp)"

fun import_phase :: "'f CatalogFilesystem \<Rightarrow> sidecar_parser \<Rightarrow> int \<Rightarrow> ReconciliationBounds \<Rightarrow> string list
    \<Rightarrow> StartupReconciliationReport \<Rightarrow> 'f store \<Rightarrow> StartupReconciliationReport result \<times> 'f store" where
  "import_phase fs parse now b [] rp cs = (Inr rp, cs)"
| "import_phase fs parse now b (p # rest) rp cs =
     bindF (import_sidecar_if_unindexed fs parse (max_sidecar_bytes b) now p cs) (\<lambda>outcome.
       import_phase fs parse now b rest (note_import b outcome rp))"

fun directory_phase :: "'f CatalogFilesystem \<Rightarrow> sidecar_parser \<Rightarrow> int \<Rightarrow> ReconciliationBounds \<Rightarrow> string list \<Rightarrow> int
    \<Rightarrow> StartupReconciliationReport \<Rightarrow> 'f store \<Rightarrow> StartupReconciliationReport result \<times> 'f store" where
  "directory_phase fs parse now b [] remaining rp cs = (Inr rp, cs)"
| "directory_phase fs parse now b (dir # dirs) remaining rp cs =
     (if remaining \<le> 0 then (Inr (note_more True rp), cs)
      else bindF (on_disk (fs_iter_files fs dir remaining) cs) (\<lambda>(paths, examined, truncated) cs1.
        bindF (import_phase fs parse now b (filter (\<lambda>p. ends_with p ''.json'') paths)
                (note_more truncated (rp\<lparr>directory_entries_examined := directory_entries_examined rp + examined\<rparr>)) cs1)
          (\<lambda>rp1. directory_phase fs parse now b dirs (remaining - examined) rp1)))"

definition pending_remains :: "StartupReconciliationReport \<Rightarrow> 'f store \<Rightarrow> StartupReconciliationReport result \<times> 'f store" where
  "pending_remains rp cs = bindF (read_catalog (list_pending_intents 1) cs) (\<lambda>xs cs1. (Inr (note_more (xs \<noteq> []) rp), cs1))"

definition observe_and_import :: "'f CatalogFilesystem \<Rightarrow> sidecar_parser \<Rightarrow> int \<Rightarrow> ReconciliationBounds
    \<Rightarrow> StartupReconciliationReport \<Rightarrow> 'f store \<Rightarrow> StartupReconciliationReport result \<times> 'f store" where
  "observe_and_import fs parse now b rp4 cs4 =
     bindF (pending_remains rp4 cs4) (\<lambda>rp5 cs5.
     let rows = catalog_rows_for_recovery (max_catalog_clips b + 1) (fst cs5);
         seen = take (nat (max_catalog_clips b)) rows
     in bindF (row_phase fs now b seen (note_more (int (length rows) > max_catalog_clips b) rp5) cs5) (\<lambda>rp6 cs6.
     bindF (directory_phase fs parse now b MANAGED_DIRECTORIES (max_directory_entries b) rp6 cs6) (\<lambda>rp7 cs7.
     bindF (pending_remains rp7 cs7) (\<lambda>rp8 cs8.
       (Inr (note_more (int (length (issues rp8)) = max_issues b)
          (rp8\<lparr>catalog_clips_examined := int (length seen)\<rparr>)), cs8)))))"

definition recover_after_leases :: "'f CatalogFilesystem \<Rightarrow> sidecar_parser \<Rightarrow> (bytes \<Rightarrow> string) \<Rightarrow> int
    \<Rightarrow> ReconciliationBounds \<Rightarrow> int \<times> bool \<Rightarrow> 'f store \<Rightarrow> StartupReconciliationReport result \<times> 'f store" where
  "recover_after_leases fs parse sha now b el cs2 =
     bindF (read_catalog (list_pending_intents (max_intents b + 1)) cs2) (\<lambda>intents cs3.
     bindF (intent_phase fs parse sha now b (take (nat (max_intents b)) intents)
              (note_more (snd el \<or> int (length intents) > max_intents b)
                (empty_report\<lparr>expired_leases_cleared := fst el\<rparr>)) cs3) (observe_and_import fs parse now b))"

definition reconcile_startup :: "'f CatalogFilesystem \<Rightarrow> sidecar_parser \<Rightarrow> (bytes \<Rightarrow> string) \<Rightarrow> int \<Rightarrow> string
    \<Rightarrow> ReconciliationBounds \<Rightarrow> 'f store \<Rightarrow> StartupReconciliationReport result \<times> 'f store" where
  "reconcile_startup fs parse sha now boot b cs0 =
     bindF (read_catalog (\<lambda>_. bindR (non_negative_integer now) (\<lambda>_. check_boot_id boot)) cs0) (\<lambda>_ cs1.
     bindF (in_catalog (clear_expired_download_leases now boot (max_expired_leases b)) cs1)
       (recover_after_leases fs parse sha now b))"

section \<open>Facts about the effects\<close>

text \<open>\<open>ends P m\<close>: on every outcome, exceptions included, the state left behind satisfies \<open>P\<close>.\<close>

definition ends :: "('s \<Rightarrow> bool) \<Rightarrow> 'a result \<times> 's \<Rightarrow> bool" where
  "ends P m = P (snd m)"

lemma ends_bindF:
  assumes "ends P m" "\<And>x s1. m = (Inr x, s1) \<Longrightarrow> P s1 \<Longrightarrow> ends P (k x s1)"
  shows "ends P (bindF m k)"
proof -
  obtain r s1 where m: "m = (r, s1)" by fastforce
  show ?thesis
    using assms by (cases r) (auto simp: ends_def bindF_def m)
qed

lemma ends_stay: "P cs \<Longrightarrow> ends P (r, cs)"
  by (simp add: ends_def)

lemma ends_if: "(b \<Longrightarrow> ends P m1) \<Longrightarrow> (\<not> b \<Longrightarrow> ends P m2) \<Longrightarrow> ends P (if b then m1 else m2)"
  by simp

lemma ends_sum: "(\<And>e. r = Inl e \<Longrightarrow> ends P (f e)) \<Longrightarrow> (\<And>x. r = Inr x \<Longrightarrow> ends P (g x))
    \<Longrightarrow> ends P (case r of Inl e \<Rightarrow> f e | Inr x \<Rightarrow> g x)"
  by (simp split: sum.splits)

lemma ends_in_catalog:
  assumes "P cs" "\<And>x c'. f (fst cs) = Inr (x, c') \<Longrightarrow> P (c', snd cs)"
  shows "ends P (in_catalog f cs)"
  using assms by (auto simp: ends_def in_catalog_def split: sum.splits)

lemma ends_on_disk:
  assumes "\<And>r s'. g (snd cs) = (r, s') \<Longrightarrow> P (fst cs, s')"
  shows "ends P (on_disk g cs)"
  using assms by (auto simp: ends_def on_disk_def split: prod.splits)

lemma ends_read_catalog: "P cs \<Longrightarrow> ends P (read_catalog f cs)"
  by (simp add: ends_def read_catalog_def)

lemma store_results [result_simps]:
  "in_catalog f cs = (Inr x, cs') \<longleftrightarrow> (\<exists>c'. f (fst cs) = Inr (x, c') \<and> cs' = (c', snd cs))"
  "on_disk g cs = (Inr y, cs') \<longleftrightarrow> (\<exists>s'. g (snd cs) = (Inr y, s') \<and> cs' = (fst cs, s'))"
  "read_catalog h cs = (Inr z, cs') \<longleftrightarrow> h (fst cs) = Inr z \<and> cs' = cs"
  by (auto simp: in_catalog_def on_disk_def read_catalog_def split: sum.splits prod.splits)

section \<open>Observation and import keep the catalog consistent\<close>

lemma record_pair_observationD:
  assumes "record_pair_observation k v s now c = Inr (x, c')"
  obtains f where "c' = update_clip k f c" "x = None \<longleftrightarrow> v \<and> s"
    "\<And>r. cc_clip_id (f r) = cc_clip_id r" "\<And>r. cc_retention_order (f r) = cc_retention_order r"
    "\<And>r. video_path (f r) = video_path r" "\<And>r. sidecar_path (f r) = sidecar_path r"
    "\<And>r. check_clip_row r \<Longrightarrow> check_clip_row (f r)"
    "\<And>r. find_clip c k = Some r \<Longrightarrow> cc_pair_reconciled (f r) = (v \<and> s)
       \<and> cc_lifecycle (f r) = (if v \<and> s then if cc_lifecycle r \<in> {MISSING_SIDECAR, MISSING_VIDEO} then FINALIZED
              else cc_lifecycle r
            else if v then MISSING_SIDECAR else if s then MISSING_VIDEO else cc_lifecycle r)"
proof (cases "v \<and> s")
  case True
  then obtain row where row: "required_clip_row c k = Inr row" "x = None"
    and c': "c' = update_clip k (\<lambda>r. r\<lparr>cc_lifecycle := (if cc_lifecycle row \<in> {MISSING_SIDECAR, MISSING_VIDEO}
        then FINALIZED else cc_lifecycle row), cc_pair_reconciled := True, updated_catalog_ns := now\<rparr>) c"
    using assms by (auto simp: record_pair_observation_def result_simps Let_def)
  show thesis
    by (rule that [OF c']) (use True row required_clip_rowD [OF row(1)] in \<open>simp_all add: check_clip_row_def\<close>)
next
  case False
  let ?f = "\<lambda>r. r\<lparr>cc_lifecycle := (if v then MISSING_SIDECAR else if s then MISSING_VIDEO else cc_lifecycle r),
     cc_pair_reconciled := False, updated_catalog_ns := now\<rparr>"
  have "c' = update_clip k ?f c"
    using assms False by (auto simp: record_pair_observation_def split: if_splits)
  then show thesis
    by (rule that) (use assms False in \<open>auto simp: record_pair_observation_def check_clip_row_def split: if_splits\<close>)
qed

lemma inv_observation:
  assumes inv: "catalog_inv c" and none: "pending_intent_row c k = None"
    and op: "record_pair_observation k v s now c = Inr (x, c')"
  shows "catalog_inv c'"
  using op
proof (rule record_pair_observationD)
  fix f
  assume f: "c' = update_clip k f c" "\<And>r. cc_clip_id (f r) = cc_clip_id r"
    "\<And>r. cc_retention_order (f r) = cc_retention_order r" "\<And>r. check_clip_row r \<Longrightarrow> check_clip_row (f r)"
  show "catalog_inv c'"
    unfolding f(1)
    by (rule inv_update_clip [OF inv f(2,3)])
      (use none f(4) checkD [OF inv] find_clip_Some_iff [OF inv] in auto)
qed

lemma register_clipD: "register_clip clip now c = Inr (u, c') \<Longrightarrow> insert_clip_locked clip now c = Inr c'"
  by (auto simp: register_clip_def result_simps)

lemma inv_register_clip: "catalog_inv c \<Longrightarrow> register_clip clip now c = Inr (u, c') \<Longrightarrow> catalog_inv c'"
  using inv_insert_clip register_clipD by blast

lemma queue_repairD:
  assumes "queue_directory_invariant_repair k now c = Inr (b, c')"
  obtains row u where "required_clip_row c k = Inr row" "b = (u \<noteq> None)"
    "queue_directory_invariant_repair_locked row now c = Inr (u, c')"
  using assms by (auto simp: queue_directory_invariant_repair_def result_simps)

lemma inv_queue_directory_repair:
  assumes "catalog_inv c" "queue_directory_invariant_repair k now c = Inr (b, c')"
  shows "catalog_inv c'"
  using assms(2)
proof (rule queue_repairD)
  fix row u
  assume "required_clip_row c k = Inr row" "queue_directory_invariant_repair_locked row now c = Inr (u, c')"
  then show ?thesis
    using inv_queue_repair [OF assms(1), of row] required_clip_rowD [of c k row] by simp
qed

section \<open>What changes between two points of the pass\<close>

definition skeleton :: "catalog \<Rightarrow> (uuid \<times> string \<times> string \<times> bool) list" where
  "skeleton c = map (\<lambda>r. (cc_clip_id r, video_path r, sidecar_path r, cc_lifecycle r = DELETED)) (clips c)"

text \<open>Intents were only added.\<close>

definition ops_grow :: "catalog \<Rightarrow> catalog \<Rightarrow> bool" where
  "ops_grow c c' = (\<exists>extra. operation_intents c' = operation_intents c @ extra)"

lemma ops_grow_refl: "ops_grow c c"
  by (simp add: ops_grow_def)

lemma ops_grow_trans: "ops_grow c c1 \<Longrightarrow> ops_grow c1 c2 \<Longrightarrow> ops_grow c c2"
  by (auto simp: ops_grow_def)

lemma ops_grow_pending: "ops_grow c c' \<Longrightarrow> pending_intent_row c j \<noteq> None \<Longrightarrow> pending_intent_row c' j \<noteq> None"
  by (auto simp: ops_grow_def pending_None_iff)

text \<open>Only the row of clip \<open>k\<close> changed, without moving or deleting it.\<close>

definition tracks :: "uuid \<Rightarrow> catalog \<Rightarrow> catalog \<Rightarrow> bool" where
  "tracks k c c' = (skeleton c' = skeleton c \<and> (\<forall>r \<in> set (clips c'). cc_clip_id r \<noteq> k \<longrightarrow> r \<in> set (clips c))
     \<and> ops_grow c c')"

text \<open>The catalog's word on a pair is what the filesystem shows.\<close>

definition pair_agrees :: "file_view \<Rightarrow> clip_row \<Rightarrow> bool" where
  "pair_agrees m r = (let v = (m (video_path r) \<noteq> None); s = (m (sidecar_path r) \<noteq> None) in
     (v \<and> s \<longrightarrow> cc_lifecycle r \<notin> {MISSING_SIDECAR, MISSING_VIDEO})
     \<and> (v \<and> \<not> s \<longrightarrow> cc_lifecycle r = MISSING_SIDECAR)
     \<and> (\<not> v \<and> s \<longrightarrow> cc_lifecycle r \<in> {MISSING_VIDEO, QUARANTINED})
     \<and> (cc_pair_reconciled r \<longrightarrow> v \<and> s))"

definition row_settled :: "file_view \<Rightarrow> catalog \<Rightarrow> clip_row \<Rightarrow> bool" where
  "row_settled m c r = (cc_lifecycle r = DELETED \<or> pending_intent_row c (cc_clip_id r) \<noteq> None \<or> pair_agrees m r)"

lemma tracks_refl: "tracks k c c"
  by (simp add: tracks_def ops_grow_refl)

lemma tracks_trans: "tracks k c c1 \<Longrightarrow> tracks k c1 c2 \<Longrightarrow> tracks k c c2"
  unfolding tracks_def using ops_grow_trans by metis

lemma skeleton_row:
  "skeleton c' = skeleton c \<Longrightarrow> r \<in> set (clips c') \<Longrightarrow>
   \<exists>q \<in> set (clips c). cc_clip_id q = cc_clip_id r \<and> video_path q = video_path r
     \<and> sidecar_path q = sidecar_path r \<and> (cc_lifecycle q = DELETED) = (cc_lifecycle r = DELETED)"
proof -
  assume sk: "skeleton c' = skeleton c" and r: "r \<in> set (clips c')"
  have "(cc_clip_id r, video_path r, sidecar_path r, cc_lifecycle r = DELETED) \<in> set (skeleton c')"
    using r by (simp add: skeleton_def)
  then show ?thesis
    unfolding sk by (auto simp: skeleton_def)
qed

lemma row_settled_elsewhere:
  "tracks k c c' \<Longrightarrow> r \<in> set (clips c') \<Longrightarrow> cc_clip_id r \<noteq> k \<Longrightarrow> row_settled m c r \<Longrightarrow> row_settled m c' r"
  unfolding tracks_def row_settled_def using ops_grow_pending by blast

lemma update_tracks:
  assumes inv: "catalog_inv c"
    and f: "\<And>r. find_clip c k = Some r \<Longrightarrow> cc_clip_id (f r) = cc_clip_id r \<and> video_path (f r) = video_path r
      \<and> sidecar_path (f r) = sidecar_path r \<and> (cc_lifecycle (f r) = DELETED) = (cc_lifecycle r = DELETED)"
    and rows: "clips c' = row_update cc_clip_id k f (clips c)"
    and ops: "operation_intents c' = operation_intents c @ extra"
  shows "tracks k c c'"
  unfolding tracks_def
proof (intro conjI)
  have "find_clip c k = Some r" if "r \<in> set (clips c)" "cc_clip_id r = k" for r
    using that find_clip_Some_iff [OF inv] by blast
  with f show "skeleton c' = skeleton c"
    by (auto simp: skeleton_def rows row_update_def)
  show "\<forall>r \<in> set (clips c'). cc_clip_id r \<noteq> k \<longrightarrow> r \<in> set (clips c)"
  proof (intro ballI impI)
    fix r
    assume r: "r \<in> set (clips c')" "cc_clip_id r \<noteq> k"
    obtain q where "q \<in> set (clips c)" "r = (if cc_clip_id q = k then f q else q)"
      using r(1) unfolding rows clip_table.in_update_iff by blast
    then show "r \<in> set (clips c)"
      using r(2) f find_clip_Some_iff [OF inv] by (auto split: if_splits)
  qed
  show "ops_grow c c'"
    by (simp add: ops_grow_def ops)
qed

lemma queue_move_tracks:
  assumes inv: "catalog_inv c" and op: "queue_move k kind vs ss d now rv c = Inr (u, c')"
  shows "tracks k c c' \<and> pending_intent_row c' k \<noteq> None"
proof -
  obtain ps i c1 where i: "insert_intent_locked k kind ps now rv c = Inr (i, c1)" and c': "c' = mark_unreconciled k now c1"
    using op unfolding queue_move_def by (auto simp: result_simps)
  obtain c0 where c0: "clips c0 = clips c" "operation_intents c0 = operation_intents c"
      "insert_intent_row (row_of_intent i rv None None) c0 = Inr c1" "oi_clip_id i = k"
    using insert_intent_lockedD [OF i] by blast
  have rows: "clips c' = row_update cc_clip_id k (\<lambda>r. r\<lparr>cc_pair_reconciled := False, updated_catalog_ns := now\<rparr>) (clips c)"
    and ops: "operation_intents c' = operation_intents c @ [row_of_intent i rv None None]"
    using c0 unfolding c' mark_unreconciled_def by (auto simp: insert_intent_row_def split: if_splits)
  show ?thesis
    using update_tracks [OF inv _ rows ops] c0(4) by (auto simp: pending_None_iff ops)
qed

lemma repair_tracks:
  assumes inv: "catalog_inv c" and op: "queue_directory_invariant_repair k now c = Inr (b, c')"
  shows "tracks k c c' \<and> (b \<longrightarrow> pending_intent_row c' k \<noteq> None) \<and> (\<not> b \<longrightarrow> c' = c)"
  using op
proof (rule queue_repairD)
  fix row u
  assume row: "required_clip_row c k = Inr row" and b: "b = (u \<noteq> None)"
    and q: "queue_directory_invariant_repair_locked row now c = Inr (u, c')"
  have "c' = c \<and> u = None \<or> (\<exists>kind d rv v. queue_move k kind (video_path row) (sidecar_path row) d now rv c = Inr (v, c') \<and> u = Some v)"
    using q required_clip_rowD [OF row] unfolding queue_directory_invariant_repair_locked_def
    by (auto simp: result_simps Let_def split: if_splits)
  then show ?thesis
    using queue_move_tracks [OF inv] b by (auto simp: tracks_refl)
qed

lemma observation_tracks:
  assumes inv: "catalog_inv c" and op: "record_pair_observation k v s now c = Inr (x, c')"
    and row: "r0 \<in> set (clips c)" "cc_clip_id r0 = k" "cc_lifecycle r0 \<noteq> DELETED"
    and vs: "v = (m (video_path r0) \<noteq> None)" "s = (m (sidecar_path r0) \<noteq> None)"
  shows "tracks k c c' \<and> (\<forall>r \<in> set (clips c'). cc_clip_id r = k \<longrightarrow> pair_agrees m r) \<and> (x = None \<longleftrightarrow> v \<and> s)"
  using op
proof (rule record_pair_observationD)
  fix f
  assume f: "c' = update_clip k f c" "x = None \<longleftrightarrow> v \<and> s" "\<And>r. cc_clip_id (f r) = cc_clip_id r"
    "\<And>r. video_path (f r) = video_path r" "\<And>r. sidecar_path (f r) = sidecar_path r"
    "\<And>r. find_clip c k = Some r \<Longrightarrow> cc_pair_reconciled (f r) = (v \<and> s)
       \<and> cc_lifecycle (f r) = (if v \<and> s then if cc_lifecycle r \<in> {MISSING_SIDECAR, MISSING_VIDEO} then FINALIZED
              else cc_lifecycle r
            else if v then MISSING_SIDECAR else if s then MISSING_VIDEO else cc_lifecycle r)"
  have k: "find_clip c k = Some r \<longleftrightarrow> r = r0" for r
    using row find_clip_Some_iff [OF inv, of k] unique_row [OF inv] by blast
  have "tracks k c c'"
    by (rule update_tracks [OF inv, of _ f _ "[]"]) (use f k row in \<open>auto simp: f(1)\<close>)
  moreover have "pair_agrees m r" if r: "r \<in> set (clips c')" "cc_clip_id r = k" for r
  proof -
    obtain q where "q \<in> set (clips c)" "r = (if cc_clip_id q = k then f q else q)"
      using r(1) unfolding f(1) clips_update clip_table.in_update_iff by blast
    then have "r = f r0"
      using r(2) unique_row [OF inv row(1)] row(2) by (auto split: if_splits)
    moreover have "cc_pair_reconciled (f r0) = (v \<and> s)"
      "cc_lifecycle (f r0) = (if v \<and> s then if cc_lifecycle r0 \<in> {MISSING_SIDECAR, MISSING_VIDEO} then FINALIZED
              else cc_lifecycle r0
            else if v then MISSING_SIDECAR else if s then MISSING_VIDEO else cc_lifecycle r0)"
      using f(6) k by simp_all
    ultimately show ?thesis
      by (simp add: pair_agrees_def Let_def f(4,5) vs)
  qed
  ultimately show ?thesis
    using f(2) by blast
qed

text \<open>What importing one sidecar can do.\<close>

definition imported :: "file_view \<Rightarrow> string \<Rightarrow> int \<Rightarrow> catalog \<Rightarrow> catalog \<Rightarrow> bool" where
  "imported m p now c c' = (c' = c \<or> (\<exists>sc n. m p \<noteq> None
     \<and> register_clip (recovered_clip sc p (m (join_path (path_parent p) (video_file sc)) \<noteq> None) n) now c = Inr ((), c')))"

lemma imported_refl: "imported m p now c c"
  by (simp add: imported_def)

lemma recovered_clip_fields [simp]:
  "video_path (recovered_clip sc p e n) = join_path (path_parent p) (video_file sc)"
  "sidecar_path (recovered_clip sc p e n) = p"
  "cc_lifecycle (recovered_clip sc p e n) = fst (recovered_lifecycle (path_parent p) e)"
  "cc_pair_reconciled (recovered_clip sc p e n) = snd (recovered_lifecycle (path_parent p) e)"
  by (simp_all add: recovered_clip_def Let_def)

lemma insert_clip_rows:
  "insert_clip_locked clip now c = Inr c' \<Longrightarrow> \<exists>r. clips c' = clips c @ [r] \<and> operation_intents c' = operation_intents c
     \<and> video_path r = video_path clip \<and> sidecar_path r = sidecar_path clip
     \<and> cc_lifecycle r = cc_lifecycle clip \<and> cc_pair_reconciled r = cc_pair_reconciled clip"
  by (auto simp: insert_clip_locked_def Let_def CatalogClip.extend_def split: if_splits)

lemma imported_row_settled:
  assumes "catalog_inv c" "imported m p now c c'" "\<forall>q \<in> set (clips c). cc_clip_id q \<in> K \<or> row_settled m c q"
  shows "catalog_inv c' \<and> ops_grow c c' \<and> (\<forall>q \<in> set (clips c'). cc_clip_id q \<in> K \<or> row_settled m c' q)"
  using assms(2) unfolding imported_def
proof (elim disjE exE conjE)
  fix sc :: ClipSidecar and n
  let ?e = "m (join_path (path_parent p) (video_file sc)) \<noteq> None"
  assume p: "m p \<noteq> None" and reg: "register_clip (recovered_clip sc p ?e n) now c = Inr ((), c')"
  obtain r where r: "clips c' = clips c @ [r]" "operation_intents c' = operation_intents c"
      "video_path r = join_path (path_parent p) (video_file sc)" "sidecar_path r = p"
      "cc_lifecycle r = fst (recovered_lifecycle (path_parent p) ?e)"
      "cc_pair_reconciled r = snd (recovered_lifecycle (path_parent p) ?e)"
    using insert_clip_rows [OF register_clipD [OF reg]] by auto
  have "pair_agrees m r"
    using p by (auto simp: pair_agrees_def Let_def r recovered_lifecycle_def)
  moreover have "row_settled m c' q = row_settled m c q" for q
    using pending_cong [OF r(2)] by (simp add: row_settled_def)
  ultimately show ?thesis
    using assms(3) inv_register_clip [OF assms(1) reg] by (auto simp: r(1,2) row_settled_def ops_grow_def)
qed (use assms in \<open>simp add: ops_grow_refl\<close>)

section \<open>The filesystem interface of the pass\<close>

text \<open>Beside the reconciliation contract, the pass lists directories.\<close>

locale listed_filesystem = catalog_filesystem fs view healthy
  for fs :: "'f CatalogFilesystem" and view and healthy +
  assumes iter_view: "fs_iter_files fs dir n s = (r, s') \<Longrightarrow>
    view s' = view s \<and> (\<forall>ps k t. r = Inr (ps, k, t) \<longrightarrow> 0 \<le> k \<and> k \<le> n)"
begin

lemma observe_row_spec:
  assumes inv: "catalog_inv c" and op: "observe_row fs now b row rp (c, s) = (r, (c', s'))"
    and r0: "r0 \<in> set (clips c)" "cc_clip_id r0 = cc_clip_id row" "video_path r0 = video_path row"
      "sidecar_path r0 = sidecar_path row" "cc_lifecycle r0 \<noteq> DELETED"
  shows "catalog_inv c' \<and> view s' = view s \<and> tracks (cc_clip_id row) c c'
    \<and> (\<forall>rp'. r = Inr rp' \<longrightarrow> (more_work rp \<longrightarrow> more_work rp')
         \<and> (\<forall>q \<in> set (clips c'). cc_clip_id q = cc_clip_id row \<longrightarrow> row_settled (view s) c' q))"
proof (cases "pending_intent_row c (cc_clip_id row) = None")
  case False
  with inv op show ?thesis
    by (auto simp: observe_row_def tracks_refl row_settled_def)
next
  case none: True
  let ?k = "cc_clip_id row"
  obtain rv s1 where e1: "fs_exists fs (video_path row) s = (rv, s1)" by fastforce
  obtain rs s2 where e2: "fs_exists fs (sidecar_path row) s1 = (rs, s2)" by fastforce
  note v1 = exists_view [OF e1] and v2 = exists_view [OF e2]
  note unfolded = op [unfolded observe_row_def on_disk_def in_catalog_def]
  show ?thesis
  proof (cases "\<exists>v sc x c3. rv = Inr v \<and> rs = Inr sc \<and> record_pair_observation ?k v sc now c = Inr (x, c3)")
    case False
    then show ?thesis
      using unfolded none inv e1 e2 v1 v2
      by (cases rv; cases rs) (auto simp: bindF_def tracks_refl split: sum.splits)
  next
    case True
    then obtain v sc x c3 where vs: "rv = Inr v" "rs = Inr sc"
      and ob: "record_pair_observation ?k v sc now c = Inr (x, c3)" by blast
    note ev = observation_tracks [OF inv ob r0(1,2,5), of "view s"]
    have ev: "tracks ?k c c3" "\<forall>q \<in> set (clips c3). cc_clip_id q = ?k \<longrightarrow> pair_agrees (view s) q"
      using ev v1 v2 vs r0 by simp_all
    note inv3 = inv_observation [OF inv none ob]
    show ?thesis
    proof (cases x)
      case (Some i)
      then show ?thesis
        using unfolded none e1 e2 v1 v2 vs ob ev inv3
        by (auto simp: note_issue_def row_settled_def)
    next
      case None
      show ?thesis
      proof (cases "queue_directory_invariant_repair ?k now c3")
        case (Inl e)
        then show ?thesis
          using unfolded none e1 e2 v1 v2 vs ob None ev inv3 by auto
      next
        case (Inr bc)
        obtain queued c4 where bc: "bc = (queued, c4)" by fastforce
        note rep = repair_tracks [OF inv3 Inr [unfolded bc]]
        have "\<forall>q \<in> set (clips c4). cc_clip_id q = ?k \<longrightarrow> row_settled (view s) c4 q"
          using rep ev by (cases queued) (auto simp: row_settled_def)
        then show ?thesis
          using unfolded none e1 e2 v1 v2 vs ob None Inr bc rep ev
            inv_queue_directory_repair [OF inv3 Inr [unfolded bc]] tracks_trans [OF ev(1), of c4]
          by (auto simp: note_more_def)
      qed
    qed
  qed
qed

lemma row_phase_spec:
  assumes "catalog_inv c" "row_phase fs now b rows rp (c, s) = (r, (c', s'))"
    and "\<forall>row \<in> set rows. (cc_clip_id row, video_path row, sidecar_path row, False) \<in> set (skeleton c)"
    and "\<forall>q \<in> set (clips c). cc_clip_id q \<in> K \<union> cc_clip_id ` set rows \<or> row_settled (view s) c q"
  shows "catalog_inv c' \<and> view s' = view s \<and> ops_grow c c'
    \<and> (\<forall>rp'. r = Inr rp' \<longrightarrow> (more_work rp \<longrightarrow> more_work rp')
         \<and> (\<forall>q \<in> set (clips c'). cc_clip_id q \<in> K \<or> row_settled (view s) c' q))"
  using assms
proof (induction rows arbitrary: rp c s)
  case Nil
  then show ?case by (auto simp: ops_grow_refl)
next
  case (Cons row rest)
  obtain r1 c1 s1 where step: "observe_row fs now b row rp (c, s) = (r1, (c1, s1))"
    by (metis surj_pair)
  obtain r0 where r0: "r0 \<in> set (clips c)" "cc_clip_id r0 = cc_clip_id row" "video_path r0 = video_path row"
      "sidecar_path r0 = sidecar_path row" "cc_lifecycle r0 \<noteq> DELETED"
    using Cons.prems(3) by (auto simp: skeleton_def)
  note sp = observe_row_spec [OF Cons.prems(1) step r0]
  show ?case
  proof (cases r1)
    case (Inl e)
    with Cons.prems(2) step sp show ?thesis by (auto simp: tracks_def)
  next
    case (Inr rp1)
    have "skeleton c1 = skeleton c"
      using sp by (simp add: tracks_def)
    then have todo: "\<forall>row \<in> set rest. (cc_clip_id row, video_path row, sidecar_path row, False) \<in> set (skeleton c1)"
      using Cons.prems(3) by simp
    have "cc_clip_id q \<in> K \<union> cc_clip_id ` set rest \<or> row_settled (view s1) c1 q" if q: "q \<in> set (clips c1)" for q
    proof (cases "cc_clip_id q = cc_clip_id row")
      case True
      then show ?thesis
        using sp Inr q by auto
    next
      case False
      then have "q \<in> set (clips c)"
        using sp q by (auto simp: tracks_def)
      then show ?thesis
        using sp q Cons.prems(4) row_settled_elsewhere [of "cc_clip_id row" c c1 q] False by auto
    qed
    with Cons.IH [of c1 rp1 s1] Cons.prems(2) step Inr sp todo show ?thesis
      by (auto simp: tracks_def intro: ops_grow_trans)
  qed
qed

lemma import_new_spec:
  assumes cs1: "fst cs1 = c" "view (snd cs1) = view s" "view s p \<noteq> None"
  shows "ends (\<lambda>cs. view (snd cs) = view s \<and> imported (view s) p now c (fst cs)) (import_new fs now p sc cs1)"
proof -
  let ?P = "\<lambda>cs. view (snd cs) = view s \<and> imported (view s) p now c (fst cs)"
  let ?v = "join_path (path_parent p) (video_file sc)"
  note stay = imported_refl [of "view s" p now c]
  show ?thesis
    unfolding import_new_def
  proof (rule ends_bindF)
    show "ends ?P (on_disk (fs_exists fs ?v) cs1)"
      using cs1 stay by (intro ends_on_disk) (auto dest: exists_view)
    fix pair cs2
    assume ex: "on_disk (fs_exists fs ?v) cs1 = (Inr pair, cs2)" and P2: "?P cs2"
    obtain s2 where s2: "fs_exists fs ?v (snd cs1) = (Inr pair, s2)" "cs2 = (c, s2)"
      using ex cs1(1) by (auto simp: result_simps)
    have pair: "view s2 = view s" "pair = (view s ?v \<noteq> None)"
      using exists_view [OF s2(1)] cs1(2) by simp_all
    let ?size = "if pair then on_disk (fs_file_size fs ?v) cs2 else (Inr 0, cs2)"
    have "ends ?P (bindF ?size (\<lambda>nbytes cs3.
          bindF (in_catalog (register_clip (recovered_clip sc p pair nbytes) now) cs3) (\<lambda>_ cs4. (Inr (Some IMPORTED), cs4))))"
    proof (rule ends_bindF)
      show "ends ?P ?size"
        using s2 pair stay by (intro ends_if ends_stay ends_on_disk) (auto dest: size_view)
      fix nb cs3
      assume sz: "?size = (Inr nb, cs3)" and P3: "?P cs3"
      have "fst cs3 = c"
        using sz s2 by (auto simp: result_simps split: if_splits)
      then have "ends ?P (in_catalog (register_clip (recovered_clip sc p pair nb) now) cs3)"
        using P3 cs1 pair by (intro ends_in_catalog) (auto simp: imported_def)
      then show "ends ?P (bindF (in_catalog (register_clip (recovered_clip sc p pair nb) now) cs3)
          (\<lambda>_ cs4. (Inr (Some IMPORTED), cs4)))"
        by (rule ends_bindF) (rule ends_stay)
    qed
    with P2 show "ends ?P (case get_clip (sc_clip_id sc) (fst cs2) of
        Inr _ \<Rightarrow> (Inr None, cs2)
      | Inl e \<Rightarrow> if e \<noteq> ClipNotFoundError then (Inl e, cs2) else bindF ?size (\<lambda>nbytes cs3.
          bindF (in_catalog (register_clip (recovered_clip sc p pair nbytes) now) cs3) (\<lambda>_ cs4. (Inr (Some IMPORTED), cs4))))"
      by (intro ends_sum ends_if ends_stay)
  qed
qed

lemma import_body_spec:
  "ends (\<lambda>cs. view (snd cs) = view s \<and> imported (view s) p now c (fst cs)) (import_body fs parse n now p (c, s))"
  unfolding import_body_def
proof (rule ends_bindF)
  let ?P = "\<lambda>cs. view (snd cs) = view s \<and> imported (view s) p now c (fst cs)"
  show "ends ?P (on_disk (fs_read_bytes fs p n) (c, s))"
    by (intro ends_on_disk) (auto simp: imported_def dest: read_view)
  fix raw cs1
  assume rd: "on_disk (fs_read_bytes fs p n) (c, s) = (Inr raw, cs1)" and P1: "?P cs1"
  have "fst cs1 = c" "view (snd cs1) = view s" "view s p \<noteq> None"
    using rd by (auto simp: result_simps dest: read_view)
  note new = import_new_spec [OF this]
  show "ends ?P (case parse raw of Inl e \<Rightarrow> (Inl e, cs1) | Inr sc \<Rightarrow>
     (case mk_clip_file_pair (video_file sc) (metadata_file sc) of Inl e \<Rightarrow> (Inl e, cs1) | Inr _ \<Rightarrow>
      if metadata_file sc \<noteq> path_name p then (Inl ValueError, cs1) else import_new fs now p sc cs1))"
    by (intro ends_sum ends_if ends_stay P1 new)
qed

lemma import_spec:
  assumes "import_sidecar_if_unindexed fs parse n now p (c, s) = (r, (c', s'))"
  shows "view s' = view s \<and> imported (view s) p now c c'"
  using assms imported_refl [of "view s" p now c] import_body_spec [of s p now c parse n]
  unfolding import_sidecar_if_unindexed_def ends_def
  by (auto split: if_splits sum.splits prod.splits)

lemma import_phase_spec:
  assumes "catalog_inv c" "import_phase fs parse now b ps rp (c, s) = (r, (c', s'))"
    and "\<forall>q \<in> set (clips c). cc_clip_id q \<in> K \<or> row_settled (view s) c q"
  shows "catalog_inv c' \<and> view s' = view s \<and> ops_grow c c'
    \<and> (\<forall>q \<in> set (clips c'). cc_clip_id q \<in> K \<or> row_settled (view s) c' q)
    \<and> (\<forall>rp'. r = Inr rp' \<longrightarrow> more_work rp' = more_work rp)"
  using assms
proof (induction ps arbitrary: rp c s)
  case Nil
  then show ?case by (auto simp: ops_grow_refl)
next
  case (Cons p ps)
  obtain r1 c1 s1 where step: "import_sidecar_if_unindexed fs parse (max_sidecar_bytes b) now p (c, s) = (r1, (c1, s1))"
    by (metis surj_pair)
  note sp = import_spec [OF step]
  note kept = imported_row_settled [OF Cons.prems(1) conjunct2 [OF sp] Cons.prems(3)]
  have "more_work (note_import b out rp) = more_work rp" for out
    by (simp add: note_import_def note_issue_def split: option.splits import_outcome.splits)
  with Cons.IH [of c1 _ s1] Cons.prems(2) step sp kept show ?case
    by (cases r1) (fastforce intro: ops_grow_trans)+
qed

lemma directory_phase_spec:
  assumes "catalog_inv c" "directory_phase fs parse now b dirs n rp (c, s) = (r, (c', s'))"
    and "\<forall>q \<in> set (clips c). cc_clip_id q \<in> K \<or> row_settled (view s) c q"
  shows "catalog_inv c' \<and> view s' = view s \<and> ops_grow c c'
    \<and> (\<forall>q \<in> set (clips c'). cc_clip_id q \<in> K \<or> row_settled (view s) c' q)
    \<and> (\<forall>rp'. r = Inr rp' \<longrightarrow> (more_work rp \<longrightarrow> more_work rp'))"
  using assms
proof (induction dirs arbitrary: n rp c s)
  case Nil
  then show ?case by (auto simp: ops_grow_refl)
next
  case (Cons dir dirs)
  show ?case
  proof (cases "n \<le> 0")
    case True
    with Cons.prems show ?thesis by (auto simp: note_more_def ops_grow_refl)
  next
    case False
    obtain r1 s1 where it: "fs_iter_files fs dir n s = (r1, s1)" by fastforce
    note vw = conjunct1 [OF iter_view [OF it]]
    show ?thesis
    proof (cases r1)
      case (Inl e)
      with False Cons.prems it vw show ?thesis by (auto simp: on_disk_def ops_grow_refl)
    next
      case (Inr x)
      obtain ps k t where x: "x = (ps, k, t)" by (cases x)
      let ?rp = "note_more t (rp\<lparr>directory_entries_examined := directory_entries_examined rp + k\<rparr>)"
      obtain r2 c2 s2 where im: "import_phase fs parse now b (filter (\<lambda>p. ends_with p ''.json'') ps) ?rp (c, s1) = (r2, (c2, s2))"
        by (metis surj_pair)
      have im_spec: "catalog_inv c2" "view s2 = view s" "\<forall>q \<in> set (clips c2). cc_clip_id q \<in> K \<or> row_settled (view s2) c2 q"
          "ops_grow c c2"
          "\<forall>rp'. r2 = Inr rp' \<longrightarrow> (more_work rp \<longrightarrow> more_work rp')"
        using import_phase_spec [OF Cons.prems(1) im] Cons.prems(3) vw by (auto simp: note_more_def)
      show ?thesis
        using Cons.IH [OF im_spec(1) _ im_spec(3), of "n - k"] Cons.prems(2) it Inr x im False im_spec
        by (cases r2) (fastforce simp: on_disk_def intro: ops_grow_trans)+
    qed
  qed
qed

lemma intent_phase_spec:
  assumes "catalog_inv c" "intent_phase fs parse sha now b xs rp (c, s) = (r, (c', s'))"
  shows "catalog_inv c'"
  using assms
proof (induction xs arbitrary: rp c s)
  case Nil
  then show ?case by auto
next
  case (Cons x xs)
  obtain r1 c1 s1 where step: "reconcile_intent fs parse sha (intent_id x) now
      (min 2 (max_actions b - sr_actions_attempted rp)) (c, s) = (r1, (c1, s1))"
    by (metis surj_pair)
  note inv1 = inv_reconcile [OF Cons.prems(1) step]
  show ?case
    using Cons.prems step inv1 Cons.IH [OF inv1] by (cases r1) (auto split: if_splits)
qed

end

text \<open>Every pending intent is seen by a query for one.\<close>

lemma pending_remainsD:
  assumes "fst (pending_remains rp cs) = Inr rp'"
  shows "more_work rp' = (more_work rp \<or> (\<exists>i \<in> set (operation_intents (fst cs)). is_pending i))"
proof -
  obtain xs where xs: "pending_intents_where (\<lambda>_. True) 1 (fst cs) = Inr xs" "rp' = note_more (xs \<noteq> []) rp"
    using assms by (cases "list_pending_intents 1 (fst cs)")
      (auto simp: pending_remains_def read_catalog_def list_pending_intents_def result_simps)
  have "xs = [] \<longleftrightarrow> sort_key intent_key (filter is_pending (operation_intents (fst cs))) = []"
    using xs(1) by (auto simp: pending_intents_where_def mapR_eq_Inr_iff list_all2_Nil2 take_eq_Nil
        dest: list_all2_lengthD)
  also have "\<dots> \<longleftrightarrow> (\<forall>i \<in> set (operation_intents (fst cs)). \<not> is_pending i)"
    by (metis (no_types, lifting) filter_empty_conv set_empty set_sort)
  finally show ?thesis
    using xs by (auto simp: note_more_def)
qed

lemma recovery_rows:
  assumes "int (length (catalog_rows_for_recovery (n + 1) c)) \<le> n"
  shows "set (take (nat n) (catalog_rows_for_recovery (n + 1) c)) = {r \<in> set (clips c). cc_lifecycle r \<noteq> DELETED}"
proof -
  let ?xs = "sort_key order_key (filter (\<lambda>r. cc_lifecycle r \<noteq> DELETED) (clips c))"
  have "length (take (nat (n + 1)) ?xs) \<le> nat n" "0 \<le> n"
    using assms by (simp_all add: catalog_rows_for_recovery_def)
  then have "length ?xs \<le> nat n"
    by (simp add: nat_add_distrib split: if_splits)
  then show ?thesis
    by (simp add: catalog_rows_for_recovery_def)
qed

lemma recovery_rows_live:
  "set (take k (catalog_rows_for_recovery n c)) \<subseteq> {r \<in> set (clips c). cc_lifecycle r \<noteq> DELETED}"
  by (auto simp: catalog_rows_for_recovery_def dest!: in_set_takeD)

lemma pending_remains_iff:
  "pending_remains rp cs = (Inr rp', cs') \<longleftrightarrow> cs' = cs \<and> fst (pending_remains rp cs) = Inr rp'"
  by (cases "list_pending_intents 1 (fst cs)") (auto simp: pending_remains_def read_catalog_def)

text \<open>The phases of a pass that returned.\<close>

lemma startup_returns:
  assumes "reconcile_startup fs parse sha now boot b (c, s) = (Inr rp, (c', s'))"
  obtains e lm c2 xs rp4 c4 s4 rp5 rp6 c6 s6 rp7 rp8 where
    "clear_expired_download_leases now boot (max_expired_leases b) c = Inr ((e, lm), c2)"
    "list_pending_intents (max_intents b + 1) c2 = Inr xs"
    "intent_phase fs parse sha now b (take (nat (max_intents b)) xs)
       (note_more (lm \<or> int (length xs) > max_intents b) (empty_report\<lparr>expired_leases_cleared := e\<rparr>)) (c2, s)
       = (Inr rp4, (c4, s4))"
    "fst (pending_remains rp4 (c4, s4)) = Inr rp5"
    "row_phase fs now b (take (nat (max_catalog_clips b)) (catalog_rows_for_recovery (max_catalog_clips b + 1) c4))
       (note_more (int (length (catalog_rows_for_recovery (max_catalog_clips b + 1) c4)) > max_catalog_clips b) rp5)
       (c4, s4) = (Inr rp6, (c6, s6))"
    "directory_phase fs parse now b MANAGED_DIRECTORIES (max_directory_entries b) rp6 (c6, s6) = (Inr rp7, (c', s'))"
    "fst (pending_remains rp7 (c', s')) = Inr rp8"
    "rp = note_more (int (length (issues rp8)) = max_issues b) (rp8\<lparr>catalog_clips_examined :=
       int (length (take (nat (max_catalog_clips b)) (catalog_rows_for_recovery (max_catalog_clips b + 1) c4)))\<rparr>)"
  using assms unfolding reconcile_startup_def recover_after_leases_def observe_and_import_def
  by (clarsimp simp: bindF_eq_Inr store_results pending_remains_iff Let_def simp del: length_take)

section \<open>The rooted filesystem lists directories\<close>

lemma rooted_iter_view:
  assumes "rooted_iter_files dir n d = (r, d')"
  shows "disk_view d' = disk_view d \<and> (\<forall>ps k t. r = Inr (ps, k, t) \<longrightarrow> 0 \<le> k \<and> k \<le> n)"
  using assms unfolding rooted_iter_files_def
  by (cases rule: with_faults_cases)
    (auto simp: disk_view_def positive_bound_def Let_def split: if_splits sum.splits)

interpretation listed: listed_filesystem RootedFilesystem disk_view disk_healthy
  by unfold_locales (rule rooted_iter_view, simp add: rooted_select)

section \<open>Agreement of catalog and disk\<close>


section \<open>What a pass does to the files\<close>

text \<open>Intent rows are kept with their paths, and a completed intent stays completed.\<close>

definition row_kept :: "intent_row \<Rightarrow> intent_row \<Rightarrow> bool" where
  "row_kept i i' = (same_intent i i' \<and> reconciliation_sidecar i' = reconciliation_sidecar i
     \<and> (is_pending i' \<longrightarrow> is_pending i))"

definition rows_kept :: "catalog \<Rightarrow> catalog \<Rightarrow> bool" where
  "rows_kept c c' = (\<forall>j i. row_get ir_intent_id j (operation_intents c) = Some i
     \<longrightarrow> (\<exists>i'. row_get ir_intent_id j (operation_intents c') = Some i' \<and> row_kept i i'))"

lemma rows_kept_refl: "rows_kept c c"
  by (auto simp: rows_kept_def row_kept_def same_intent_def)

lemma rows_kept_trans: "rows_kept c c1 \<Longrightarrow> rows_kept c1 c2 \<Longrightarrow> rows_kept c c2"
  unfolding rows_kept_def row_kept_def same_intent_def by metis

lemma ops_grow_keeps: "ops_grow c c' \<Longrightarrow> rows_kept c c'"
  unfolding ops_grow_def rows_kept_def row_kept_def same_intent_def using row_get_append by metis

lemma update_intent_keeps:
  assumes "\<And>i. ir_intent_id (f i) = ir_intent_id i" "\<And>i. row_kept i (f i)"
  shows "rows_kept c (update_intent j f c)"
  unfolding rows_kept_def
proof (intro allI impI)
  fix k i
  assume "row_get ir_intent_id k (operation_intents c) = Some i"
  then show "\<exists>i'. row_get ir_intent_id k (operation_intents (update_intent j f c)) = Some i' \<and> row_kept i i'"
    using assms by (auto simp: intent_table.get_update row_kept_def same_intent_def)
qed

lemma reconcile_keeps_rows:
  assumes "reconcile_intent fs parse sha iid now n (c, s) = (r, (c', s'))"
  shows "rows_kept c c'"
  using reconcile_intent_catalog [OF assms]
proof (elim disjE exE conjE)
  fix p
  assume "c' = set_last_problem iid p c"
  then show ?thesis
    unfolding set_last_problem_def
    by (auto intro!: update_intent_keeps simp: row_kept_def same_intent_def is_pending_def)
next
  fix row intent
  assume "complete_intent_locked intent now c = Inr c'"
  then obtain extra where "operation_intents c' = operation_intents (mark_intent_complete (intent_id intent) now c) @ extra"
    using complete_intent_ops by blast
  then have "rows_kept (mark_intent_complete (intent_id intent) now c) c'"
    by (intro ops_grow_keeps) (auto simp: ops_grow_def)
  moreover have "rows_kept c (mark_intent_complete (intent_id intent) now c)"
    unfolding mark_intent_complete_def
    by (intro update_intent_keeps) (simp_all add: row_kept_def same_intent_def is_pending_def)
  ultimately show ?thesis
    by (rule rows_kept_trans [rotated])
qed (simp add: rows_kept_refl)

text \<open>A file step of some intent that is pending in \<open>c\<close>.\<close>

definition pending_step :: "catalog \<Rightarrow> file_view \<Rightarrow> file_view \<Rightarrow> bool" where
  "pending_step c m m' = (\<exists>i \<in> set (operation_intents c). is_pending i
     \<and> pair_step (ir_kind i) (ir_paths i) (reconciliation_sidecar i) m m')"

lemma intent_phase_files:
  assumes "intent_phase RootedFilesystem parse sha now b xs rp (c, d) = (r, (c', d'))"
    and "rows_kept c0 c" "\<forall>x \<in> set xs. row_get ir_intent_id (intent_id x) (operation_intents c0) \<noteq> None"
  shows "rows_kept c0 c' \<and> (pending_step c0)\<^sup>*\<^sup>* (disk_view d) (disk_view d')"
  using assms
proof (induction xs arbitrary: rp c d)
  case Nil
  then show ?case by simp
next
  case (Cons x xs)
  obtain r1 c1 d1 where step: "reconcile_intent RootedFilesystem parse sha (intent_id x) now
      (min 2 (max_actions b - sr_actions_attempted rp)) (c, d) = (r1, (c1, d1))"
    by (metis surj_pair)
  obtain i0 i where i0: "row_get ir_intent_id (intent_id x) (operation_intents c0) = Some i0"
    and i: "row_get ir_intent_id (intent_id x) (operation_intents c) = Some i" and kept: "row_kept i0 i"
    using Cons.prems(2,3) unfolding rows_kept_def by fastforce
  have files: "(pending_step c0)\<^sup>*\<^sup>* (disk_view d) (disk_view d1)"
  proof (cases "is_pending i")
    case True
    have "pair_step (ir_kind i) (ir_paths i) (reconciliation_sidecar i) \<le> pending_step c0"
      using kept True intent_table.get_SomeD [OF i0]
      by (auto simp: row_kept_def same_intent_def pending_step_def)
    with rooted_attempt_files [OF step i] show ?thesis
      using rtranclp_mono by blast
  next
    case False
    from step i show ?thesis
      by (cases rule: reconcile_intent_cases) (use False in simp_all)
  qed
  have rows: "rows_kept c0 c1"
    using rows_kept_trans [OF Cons.prems(2) reconcile_keeps_rows [OF step]] .
  show ?case
  proof (cases "sr_actions_attempted rp \<ge> max_actions b")
    case True
    with Cons.prems show ?thesis by simp
  next
    case False
    with Cons.prems step Cons.IH [OF _ rows] files rows show ?thesis
      by (cases r1) (fastforce intro: rtranclp_trans)+
  qed
qed

text \<open>Clearing leases queues protection moves only.\<close>

definition only_moves_added :: "catalog \<Rightarrow> catalog \<Rightarrow> bool" where
  "only_moves_added c c' = (\<exists>extra. operation_intents c' = operation_intents c @ extra
     \<and> (\<forall>i \<in> set extra. ir_kind i \<in> {PROTECT, UNPROTECT}))"

lemma queue_move_added:
  assumes "queue_move k kind vs ss d now rv c = Inr (u, c')" "kind \<in> {PROTECT, UNPROTECT}"
  shows "only_moves_added c c'"
proof -
  obtain ps i c1 where i: "insert_intent_locked k kind ps now rv c = Inr (i, c1)" and c': "c' = mark_unreconciled k now c1"
    using assms(1) unfolding queue_move_def by (auto simp: result_simps)
  obtain c0 where c0: "operation_intents c0 = operation_intents c"
      "insert_intent_row (row_of_intent i rv None None) c0 = Inr c1" "oi_kind i = kind"
    using insert_intent_lockedD [OF i] by blast
  then show ?thesis
    using assms(2) unfolding c' mark_unreconciled_def only_moves_added_def
    by (intro exI [of _ "[row_of_intent i rv None None]"]) (auto simp: insert_intent_row_def split: if_splits)
qed

lemma clear_expired_added:
  assumes "clear_expired_download_leases now boot lim c = Inr (n, c')"
  shows "only_moves_added c c'"
proof -
  have self: "only_moves_added c c"
    by (simp add: only_moves_added_def)
  have step: "only_moves_added c c2" if "only_moves_added c c1" "clear_one_expired now row c1 = Inr c2" for c1 c2 row
  proof -
    let ?c = "clear_lease_locked (cc_clip_id row) c1"
    have ops: "operation_intents ?c = operation_intents c1"
      by (simp add: clear_lease_locked_def)
    have "c2 = ?c \<or> only_moves_added ?c c2"
      using that(2) unfolding clear_one_expired_def queue_directory_invariant_repair_locked_def
      by (auto simp: result_simps Let_def split: if_splits intro: queue_move_added)
    then show ?thesis
      using that(1) ops by (auto simp: only_moves_added_def)
  qed
  obtain rows where "foldR (clear_one_expired now) rows c = Inr c'"
    using assms unfolding clear_expired_download_leases_def by (auto simp: result_simps Let_def)
  then show ?thesis
    using self by (rule foldR_invariant) (rule step)
qed

lemma ends_mono: "ends Q m \<Longrightarrow> (\<And>cs. Q cs \<Longrightarrow> P cs) \<Longrightarrow> ends P m"
  by (simp add: ends_def)

lemma mapR_member: "mapR f ys = Inr xs \<Longrightarrow> x \<in> set xs \<Longrightarrow> \<exists>y \<in> set ys. f y = Inr x"
  unfolding mapR_eq_Inr_iff by (induction rule: list_all2_induct) auto

lemma pending_listed:
  assumes "list_pending_intents n c = Inr xs" "x \<in> set xs"
  shows "row_get ir_intent_id (intent_id x) (operation_intents c) \<noteq> None"
proof -
  have "\<exists>i \<in> set (operation_intents c). intent_from_row i = Inr x"
    using assms by (auto simp: list_pending_intents_def pending_intents_where_def result_simps
        dest!: mapR_member in_set_takeD)
  then show ?thesis
    using intent_from_rowD by (auto simp: intent_table.get_None_iff)
qed

text \<open>The state after the leases are cleared, and what every later stop of the pass keeps of it.\<close>

definition on_the_way :: "catalog \<Rightarrow> file_view \<Rightarrow> disk store \<Rightarrow> bool" where
  "on_the_way c2 m cs = (catalog_inv c2 \<and> catalog_inv (fst cs) \<and> rows_kept c2 (fst cs)
     \<and> (pending_step c2)\<^sup>*\<^sup>* m (disk_view (snd cs)))"

lemma on_the_way_grow:
  "on_the_way c2 m (c, d) \<Longrightarrow> catalog_inv c' \<Longrightarrow> ops_grow c c' \<Longrightarrow> disk_view d' = disk_view d \<Longrightarrow> on_the_way c2 m (c', d')"
  unfolding on_the_way_def using rows_kept_trans ops_grow_keeps by fastforce

lemma intent_phase_way:
  assumes "on_the_way c2 m cs" "\<forall>x \<in> set xs. row_get ir_intent_id (intent_id x) (operation_intents c2) \<noteq> None"
  shows "ends (on_the_way c2 m) (intent_phase RootedFilesystem parse sha now b xs rp cs)"
proof -
  obtain c d r c' d' where cs: "cs = (c, d)" and op: "intent_phase RootedFilesystem parse sha now b xs rp (c, d) = (r, (c', d'))"
    by (metis surj_pair)
  show ?thesis
    using assms(1) listed.intent_phase_spec [OF _ op] intent_phase_files [OF op _ assms(2)]
    by (auto simp: ends_def cs op on_the_way_def)
qed

lemma row_phase_way:
  assumes "on_the_way c2 m cs" "set rows \<subseteq> {r \<in> set (clips (fst cs)). cc_lifecycle r \<noteq> DELETED}"
  shows "ends (on_the_way c2 m) (row_phase RootedFilesystem now b rows rp cs)"
proof -
  obtain c d r c' d' where cs: "cs = (c, d)" and op: "row_phase RootedFilesystem now b rows rp (c, d) = (r, (c', d'))"
    by (metis surj_pair)
  have "\<forall>row \<in> set rows. (cc_clip_id row, video_path row, sidecar_path row, False) \<in> set (skeleton c)"
    using assms(2) by (fastforce simp: skeleton_def cs)
  from listed.row_phase_spec [OF _ op this, of UNIV] show ?thesis
    using assms(1) on_the_way_grow [of c2 m c d c' d'] by (simp add: ends_def cs op on_the_way_def)
qed

lemma directory_phase_way:
  assumes "on_the_way c2 m cs"
  shows "ends (on_the_way c2 m) (directory_phase RootedFilesystem parse now b dirs n rp cs)"
proof -
  obtain c d r c' d' where cs: "cs = (c, d)" and op: "directory_phase RootedFilesystem parse now b dirs n rp (c, d) = (r, (c', d'))"
    by (metis surj_pair)
  from listed.directory_phase_spec [OF _ op, of UNIV] show ?thesis
    using assms on_the_way_grow [of c2 m c d c' d'] by (simp add: ends_def cs op on_the_way_def)
qed

lemma pending_remains_way: "P cs \<Longrightarrow> ends P (pending_remains rp cs)"
  unfolding pending_remains_def by (intro ends_bindF ends_read_catalog ends_stay)

lemma observe_and_import_way:
  "on_the_way c2 m cs4 \<Longrightarrow> ends (on_the_way c2 m) (observe_and_import RootedFilesystem parse now b rp4 cs4)"
  unfolding Let_def observe_and_import_def
  by (intro ends_bindF pending_remains_way row_phase_way directory_phase_way ends_stay recovery_rows_live)

lemma recover_after_leases_way:
  assumes "on_the_way c2 m (c2, d)"
  shows "ends (on_the_way c2 m) (recover_after_leases RootedFilesystem parse sha now b el (c2, d))"
  unfolding recover_after_leases_def
proof (intro ends_bindF ends_read_catalog assms)
  fix intents cs3
  assume "read_catalog (list_pending_intents (max_intents b + 1)) (c2, d) = (Inr intents, cs3)"
    and w: "on_the_way c2 m cs3"
  then have "\<forall>x \<in> set (take (nat (max_intents b)) intents).
      row_get ir_intent_id (intent_id x) (operation_intents c2) \<noteq> None"
    using pending_listed by (auto simp: store_results dest!: in_set_takeD)
  then show "ends (on_the_way c2 m) (intent_phase RootedFilesystem parse sha now b
      (take (nat (max_intents b)) intents) (note_more (snd el \<or> int (length intents) > max_intents b)
          (empty_report\<lparr>expired_leases_cleared := fst el\<rparr>)) cs3)"
    by (rule intent_phase_way [OF w])
qed (rule observe_and_import_way)

lemma startup_effect:
  assumes inv: "catalog_inv c" and op: "reconcile_startup RootedFilesystem parse sha now boot b (c, d) = (r, cs')"
  shows "\<exists>c2. only_moves_added c c2 \<and> on_the_way c2 (disk_view d) cs'"
proof -
  let ?P = "\<lambda>cs. \<exists>c2. only_moves_added c c2 \<and> on_the_way c2 (disk_view d) cs"
  let ?clear = "in_catalog (clear_expired_download_leases now boot (max_expired_leases b))"
  have start: "on_the_way c2 (disk_view d) (c2, d)" if "catalog_inv c2" for c2
    using that by (simp add: on_the_way_def rows_kept_refl)
  have "only_moves_added c c"
    by (simp add: only_moves_added_def)
  then have P0: "?P (c, d)"
    using start [OF inv] by blast
  have cleared: "catalog_inv c2 \<and> only_moves_added c c2"
    if "clear_expired_download_leases now boot (max_expired_leases b) c = Inr (el, c2)" for el c2
    using that inv_clear_expired [OF inv] clear_expired_added by (cases el) blast
  have "ends ?P (bindF (?clear (c, d)) (recover_after_leases RootedFilesystem parse sha now b))"
  proof (rule ends_bindF)
    show "ends ?P (?clear (c, d))"
    proof (rule ends_in_catalog)
      fix el c2
      assume "clear_expired_download_leases now boot (max_expired_leases b) (fst (c, d)) = Inr (el, c2)"
      then show "?P (c2, snd (c, d))"
        using cleared [of el c2] start by (intro exI [of _ c2]) simp
    qed (rule P0)
    fix el cs2
    assume "?clear (c, d) = (Inr el, cs2)"
    then obtain c2 where cs2: "cs2 = (c2, d)"
      and c2: "clear_expired_download_leases now boot (max_expired_leases b) c = Inr (el, c2)"
      by (auto simp: store_results)
    show "ends ?P (recover_after_leases RootedFilesystem parse sha now b el cs2)"
      unfolding cs2
      by (rule ends_mono [OF recover_after_leases_way [OF start]])
        (use cleared [OF c2] in blast)+
  qed
  then have "ends ?P (reconcile_startup RootedFilesystem parse sha now boot b (c, d))"
    unfolding reconcile_startup_def using P0 by (auto simp: read_catalog_def ends_def bindF_def split: sum.splits)
  then show ?thesis
    by (simp add: ends_def op)
qed

definition intent_paths :: "intent_row \<Rightarrow> string set" where
  "intent_paths i = {video_source (ir_paths i), sidecar_source (ir_paths i)}
     \<union> set_option (video_target (ir_paths i)) \<union> set_option (sidecar_target (ir_paths i))"

lemma pending_steps_untouched:
  assumes "(pending_step c)\<^sup>*\<^sup>* m m'" "\<forall>i \<in> set (operation_intents c). p \<notin> intent_paths i"
  shows "m' p = m p"
  using assms(1)
proof (induction rule: rtranclp_induct)
  case (step y z)
  then obtain i where "i \<in> set (operation_intents c)" "pair_step (ir_kind i) (ir_paths i) (reconciliation_sidecar i) y z"
    by (auto simp: pending_step_def)
  moreover from this(1) assms(2) have "p \<noteq> video_source (ir_paths i)" "p \<noteq> sidecar_source (ir_paths i)"
      "video_target (ir_paths i) \<noteq> Some p" "sidecar_target (ir_paths i) \<noteq> Some p"
    by (auto simp: intent_paths_def)
  ultimately show ?case
    using pair_step_untouched step.IH by metis
qed simp

lemma pending_steps_lose_nothing:
  assumes "(pending_step c)\<^sup>*\<^sup>* m m'" "m p = Some v"
    and "\<forall>i \<in> set (operation_intents c). is_pending i \<longrightarrow> ir_kind i \<noteq> DELETE \<and> ir_kind i \<noteq> RECONCILE_NAME"
  shows "\<exists>q. m' q = Some v"
  using assms(1)
proof (induction rule: rtranclp_induct)
  case (step y z)
  then show ?case
    using pair_step_loses_nothing assms(3) unfolding pending_step_def by blast
qed (use assms(2) in blast)


section \<open>The report\<close>

lemma reconcile_body_actions:
  "returns (\<lambda>(r, c') _. actions_attempted r \<le> max 0 n) (reconcile_body fs ps sha row intent now n c s)"
  unfolding reconcile_body_def Let_def
  by (intro returns_bindF returns_if returns_option returns_sum returns_Inl returns_Inr) simp_all

lemma reconcile_intent_actions:
  assumes "reconcile_intent fs parse sha iid now n cs = (Inr r, cs')"
  shows "actions_attempted r \<le> max 0 n"
proof -
  obtain c s c' s' where cs: "cs = (c, s)" "cs' = (c', s')"
    by (metis surj_pair)
  have "\<exists>i. row_get ir_intent_id iid (operation_intents c) = Some i"
    using assms by (auto simp: reconcile_intent_def cs result_simps split: option.splits sum.splits prod.splits)
  then obtain i where i: "row_get ir_intent_id iid (operation_intents c) = Some i" ..
  from assms [unfolded cs] i show ?thesis
  proof (cases rule: reconcile_intent_cases)
    case idle
    with assms i show ?thesis
      by (auto simp: reconcile_intent_def cs result_simps not_pending_iff split: if_splits sum.splits prod.splits)
  next
    case (run intent)
    with reconcile_body_actions [of n fs parse sha i intent now c s] show ?thesis
      by (auto simp: returns_def)
  qed
qed

definition issues_within :: "ReconciliationBounds \<Rightarrow> StartupReconciliationReport \<Rightarrow> bool" where
  "issues_within b rp = (int (length (issues rp)) \<le> max_issues b)"

text \<open>The counters of a report; notes change none of them.\<close>

definition counters :: "StartupReconciliationReport \<Rightarrow> int \<times> int \<times> int" where
  "counters rp = (intents_examined rp, sr_actions_attempted rp, directory_entries_examined rp)"

lemma notes_keep [simp]:
  "counters (note_issue b x rp) = counters rp" "counters (note_more m rp) = counters rp"
  "counters (note_import b out rp) = counters rp"
  "issues_within b (note_more m rp) = issues_within b rp"
  "issues_within b rp \<Longrightarrow> issues_within b (note_issue b x rp)"
  "issues_within b rp \<Longrightarrow> issues_within b (note_import b out rp)"
  by (auto simp: counters_def note_issue_def note_more_def note_import_def issues_within_def append_issue_def
      split: option.splits import_outcome.splits)

lemma fold_notes [simp]:
  "counters (fold (\<lambda>p. note_issue b (f p)) xs rp) = counters rp"
  "issues_within b rp \<Longrightarrow> issues_within b (fold (\<lambda>p. note_issue b (f p)) xs rp)"
  by (induction xs arbitrary: rp) simp_all

lemma intent_phase_report:
  assumes "intent_phase fs parse sha now b xs rp cs = (Inr rp', cs')"
    and "issues_within b rp" "sr_actions_attempted rp \<le> max_actions b"
  shows "issues_within b rp' \<and> sr_actions_attempted rp' \<le> max_actions b
    \<and> intents_examined rp' \<le> intents_examined rp + int (length xs)
    \<and> directory_entries_examined rp' = directory_entries_examined rp"
  using assms
proof (induction xs arbitrary: rp cs)
  case Nil
  then show ?case by simp
next
  case (Cons x xs)
  show ?case
  proof (cases "sr_actions_attempted rp \<ge> max_actions b")
    case True
    with Cons.prems show ?thesis
      by (auto simp: note_more_def issues_within_def)
  next
    case False
    let ?n = "min 2 (max_actions b - sr_actions_attempted rp)"
    let ?rp = "\<lambda>res. fold (\<lambda>p. note_issue b (IntentIssue (intent_id x) p)) (irr_problems res)
        (rp\<lparr>intents_examined := intents_examined rp + 1, sr_actions_attempted := sr_actions_attempted rp + actions_attempted res\<rparr>)"
    obtain res cs1 where step: "reconcile_intent fs parse sha (intent_id x) now ?n cs = (Inr res, cs1)"
      and rest: "intent_phase fs parse sha now b xs (?rp res) cs1 = (Inr rp', cs')"
      using Cons.prems(1) False by (auto simp: bindF_eq_Inr)
    have "counters (?rp res) = (intents_examined rp + 1, sr_actions_attempted rp + actions_attempted res,
        directory_entries_examined rp)"
      by (simp only: fold_notes) (simp add: counters_def)
    then have rp: "intents_examined (?rp res) = intents_examined rp + 1"
        "sr_actions_attempted (?rp res) = sr_actions_attempted rp + actions_attempted res"
        "directory_entries_examined (?rp res) = directory_entries_examined rp"
      by (simp_all add: counters_def)
    have "issues_within b (?rp res)"
      using Cons.prems(2) by (intro fold_notes) (simp add: issues_within_def)
    moreover have "sr_actions_attempted (?rp res) \<le> max_actions b"
      using reconcile_intent_actions [OF step] False unfolding rp by linarith
    ultimately show ?thesis
      using Cons.IH [OF rest] rp by simp
  qed
qed

lemma row_phase_report:
  "row_phase fs now b rows rp cs = (Inr rp', cs') \<Longrightarrow> issues_within b rp \<Longrightarrow>
   issues_within b rp' \<and> counters rp' = counters rp"
proof (induction rows arbitrary: rp cs)
  case (Cons row rows)
  obtain rp1 cs1 where step: "observe_row fs now b row rp cs = (Inr rp1, cs1)"
    and rest: "row_phase fs now b rows rp1 cs1 = (Inr rp', cs')"
    using Cons.prems(1) by (auto simp: bindF_eq_Inr)
  have "issues_within b rp1 \<and> counters rp1 = counters rp"
    using step Cons.prems(2) by (auto simp: observe_row_def bindF_eq_Inr split: if_splits option.splits)
  with Cons.IH [OF rest] show ?case by simp
qed simp

lemma import_phase_report:
  "import_phase fs parse now b ps rp cs = (Inr rp', cs') \<Longrightarrow> issues_within b rp \<Longrightarrow>
   issues_within b rp' \<and> counters rp' = counters rp"
  by (induction ps arbitrary: rp cs) (auto simp: bindF_eq_Inr)

lemma directory_phase_report:
  assumes "directory_phase RootedFilesystem parse now b dirs n rp cs = (Inr rp', cs')" "issues_within b rp" "0 \<le> n"
  shows "issues_within b rp' \<and> intents_examined rp' = intents_examined rp
    \<and> sr_actions_attempted rp' = sr_actions_attempted rp
    \<and> directory_entries_examined rp' \<le> directory_entries_examined rp + n"
  using assms
proof (induction dirs arbitrary: n rp cs)
  case Nil
  then show ?case by simp
next
  case (Cons dir dirs)
  show ?case
  proof (cases "n \<le> 0")
    case True
    with Cons.prems show ?thesis
      by (auto simp: note_more_def issues_within_def)
  next
    case False
    let ?rp = "\<lambda>k t. note_more t (rp\<lparr>directory_entries_examined := directory_entries_examined rp + k\<rparr>)"
    obtain ps k t cs1 rp1 cs2 where it: "on_disk (rooted_iter_files dir n) cs = (Inr (ps, k, t), cs1)"
      and im: "import_phase RootedFilesystem parse now b (filter (\<lambda>p. ends_with p ''.json'') ps) (?rp k t) cs1 = (Inr rp1, cs2)"
      and rest: "directory_phase RootedFilesystem parse now b dirs (n - k) rp1 cs2 = (Inr rp', cs')"
      using Cons.prems(1) False by (auto simp: bindF_eq_Inr rooted_select)
    have k: "0 \<le> k" "k \<le> n"
      using it rooted_iter_view by (auto simp: store_results)
    have "issues_within b (?rp k t)"
      using Cons.prems(2) by (simp add: issues_within_def note_more_def)
    with import_phase_report [OF im] have "issues_within b rp1"
      "counters rp1 = (intents_examined rp, sr_actions_attempted rp, directory_entries_examined rp + k)"
      by (simp_all add: counters_def note_more_def)
    with Cons.IH [OF rest] k show ?thesis
      by (simp add: counters_def)
  qed
qed


section \<open>Witnesses\<close>

definition ex_bounds :: ReconciliationBounds where
  "ex_bounds = \<lparr>max_intents = 64, max_actions = 128, max_catalog_clips = 2048, max_directory_entries = 4096,
     max_sidecar_bytes = 1048576, max_issues = 128, max_expired_leases = 512\<rparr>"

text \<open>The finalized clip has lost its sidecar, and an unmanaged file lies beside it.\<close>

definition ex_startup_disk :: disk where
  "ex_startup_disk = \<lparr>files = [(''clips/boot-abcde-000001.mp4'', [1, 2]), (''clips/notes.json'', [7])],
     present_directories = MANAGED_DIRECTORIES, fault_schedule = []\<rparr>"

definition ex_pass :: "StartupReconciliationReport result \<times> disk store" where
  "ex_pass = reconcile_startup RootedFilesystem (\<lambda>_. Inl SidecarParseError) (\<lambda>_. []) 5 ''b'' ex_bounds
     (ex_catalog, ex_startup_disk)"

lemma ex_pass_result:
  "case ex_pass of (Inr rp, (c', d')) \<Rightarrow> \<not> more_work rp \<and> directory_entries_examined rp = 2
       \<and> issues rp = [ClipIssue (UUID 1) PAIR_MISSING_SIDECAR, ClipIssue (UUID 2) PAIR_MISSING]
       \<and> map cc_lifecycle (clips c') = [MISSING_SIDECAR, WRITING]
     | (Inl e, _) \<Rightarrow> False"
  by code_simp

lemma ex_pass_returns: "\<exists>rp c' d'. ex_pass = (Inr rp, (c', d')) \<and> \<not> more_work rp"
  using ex_pass_result by (auto split: prod.splits sum.splits)




section \<open>A recovered pair outside \<^verbatim>\<open>clips/\<close>\<close>

text \<open>
  The sidecar of a clip interrupted in \<^verbatim>\<open>pending/\<close> is imported without its video and the next
  pass finds both files. The observation makes the row a finalized reconciled clip although it is
  still in \<^verbatim>\<open>pending/\<close>; it is then the oldest eligible row, and the deletion of it raises
  before any younger clip in \<^verbatim>\<open>clips/\<close> is considered.
\<close>

definition ex_sidecar :: ClipSidecar where
  "ex_sidecar = ex_clip\<lparr>video_file := ''boot-abcde-000000.mp4'', metadata_file := ''boot-abcde-000000.json'',
     sc_start_ns := 0, sc_end_ns := 1\<rparr>"

definition ex_recovered_pending :: "catalog result" where
  "ex_recovered_pending =
     bindR (register_clip (recovered_clip ex_sidecar ''pending/boot-abcde-000000.json'' False 0) 5 ex_catalog) (\<lambda>(_, c1).
     bindR (record_pair_observation (UUID 7) True True 6 c1) (\<lambda>(_, c2). Inr c2))"

theorem recovered_pending_pair_blocks_deletion:
  "case ex_recovered_pending of Inl e \<Rightarrow> False
     | Inr c \<Rightarrow> (case prepare_oldest_eligible_delete 7 ''b'' c of Inl e \<Rightarrow> e = CatalogConflictError | Inr _ \<Rightarrow> False)
         \<and> is_ok (prepare_delete (UUID 1) 7 ''b'' c)"
  by code_simp

end
