(* ===== verification/Utc_Clock.thy ===== *)
theory Utc_Clock
  imports Clip_State Civil_Time
begin

text \<open>
  The anchored UTC clock: \<^verbatim>\<open>src/dashcam/gps/clock.py\<close>. Date-times are the \<open>datetime\<close> values of
  \<open>Civil_Time\<close> (microseconds with an optional offset); a \<^verbatim>\<open>timedelta\<close> is its number of
  microseconds. The installed IANA database is the parameter \<open>zone_info\<close>.
\<close>

section \<open>Data\<close>

datatype AnchorSource = GPS_RMC_VALID | GPS_ZDA_NO_VALIDITY_FLAG

datatype AnchorStatus = ACCEPTED | CONFIRMED | REACQUIRED | IDEMPOTENT | REJECTED

datatype AnchorError = INVALID_MONOTONIC | UTC_NOT_AWARE | UTC_NOT_CANONICAL | IMPLAUSIBLE_UTC
  | INVALID_UNCERTAINTY | INVALID_PROVENANCE | MONOTONIC_REGRESSION | CONFLICT

datatype ConversionError = NO_ANCHOR | CONVERT_INVALID_MONOTONIC | PROJECTION_TOO_LARGE | DATETIME_RANGE

datatype LocalTimeError = LOCAL_UTC_NOT_AWARE | LOCAL_UTC_NOT_CANONICAL | INVALID_ZONE_NAME | UNKNOWN_ZONE

record AnchorCandidate =
  an_monotonic_ns :: int
  an_utc :: datetime
  an_source :: AnchorSource
  an_provenance :: string
  an_uncertainty_ns :: int

text \<open>\<^verbatim>\<open>UtcAnchor\<close> has the fields of a candidate; the validated value is the candidate itself.\<close>

type_synonym UtcAnchor = AnchorCandidate

record AnchorPolicy =
  earliest_utc :: datetime
  latest_utc :: datetime
  max_uncertainty_ns :: int
  max_conflict_ns :: int
  max_reacquire_disagreement_ns :: int
  max_anchor_interval_ns :: int
  max_projection_ns :: int
  gps_stale_after_ns :: int
  oscillator_uncertainty_ppb :: int

record MonotonicUtcClock =
  anchor :: "UtcAnchor option"
  latest_confirmation :: "UtcAnchor option"
  latest_disagreement_ns :: "int option"

record AnchorOutcome =
  ao_clock :: MonotonicUtcClock
  ao_status :: AnchorStatus
  ao_error :: "AnchorError option"
  ao_disagreement_ns :: "int option"

record TimestampEstimate =
  te_utc :: datetime
  te_quality :: TimestampQuality
  te_source :: AnchorSource
  te_provenance :: string
  te_uncertainty_ns :: int

type_synonym UtcConversionOutcome = "ConversionError + TimestampEstimate"

record LocalTimeView =
  lt_datetime :: datetime
  lt_zone_name :: string
  utc_offset_seconds :: int
  tz_abbreviation :: string
  is_dst :: bool

section \<open>Validation\<close>

definition MAX_PROVENANCE_CHARS :: nat where
  "MAX_PROVENANCE_CHARS = 128"

definition validate_policy :: "AnchorPolicy \<Rightarrow> AnchorError option" where
  "validate_policy p =
     (if dt_offset (earliest_utc p) = None \<or> dt_offset (latest_utc p) = None then Some UTC_NOT_AWARE
      else if dt_offset (earliest_utc p) \<noteq> Some 0 \<or> dt_offset (latest_utc p) \<noteq> Some 0 then Some UTC_NOT_CANONICAL
      else if dt_us (earliest_utc p) > dt_us (latest_utc p) then Some IMPLAUSIBLE_UTC
      else if \<exists>v \<in> set [max_uncertainty_ns p, max_conflict_ns p, max_reacquire_disagreement_ns p,
            max_anchor_interval_ns p, max_projection_ns p, gps_stale_after_ns p,
            oscillator_uncertainty_ppb p]. v < 0
      then Some INVALID_UNCERTAINTY else None)"

definition validate_candidate :: "AnchorCandidate \<Rightarrow> AnchorPolicy \<Rightarrow> AnchorError + UtcAnchor" where
  "validate_candidate c p =
     (if an_monotonic_ns c < 0 then Inl INVALID_MONOTONIC
      else if dt_offset (an_utc c) = None then Inl UTC_NOT_AWARE
      else if dt_offset (an_utc c) \<noteq> Some 0 then Inl UTC_NOT_CANONICAL
      else if \<not> (dt_us (earliest_utc p) \<le> dt_us (an_utc c) \<and> dt_us (an_utc c) \<le> dt_us (latest_utc p))
      then Inl IMPLAUSIBLE_UTC
      else if an_uncertainty_ns c < 0 \<or> an_uncertainty_ns c > max_uncertainty_ns p then Inl INVALID_UNCERTAINTY
      else if an_provenance c = [] \<or> length (an_provenance c) > MAX_PROVENANCE_CHARS
         \<or> \<not> list_all is_ascii (an_provenance c) \<or> \<not> list_all is_printable (an_provenance c)
      then Inl INVALID_PROVENANCE
      else Inr c)"

text \<open>
  \<^verbatim>\<open>_project\<close>: \<^verbatim>\<open>divmod\<close> rounds towards minus infinity; leaving the years 1 to 9999 overflows.
\<close>

definition project :: "datetime \<Rightarrow> int \<Rightarrow> datetime option" where
  "project d delta_ns =
     (let us = dt_us d + (delta_ns div NANOSECONDS_PER_SECOND) * 1000000
                + (delta_ns mod NANOSECONDS_PER_SECOND) div 1000
      in if us_in_range us then Some (d\<lparr>dt_us := us\<rparr>) else None)"

definition timedelta_to_ns :: "int \<Rightarrow> int" where
  "timedelta_to_ns us = us * 1000"

section \<open>The clock\<close>

definition empty_clock :: MonotonicUtcClock where
  "empty_clock = \<lparr>anchor = None, latest_confirmation = None, latest_disagreement_ns = None\<rparr>"

definition timestamp_quality :: "MonotonicUtcClock \<Rightarrow> TimestampQuality" where
  "timestamp_quality k = (if anchor k = None then MONOTONIC_ONLY else GPS_ANCHORED)"

definition rejected :: "MonotonicUtcClock \<Rightarrow> AnchorError \<Rightarrow> int option \<Rightarrow> AnchorOutcome" where
  "rejected k e d = \<lparr>ao_clock = k, ao_status = REJECTED, ao_error = Some e, ao_disagreement_ns = d\<rparr>"

definition settled :: "MonotonicUtcClock \<Rightarrow> AnchorStatus \<Rightarrow> int option \<Rightarrow> AnchorOutcome" where
  "settled k st d = \<lparr>ao_clock = k, ao_status = st, ao_error = None, ao_disagreement_ns = d\<rparr>"

definition allowed_disagreement :: "AnchorPolicy \<Rightarrow> UtcAnchor \<Rightarrow> UtcAnchor \<Rightarrow> int" where
  "allowed_disagreement p a n = max_conflict_ns p + an_uncertainty_ns a + an_uncertainty_ns n
     + \<bar>an_monotonic_ns n - an_monotonic_ns a\<bar> * oscillator_uncertainty_ppb p div NANOSECONDS_PER_SECOND"

text \<open>The part of \<^verbatim>\<open>consider\<close> after a prediction from the anchor has been made.\<close>

definition consider_against :: "MonotonicUtcClock \<Rightarrow> AnchorPolicy \<Rightarrow> UtcAnchor \<Rightarrow> UtcAnchor \<Rightarrow> UtcAnchor
    \<Rightarrow> datetime \<Rightarrow> AnchorOutcome" where
  "consider_against k p a latest n predicted =
     (let interval = an_monotonic_ns n - an_monotonic_ns latest;
          disagreement = timedelta_to_ns \<bar>dt_us (an_utc n) - dt_us predicted\<bar>
      in if interval > max_anchor_interval_ns p \<and> disagreement > max_reacquire_disagreement_ns p
         then rejected k CONFLICT (Some disagreement)
         else if interval > max_anchor_interval_ns p
         then settled \<lparr>anchor = Some n, latest_confirmation = Some n, latest_disagreement_ns = Some disagreement\<rparr>
                REACQUIRED (Some disagreement)
         else if disagreement > allowed_disagreement p a n then rejected k CONFLICT (Some disagreement)
         else if an_monotonic_ns n = an_monotonic_ns latest then settled k IDEMPOTENT (Some disagreement)
         else settled (k\<lparr>latest_confirmation := Some n, latest_disagreement_ns := Some disagreement\<rparr>)
                CONFIRMED (Some disagreement))"

definition consider_anchor :: "MonotonicUtcClock \<Rightarrow> AnchorCandidate \<Rightarrow> AnchorPolicy \<Rightarrow> AnchorOutcome" where
  "consider_anchor k candidate p =
     (case validate_policy p of Some e \<Rightarrow> rejected k e None | None \<Rightarrow>
     (case validate_candidate candidate p of Inl e \<Rightarrow> rejected k e None | Inr n \<Rightarrow>
     (case anchor k of
        None \<Rightarrow> settled \<lparr>anchor = Some n, latest_confirmation = Some n, latest_disagreement_ns = Some 0\<rparr> ACCEPTED None
      | Some a \<Rightarrow>
          let latest = (case latest_confirmation k of None \<Rightarrow> a | Some l \<Rightarrow> l)
          in if n = latest then settled k IDEMPOTENT (Some 0)
             else if an_monotonic_ns n < an_monotonic_ns latest then rejected k MONOTONIC_REGRESSION None
             else (case project (an_utc a) (an_monotonic_ns n - an_monotonic_ns a) of
                     None \<Rightarrow> rejected k IMPLAUSIBLE_UTC None
                   | Some predicted \<Rightarrow> consider_against k p a latest n predicted))))"

definition accepted :: "AnchorOutcome \<Rightarrow> bool" where
  "accepted ob = (ao_status ob \<noteq> REJECTED)"

definition convert :: "MonotonicUtcClock \<Rightarrow> int \<Rightarrow> AnchorPolicy \<Rightarrow> UtcConversionOutcome" where
  "convert k m p = (case anchor k of None \<Rightarrow> Inl NO_ANCHOR | Some a \<Rightarrow>
     if m < 0 then Inl CONVERT_INVALID_MONOTONIC
     else let delta = m - an_monotonic_ns a
     in if \<bar>delta\<bar> > max_projection_ns p then Inl PROJECTION_TOO_LARGE
        else (case project (an_utc a) delta of None \<Rightarrow> Inl DATETIME_RANGE
              | Some u \<Rightarrow> Inr \<lparr>te_utc = u, te_quality = GPS_ANCHORED, te_source = an_source a,
                  te_provenance = an_provenance a, te_uncertainty_ns = an_uncertainty_ns a
                    + \<bar>delta\<bar> * oscillator_uncertainty_ppb p div NANOSECONDS_PER_SECOND\<rparr>))"

definition gps_age_ns :: "MonotonicUtcClock \<Rightarrow> int \<Rightarrow> int option" where
  "gps_age_ns k now = (case latest_confirmation k of None \<Rightarrow> None
     | Some l \<Rightarrow> if now < an_monotonic_ns l then None else Some (now - an_monotonic_ns l))"

definition gps_time_state :: "MonotonicUtcClock \<Rightarrow> int \<Rightarrow> AnchorPolicy \<Rightarrow> GpsTimeState" where
  "gps_time_state k now p =
     (if latest_confirmation k = None then UNSYNCED
      else case gps_age_ns k now of
          None \<Rightarrow> GPS_TIME_STALE
        | Some age \<Rightarrow> if gps_stale_after_ns p < 0 then GPS_TIME_STALE
            else if age > gps_stale_after_ns p then GPS_TIME_STALE else GPS_TIME_VALID)"

section \<open>Local time\<close>

definition to_local_time :: "zone_database \<Rightarrow> datetime \<Rightarrow> string
    \<Rightarrow> (LocalTimeError + LocalTimeView) result" where
  "to_local_time zone_info utc name =
     (if dt_offset utc = None then Inr (Inl LOCAL_UTC_NOT_AWARE)
      else if dt_offset utc \<noteq> Some 0 then Inr (Inl LOCAL_UTC_NOT_CANONICAL)
      else if name = [] \<or> length name > 128 \<or> \<not> list_all is_ascii name then Inr (Inl INVALID_ZONE_NAME)
      else case zone_info name of
        Inl e \<Rightarrow> if e \<in> {ValueError, ZoneInfoNotFoundError} then Inr (Inl UNKNOWN_ZONE) else Inl e
      | Inr z \<Rightarrow>
          (case zone_at z (dt_us utc) of (off, abbr, dst) \<Rightarrow>
           if \<not> us_in_range (dt_us utc + off * 1000000) then Inl OverflowError
           else Inr (Inr \<lparr>lt_datetime = \<lparr>dt_us = dt_us utc + off * 1000000, dt_offset = Some (off * 1000000)\<rparr>,
                  lt_zone_name = zone_key z, utc_offset_seconds = off, tz_abbreviation = abbr,
                  is_dst = (case dst of None \<Rightarrow> False | Some d \<Rightarrow> d \<noteq> 0)\<rparr>)))"

section \<open>Lemmas\<close>

lemma project_us:
  "project d delta = Some u \<Longrightarrow> dt_us u = dt_us d + delta div 1000 \<and> dt_offset u = dt_offset d \<and> us_in_range (dt_us u)"
proof -
  assume u: "project d delta = Some u"
  define q r where "q = delta div 1000000000" and "r = delta mod 1000000000"
  have "delta = r + q * 1000000 * 1000"
    unfolding q_def r_def by simp
  then have "delta div 1000 = q * 1000000 + r div 1000"
    by (metis add.commute div_mult_self1 zero_neq_numeral)
  with u show ?thesis
    by (simp add: project_def NANOSECONDS_PER_SECOND_def Let_def q_def r_def split: if_splits) auto
qed

definition anchor_ok :: "AnchorPolicy \<Rightarrow> UtcAnchor \<Rightarrow> bool" where
  "anchor_ok p a = (0 \<le> an_monotonic_ns a \<and> dt_offset (an_utc a) = Some 0
     \<and> dt_us (earliest_utc p) \<le> dt_us (an_utc a) \<and> dt_us (an_utc a) \<le> dt_us (latest_utc p)
     \<and> 0 \<le> an_uncertainty_ns a \<and> an_uncertainty_ns a \<le> max_uncertainty_ns p
     \<and> an_provenance a \<noteq> [] \<and> length (an_provenance a) \<le> 128)"

definition clock_ok :: "AnchorPolicy \<Rightarrow> MonotonicUtcClock \<Rightarrow> bool" where
  "clock_ok p k = (case (anchor k, latest_confirmation k) of
       (None, None) \<Rightarrow> True
     | (Some a, Some l) \<Rightarrow> anchor_ok p a \<and> anchor_ok p l \<and> an_monotonic_ns a \<le> an_monotonic_ns l
     | _ \<Rightarrow> False)"

definition latest_ns :: "MonotonicUtcClock \<Rightarrow> int" where
  "latest_ns k = (case latest_confirmation k of None \<Rightarrow> -1 | Some l \<Rightarrow> an_monotonic_ns l)"

lemma validate_candidateD: "validate_candidate c p = Inr n \<Longrightarrow> n = c \<and> anchor_ok p c"
  by (auto simp: validate_candidate_def anchor_ok_def MAX_PROVENANCE_CHARS_def split: if_splits)

text \<open>Every way \<open>consider\<close> can end, with what it decided on.\<close>

lemma consider_anchor_cases:
  obtains (rejected) e d where "consider_anchor k c p = rejected k e d"
  | (first) "anchor k = None" "anchor_ok p c" "validate_policy p = None"
      "consider_anchor k c p = settled \<lparr>anchor = Some c, latest_confirmation = Some c, latest_disagreement_ns = Some 0\<rparr> ACCEPTED None"
  | (same) d where "consider_anchor k c p = settled k IDEMPOTENT (Some d)"
  | (reacquired) a l u d where "anchor k = Some a" "l = (case latest_confirmation k of None \<Rightarrow> a | Some l \<Rightarrow> l)"
      "anchor_ok p c" "an_monotonic_ns c - an_monotonic_ns l > max_anchor_interval_ns p" "validate_policy p = None"
      "project (an_utc a) (an_monotonic_ns c - an_monotonic_ns a) = Some u"
      "d = timedelta_to_ns \<bar>dt_us (an_utc c) - dt_us u\<bar>" "d \<le> max_reacquire_disagreement_ns p"
      "consider_anchor k c p = settled \<lparr>anchor = Some c, latest_confirmation = Some c, latest_disagreement_ns = Some d\<rparr>
         REACQUIRED (Some d)"
  | (confirmed) a l u d where "anchor k = Some a" "l = (case latest_confirmation k of None \<Rightarrow> a | Some l \<Rightarrow> l)"
      "anchor_ok p c" "an_monotonic_ns l < an_monotonic_ns c"
      "an_monotonic_ns c - an_monotonic_ns l \<le> max_anchor_interval_ns p"
      "project (an_utc a) (an_monotonic_ns c - an_monotonic_ns a) = Some u"
      "d = timedelta_to_ns \<bar>dt_us (an_utc c) - dt_us u\<bar>" "d \<le> allowed_disagreement p a c"
      "consider_anchor k c p = settled (k\<lparr>latest_confirmation := Some c, latest_disagreement_ns := Some d\<rparr>)
         CONFIRMED (Some d)"
proof -
  consider (bad) "\<exists>e. consider_anchor k c p = rejected k e None"
    | (none) "anchor k = None" "anchor_ok p c" "validate_policy p = None"
      "consider_anchor k c p = settled \<lparr>anchor = Some c, latest_confirmation = Some c, latest_disagreement_ns = Some 0\<rparr> ACCEPTED None"
    | (idem) "consider_anchor k c p = settled k IDEMPOTENT (Some 0)"
    | (against) a l u where "anchor k = Some a" "l = (case latest_confirmation k of None \<Rightarrow> a | Some l \<Rightarrow> l)"
      "anchor_ok p c" "an_monotonic_ns l \<le> an_monotonic_ns c" "validate_policy p = None"
      "project (an_utc a) (an_monotonic_ns c - an_monotonic_ns a) = Some u"
      "consider_anchor k c p = consider_against k p a l c u"
  proof -
    show thesis
    proof (cases "validate_policy p")
      case (Some e)
      show thesis by (rule bad [OF exI]) (simp add: consider_anchor_def Some)
    next
      case pol: None
      show thesis
      proof (cases "validate_candidate c p")
        case (Inl e)
        show thesis by (rule bad [OF exI]) (simp add: consider_anchor_def pol Inl)
      next
        case (Inr n)
        note ok = validate_candidateD [OF Inr]
        have val: "validate_candidate c p = Inr c"
          using Inr ok by simp
        show thesis
        proof (cases "anchor k")
          case fresh: None
          show thesis by (rule none) (simp_all add: consider_anchor_def pol val fresh ok)
        next
          case (Some a)
          define l where "l = (case latest_confirmation k of None \<Rightarrow> a | Some l \<Rightarrow> l)"
          have step: "consider_anchor k c p = (if c = l then settled k IDEMPOTENT (Some 0)
              else if an_monotonic_ns c < an_monotonic_ns l then rejected k MONOTONIC_REGRESSION None
              else (case project (an_utc a) (an_monotonic_ns c - an_monotonic_ns a) of
                     None \<Rightarrow> rejected k IMPLAUSIBLE_UTC None
                   | Some predicted \<Rightarrow> consider_against k p a l c predicted))"
            unfolding consider_anchor_def l_def by (simp add: pol val Some Let_def)
          show thesis
          proof (cases "c = l")
            case True
            show thesis by (rule idem) (use step True in simp)
          next
            case ne: False
            show thesis
            proof (cases "an_monotonic_ns c < an_monotonic_ns l")
              case True
              show thesis by (rule bad [OF exI]) (simp add: step True ne)
            next
              case ge: False
              show thesis
              proof (cases "project (an_utc a) (an_monotonic_ns c - an_monotonic_ns a)")
                case None
                show thesis by (rule bad [OF exI]) (simp add: step ne ge None)
              next
                case pr: (Some u)
                show thesis
                  by (rule against [OF Some l_def _ _ pol pr]) (use ok ge in \<open>simp_all add: step ne pr\<close>)
              qed
            qed
          qed
        qed
      qed
    qed
  qed
  then show ?thesis
  proof cases
    case bad
    then show ?thesis using rejected by blast
  next
    case none
    then show ?thesis by (rule first)
  next
    case idem
    then show ?thesis by (rule same)
  next
    case (against a l u)
    let ?d = "timedelta_to_ns \<bar>dt_us (an_utc c) - dt_us u\<bar>"
    have step: "consider_anchor k c p = (if an_monotonic_ns c - an_monotonic_ns l > max_anchor_interval_ns p
          \<and> ?d > max_reacquire_disagreement_ns p then rejected k CONFLICT (Some ?d)
        else if an_monotonic_ns c - an_monotonic_ns l > max_anchor_interval_ns p
        then settled \<lparr>anchor = Some c, latest_confirmation = Some c, latest_disagreement_ns = Some ?d\<rparr> REACQUIRED (Some ?d)
        else if ?d > allowed_disagreement p a c then rejected k CONFLICT (Some ?d)
        else if an_monotonic_ns c = an_monotonic_ns l then settled k IDEMPOTENT (Some ?d)
        else settled (k\<lparr>latest_confirmation := Some c, latest_disagreement_ns := Some ?d\<rparr>) CONFIRMED (Some ?d))"
      using against(7) unfolding consider_against_def Let_def .
    show ?thesis
    proof (cases "an_monotonic_ns c - an_monotonic_ns l > max_anchor_interval_ns p")
      case True
      with step rejected reacquired [OF against(1,2,3) True against(5,6) refl] show ?thesis
        by (cases "?d > max_reacquire_disagreement_ns p") auto
    next
      case False
      with step rejected same confirmed [OF against(1,2,3) _ _ against(6) refl] against(4) show ?thesis
        by (cases "?d > allowed_disagreement p a c"; cases "an_monotonic_ns c = an_monotonic_ns l") auto
    qed
  qed
qed

section \<open>The clock over a sequence of observations\<close>

definition consider_all :: "AnchorPolicy \<Rightarrow> MonotonicUtcClock \<Rightarrow> AnchorCandidate list \<Rightarrow> MonotonicUtcClock" where
  "consider_all p k cs = foldl (\<lambda>k c. ao_clock (consider_anchor k c p)) k cs"

lemma outcome_simps [simp]:
  "ao_clock (rejected k e d) = k" "ao_status (rejected k e d) = REJECTED"
  "ao_clock (settled k st d) = k" "ao_status (settled k st d) = st"
  "ao_disagreement_ns (settled k st d) = d" "ao_error (settled k st d) = None"
  by (simp_all add: rejected_def settled_def)

lemma validate_policyD:
  "validate_policy p = None \<Longrightarrow> 0 \<le> max_anchor_interval_ns p \<and> 0 \<le> oscillator_uncertainty_ppb p \<and> 0 \<le> max_conflict_ns p"
  by (auto simp: validate_policy_def split: if_splits)

lemma clock_ok_latest:
  "clock_ok p k \<Longrightarrow> anchor k = Some a \<Longrightarrow> \<exists>l. latest_confirmation k = Some l \<and> anchor_ok p a \<and> anchor_ok p l
     \<and> an_monotonic_ns a \<le> an_monotonic_ns l"
  by (auto simp: clock_ok_def split: option.splits)

lemma clock_ok_fresh: "clock_ok p k \<Longrightarrow> anchor k = None \<Longrightarrow> latest_confirmation k = None"
  by (auto simp: clock_ok_def split: option.splits)

text \<open>What one observation may do to a well-formed clock.\<close>

definition lawful_step :: "AnchorPolicy \<Rightarrow> MonotonicUtcClock \<Rightarrow> AnchorCandidate \<Rightarrow> bool" where
  "lawful_step p k c =
     (let ob = consider_anchor k c p; k' = ao_clock ob
      in latest_ns k \<le> latest_ns k'
       \<and> (\<not> accepted ob \<or> ao_status ob = IDEMPOTENT \<longrightarrow> k' = k)
       \<and> (ao_status ob = ACCEPTED \<longleftrightarrow> anchor k = None \<and> accepted ob)
       \<and> (ao_status ob \<noteq> ACCEPTED \<and> ao_status ob \<noteq> REACQUIRED \<longrightarrow> anchor k' = anchor k)
       \<and> (ao_status ob = REACQUIRED \<longrightarrow> anchor k' = Some c \<and> latest_ns k + max_anchor_interval_ns p < latest_ns k'
            \<and> (\<exists>d. ao_disagreement_ns ob = Some d \<and> d \<le> max_reacquire_disagreement_ns p)))"

lemma lawful_step_rejected: "consider_anchor k c p = rejected k e d \<Longrightarrow> lawful_step p k c"
  by (simp add: lawful_step_def Let_def accepted_def)

lemma consider_anchor_lawful:
  assumes ok: "clock_ok p k"
  shows "clock_ok p (ao_clock (consider_anchor k c p)) \<and> lawful_step p k c"
proof (cases rule: consider_anchor_cases [of k c p])
  case (rejected e d)
  with ok show ?thesis by (simp add: lawful_step_rejected)
next
  case first
  with clock_ok_fresh [OF ok] show ?thesis
    by (simp add: lawful_step_def Let_def accepted_def clock_ok_def latest_ns_def anchor_ok_def)
next
  case (same d)
  have "anchor k \<noteq> None"
    using same by (auto simp: consider_anchor_def rejected_def settled_def split: option.splits sum.splits)
  with same ok show ?thesis
    by (simp add: lawful_step_def Let_def accepted_def)
next
  case (reacquired a l u d)
  from clock_ok_latest [OF ok reacquired(1)] reacquired(2)
  have l: "latest_confirmation k = Some l" by auto
  from reacquired l validate_policyD [OF reacquired(5)] show ?thesis
    by (simp add: lawful_step_def Let_def accepted_def clock_ok_def latest_ns_def)
next
  case (confirmed a l u d)
  from clock_ok_latest [OF ok confirmed(1)] confirmed(2)
  have l: "latest_confirmation k = Some l" "anchor_ok p a" "an_monotonic_ns a \<le> an_monotonic_ns l" by auto
  from confirmed l show ?thesis
    by (simp add: lawful_step_def Let_def accepted_def clock_ok_def latest_ns_def)
qed

lemma consider_all_ok: "clock_ok p k \<Longrightarrow> clock_ok p (consider_all p k cs)"
  unfolding consider_all_def by (induction cs arbitrary: k) (simp_all add: consider_anchor_lawful)

lemma clock_ok_empty [simp]: "clock_ok p empty_clock"
  by (simp add: clock_ok_def empty_clock_def)

lemma project_in_range: "us_in_range (dt_us d + delta div 1000) \<Longrightarrow> \<exists>u. project d delta = Some u"
proof -
  assume r: "us_in_range (dt_us d + delta div 1000)"
  define q r where "q = delta div 1000000000" and "r = delta mod 1000000000"
  have "delta = r + q * 1000000 * 1000"
    unfolding q_def r_def by simp
  then have "delta div 1000 = q * 1000000 + r div 1000"
    by (metis add.commute div_mult_self1 zero_neq_numeral)
  with r show ?thesis
    by (simp add: project_def NANOSECONDS_PER_SECOND_def Let_def q_def r_def add.assoc)
qed

lemma convert_estimate:
  assumes "convert k m p = Inr e"
  shows "\<exists>a. anchor k = Some a \<and> 0 \<le> m \<and> \<bar>m - an_monotonic_ns a\<bar> \<le> max_projection_ns p
     \<and> dt_us (te_utc e) = dt_us (an_utc a) + (m - an_monotonic_ns a) div 1000
     \<and> dt_offset (te_utc e) = dt_offset (an_utc a) \<and> us_in_range (dt_us (te_utc e))
     \<and> te_uncertainty_ns e = an_uncertainty_ns a
          + \<bar>m - an_monotonic_ns a\<bar> * oscillator_uncertainty_ppb p div NANOSECONDS_PER_SECOND
     \<and> te_source e = an_source a \<and> te_provenance e = an_provenance a \<and> te_quality e = GPS_ANCHORED"
  using assms
  by (auto simp: convert_def Let_def split: option.splits if_splits dest!: project_us)

lemma floor_difference: "\<bar>(y div 1000 - x div 1000) * 1000 - (y - x)\<bar> < (1000 :: int)"
proof -
  have bound: "\<bar>(q - q') * 1000 - (y - x)\<bar> < 1000"
    if "y = q * 1000 + s" "x = q' * 1000 + s'" "0 \<le> s" "s < 1000" "0 \<le> s'" "s' < 1000" for q q' s s' :: int
  proof -
    have "(q - q') * 1000 - (y - x) = s' - s"
      unfolding that(1,2) by (simp add: left_diff_distrib)
    with that(3-) show ?thesis by (simp add: abs_less_iff)
  qed
  show ?thesis
    by (rule bound [of _ "y mod 1000" _ "x mod 1000"]) simp_all
qed

section \<open>Properties\<close>

text \<open>
  C22: Over any sequence of observations offered to an empty clock, the stored anchor and latest
  confirmation stay valid under the policy and ordered; the latest monotonic time never goes back;
  a rejected or repeated observation changes nothing; the first accepted observation becomes the
  anchor; and afterwards the anchor, and with it every conversion, changes only by a reacquisition,
  after more than the configured interval and with a disagreement within its bound.
\<close>

theorem clock_anchor_is_stable:
  assumes k: "k = consider_all p empty_clock cs" and k': "k' = ao_clock (consider_anchor k c p)"
    and st: "st = ao_status (consider_anchor k c p)"
  shows "clock_ok p k \<and> clock_ok p k' \<and> latest_ns k \<le> latest_ns k'
    \<and> (st \<in> {REJECTED, IDEMPOTENT} \<longrightarrow> k' = k)
    \<and> (st = ACCEPTED \<longleftrightarrow> anchor k = None \<and> st \<noteq> REJECTED)
    \<and> (st \<notin> {ACCEPTED, REACQUIRED} \<longrightarrow> (\<forall>m. convert k' m p = convert k m p))
    \<and> (st = REACQUIRED \<longrightarrow> anchor k' = Some c \<and> latest_ns k + max_anchor_interval_ns p < latest_ns k'
        \<and> (\<exists>d. ao_disagreement_ns (consider_anchor k c p) = Some d \<and> d \<le> max_reacquire_disagreement_ns p))"
proof -
  have ok: "clock_ok p k"
    unfolding k by (rule consider_all_ok) simp
  note step = consider_anchor_lawful [OF ok, of c, unfolded lawful_step_def Let_def accepted_def, folded k' st]
  have "convert k' m p = convert k m p" if "anchor k' = anchor k" for m
    using that by (simp add: convert_def)
  with ok step show ?thesis by blast
qed

text \<open>
  A GPS observation that is valid under the policy, not older than the latest one, within the
  continuity interval, and within the conflict bound of the time predicted from the anchor is never
  refused, and never moves the anchor.
\<close>

theorem consistent_observation_is_accepted:
  assumes "k = consider_all p empty_clock cs" and "anchor k = Some a"
    and "validate_policy p = None" and "validate_candidate c p = Inr c"
    and "latest_ns k \<le> an_monotonic_ns c" and "an_monotonic_ns c \<le> latest_ns k + max_anchor_interval_ns p"
    and "project (an_utc a) (an_monotonic_ns c - an_monotonic_ns a) = Some u"
    and "\<bar>dt_us (an_utc c) - dt_us u\<bar> * 1000 \<le> max_conflict_ns p"
  shows "accepted (consider_anchor k c p) \<and> anchor (ao_clock (consider_anchor k c p)) = Some a
    \<and> latest_ns (ao_clock (consider_anchor k c p)) = an_monotonic_ns c"
proof -
  have "clock_ok p k"
    unfolding assms(1) by (rule consider_all_ok) simp
  from clock_ok_latest [OF this assms(2)] obtain l where l: "latest_confirmation k = Some l" "anchor_ok p a"
      "anchor_ok p l" "an_monotonic_ns a \<le> an_monotonic_ns l" by blast
  have cok: "anchor_ok p c"
    using validate_candidateD [OF assms(4)] by simp
  have "0 \<le> \<bar>an_monotonic_ns c - an_monotonic_ns a\<bar> * oscillator_uncertainty_ppb p div NANOSECONDS_PER_SECOND"
    using validate_policyD [OF assms(3)] by (simp add: NANOSECONDS_PER_SECOND_def pos_imp_zdiv_nonneg_iff)
  with cok l assms(8) have allowed: "timedelta_to_ns \<bar>dt_us (an_utc c) - dt_us u\<bar> \<le> allowed_disagreement p a c"
    by (simp add: allowed_disagreement_def timedelta_to_ns_def anchor_ok_def)
  have "consider_anchor k c p = (if c = l then settled k IDEMPOTENT (Some 0) else consider_against k p a l c u)"
    using assms l by (simp add: consider_anchor_def latest_ns_def)
  with allowed assms l show ?thesis
    by (simp add: consider_against_def Let_def latest_ns_def accepted_def)
qed

text \<open>
  Conversion is a clock: a converted instant lies within the projection bound of the anchor and
  in the calendar's range, later monotonic times never convert to earlier instants, differences of
  converted instants follow the monotonic difference to less than a microsecond, at the anchor's own
  time the anchor is returned, and the uncertainty is never below the anchor's.
\<close>

theorem conversion_follows_monotonic_time:
  assumes "k = consider_all p empty_clock cs" and "validate_policy p = None" and "anchor k = Some a"
    and e: "convert k m p = Inr e" and e': "convert k m' p = Inr e'" and "m \<le> m'"
  shows "dt_us (te_utc e) \<le> dt_us (te_utc e')
    \<and> \<bar>(dt_us (te_utc e') - dt_us (te_utc e)) * 1000 - (m' - m)\<bar> < 1000
    \<and> (m = an_monotonic_ns a \<longrightarrow> te_utc e = an_utc a \<and> te_uncertainty_ns e = an_uncertainty_ns a)
    \<and> an_uncertainty_ns a \<le> te_uncertainty_ns e \<and> te_uncertainty_ns e
        \<le> max_uncertainty_ns p + max_projection_ns p * oscillator_uncertainty_ppb p div NANOSECONDS_PER_SECOND"
proof -
  have "clock_ok p k"
    unfolding assms(1) by (rule consider_all_ok) simp
  from clock_ok_latest [OF this assms(3)] have aok: "anchor_ok p a" by blast
  note ce = convert_estimate [OF e] and ce' = convert_estimate [OF e']
  let ?d = "m - an_monotonic_ns a" and ?d' = "m' - an_monotonic_ns a"
  have us: "dt_us (te_utc e) = dt_us (an_utc a) + ?d div 1000" "dt_us (te_utc e') = dt_us (an_utc a) + ?d' div 1000"
    and off: "dt_offset (te_utc e) = dt_offset (an_utc a)" and b: "\<bar>?d\<bar> \<le> max_projection_ns p"
    and unc: "te_uncertainty_ns e = an_uncertainty_ns a + \<bar>?d\<bar> * oscillator_uncertainty_ppb p div NANOSECONDS_PER_SECOND"
    using ce ce' assms(3) by auto
  have osc: "0 \<le> oscillator_uncertainty_ppb p"
    using validate_policyD [OF assms(2)] by simp
  have diff: "\<bar>(?d' div 1000 - ?d div 1000) * 1000 - (m' - m)\<bar> < 1000"
    using floor_difference [of ?d' ?d] by simp
  have mono: "?d div 1000 \<le> ?d' div 1000"
    using assms(6) by (intro zdiv_mono1) auto
  have exact: "te_utc e = an_utc a" if "m = an_monotonic_ns a"
    using that us(1) off by (simp add: datetime.equality)
  have "0 \<le> \<bar>?d\<bar> * oscillator_uncertainty_ppb p div NANOSECONDS_PER_SECOND"
    using osc by (simp add: NANOSECONDS_PER_SECOND_def pos_imp_zdiv_nonneg_iff)
  moreover have "\<bar>?d\<bar> * oscillator_uncertainty_ppb p div NANOSECONDS_PER_SECOND
      \<le> max_projection_ns p * oscillator_uncertainty_ppb p div NANOSECONDS_PER_SECOND"
    using osc b by (intro zdiv_mono1 mult_right_mono) (auto simp: NANOSECONDS_PER_SECOND_def)
  ultimately show ?thesis
    using us mono diff exact unc aok by (simp add: anchor_ok_def)
qed

text \<open>
  GPS time is reported as valid exactly while the latest accepted observation is at most the
  configured age old; without any it is unsynced, and in every other case it is stale. A reported
  stale or unsynced state never removes the anchor.
\<close>

theorem gps_time_valid_iff_fresh:
  assumes "validate_policy p = None" and "k = consider_all p empty_clock cs"
  shows "(gps_time_state k now p = GPS_TIME_VALID
      \<longleftrightarrow> anchor k \<noteq> None \<and> latest_ns k \<le> now \<and> now \<le> latest_ns k + gps_stale_after_ns p)
    \<and> (gps_time_state k now p = UNSYNCED \<longleftrightarrow> timestamp_quality k = MONOTONIC_ONLY)
    \<and> (timestamp_quality k = GPS_ANCHORED \<longleftrightarrow> (\<forall>m. convert k m p \<noteq> Inl NO_ANCHOR))"
proof -
  have ok: "clock_ok p k"
    unfolding assms(2) by (rule consider_all_ok) simp
  have "0 \<le> gps_stale_after_ns p"
    using assms(1) by (auto simp: validate_policy_def split: if_splits)
  with ok show ?thesis
    by (cases "anchor k"; cases "latest_confirmation k")
      (auto simp: gps_time_state_def gps_age_ns_def latest_ns_def clock_ok_def timestamp_quality_def convert_def Let_def
        split: option.splits)
qed

section \<open>Witnesses\<close>

definition sample_utc :: "int \<Rightarrow> datetime" where
  "sample_utc us = \<lparr>dt_us = us, dt_offset = Some 0\<rparr>"

definition sample_policy :: AnchorPolicy where
  "sample_policy = \<lparr>earliest_utc = sample_utc 1000, latest_utc = sample_utc 100000000000000, max_uncertainty_ns = 5000000000,
     max_conflict_ns = 2000000000, max_reacquire_disagreement_ns = 5000000000,
     max_anchor_interval_ns = 86400000000000, max_projection_ns = 1209600000000000,
     gps_stale_after_ns = 5000000000, oscillator_uncertainty_ppb = 100000\<rparr>"

definition sample_fix :: "int \<Rightarrow> int \<Rightarrow> AnchorCandidate" where
  "sample_fix m us = \<lparr>an_monotonic_ns = m, an_utc = sample_utc us, an_source = GPS_RMC_VALID,
     an_provenance = ''RMC'', an_uncertainty_ns = 1000000000\<rparr>"

lemmas sample_defs = sample_utc_def sample_policy_def sample_fix_def

lemma sample_policy_valid: "validate_policy sample_policy = None"
  by (simp add: validate_policy_def sample_defs)

lemma sample_fix_valid:
  "0 \<le> m \<Longrightarrow> 1000 \<le> us \<Longrightarrow> us \<le> 100000000000000 \<Longrightarrow> validate_candidate (sample_fix m us) sample_policy = Inr (sample_fix m us)"
  by (simp add: validate_candidate_def sample_defs MAX_PROVENANCE_CHARS_def) code_simp

lemma sample_first:
  "consider_all sample_policy empty_clock [sample_fix 1000000000 60000000]
   = \<lparr>anchor = Some (sample_fix 1000000000 60000000), latest_confirmation = Some (sample_fix 1000000000 60000000),
      latest_disagreement_ns = Some 0\<rparr>"
  by (simp add: consider_all_def consider_anchor_def sample_policy_valid sample_fix_valid empty_clock_def settled_def)

lemma sample_second:
  "consider_anchor (consider_all sample_policy empty_clock [sample_fix 1000000000 60000000])
     (sample_fix 2000000000 61000000) sample_policy
   = settled \<lparr>anchor = Some (sample_fix 1000000000 60000000), latest_confirmation = Some (sample_fix 2000000000 61000000),
      latest_disagreement_ns = Some 0\<rparr> CONFIRMED (Some 0)"
  unfolding sample_first
  by (simp add: consider_anchor_def sample_policy_valid sample_fix_valid)
    (simp add: sample_defs consider_against_def project_def NANOSECONDS_PER_SECOND_def us_in_range_def MAX_US_def
      timedelta_to_ns_def allowed_disagreement_def)

theorem clock_anchor_is_stable_witness:
  "latest_ns (consider_all sample_policy empty_clock [sample_fix 1000000000 60000000])
     \<le> latest_ns (ao_clock (consider_anchor (consider_all sample_policy empty_clock [sample_fix 1000000000 60000000])
          (sample_fix 2000000000 61000000) sample_policy))"
  using clock_anchor_is_stable [of _ sample_policy "[sample_fix 1000000000 60000000]" _ "sample_fix 2000000000 61000000",
      OF refl refl refl] by (elim conjE)

theorem consistent_observation_is_accepted_witness:
  "accepted (consider_anchor (consider_all sample_policy empty_clock [sample_fix 1000000000 60000000])
     (sample_fix 2000000000 61000000) sample_policy)"
  using consistent_observation_is_accepted [OF refl, of sample_policy "[sample_fix 1000000000 60000000]"
      "sample_fix 1000000000 60000000" "sample_fix 2000000000 61000000" "sample_utc 61000000"]
  unfolding sample_first
  by (simp add: sample_policy_valid sample_fix_valid latest_ns_def)
    (simp add: sample_defs project_def NANOSECONDS_PER_SECOND_def us_in_range_def MAX_US_def)

lemma sample_convert:
  "convert (consider_all sample_policy empty_clock [sample_fix 1000000000 60000000]) 1000000000 sample_policy
   = Inr \<lparr>te_utc = sample_utc 60000000, te_quality = GPS_ANCHORED, te_source = GPS_RMC_VALID, te_provenance = ''RMC'',
       te_uncertainty_ns = 1000000000\<rparr>"
  "convert (consider_all sample_policy empty_clock [sample_fix 1000000000 60000000]) 2000001999 sample_policy
   = Inr \<lparr>te_utc = sample_utc 61000001, te_quality = GPS_ANCHORED, te_source = GPS_RMC_VALID, te_provenance = ''RMC'',
       te_uncertainty_ns = 1000100000\<rparr>"
  unfolding sample_first
  by (simp_all add: convert_def sample_defs project_def NANOSECONDS_PER_SECOND_def us_in_range_def MAX_US_def)

theorem conversion_follows_monotonic_time_witness:
  "dt_us (sample_utc 60000000) \<le> dt_us (sample_utc 61000001)"
  using conversion_follows_monotonic_time [OF refl sample_policy_valid _ sample_convert, of "sample_fix 1000000000 60000000"]
  unfolding sample_first by simp

theorem gps_time_valid_iff_fresh_witness:
  "gps_time_state (consider_all sample_policy empty_clock [sample_fix 1000000000 60000000]) 6000000000 sample_policy
     = GPS_TIME_VALID"
  using gps_time_valid_iff_fresh [OF sample_policy_valid, of _ "[sample_fix 1000000000 60000000]" 6000000000, OF refl]
  unfolding sample_first by (simp add: latest_ns_def) (simp add: sample_defs)

end
