(* ===== verification/Space_Monitor.thy ===== *)
theory Space_Monitor
  imports Catalog_Ops Retention
begin

text \<open>
  Live free-space monitoring: \<^verbatim>\<open>src/dashcam/storage/space.py\<close>.

  \<^item> The observer is called outside the model: \<open>observe\<close> takes the value it returned or the
    exception it raised, and the reading of the monotonic clock.
  \<^item> The latch store (\<^verbatim>\<open>RetentionLatchStore\<close>) is a pair of operations \<open>load\<close> and \<open>store\<close> on a
    state that is threaded through; a failed call returns the exception and the state it left.
    The locale \<open>latch_store\<close> states what the monitor needs of it, and it is interpreted on the
    catalog's two operations with injected database failures.
  \<^item> \<^verbatim>\<open>StorageSpaceSnapshot\<close> keeps every field but \<^verbatim>\<open>free_percent\<close>, a floating-point rendering of
    \<^verbatim>\<open>free_bytes\<close> that no decision reads. The bounded serialisation \<^verbatim>\<open>as_dict\<close>, the construction
    from the configuration file and the \<^verbatim>\<open>statvfs\<close> observer are not modelled.
  \<^item> Every operation runs under the monitor's lock, so operations are atomic steps.
\<close>

section \<open>Data\<close>

datatype SpaceObservationFault = OBSERVATION_FAILED | INVALID_OBSERVATION | OBSERVATION_STALE
  | IDENTITY_DRIFT | CAPACITY_DRIFT | LATCH_LOAD_FAILED | LATCH_BINDING_MISMATCH
  | LATCH_STORE_FAILED | NO_SPACE_WRITE

record FilesystemSpaceObservation =
  device_id :: string
  ob_capacity_bytes :: int
  free_bytes :: int

record RetentionDirective =
  rd_mode :: RetentionMode
  target_free_bytes :: int
  requested_reclaim_bytes :: int
  emergency :: bool
  protected_deletion_allowed :: bool

record StorageSpaceSnapshot =
  ss_sequence :: int
  ss_mode :: "RetentionMode option"
  ss_fault :: "SpaceObservationFault option"
  ss_trigger :: "string option"
  stale :: bool
  stop_required :: bool
  reclaimer_enabled :: bool
  consecutive_observation_failures :: int
  sample_age_ns :: "int option"
  ss_volume_uuid :: string
  ss_device_id :: string
  ss_capacity_bytes :: int
  ss_free_bytes :: "int option"
  ss_thresholds :: ResolvedThresholds
  ss_directive :: "RetentionDirective option"

text \<open>The fields set once by the constructor, and those the operations change.\<close>

record monitor_config =
  mc_volume_uuid :: string
  expected_device_id :: string
  expected_capacity_bytes :: int
  maximum_observation_failures :: int
  reclaimer_available :: bool
  resolved :: ResolvedThresholds

record StorageSpaceMonitor =
  config :: monitor_config
  controller :: "StorageThresholdController option"
  sm_sequence :: int
  observation_failures :: int
  latched_fault :: "SpaceObservationFault option"
  last_success_ns :: "int option"
  last_snapshot :: StorageSpaceSnapshot

section \<open>Validation\<close>

definition MAX_BYTES :: int where
  "MAX_BYTES = 9223372036854775807"

text \<open>\<^verbatim>\<open>str.isprintable\<close> on the characters up to 255: no control character, no-break space or soft hyphen.\<close>

definition printable_char :: "char \<Rightarrow> bool" where
  "printable_char c = (code_between 32 126 c \<or> code_between 161 255 c \<and> \<not> code_between 173 173 c)"

definition bounded_identity :: "string \<Rightarrow> string result" where
  "bounded_identity s =
     (if s = [] \<or> length s > 128 \<or> \<not> list_all printable_char s then Inl ValueError else Inr s)"

definition is_decimal_text :: "string \<Rightarrow> bool" where
  "is_decimal_text s = (s \<noteq> [] \<and> list_all is_digit s)"

definition validate_device_id :: "string \<Rightarrow> string result" where
  "validate_device_id s = bindR (bounded_identity s) (\<lambda>text.
     let major = takeWhile (\<lambda>c. c \<noteq> CHR '':'') text;
         rest = dropWhile (\<lambda>c. c \<noteq> CHR '':'') text;
         minor = drop 1 rest
     in if rest = [] \<or> \<not> is_decimal_text major \<or> \<not> is_decimal_text minor then Inl ValueError
        else if dec_value major > 2 ^ 32 - 1 \<or> dec_value minor > 2 ^ 32 - 1 then Inl ValueError
        else Inr text)"

definition bounded_bytes :: "int \<Rightarrow> int result" where
  "bounded_bytes n = (if \<not> (0 \<le> n \<and> n \<le> MAX_BYTES) then Inl ValueError else Inr n)"

definition positive_bytes :: "int \<Rightarrow> int result" where
  "positive_bytes n = bindR (bounded_bytes n) (\<lambda>r. if r = 0 then Inl ValueError else Inr r)"

definition valid_observation :: "FilesystemSpaceObservation \<Rightarrow> bool" where
  "valid_observation v =
     (is_ok (bindR (validate_device_id (device_id v)) (\<lambda>_.
        bindR (positive_bytes (ob_capacity_bytes v)) (\<lambda>_. bounded_bytes (free_bytes v))))
      \<and> free_bytes v \<le> ob_capacity_bytes v)"

section \<open>Publishing\<close>

definition directive_for :: "RetentionMode \<Rightarrow> int option \<Rightarrow> int \<Rightarrow> RetentionDirective option" where
  "directive_for m free target =
     (if m = NORMAL then None
      else Some \<lparr>rd_mode = m, target_free_bytes = target,
        requested_reclaim_bytes = (case free of None \<Rightarrow> 0 | Some n \<Rightarrow> max (target - n) 0),
        emergency = (m = EMERGENCY), protected_deletion_allowed = False\<rparr>)"

definition mk_snapshot :: "monitor_config \<Rightarrow> int \<Rightarrow> int \<Rightarrow> RetentionMode option \<Rightarrow> SpaceObservationFault option
    \<Rightarrow> string option \<Rightarrow> bool \<Rightarrow> bool \<Rightarrow> int option \<Rightarrow> RetentionDirective option \<Rightarrow> StorageSpaceSnapshot" where
  "mk_snapshot cfg seq failures m fault trigger is_stale stop free dir =
     \<lparr>ss_sequence = seq, ss_mode = m, ss_fault = fault, ss_trigger = trigger, stale = is_stale,
      stop_required = stop, reclaimer_enabled = reclaimer_available cfg,
      consecutive_observation_failures = failures, sample_age_ns = None,
      ss_volume_uuid = mc_volume_uuid cfg, ss_device_id = expected_device_id cfg,
      ss_capacity_bytes = expected_capacity_bytes cfg, ss_free_bytes = free,
      ss_thresholds = resolved cfg, ss_directive = dir\<rparr>"

definition publish :: "RetentionMode option \<Rightarrow> SpaceObservationFault option \<Rightarrow> string option \<Rightarrow> bool \<Rightarrow> bool
    \<Rightarrow> int option \<Rightarrow> RetentionDirective option \<Rightarrow> StorageSpaceMonitor \<Rightarrow> StorageSpaceMonitor" where
  "publish m fault trigger is_stale stop free dir sm =
     (let sm' = sm\<lparr>sm_sequence := sm_sequence sm + 1\<rparr>
      in sm'\<lparr>last_snapshot := mk_snapshot (config sm) (sm_sequence sm') (observation_failures sm)
               m fault trigger is_stale stop free dir\<rparr>)"

definition publish_fault :: "SpaceObservationFault \<Rightarrow> bool \<Rightarrow> StorageSpaceMonitor \<Rightarrow> StorageSpaceMonitor" where
  "publish_fault fault immediate_stop sm =
     publish (map_option mode (controller sm)) (Some fault) (ss_trigger (last_snapshot sm)) True
       immediate_stop (ss_free_bytes (last_snapshot sm)) None sm"

definition latch_fault :: "SpaceObservationFault \<Rightarrow> StorageSpaceMonitor \<Rightarrow> StorageSpaceMonitor" where
  "latch_fault fault sm = publish_fault fault True (sm\<lparr>latched_fault := Some fault\<rparr>)"

definition observation_failure :: "SpaceObservationFault \<Rightarrow> StorageSpaceMonitor \<Rightarrow> StorageSpaceMonitor" where
  "observation_failure fault sm =
     (let sm' = sm\<lparr>observation_failures := observation_failures sm + 1\<rparr>;
          expired = (observation_failures sm' \<ge> maximum_observation_failures (config sm'))
      in publish_fault (if expired then OBSERVATION_STALE else fault) expired sm')"

section \<open>The monitor\<close>

definition mk_monitor :: "string \<Rightarrow> string \<Rightarrow> int \<Rightarrow> StorageThresholds \<Rightarrow> int \<Rightarrow> bool \<Rightarrow> StorageSpaceMonitor result" where
  "mk_monitor vol dev cap th max_failures available =
     bindR (bounded_identity vol) (\<lambda>_. bindR (validate_device_id dev) (\<lambda>_. bindR (positive_bytes cap) (\<lambda>_.
     if \<not> (1 \<le> max_failures \<and> max_failures \<le> 60) then Inl ValueError
     else bindR (resolve th cap) (\<lambda>r.
       let cfg = \<lparr>mc_volume_uuid = vol, expected_device_id = dev, expected_capacity_bytes = cap,
             maximum_observation_failures = max_failures, reclaimer_available = available, resolved = r\<rparr>
       in Inr \<lparr>config = cfg, controller = None, sm_sequence = 0, observation_failures = 0,
            latched_fault = None, last_success_ns = None,
            last_snapshot = mk_snapshot cfg 0 0 None None None True False None None\<rparr>))))"

definition snapshot_at :: "StorageSpaceMonitor \<Rightarrow> int \<Rightarrow> StorageSpaceSnapshot" where
  "snapshot_at sm now = (case last_success_ns sm of None \<Rightarrow> last_snapshot sm
     | Some sampled \<Rightarrow> (last_snapshot sm)\<lparr>sample_age_ns := Some (max (now - sampled) 0)\<rparr>)"

definition latch_of :: "StorageSpaceMonitor \<Rightarrow> bool \<Rightarrow> RetentionThresholdLatch result" where
  "latch_of sm b = mk_latch (mc_volume_uuid (config sm)) (expected_capacity_bytes (config sm)) b"

definition latch_matches :: "StorageSpaceMonitor \<Rightarrow> RetentionThresholdLatch \<Rightarrow> bool result" where
  "latch_matches sm l = bindR (latch_of sm (reclaim_latched l)) (\<lambda>own. Inr (l = own))"

type_synonym 's latch_load = "'s \<Rightarrow> RetentionThresholdLatch option result \<times> 's"
type_synonym 's latch_save = "RetentionThresholdLatch \<Rightarrow> 's \<Rightarrow> unit result \<times> 's"

definition store_mode :: "'s latch_save \<Rightarrow> StorageSpaceMonitor \<Rightarrow> RetentionMode \<Rightarrow> 's \<Rightarrow> bool \<times> 's" where
  "store_mode save sm m s = (case latch_of sm (m \<noteq> NORMAL) of Inl _ \<Rightarrow> (False, s)
     | Inr l \<Rightarrow> (case save l s of (Inl _, s') \<Rightarrow> (False, s') | (Inr _, s') \<Rightarrow> (True, s')))"

text \<open>The controller of the first good observation: resumed from the durable latch.\<close>

datatype resume = FAULT SpaceObservationFault | RAISE exn | RESUME StorageThresholdController

definition load_controller :: "'s latch_load \<Rightarrow> StorageSpaceMonitor \<Rightarrow> 's \<Rightarrow> resume \<times> 's" where
  "load_controller load sm s = (case load s of
       (Inl _, s') \<Rightarrow> (FAULT LATCH_LOAD_FAILED, s')
     | (Inr None, s') \<Rightarrow> (case mk_controller (resolved (config sm)) NORMAL of
          Inl e \<Rightarrow> (RAISE e, s') | Inr c \<Rightarrow> (RESUME c, s'))
     | (Inr (Some l), s') \<Rightarrow> (case latch_matches sm l of Inl e \<Rightarrow> (RAISE e, s') | Inr ok \<Rightarrow>
          if \<not> ok then (FAULT LATCH_BINDING_MISMATCH, s')
          else (case mk_controller (resolved (config sm)) (if reclaim_latched l then RECLAIMING else NORMAL) of
            Inl e \<Rightarrow> (RAISE e, s') | Inr c \<Rightarrow> (RESUME c, s'))))"

text \<open>
  The part of \<^verbatim>\<open>_observe_locked\<close> after the controller is known. The controller object is
  shared: evaluating changes its mode, and a failed store puts the previous mode back.
\<close>

definition evaluate_and_publish :: "'s latch_save \<Rightarrow> StorageThresholdController \<Rightarrow> int
    \<Rightarrow> StorageSpaceMonitor \<Rightarrow> 's \<Rightarrow> StorageSpaceSnapshot result \<times> StorageSpaceMonitor \<times> 's" where
  "evaluate_and_publish save ctl free sm s = (case evaluate ctl free False of Inl e \<Rightarrow> (Inl e, sm, s)
     | Inr (m, ctl') \<Rightarrow>
       let (stored, s') = (if m = mode ctl then (True, s) else store_mode save sm m s)
       in if \<not> stored
          then let sm' = latch_fault LATCH_STORE_FAILED (sm\<lparr>controller := Some (ctl'\<lparr>mode := mode ctl\<rparr>)\<rparr>)
               in (Inr (last_snapshot sm'), sm', s')
          else let sm' = publish (Some m) None (if m = NORMAL then None else ss_trigger (last_snapshot sm)) False
                   (m = EMERGENCY \<and> \<not> reclaimer_available (config sm)) (Some free)
                   (directive_for m (Some free) (stop_deletion_at_bytes (resolved (config sm))))
                   (sm\<lparr>controller := Some ctl'\<rparr>)
               in (Inr (last_snapshot sm'), sm', s'))"

definition observe :: "'s latch_load \<Rightarrow> 's latch_save \<Rightarrow> FilesystemSpaceObservation result \<Rightarrow> int
    \<Rightarrow> StorageSpaceMonitor \<Rightarrow> 's \<Rightarrow> StorageSpaceSnapshot result \<times> StorageSpaceMonitor \<times> 's" where
  "observe load save observed now sm s =
     (let done_with = (\<lambda>sm' s'. (Inr (last_snapshot sm'), sm', s'))
      in case latched_fault sm of Some f \<Rightarrow> done_with (publish_fault f True sm) s
      | None \<Rightarrow> (case observed of Inl _ \<Rightarrow> done_with (observation_failure OBSERVATION_FAILED sm) s
      | Inr ob \<Rightarrow>
          if \<not> valid_observation ob then done_with (observation_failure INVALID_OBSERVATION sm) s
          else if device_id ob \<noteq> expected_device_id (config sm) then done_with (latch_fault IDENTITY_DRIFT sm) s
          else if ob_capacity_bytes ob \<noteq> expected_capacity_bytes (config sm)
          then done_with (latch_fault CAPACITY_DRIFT sm) s
          else let sm1 = sm\<lparr>observation_failures := 0, last_success_ns := Some now\<rparr>
          in case controller sm1 of Some ctl \<Rightarrow> evaluate_and_publish save ctl (free_bytes ob) sm1 s
          | None \<Rightarrow> (case load_controller load sm1 s of
              (FAULT f, s') \<Rightarrow> done_with (latch_fault f sm1) s'
            | (RAISE e, s') \<Rightarrow> (Inl e, sm1, s')
            | (RESUME ctl, s') \<Rightarrow> evaluate_and_publish save ctl (free_bytes ob) (sm1\<lparr>controller := Some ctl\<rparr>) s')))"

definition note_no_space_write :: "'s latch_save \<Rightarrow> StorageSpaceMonitor \<Rightarrow> 's
    \<Rightarrow> StorageSpaceSnapshot result \<times> StorageSpaceMonitor \<times> 's" where
  "note_no_space_write save sm s =
     (case (case controller sm of Some c \<Rightarrow> Inr c | None \<Rightarrow> mk_controller (resolved (config sm)) NORMAL) of
        Inl e \<Rightarrow> (Inl e, sm, s)
      | Inr ctl \<Rightarrow>
        (let free = ss_free_bytes (last_snapshot sm)
         in case evaluate ctl (case free of None \<Rightarrow> 0 | Some n \<Rightarrow> n) True of Inl e \<Rightarrow> (Inl e, sm, s)
         | Inr (_, ctl') \<Rightarrow>
           (case store_mode save sm (mode ctl') s of
              (False, s') \<Rightarrow>
                let sm' = latch_fault LATCH_STORE_FAILED
                      (if controller sm = None then sm else sm\<lparr>controller := Some (ctl'\<lparr>mode := mode ctl\<rparr>)\<rparr>)
                in (Inr (last_snapshot sm'), sm', s')
            | (True, s') \<Rightarrow>
                let sm' = publish (Some EMERGENCY) (Some NO_SPACE_WRITE) (Some ''NO_SPACE_WRITE'') (free = None) True
                      free (directive_for EMERGENCY free (stop_deletion_at_bytes (resolved (config sm))))
                      (sm\<lparr>controller := Some ctl'\<rparr>)
                in (Inr (last_snapshot sm'), sm', s'))))"

section \<open>Classifying write errors\<close>

text \<open>
  An exception is a node of a graph: its \<^verbatim>\<open>errno\<close> if it is an \<^verbatim>\<open>OSError\<close>, its \<^verbatim>\<open>__cause__\<close> and
  its \<^verbatim>\<open>__context__\<close>. Chains may be cyclic.
\<close>

record exception_node =
  en_errno :: "int option"
  en_cause :: "nat option"
  en_context :: "nat option"

definition ENOSPC :: int where "ENOSPC = 28"
definition EDQUOT :: int where "EDQUOT = 122"

definition no_space_node :: "exception_node \<Rightarrow> bool" where
  "no_space_node x = (en_errno x = Some ENOSPC \<or> en_errno x = Some EDQUOT)"

definition next_error :: "exception_node \<Rightarrow> nat option" where
  "next_error x = (case en_cause x of Some i \<Rightarrow> Some i | None \<Rightarrow> en_context x)"

fun enospc_loop :: "(nat \<Rightarrow> exception_node) \<Rightarrow> nat \<Rightarrow> nat option \<Rightarrow> nat set \<Rightarrow> bool" where
  "enospc_loop graph 0 current seen = False"
| "enospc_loop graph (Suc k) current seen = (case current of None \<Rightarrow> False
     | Some i \<Rightarrow> if i \<in> seen then False
         else if no_space_node (graph i) then True
         else enospc_loop graph k (next_error (graph i)) (insert i seen))"

definition contains_enospc :: "(nat \<Rightarrow> exception_node) \<Rightarrow> nat \<Rightarrow> bool" where
  "contains_enospc graph error = enospc_loop graph 8 (Some error) {}"

definition note_write_error :: "'s latch_save \<Rightarrow> (nat \<Rightarrow> exception_node) \<Rightarrow> nat \<Rightarrow> StorageSpaceMonitor \<Rightarrow> 's
    \<Rightarrow> bool result \<times> StorageSpaceMonitor \<times> 's" where
  "note_write_error save graph error sm s =
     (if \<not> contains_enospc graph error then (Inr False, sm, s)
      else case note_no_space_write save sm s of (Inl e, sm', s') \<Rightarrow> (Inl e, sm', s') | (Inr _, sm', s') \<Rightarrow> (Inr True, sm', s'))"

section \<open>The latch store as an interface\<close>

text \<open>
  What the monitor relies on: reading returns the latch and changes nothing, a successful save is
  durable, a failed save leaves the old latch. \<open>latched\<close> is the row on disk.
\<close>

locale latch_store =
  fixes load :: "'s \<Rightarrow> RetentionThresholdLatch option result \<times> 's"
    and save :: "RetentionThresholdLatch \<Rightarrow> 's \<Rightarrow> unit result \<times> 's"
    and latched :: "'s \<Rightarrow> RetentionThresholdLatch option"
  assumes load_returns: "load s = (Inr v, s') \<Longrightarrow> v = latched s"
    and load_keeps: "load s = (r, s') \<Longrightarrow> latched s' = latched s"
    and save_durable: "save l s = (Inr u, s') \<Longrightarrow> latched s' = Some l"
    and save_failed: "save l s = (Inl e, s') \<Longrightarrow> latched s' = latched s"

definition reclaim_bit :: "RetentionThresholdLatch option \<Rightarrow> bool" where
  "reclaim_bit l = (case l of None \<Rightarrow> False | Some x \<Rightarrow> reclaim_latched x)"

lemma reclaim_bit_simps [simp]: "reclaim_bit None = False" "reclaim_bit (Some l) = reclaim_latched l"
  by (simp_all add: reclaim_bit_def)

definition config_ok :: "monitor_config \<Rightarrow> bool" where
  "config_ok cfg = (thresholds_ok (resolved cfg) \<and> 1 \<le> maximum_observation_failures cfg
     \<and> (\<forall>b. mk_latch (mc_volume_uuid cfg) (expected_capacity_bytes cfg) b
          = Inr \<lparr>volume_uuid = mc_volume_uuid cfg, capacity_bytes = expected_capacity_bytes cfg, reclaim_latched = b\<rparr>))"

text \<open>The controller in memory agrees with the latch on disk.\<close>

definition in_step :: "RetentionThresholdLatch option \<Rightarrow> StorageSpaceMonitor \<Rightarrow> bool" where
  "in_step l sm = (case controller sm of None \<Rightarrow> True
     | Some c \<Rightarrow> thresholds c = resolved (config sm) \<and> (mode c \<noteq> NORMAL \<longleftrightarrow> reclaim_bit l))"

text \<open>The samples the policy has acted on, read off a published snapshot.\<close>

definition acted_on :: "StorageSpaceSnapshot \<Rightarrow> (int \<times> bool) list" where
  "acted_on snap = (case ss_fault snap of
       None \<Rightarrow> (case ss_free_bytes snap of Some n \<Rightarrow> [(n, False)] | None \<Rightarrow> [])
     | Some f \<Rightarrow> if f = NO_SPACE_WRITE then [(0, True)] else [])"

lemma publish_simps [simp]:
  "config (publish m f t st stp fr d sm) = config sm"
  "controller (publish m f t st stp fr d sm) = controller sm"
  "observation_failures (publish m f t st stp fr d sm) = observation_failures sm"
  "latched_fault (publish m f t st stp fr d sm) = latched_fault sm"
  "sm_sequence (publish m f t st stp fr d sm) = sm_sequence sm + 1"
  "ss_mode (last_snapshot (publish m f t st stp fr d sm)) = m"
  "ss_fault (last_snapshot (publish m f t st stp fr d sm)) = f"
  "ss_free_bytes (last_snapshot (publish m f t st stp fr d sm)) = fr"
  "ss_directive (last_snapshot (publish m f t st stp fr d sm)) = d"
  "stop_required (last_snapshot (publish m f t st stp fr d sm)) = stp"
  "ss_sequence (last_snapshot (publish m f t st stp fr d sm)) = sm_sequence sm + 1"
  by (simp_all add: publish_def mk_snapshot_def Let_def)

lemmas fault_defs = publish_fault_def latch_fault_def observation_failure_def Let_def

lemma in_step_cong:
  "config sm' = config sm \<Longrightarrow> controller sm' = controller sm \<Longrightarrow> in_step l sm' = in_step l sm"
  by (simp add: in_step_def cong: option.case_cong)

lemma latch_of_ok: "config_ok (config sm) \<Longrightarrow> latch_of sm b = Inr \<lparr>volume_uuid = mc_volume_uuid (config sm),
    capacity_bytes = expected_capacity_bytes (config sm), reclaim_latched = b\<rparr>"
  by (simp add: latch_of_def config_ok_def)

lemma mk_monitor_ok:
  assumes "mk_storage_thresholds lo hi mn em = Inr th" "mk_monitor vol dev cap th n avail = Inr sm"
  shows "config_ok (config sm) \<and> controller sm = None \<and> observation_failures sm = 0 \<and> latched_fault sm = None"
proof -
  have "thresholds_ok r" if "resolve th cap = Inr r" for r
    using resolve_ok [OF assms(1) that] by simp
  with assms(2) show ?thesis
    by (auto simp: mk_monitor_def bounded_identity_def positive_bytes_def bounded_bytes_def bindR_eq_Inr Let_def
        config_ok_def mk_latch_def non_negative_integer_def MAX_BYTES_def MAX_SQLITE_INTEGER_def split: if_splits)
qed

context latch_store
begin

lemma store_mode_cases:
  assumes "config_ok (config sm)" "store_mode save sm m s = (ok, s')"
  shows "if ok then reclaim_bit (latched s') = (m \<noteq> NORMAL) else latched s' = latched s"
  using assms save_durable save_failed
  by (fastforce simp: store_mode_def latch_of_ok split: prod.splits sum.splits)

lemma load_controller_cases:
  assumes cfg: "config_ok (config sm)" and l: "load_controller load sm s = (r, s')"
  shows "latched s' = latched s \<and> (\<forall>e. r \<noteq> RAISE e)
    \<and> (\<forall>c. r = RESUME c \<longrightarrow> thresholds c = resolved (config sm) \<and> (mode c \<noteq> NORMAL \<longleftrightarrow> reclaim_bit (latched s)))"
proof -
  obtain v s1 where v: "load s = (v, s1)" by (cases "load s")
  have mk: "mk_controller (resolved (config sm)) m = Inr \<lparr>thresholds = resolved (config sm), mode = m\<rparr>" for m
    using cfg by (simp add: mk_controller_eq_Inr config_ok_def)
  show ?thesis
    using l load_keeps [OF v] load_returns [of s _ s1] v cfg
    by (auto simp: load_controller_def mk latch_matches_def latch_of_ok split: sum.splits option.splits if_splits)
qed

lemma evaluate_and_publish_cases:
  assumes cfg: "config_ok (config sm)" and free: "0 \<le> free"
    and ctl: "thresholds ctl = resolved (config sm)" "mode ctl \<noteq> NORMAL \<longleftrightarrow> reclaim_bit (latched s)"
    and ev: "evaluate_and_publish save ctl free sm s = (r, sm', s')"
  obtains (fault) "r = Inr (last_snapshot sm')" "latched s' = latched s" "in_step (latched s') sm'"
      "latched_fault sm' = Some LATCH_STORE_FAILED" "ss_fault (last_snapshot sm') = Some LATCH_STORE_FAILED"
      "ss_directive (last_snapshot sm') = None" "stop_required (last_snapshot sm')" "config sm' = config sm"
  | (good) m where "r = Inr (last_snapshot sm')" "in_step (latched s') sm'" "latched_fault sm' = latched_fault sm"
      "ss_fault (last_snapshot sm') = None" "ss_mode (last_snapshot sm') = Some m"
      "ss_free_bytes (last_snapshot sm') = Some free"
      "ss_directive (last_snapshot sm') = directive_for m (Some free) (stop_deletion_at_bytes (resolved (config sm)))"
      "stop_required (last_snapshot sm') \<longleftrightarrow> m = EMERGENCY \<and> \<not> reclaimer_available (config sm)"
      "reclaim_bit (latched s') \<longleftrightarrow> m \<noteq> NORMAL" "config sm' = config sm"
      "observation_failures sm' = observation_failures sm"
      "m \<noteq> NORMAL \<longleftrightarrow> triggers (resolved (config sm)) (free, False)
         \<or> reclaim_bit (latched s) \<and> sustains (resolved (config sm)) (free, False)"
      "m = EMERGENCY \<longleftrightarrow> free < emergency_below_bytes (resolved (config sm))"
proof -
  obtain c' where c': "evaluate ctl free False = Inr (mode c', c')" "thresholds c' = thresholds ctl"
     "mode c' \<noteq> NORMAL \<longleftrightarrow> triggers (thresholds ctl) (free, False) \<or> mode ctl \<noteq> NORMAL \<and> sustains (thresholds ctl) (free, False)"
     "mode c' = EMERGENCY \<longleftrightarrow> free < emergency_below_bytes (thresholds ctl)"
    using evaluate_step [of ctl free False] cfg free ctl by (auto simp: config_ok_def)
  obtain ok s1 where st: "(if mode c' = mode ctl then (True, s) else store_mode save sm (mode c') s) = (ok, s1)"
    by (cases "if mode c' = mode ctl then (True, s) else store_mode save sm (mode c') s")
  have bit: "if ok then reclaim_bit (latched s1) = (mode c' \<noteq> NORMAL) else latched s1 = latched s"
  proof (cases "mode c' = mode ctl")
    case True
    with st ctl show ?thesis by auto
  next
    case False
    with st store_mode_cases [OF cfg, of "mode c'" s ok s1] show ?thesis by simp
  qed
  let ?sm_fault = "latch_fault LATCH_STORE_FAILED (sm\<lparr>controller := Some (c'\<lparr>mode := mode ctl\<rparr>)\<rparr>)"
  let ?sm_good = "publish (Some (mode c')) None (if mode c' = NORMAL then None else ss_trigger (last_snapshot sm)) False
     (mode c' = EMERGENCY \<and> \<not> reclaimer_available (config sm)) (Some free)
     (directive_for (mode c') (Some free) (stop_deletion_at_bytes (resolved (config sm)))) (sm\<lparr>controller := Some c'\<rparr>)"
  have res: "(if ok then (Inr (last_snapshot ?sm_good), ?sm_good, s1)
      else (Inr (last_snapshot ?sm_fault), ?sm_fault, s1)) = (r, sm', s')"
    using ev unfolding evaluate_and_publish_def c'(1) sum.case prod.case st Let_def
    by (cases ok) (simp_all only: if_True if_False not_True_eq_False not_False_eq_True)
  have step: "in_step l (sm\<lparr>controller := Some c\<rparr>) \<longleftrightarrow> thresholds c = resolved (config sm) \<and> (mode c \<noteq> NORMAL \<longleftrightarrow> reclaim_bit l)"
    for l c by (simp add: in_step_def)
  show thesis
  proof (cases ok)
    case True
    from res have eqs: "r = Inr (last_snapshot ?sm_good)" "sm' = ?sm_good" "s' = s1"
      unfolding if_P [OF True] by (auto simp only: prod.inject)
    have "in_step (latched s') sm'"
      using in_step_cong [of ?sm_good "sm\<lparr>controller := Some c'\<rparr>"] step bit True c'(2) ctl(1) eqs by simp
    with eqs bit True c'(3,4) ctl show thesis
      by (intro good [of "mode c'"]) simp_all
  next
    case False
    from res have eqs: "r = Inr (last_snapshot ?sm_fault)" "sm' = ?sm_fault" "s' = s1"
      unfolding if_not_P [OF False] by (auto simp only: prod.inject)
    have "in_step (latched s') sm'"
      using in_step_cong [of ?sm_fault "sm\<lparr>controller := Some (c'\<lparr>mode := mode ctl\<rparr>)\<rparr>"] step bit False c'(2) ctl eqs
      by (simp add: fault_defs)
    with eqs bit False show thesis
      by (intro fault) (simp_all add: fault_defs)
  qed
qed

text \<open>Every way an observation can end.\<close>

lemma observe_cases:
  assumes cfg: "config_ok (config sm)" and st: "in_step (latched s) sm"
    and ob: "observe load save observed now sm s = (r, sm', s')"
  obtains (stuck) f where "latched_fault sm = Some f" "sm' = publish_fault f True sm" "s' = s" "r = Inr (last_snapshot sm')"
  | (failed) f where "latched_fault sm = None" "\<And>v. observed = Inr v \<Longrightarrow> \<not> valid_observation v" "s' = s"
      "sm' = observation_failure f sm" "f \<in> {OBSERVATION_FAILED, INVALID_OBSERVATION}" "r = Inr (last_snapshot sm')"
  | (latched) f sm1 where "latched_fault sm = None" "sm' = latch_fault f sm1" "config sm1 = config sm"
      "controller sm1 = controller sm" "f \<in> {IDENTITY_DRIFT, CAPACITY_DRIFT, LATCH_LOAD_FAILED, LATCH_BINDING_MISMATCH}"
      "latched s' = latched s" "r = Inr (last_snapshot sm')"
  | (evaluated) v ctl sm1 s1 where "latched_fault sm = None" "observed = Inr v" "valid_observation v"
      "device_id v = expected_device_id (config sm)" "ob_capacity_bytes v = expected_capacity_bytes (config sm)"
      "evaluate_and_publish save ctl (free_bytes v) sm1 s1 = (r, sm', s')"
      "config sm1 = config sm" "latched_fault sm1 = None" "observation_failures sm1 = 0" "latched s1 = latched s"
      "thresholds ctl = resolved (config sm)" "mode ctl \<noteq> NORMAL \<longleftrightarrow> reclaim_bit (latched s)"
proof (cases "latched_fault sm")
  case (Some f)
  with ob show thesis by (intro stuck [of f]) (auto simp: observe_def Let_def)
next
  case none: None
  show thesis
  proof (cases observed)
    case (Inl e)
    with ob none show thesis by (intro failed [of OBSERVATION_FAILED]) (auto simp: observe_def Let_def)
  next
    case (Inr v)
    let ?sm1 = "sm\<lparr>observation_failures := 0, last_success_ns := Some now\<rparr>"
    consider "\<not> valid_observation v" | "valid_observation v" "device_id v \<noteq> expected_device_id (config sm)"
      | "valid_observation v" "device_id v = expected_device_id (config sm)"
        "ob_capacity_bytes v \<noteq> expected_capacity_bytes (config sm)"
      | (live) "valid_observation v" "device_id v = expected_device_id (config sm)"
        "ob_capacity_bytes v = expected_capacity_bytes (config sm)" by blast
    then show thesis
    proof cases
      case 1
      with ob none Inr show thesis by (intro failed [of INVALID_OBSERVATION]) (auto simp: observe_def Let_def)
    next
      case 2
      with ob none Inr show thesis by (intro latched [of IDENTITY_DRIFT sm]) (auto simp: observe_def Let_def)
    next
      case 3
      with ob none Inr show thesis by (intro latched [of CAPACITY_DRIFT sm]) (auto simp: observe_def Let_def)
    next
      case live
      show thesis
      proof (cases "controller sm")
        case (Some c)
        with ob none Inr live have "evaluate_and_publish save c (free_bytes v) ?sm1 s = (r, sm', s')"
          by (simp add: observe_def)
        with none Inr live Some st show thesis
          by (intro evaluated [of v c ?sm1 s]) (simp_all add: in_step_def)
      next
        case fresh: None
        obtain ld s1 where ld: "load_controller load ?sm1 s = (ld, s1)" by (cases "load_controller load ?sm1 s")
        note facts = load_controller_cases [OF _ ld, simplified, OF cfg]
        show thesis
        proof (cases ld)
          case (FAULT f)
          with ob none Inr live fresh ld have "sm' = latch_fault f ?sm1" "s' = s1" "r = Inr (last_snapshot sm')"
            by (auto simp: observe_def Let_def)
          moreover have "f \<in> {LATCH_LOAD_FAILED, LATCH_BINDING_MISMATCH}"
            using ld FAULT by (auto simp: load_controller_def split: prod.splits sum.splits option.splits if_splits)
          ultimately show thesis
            using none facts by (intro latched [of f ?sm1]) auto
        next
          case (RAISE e)
          with facts show thesis by simp
        next
          case (RESUME c)
          with ob none Inr live fresh ld
          have "evaluate_and_publish save c (free_bytes v) (?sm1\<lparr>controller := Some c\<rparr>) s1 = (r, sm', s')"
            by (simp add: observe_def Let_def)
          with none Inr live facts RESUME show thesis
            by (intro evaluated [of v c "?sm1\<lparr>controller := Some c\<rparr>" s1]) simp_all
        qed
      qed
    qed
  qed
qed

lemma note_no_space_cases:
  assumes cfg: "config_ok (config sm)" and st: "in_step (latched s) sm"
    and nn: "note_no_space_write save sm s = (r, sm', s')"
  shows "r = Inr (last_snapshot sm') \<and> config sm' = config sm \<and> in_step (latched s') sm' \<and> stop_required (last_snapshot sm')
    \<and> (if ss_fault (last_snapshot sm') = Some NO_SPACE_WRITE
       then reclaim_bit (latched s') \<and> ss_mode (last_snapshot sm') = Some EMERGENCY \<and> latched_fault sm' = latched_fault sm
         \<and> ss_directive (last_snapshot sm') = directive_for EMERGENCY (ss_free_bytes (last_snapshot sm))
              (stop_deletion_at_bytes (resolved (config sm)))
       else latched s' = latched s \<and> ss_fault (last_snapshot sm') = Some LATCH_STORE_FAILED
         \<and> latched_fault sm' = Some LATCH_STORE_FAILED \<and> ss_directive (last_snapshot sm') = None)"
proof -
  obtain ctl where ctl: "(case controller sm of Some c \<Rightarrow> Inr c | None \<Rightarrow> mk_controller (resolved (config sm)) NORMAL) = Inr ctl"
      "thresholds ctl = resolved (config sm)" "controller sm \<noteq> None \<Longrightarrow> mode ctl \<noteq> NORMAL \<longleftrightarrow> reclaim_bit (latched s)"
    using st cfg by (cases "controller sm") (auto simp: in_step_def mk_controller_eq_Inr config_ok_def)
  obtain ok s1 where ok: "store_mode save sm EMERGENCY s = (ok, s1)" by (cases "store_mode save sm EMERGENCY s")
  note bit = store_mode_cases [OF cfg ok]
  show ?thesis
  proof (cases ok)
    case True
    with nn ctl ok bit show ?thesis
      by (auto simp: note_no_space_write_def evaluate_def Let_def in_step_def)
  next
    case False
    with nn ctl ok bit have eqs: "s' = s1" "r = Inr (last_snapshot sm')" "sm' = latch_fault LATCH_STORE_FAILED
         (if controller sm = None then sm else sm\<lparr>controller := Some (ctl\<lparr>mode := mode ctl\<rparr>)\<rparr>)"
      by (auto simp: note_no_space_write_def evaluate_def Let_def)
    with bit False ctl st show ?thesis
      by (cases "controller sm") (auto simp: fault_defs in_step_def)
  qed
qed

end

section \<open>Reachable monitors\<close>

text \<open>
  The life of a monitor over its store: observations, reported no-space errors, a restart of the
  process (a fresh monitor over the same disk) at any point, and anything else that leaves the
  latch alone. The last argument collects the samples the policy has acted on.
\<close>

inductive monitor_reach :: "'s latch_load \<Rightarrow> 's latch_save \<Rightarrow> ('s \<Rightarrow> RetentionThresholdLatch option)
    \<Rightarrow> StorageSpaceMonitor \<Rightarrow> 's \<Rightarrow> StorageSpaceMonitor \<Rightarrow> 's \<Rightarrow> (int \<times> bool) list \<Rightarrow> bool"
  for load save latched fresh s0 where
  start: "monitor_reach load save latched fresh s0 fresh s0 []"
| observed: "monitor_reach load save latched fresh s0 sm s log \<Longrightarrow> observe load save ob now sm s = (Inr snap, sm', s')
    \<Longrightarrow> monitor_reach load save latched fresh s0 sm' s' (log @ acted_on snap)"
| no_space: "monitor_reach load save latched fresh s0 sm s log \<Longrightarrow> note_no_space_write save sm s = (Inr snap, sm', s')
    \<Longrightarrow> monitor_reach load save latched fresh s0 sm' s' (log @ acted_on snap)"
| restarted: "monitor_reach load save latched fresh s0 sm s log \<Longrightarrow> monitor_reach load save latched fresh s0 fresh s log"
| elsewhere: "monitor_reach load save latched fresh s0 sm s log \<Longrightarrow> latched s' = latched s
    \<Longrightarrow> monitor_reach load save latched fresh s0 sm s' log"

lemma latched_after_snoc:
  "latched_after t was (obs @ [ob]) \<longleftrightarrow> triggers t ob \<or> latched_after t was obs \<and> sustains t ob"
  by (induction obs arbitrary: was) (simp_all add: latched_after_Cons, simp add: latched_after_def)

definition fresh_monitor :: "StorageSpaceMonitor \<Rightarrow> bool" where
  "fresh_monitor sm = (config_ok (config sm) \<and> controller sm = None \<and> latched_fault sm = None \<and> observation_failures sm = 0)"

definition reach_inv :: "StorageSpaceMonitor \<Rightarrow> RetentionThresholdLatch option \<Rightarrow> StorageSpaceMonitor
    \<Rightarrow> RetentionThresholdLatch option \<Rightarrow> (int \<times> bool) list \<Rightarrow> bool" where
  "reach_inv fresh l0 sm l log = (config sm = config fresh \<and> in_step l sm \<and> latched_fault sm \<noteq> Some NO_SPACE_WRITE
     \<and> (reclaim_bit l \<longleftrightarrow> latched_after (resolved (config fresh)) (reclaim_bit l0) log))"

lemma directive_free: "directive_for m f t = None \<longleftrightarrow> m = NORMAL"
  by (simp add: directive_for_def)

lemma triggers_no_space [simp]: "triggers t (n, True)"
  by (simp add: triggers_def)

lemma valid_observation_free: "valid_observation v \<Longrightarrow> 0 \<le> free_bytes v \<and> free_bytes v \<le> ob_capacity_bytes v"
  by (auto simp: valid_observation_def is_ok_def bounded_bytes_def bindR_def split: sum.splits if_splits)

context latch_store
begin

lemma reach_inv_observe:
  assumes fr: "fresh_monitor fresh" and inv: "reach_inv fresh l0 sm (latched s) log"
    and ob: "observe load save ob now sm s = (r, sm', s')"
  shows "\<exists>snap. r = Inr snap \<and> snap = last_snapshot sm' \<and> reach_inv fresh l0 sm' (latched s') (log @ acted_on snap)"
proof -
  have cfg: "config_ok (config sm)" and st: "in_step (latched s) sm"
    using fr inv by (simp_all add: fresh_monitor_def reach_inv_def)
  from cfg st ob show ?thesis
  proof (cases rule: observe_cases)
    case (stuck f)
    with inv in_step_cong [of sm' sm] show ?thesis
      by (auto simp: reach_inv_def fault_defs acted_on_def)
  next
    case (failed f)
    with inv in_step_cong [of sm' sm] show ?thesis
      by (auto simp: reach_inv_def fault_defs acted_on_def)
  next
    case (latched f sm1)
    with inv in_step_cong [of sm' sm] show ?thesis
      by (auto simp: reach_inv_def fault_defs acted_on_def)
  next
    case (evaluated v ctl sm1 s1)
    have ok1: "config_ok (config sm1)" "0 \<le> free_bytes v" "thresholds ctl = resolved (config sm1)"
        "mode ctl \<noteq> NORMAL \<longleftrightarrow> reclaim_bit (latched s1)"
      using evaluated cfg valid_observation_free by auto
    from ok1 evaluated(6) show ?thesis
    proof (cases rule: evaluate_and_publish_cases)
      case fault
      with inv evaluated show ?thesis by (simp add: reach_inv_def acted_on_def)
    next
      case (good m)
      with inv evaluated show ?thesis
        by (simp add: reach_inv_def acted_on_def latched_after_snoc)
    qed
  qed
qed

lemma reach_inv_no_space:
  assumes fr: "fresh_monitor fresh" and inv: "reach_inv fresh l0 sm (latched s) log"
    and nn: "note_no_space_write save sm s = (Inr snap, sm', s')"
  shows "reach_inv fresh l0 sm' (latched s') (log @ acted_on snap)"
proof -
  have cfg: "config_ok (config sm)" and st: "in_step (latched s) sm"
    using fr inv by (simp_all add: fresh_monitor_def reach_inv_def)
  from note_no_space_cases [OF cfg st nn] inv show ?thesis
    by (auto simp: reach_inv_def acted_on_def latched_after_snoc split: if_splits)
qed

lemma monitor_reach_inv:
  assumes "monitor_reach load save latched fresh s0 sm s log" and fr: "fresh_monitor fresh"
  shows "reach_inv fresh (latched s0) sm (latched s) log"
  using assms(1)
proof induction
  case start
  from fr show ?case by (simp add: fresh_monitor_def reach_inv_def in_step_def latched_after_def)
next
  case (observed sm s log ob now snap sm' s')
  with reach_inv_observe [OF fr] show ?case by fastforce
next
  case (no_space sm s log snap sm' s')
  with reach_inv_no_space [OF fr] show ?case by blast
next
  case (restarted sm s log)
  with fr show ?case by (simp add: fresh_monitor_def reach_inv_def in_step_def)
next
  case (elsewhere sm s log s')
  then show ?case by simp
qed

end

section \<open>The catalog as the latch store\<close>

text \<open>
  The latch lives in the catalog's database. A call may fail before its transaction commits: the
  fault list says which calls do.
\<close>

record latch_disk =
  ld_catalog :: catalog
  ld_faults :: "bool list"

definition disk_latch :: "latch_disk \<Rightarrow> RetentionThresholdLatch option" where
  "disk_latch s = threshold_latch (ld_catalog s)"

definition database_call :: "(catalog \<Rightarrow> ('a \<times> catalog) result) \<Rightarrow> latch_disk \<Rightarrow> 'a result \<times> latch_disk" where
  "database_call f s = (let s' = s\<lparr>ld_faults := drop 1 (ld_faults s)\<rparr> in
     if take 1 (ld_faults s) = [True] then (Inl RuntimeError, s')
     else case f (ld_catalog s) of Inl e \<Rightarrow> (Inl e, s') | Inr (x, c) \<Rightarrow> (Inr x, s'\<lparr>ld_catalog := c\<rparr>))"

definition catalog_load :: "latch_disk latch_load" where
  "catalog_load = database_call (\<lambda>c. bindR (retention_threshold_latch c) (\<lambda>l. Inr (l, c)))"

definition catalog_save :: "latch_disk latch_save" where
  "catalog_save l = database_call (store_retention_threshold_latch l)"

lemma database_call_cases:
  assumes "database_call f s = (r, s')"
  shows "(\<exists>e. r = Inl e) \<and> ld_catalog s' = ld_catalog s \<or> (\<exists>x. r = Inr x \<and> f (ld_catalog s) = Inr (x, ld_catalog s'))"
  using assms by (auto simp: database_call_def Let_def split: if_splits sum.splits)

interpretation catalog_latch: latch_store catalog_load catalog_save disk_latch
proof
  show "v = disk_latch s" if "catalog_load s = (Inr v, s')" for v s s'
    using database_call_cases [OF that [unfolded catalog_load_def]]
    by (auto simp: disk_latch_def retention_threshold_latch_def bindR_eq_Inr mk_latch_def split: option.splits if_splits)
  show "disk_latch s' = disk_latch s" if "catalog_load s = (r, s')" for r s s'
    using database_call_cases [OF that [unfolded catalog_load_def]]
    by (auto simp: disk_latch_def bindR_eq_Inr)
  show "disk_latch s' = Some l" if "catalog_save l s = (Inr u, s')" for l s u s'
    using database_call_cases [OF that [unfolded catalog_save_def]]
    by (auto simp: disk_latch_def store_retention_threshold_latch_def Let_def eq_commute [of _ "ld_catalog s'"]
        split: option.splits if_splits)
  show "disk_latch s' = disk_latch s" if "catalog_save l s = (Inl e, s')" for l s e s'
    using database_call_cases [OF that [unfolded catalog_save_def]] by (simp add: disk_latch_def)
qed

lemma evaluate_and_publish_sequence:
  "evaluate_and_publish save ctl free sm s = (Inr snap, sm', s') \<Longrightarrow> ss_sequence (last_snapshot sm') = sm_sequence sm + 1"
  by (auto simp: evaluate_and_publish_def fault_defs split: sum.splits prod.splits if_splits)

lemma observe_sequence:
  "observe load save ob now sm s = (Inr snap, sm', s') \<Longrightarrow> ss_sequence (last_snapshot sm') = sm_sequence sm + 1"
  by (auto simp: observe_def fault_defs dest!: evaluate_and_publish_sequence
      split: sum.splits prod.splits option.splits if_splits resume.splits)

lemma retention_mode_is:
  assumes "thresholds_ok t" "0 \<le> free" "m \<noteq> NORMAL \<longleftrightarrow> triggers t (free, False) \<or> was \<and> sustains t (free, False)"
    and "m = EMERGENCY \<longleftrightarrow> free < emergency_below_bytes t"
  shows "retention_mode free t was = Inr m"
  using assms by (cases m) (auto simp: retention_mode_def triggers_def sustains_def thresholds_ok_def)

definition observe_all :: "'s latch_load \<Rightarrow> 's latch_save \<Rightarrow> (FilesystemSpaceObservation result \<times> int) list
    \<Rightarrow> StorageSpaceMonitor \<times> 's \<Rightarrow> StorageSpaceMonitor \<times> 's" where
  "observe_all load save obs st = foldl (\<lambda>(sm, s) (ob, now). snd (observe load save ob now sm s)) st obs"

definition no_sample :: "FilesystemSpaceObservation result \<Rightarrow> bool" where
  "no_sample ob = (case ob of Inl _ \<Rightarrow> True | Inr v \<Rightarrow> \<not> valid_observation v)"

lemma observe_all_simps [simp]:
  "observe_all load save [] st = st"
  "observe_all load save ((ob, now) # obs) (sm, s) = observe_all load save obs (snd (observe load save ob now sm s))"
  by (simp_all add: observe_all_def)

lemma observe_no_sample:
  assumes "latched_fault sm = None" "no_sample ob"
  shows "\<exists>f. snd (observe load save ob now sm s) = (observation_failure f sm, s) \<and> f \<in> {OBSERVATION_FAILED, INVALID_OBSERVATION}"
  using assms by (auto simp: observe_def no_sample_def Let_def split: sum.splits)

lemma observation_failure_simps [simp]:
  "observation_failures (observation_failure f sm) = observation_failures sm + 1"
  "latched_fault (observation_failure f sm) = latched_fault sm" "config (observation_failure f sm) = config sm"
  "controller (observation_failure f sm) = controller sm"
  "stop_required (last_snapshot (observation_failure f sm))
     \<longleftrightarrow> maximum_observation_failures (config sm) \<le> observation_failures sm + 1"
  "ss_directive (last_snapshot (observation_failure f sm)) = None"
  "ss_fault (last_snapshot (observation_failure f sm))
     = Some (if maximum_observation_failures (config sm) \<le> observation_failures sm + 1 then OBSERVATION_STALE else f)"
  by (simp_all add: fault_defs)

lemma observe_all_failures:
  assumes "latched_fault sm = None" "list_all (no_sample \<circ> fst) obs" "obs \<noteq> []"
    and "observe_all load save obs (sm, s) = (sm', s')"
  shows "s' = s \<and> controller sm' = controller sm \<and> ss_directive (last_snapshot sm') = None
    \<and> (stop_required (last_snapshot sm')
        \<longleftrightarrow> maximum_observation_failures (config sm) \<le> observation_failures sm + int (length obs))
    \<and> (ss_fault (last_snapshot sm') = Some OBSERVATION_STALE \<longleftrightarrow> stop_required (last_snapshot sm'))"
  using assms
proof (induction obs arbitrary: sm)
  case Nil
  then show ?case by simp
next
  case (Cons x obs)
  obtain ob now where x: "x = (ob, now)" by (cases x)
  obtain f where f: "snd (observe load save ob now sm s) = (observation_failure f sm, s)"
      "f \<in> {OBSERVATION_FAILED, INVALID_OBSERVATION}"
    using observe_no_sample [of sm ob load save now s] Cons.prems x by auto
  show ?case
  proof (cases "obs = []")
    case True
    with Cons.prems x f show ?thesis by (auto split: if_splits)
  next
    case False
    with Cons.prems x f Cons.IH [of "observation_failure f sm"] show ?thesis by (simp add: algebra_simps)
  qed
qed

lemma observe_all_latched:
  assumes "latched_fault sm = Some f" "observe_all load save obs (sm, s) = (sm', s')"
    and "ss_fault (last_snapshot sm) = Some f" "stop_required (last_snapshot sm)" "ss_directive (last_snapshot sm) = None"
  shows "s' = s \<and> ss_fault (last_snapshot sm') = Some f \<and> stop_required (last_snapshot sm')
    \<and> ss_directive (last_snapshot sm') = None"
  using assms
proof (induction obs arbitrary: sm)
  case Nil
  then show ?case by simp
next
  case (Cons x obs)
  obtain ob now where x: "x = (ob, now)" by (cases x)
  have "snd (observe load save ob now sm s) = (publish_fault f True sm, s)"
    using Cons.prems by (simp add: observe_def)
  with Cons.prems x Cons.IH [of "publish_fault f True sm"] show ?case by (simp add: publish_fault_def)
qed

text \<open>The \<open>k\<close>-th exception of a chain.\<close>

fun error_chain :: "(nat \<Rightarrow> exception_node) \<Rightarrow> nat \<Rightarrow> nat option \<Rightarrow> nat option" where
  "error_chain graph 0 current = current"
| "error_chain graph (Suc k) current = (case current of None \<Rightarrow> None
     | Some i \<Rightarrow> error_chain graph k (next_error (graph i)))"

lemma error_chain_None [simp]: "error_chain graph k None = None"
  by (cases k) simp_all

lemma error_chain_add: "error_chain graph (j + k) c = error_chain graph k (error_chain graph j c)"
  by (induction j arbitrary: c) (simp_all split: option.splits)

lemma error_chain_Suc: "error_chain graph (Suc n) c = (case error_chain graph n c of None \<Rightarrow> None
     | Some i \<Rightarrow> next_error (graph i))"
  using error_chain_add [of graph n 1 c] by (simp split: option.splits)

text \<open>A chain that comes back to an exception it has passed stays among those it has passed.\<close>

lemma error_chain_cycle:
  assumes "error_chain graph j c = error_chain graph n c" "j < n"
    and "\<forall>k < n. \<forall>i. error_chain graph k c = Some i \<longrightarrow> \<not> no_space_node (graph i)"
  shows "error_chain graph m c = Some i \<Longrightarrow> \<not> no_space_node (graph i)"
proof (induction m rule: less_induct)
  case (less m)
  show ?case
  proof (cases "m < n")
    case True
    with assms(3) less.prems show ?thesis by blast
  next
    case False
    have "error_chain graph (j + (m - n)) c = error_chain graph (n + (m - n)) c"
      unfolding error_chain_add assms(1) ..
    with False less.prems assms(2) less.IH [of "j + (m - n)"] show ?thesis by simp
  qed
qed

lemma enospc_loop_iff:
  assumes "\<forall>j < n. \<forall>i. error_chain graph j c = Some i \<longrightarrow> \<not> no_space_node (graph i)"
  shows "enospc_loop graph k (error_chain graph n c) {i. \<exists>j < n. error_chain graph j c = Some i}
     \<longleftrightarrow> (\<exists>j < k. \<exists>i. error_chain graph (n + j) c = Some i \<and> no_space_node (graph i))"
  using assms
proof (induction k arbitrary: n)
  case 0
  then show ?case by simp
next
  case (Suc k)
  show ?case
  proof (cases "error_chain graph n c")
    case None
    then show ?thesis by (simp add: error_chain_add)
  next
    case (Some i)
    show ?thesis
    proof (cases "\<exists>j < n. error_chain graph j c = Some i")
      case True
      with Some Suc.prems error_chain_cycle [of graph _ c n] show ?thesis by auto
    next
      case new: False
      show ?thesis
      proof (cases "no_space_node (graph i)")
        case True
        with Some have "0 < Suc k \<and> error_chain graph (n + 0) c = Some i \<and> no_space_node (graph i)" by simp
        with True new Some show ?thesis by (auto simp del: add_0_right)
      next
        case False
        have seen: "insert i {i. \<exists>j < n. error_chain graph j c = Some i} = {i. \<exists>j < Suc n. error_chain graph j c = Some i}"
          using Some by (auto simp: less_Suc_eq)
        have next_one: "next_error (graph i) = error_chain graph (Suc n) c"
          by (simp only: error_chain_Suc Some option.case)
        have "enospc_loop graph (Suc k) (error_chain graph n c) {i. \<exists>j < n. error_chain graph j c = Some i}
            \<longleftrightarrow> (\<exists>j < k. \<exists>i. error_chain graph (Suc n + j) c = Some i \<and> no_space_node (graph i))"
          using Suc.IH [of "Suc n"] Suc.prems Some False new unfolding next_one [symmetric] seen [symmetric]
          by (auto simp: less_Suc_eq)
        also have "\<dots> \<longleftrightarrow> (\<exists>j < Suc k. \<exists>i. error_chain graph (n + j) c = Some i \<and> no_space_node (graph i))"
          using Some False by (auto simp: Ex_less_Suc2)
        finally show ?thesis .
      qed
    qed
  qed
qed

section \<open>Properties\<close>

text \<open>
  C16: The durable latch is the policy's whole memory. Whatever observations fail, whatever latch
  saves and loads fail, and however often the process restarts, the reclamation bit on disk is set
  exactly when a sample the policy acted on (or a reported no-space write) triggered reclamation,
  or the bit was set at the start, and no later one reached the recovery target; and a running
  controller agrees with it.
\<close>

theorem durable_latch_tracks_samples:
  assumes "mk_storage_thresholds lo hi mn em = Inr th" and "mk_monitor vol dev cap th n avail = Inr fresh"
    and "monitor_reach catalog_load catalog_save disk_latch fresh s0 sm s log"
  shows "(reclaim_bit (disk_latch s) \<longleftrightarrow> latched_after (resolved (config fresh)) (reclaim_bit (disk_latch s0)) log)
    \<and> (case controller sm of None \<Rightarrow> True | Some c \<Rightarrow> (mode c \<noteq> NORMAL \<longleftrightarrow> reclaim_bit (disk_latch s)))"
proof -
  have "fresh_monitor fresh"
    using mk_monitor_ok [OF assms(1,2)] by (simp add: fresh_monitor_def)
  from catalog_latch.monitor_reach_inv [OF assms(3) this] show ?thesis
    by (auto simp: reach_inv_def in_step_def split: option.splits)
qed


text \<open>
  Failing observations are tolerated below the configured number and no further. After any
  number of consecutive calls whose observation failed or was invalid, counted from a healthy
  monitor, the recorder is asked to stop exactly when the number has reached the bound; no directive
  is published meanwhile, and neither the controller nor the durable latch changes.
\<close>

theorem consecutive_failures_stop_at_bound:
  assumes "latched_fault sm = None" and "observation_failures sm = 0"
    and "obs \<noteq> []" and "list_all (no_sample \<circ> fst) obs"
    and "observe_all catalog_load catalog_save obs (sm, s) = (sm', s')"
  shows "s' = s \<and> controller sm' = controller sm \<and> ss_directive (last_snapshot sm') = None
    \<and> (stop_required (last_snapshot sm') \<longleftrightarrow> maximum_observation_failures (config sm) \<le> int (length obs))
    \<and> (ss_fault (last_snapshot sm') = Some OBSERVATION_STALE \<longleftrightarrow> stop_required (last_snapshot sm'))"
  using observe_all_failures [OF assms(1,4,3,5)] assms(2) by simp

text \<open>
  Identity drift is final. Once a valid observation shows another device or another capacity
  than the one the monitor was built for, every later snapshot of this monitor, whatever is
  observed, keeps that fault, asks the recorder to stop and carries no directive, and the durable
  latch is not touched.
\<close>

theorem drift_is_latched:
  assumes "latched_fault sm = None" and "valid_observation v"
    and "device_id v \<noteq> expected_device_id (config sm) \<or> ob_capacity_bytes v \<noteq> expected_capacity_bytes (config sm)"
    and "observe_all catalog_load catalog_save ((Inr v, now) # obs) (sm, s) = (sm', s')"
  shows "s' = s \<and> stop_required (last_snapshot sm') \<and> ss_directive (last_snapshot sm') = None
    \<and> ss_fault (last_snapshot sm') = Some (if device_id v \<noteq> expected_device_id (config sm) then IDENTITY_DRIFT else CAPACITY_DRIFT)"
proof -
  let ?f = "if device_id v \<noteq> expected_device_id (config sm) then IDENTITY_DRIFT else CAPACITY_DRIFT"
  have "snd (observe catalog_load catalog_save (Inr v) now sm s) = (latch_fault ?f sm, s)"
    using assms(1-3) by (auto simp: observe_def Let_def)
  with assms(4) observe_all_latched [of "latch_fault ?f sm" ?f catalog_load catalog_save obs s sm' s'] show ?thesis
    by (simp add: fault_defs)
qed

text \<open>
  A reported no-space write always asks the recorder to stop. Either the reclamation bit is on
  disk, so that a restarted process resumes reclaiming, and the published mode is EMERGENCY with a
  directive that never allows protected evidence to be deleted; or the save failed, the disk is as
  before and the failure is latched without any directive.
\<close>

theorem no_space_write_is_durable:
  assumes "mk_storage_thresholds lo hi mn em = Inr th" and "mk_monitor vol dev cap th n avail = Inr fresh"
    and "monitor_reach catalog_load catalog_save disk_latch fresh s0 sm s log"
    and "note_no_space_write catalog_save sm s = (r, sm', s')"
  shows "\<exists>snap. r = Inr snap \<and> stop_required snap \<and>
    (ss_fault snap = Some NO_SPACE_WRITE \<and> reclaim_bit (disk_latch s') \<and> ss_mode snap = Some EMERGENCY
       \<and> (\<exists>d. ss_directive snap = Some d \<and> emergency d \<and> \<not> protected_deletion_allowed d)
     \<or> ss_fault snap = Some LATCH_STORE_FAILED \<and> disk_latch s' = disk_latch s \<and> ss_directive snap = None
       \<and> latched_fault sm' = Some LATCH_STORE_FAILED)"
proof -
  have fr: "fresh_monitor fresh"
    using mk_monitor_ok [OF assms(1,2)] by (simp add: fresh_monitor_def)
  from catalog_latch.monitor_reach_inv [OF assms(3) fr]
  have cfg: "config_ok (config sm)" and st: "in_step (disk_latch s) sm"
    using fr by (simp_all add: fresh_monitor_def reach_inv_def)
  from catalog_latch.note_no_space_cases [OF cfg st assms(4)] show ?thesis
    by (auto simp: directive_for_def split: if_splits)
qed

text \<open>
  A write error counts as no-space exactly when one of the first eight exceptions of its chain
  of causes (or contexts, where there is no cause) is an \<open>ENOSPC\<close> or \<open>EDQUOT\<close>; stopping
  at an exception seen before loses nothing, so cyclic chains are classified correctly too.
\<close>

theorem enospc_found_iff_in_chain:
  "contains_enospc graph error
     \<longleftrightarrow> (\<exists>k < 8. \<exists>i. error_chain graph k (Some error) = Some i \<and> no_space_node (graph i))"
  unfolding contains_enospc_def using enospc_loop_iff [of 0 graph "Some error" 8] by simp

section \<open>Witnesses\<close>

definition sample_thresholds :: StorageThresholds where
  "sample_thresholds = \<lparr>low_watermark_percent = 5, high_watermark_percent = 10, minimum_free_bytes = 100, emergency_free_bytes = 50\<rparr>"

definition sample_resolved :: ResolvedThresholds where
  "sample_resolved = \<lparr>start_deletion_below_bytes = 500, stop_deletion_at_bytes = 1000, emergency_below_bytes = 50\<rparr>"

definition sample_config :: monitor_config where
  "sample_config = \<lparr>mc_volume_uuid = ''AB-12'', expected_device_id = ''8:1'', expected_capacity_bytes = 10000,
     maximum_observation_failures = 3, reclaimer_available = True, resolved = sample_resolved\<rparr>"

definition sample_monitor :: StorageSpaceMonitor where
  "sample_monitor = \<lparr>config = sample_config, controller = None, sm_sequence = 0, observation_failures = 0,
     latched_fault = None, last_success_ns = None,
     last_snapshot = mk_snapshot sample_config 0 0 None None None True False None None\<rparr>"

definition sample_disk :: latch_disk where
  "sample_disk = \<lparr>ld_catalog = \<lparr>clips = [], operation_intents = [], protection_events = [],
     protection_event_targets = [], threshold_latch = None, uuid4_stream = (\<lambda>_. UUID 0), uuid4_used = 0\<rparr>,
     ld_faults = []\<rparr>"

definition sample_space :: "int \<Rightarrow> FilesystemSpaceObservation" where
  "sample_space n = \<lparr>device_id = ''8:1'', ob_capacity_bytes = 10000, free_bytes = n\<rparr>"

lemma sample_thresholds_ok: "mk_storage_thresholds 5 10 100 50 = Inr sample_thresholds"
  by (simp add: mk_storage_thresholds_def sample_thresholds_def)

lemma sample_device_ok: "validate_device_id ''8:1'' = Inr ''8:1''"
  by (simp add: validate_device_id_def bounded_identity_def printable_char_def code_between_def is_decimal_text_def
      is_digit_def dec_value_def undigits_def char_val_def of_char_def)

lemma sample_monitor_ok: "mk_monitor ''AB-12'' ''8:1'' 10000 sample_thresholds 3 True = Inr sample_monitor"
proof -
  have "bounded_identity ''AB-12'' = Inr ''AB-12''" by code_simp
  moreover have "resolve sample_thresholds 10000 = Inr sample_resolved"
    by (simp add: resolve_def sample_thresholds_def percent_bytes_def sample_resolved_def)
  ultimately show ?thesis
    by (simp add: mk_monitor_def sample_device_ok positive_bytes_def bounded_bytes_def MAX_BYTES_def sample_config_def
        sample_monitor_def Let_def)
qed

lemma sample_space_valid: "0 \<le> n \<Longrightarrow> n \<le> 10000 \<Longrightarrow> valid_observation (sample_space n)"
  by (simp add: valid_observation_def sample_space_def sample_device_ok positive_bytes_def bounded_bytes_def MAX_BYTES_def)

lemma sample_latch: "mk_latch ''AB-12'' 10000 b = Inr \<lparr>volume_uuid = ''AB-12'', capacity_bytes = 10000, reclaim_latched = b\<rparr>"
  by (simp add: mk_latch_def non_negative_integer_def MAX_SQLITE_INTEGER_def)

text \<open>A first sample of 200 free bytes starts reclamation and is stored.\<close>

lemma sample_observe:
  obtains sm' s' where "observe catalog_load catalog_save (Inr (sample_space 200)) 7 sample_monitor sample_disk
      = (Inr (last_snapshot sm'), sm', s')"
    and "ss_fault (last_snapshot sm') = None" and "ss_free_bytes (last_snapshot sm') = Some 200"
    and "reclaim_bit (disk_latch s')" and "ss_mode (last_snapshot sm') = Some RECLAIMING"
proof -
  let ?ob = "observe catalog_load catalog_save (Inr (sample_space 200)) 7 sample_monitor sample_disk"
  have ok: "valid_observation (sample_space 200)"
    by (rule sample_space_valid) simp_all
  have "fst ?ob = Inr (last_snapshot (fst (snd ?ob))) \<and> ss_fault (last_snapshot (fst (snd ?ob))) = None
     \<and> ss_free_bytes (last_snapshot (fst (snd ?ob))) = Some 200 \<and> reclaim_bit (disk_latch (snd (snd ?ob)))
     \<and> ss_mode (last_snapshot (fst (snd ?ob))) = Some RECLAIMING"
    unfolding observe_def
    by (simp add: ok [unfolded sample_space_def] Let_def sample_monitor_def sample_config_def sample_space_def load_controller_def catalog_load_def database_call_def
        sample_disk_def retention_threshold_latch_def mk_controller_def sample_resolved_def evaluate_and_publish_def
        evaluate_def retention_mode_def store_mode_def latch_of_def sample_latch catalog_save_def
        store_retention_threshold_latch_def disk_latch_def)
  then show thesis
    by (intro that [of "fst (snd ?ob)" "snd (snd ?ob)"]) (simp_all add: prod_eq_iff)
qed

theorem durable_latch_tracks_samples_witness:
  "latched_after sample_resolved False [(200, False)]"
proof -
  obtain sm' s' where ob: "observe catalog_load catalog_save (Inr (sample_space 200)) 7 sample_monitor sample_disk
      = (Inr (last_snapshot sm'), sm', s')" "ss_fault (last_snapshot sm') = None"
      "ss_free_bytes (last_snapshot sm') = Some 200" "reclaim_bit (disk_latch s')"
    using sample_observe by blast
  have "monitor_reach catalog_load catalog_save disk_latch sample_monitor sample_disk sm' s' ([] @ acted_on (last_snapshot sm'))"
    by (rule observed [OF start ob(1)])
  from durable_latch_tracks_samples [OF sample_thresholds_ok sample_monitor_ok this] ob show ?thesis
    by (simp add: acted_on_def sample_monitor_def sample_config_def sample_disk_def disk_latch_def)
qed


theorem consecutive_failures_stop_at_bound_witness:
  "\<not> stop_required (last_snapshot (fst (observe_all catalog_load catalog_save [(Inl OSError, 1), (Inl OSError, 2)]
       (sample_monitor, sample_disk))))
   \<and> stop_required (last_snapshot (fst (observe_all catalog_load catalog_save [(Inl OSError, 1), (Inl OSError, 2), (Inl OSError, 3)]
       (sample_monitor, sample_disk))))"
proof -
  have sm: "latched_fault sample_monitor = None" "observation_failures sample_monitor = 0"
      "maximum_observation_failures (config sample_monitor) = 3"
    by (simp_all add: sample_monitor_def sample_config_def)
  show ?thesis
    using consecutive_failures_stop_at_bound [OF sm(1,2) _ _ surjective_pairing,
        of "[(Inl OSError, 1), (Inl OSError, 2)]" "sample_disk"]
      consecutive_failures_stop_at_bound [OF sm(1,2) _ _ surjective_pairing,
        of "[(Inl OSError, 1), (Inl OSError, 2), (Inl OSError, 3)]" "sample_disk"]
    by (simp add: no_sample_def sm(3) del: observe_all_simps)
qed

theorem drift_is_latched_witness:
  "ss_fault (last_snapshot (fst (observe_all catalog_load catalog_save
       [(Inr ((sample_space 200)\<lparr>ob_capacity_bytes := 9000\<rparr>), 1), (Inr (sample_space 200), 2)] (sample_monitor, sample_disk))))
     = Some CAPACITY_DRIFT"
proof -
  have "valid_observation ((sample_space 200)\<lparr>ob_capacity_bytes := 9000\<rparr>)"
    by (simp add: valid_observation_def sample_space_def sample_device_ok positive_bytes_def bounded_bytes_def MAX_BYTES_def)
  from drift_is_latched [OF _ this _ surjective_pairing, of sample_monitor 1 "[(Inr (sample_space 200), 2)]" "sample_disk"]
  show ?thesis
    by (simp add: sample_space_def sample_monitor_def sample_config_def del: observe_all_simps)
qed

theorem no_space_write_is_durable_witness:
  "\<exists>snap. fst (note_no_space_write catalog_save sample_monitor sample_disk) = Inr snap \<and> stop_required snap"
proof -
  obtain r sm' s' where nn: "note_no_space_write catalog_save sample_monitor sample_disk = (r, sm', s')"
    by (cases "note_no_space_write catalog_save sample_monitor sample_disk")
  from no_space_write_is_durable [OF sample_thresholds_ok sample_monitor_ok start nn] show ?thesis
    unfolding nn by auto
qed

end
