(* ===== verification/Reclaimer.thy ===== *)
theory Reclaimer
  imports Pair_Recovery Catalog_Evolution
begin

text \<open>
  One-pair-at-a-time reclamation: \<^verbatim>\<open>src/dashcam/storage/reclaimer.py\<close>. \<open>run_one\<close> composes the
  catalog's queries and transactions with the reconciliation of a pair on the rooted filesystem.
  The two readings of the monotonic clock are the arguments \<open>t1\<close> (before a new reservation, or
  the only one when an earlier deletion is replayed) and \<open>t2\<close>. The catalog and the filesystem
  are threaded through, and an exception leaves them as they were when it was raised.
\<close>

section \<open>The operation\<close>

record ReclamationStep =
  rs_clip_id :: "uuid option"
  rs_intent_id :: "uuid option"
  recovered :: bool
  deleted :: bool
  eligible_found :: bool
  rs_actions_attempted :: int
  pending_delete_remaining :: bool

definition progress :: "ReclamationStep \<Rightarrow> bool" where
  "progress st = (deleted st \<or> rs_actions_attempted st > 0)"

definition idle_step :: ReclamationStep where
  "idle_step = \<lparr>rs_clip_id = None, rs_intent_id = None, recovered = False, deleted = False,
     eligible_found = False, rs_actions_attempted = 0, pending_delete_remaining = False\<rparr>"

definition clock_reading :: "int \<Rightarrow> int result" where
  "clock_reading t = (if t < 0 then Inl ReclamationError else Inr t)"

text \<open>The second half of \<^verbatim>\<open>run_one\<close>: carry out the intent and check what the catalog reports.\<close>

definition carry_out :: "'f CatalogFilesystem \<Rightarrow> sidecar_parser \<Rightarrow> (bytes \<Rightarrow> string) \<Rightarrow> bool \<Rightarrow> uuid \<Rightarrow> int
    \<Rightarrow> catalog \<times> 'f \<Rightarrow> ReclamationStep result \<times> (catalog \<times> 'f)" where
  "carry_out fs parse sha was_recovered iid t cs =
     bindF (clock_reading t, cs) (\<lambda>now cs1.
     bindF (reconcile_intent fs parse sha iid now 2 cs1) (\<lambda>res cs2.
     if oi_kind (irr_intent res) \<noteq> DELETE \<or> intent_id (irr_intent res) \<noteq> iid then (Inl ReclamationError, cs2)
     else if irr_problems res \<noteq> [] then (Inl ReclamationError, cs2)
     else if \<not> irr_complete res then (Inl ReclamationError, cs2)
     else bindF (list_pending_delete_intents 1 (fst cs2), cs2) (\<lambda>rest cs3.
       (Inr \<lparr>rs_clip_id = Some (oi_clip_id (irr_intent res)), rs_intent_id = Some iid, recovered = was_recovered,
          deleted = True, eligible_found = True, rs_actions_attempted = actions_attempted res,
          pending_delete_remaining = (rest \<noteq> [])\<rparr>, cs3))))"

definition run_one :: "'f CatalogFilesystem \<Rightarrow> sidecar_parser \<Rightarrow> (bytes \<Rightarrow> string) \<Rightarrow> string \<Rightarrow> bool \<Rightarrow> int \<Rightarrow> int
    \<Rightarrow> catalog \<times> 'f \<Rightarrow> ReclamationStep result \<times> (catalog \<times> 'f)" where
  "run_one fs parse sha boot allow_new t1 t2 cs =
     (if boot = [] \<or> length boot > 128 then (Inl ValueError, cs)
      else bindF (list_pending_delete_intents 1 (fst cs), cs) (\<lambda>pending cs0.
      case pending of
        intent # _ \<Rightarrow> if oi_kind intent \<noteq> DELETE then (Inl ReclamationError, cs0)
          else carry_out fs parse sha True (intent_id intent) t1 cs0
      | [] \<Rightarrow> if \<not> allow_new then (Inr idle_step, cs0)
          else bindF (clock_reading t1, cs0) (\<lambda>now cs1.
          bindF (case prepare_oldest_eligible_delete now boot (fst cs1) of
              Inl e \<Rightarrow> (Inl e, cs1) | Inr (u, c') \<Rightarrow> (Inr u, (c', snd cs1))) (\<lambda>u cs2.
          case u of None \<Rightarrow> (Inr idle_step, cs2) | Some iid \<Rightarrow> carry_out fs parse sha False iid t2 cs2))))"

section \<open>Reserved pairs\<close>

lemma values_of_rows:
  "\<forall>i \<in> set rows. \<exists>x. f i = Inr x \<Longrightarrow> \<exists>xs. list_all2 (\<lambda>i x. f i = Inr x) rows xs"
  by (induction rows) (auto simp: list_all2_Cons1)

text \<open>A pending deletion and the clip it has reserved.\<close>

definition reserved :: "catalog \<Rightarrow> uuid \<Rightarrow> intent_row \<Rightarrow> clip_row \<Rightarrow> bool" where
  "reserved c iid i r = (row_get ir_intent_id iid (operation_intents c) = Some i \<and> is_pending i
     \<and> ir_kind i = DELETE \<and> find_clip c (ir_clip_id i) = Some r \<and> cc_lifecycle r = DELETING \<and> \<not> cc_protected r
     \<and> video_source (ir_paths i) = video_path r \<and> sidecar_source (ir_paths i) = sidecar_path r
     \<and> path_parent (video_path r) = ''clips'' \<and> path_parent (sidecar_path r) = ''clips'')"

lemma pending_delete_reserved:
  assumes inv: "catalog_inv c" and i: "i \<in> set (operation_intents c)" "is_pending i" "ir_kind i = DELETE"
  shows "\<exists>r. reserved c (ir_intent_id i) i r"
proof -
  from inv_refs [OF inv i(1)] obtain r where r: "r \<in> set (clips c)" "ir_clip_id i = cc_clip_id r" by auto
  have "row_get ir_intent_id (ir_intent_id i) (operation_intents c) = Some i"
    using intent_table.get_Some_iff [OF inv_iids [OF inv]] i(1) by simp
  moreover have "find_clip c (ir_clip_id i) = Some r"
    using find_clip_Some_iff [OF inv] r by simp
  ultimately show ?thesis
    using inv_links [OF inv r(1) i(1,2) r(2)] i r by (auto simp: reserved_def link_ok_def)
qed

text \<open>The rows a pending scan reads, in its order.\<close>

definition pending_rows :: "(intent_row \<Rightarrow> bool) \<Rightarrow> catalog \<Rightarrow> intent_row list" where
  "pending_rows sel c = sort_key intent_key (filter (\<lambda>i. is_pending i \<and> sel i) (operation_intents c))"

lemma pending_deletes_read:
  assumes "catalog_inv c"
  shows "\<exists>xs. list_pending_delete_intents 1 c = Inr xs
    \<and> list_all2 (\<lambda>i x. intent_from_row i = Inr x) (take 1 (pending_rows (\<lambda>i. ir_kind i = DELETE) c)) xs"
proof -
  let ?rows = "take 1 (pending_rows (\<lambda>i. ir_kind i = DELETE) c)"
  have "set ?rows \<subseteq> set (operation_intents c)"
    by (auto simp: pending_rows_def dest!: in_set_takeD)
  moreover have "\<exists>x. intent_from_row i = Inr x" if "i \<in> set (operation_intents c)" for i
    using inv_refs [OF assms that] by (cases "intent_from_row i") (simp_all add: intent_row_ok_def)
  ultimately have "\<exists>xs. list_all2 (\<lambda>i x. intent_from_row i = Inr x) ?rows xs"
    by (intro values_of_rows) blast
  then show ?thesis
    by (auto simp: list_pending_delete_intents_def pending_intents_where_def pending_rows_def row_limit_def
        MAX_QUERY_ROWS_def mapR_eq_Inr_iff positive_integer_def non_negative_integer_def MAX_SQLITE_INTEGER_def result_simps)
qed

lemma first_pending_delete:
  assumes inv: "catalog_inv c" and l: "list_pending_delete_intents 1 c = Inr (x # xs)"
  shows "\<exists>i r. reserved c (intent_id x) i r \<and> intent_from_row i = Inr x \<and> oi_kind x = DELETE"
proof -
  from pending_deletes_read [OF inv] l
  have "list_all2 (\<lambda>i x. intent_from_row i = Inr x) (take 1 (pending_rows (\<lambda>i. ir_kind i = DELETE) c)) (x # xs)"
    by auto
  then obtain i more where i: "take 1 (pending_rows (\<lambda>i. ir_kind i = DELETE) c) = i # more" "intent_from_row i = Inr x"
    by (auto simp: list_all2_Cons2)
  then have "i \<in> set (take 1 (pending_rows (\<lambda>i. ir_kind i = DELETE) c))" by simp
  then have "i \<in> set (operation_intents c)" "is_pending i" "ir_kind i = DELETE"
    by (auto simp: pending_rows_def dest!: in_set_takeD)
  from pending_delete_reserved [OF inv this] intent_from_rowD [OF i(2)] i(2) \<open>ir_kind i = DELETE\<close>
  show ?thesis by auto
qed

lemma no_pending_delete:
  assumes inv: "catalog_inv c" and l: "list_pending_delete_intents 1 c = Inr []"
  shows "\<forall>i \<in> set (operation_intents c). is_pending i \<longrightarrow> ir_kind i \<noteq> DELETE"
proof -
  from pending_deletes_read [OF inv] l have "pending_rows (\<lambda>i. ir_kind i = DELETE) c = []"
    by (auto simp: take_eq_Nil)
  then have "filter (\<lambda>i. is_pending i \<and> ir_kind i = DELETE) (operation_intents c) = []"
    unfolding pending_rows_def by (metis length_0_conv length_sort)
  then show ?thesis
    by (auto simp: filter_empty_conv)
qed

text \<open>A new reservation takes the oldest eligible clip.\<close>

lemma new_reservation:
  assumes reach: "catalog_reach c" and op: "prepare_oldest_eligible_delete now boot c = Inr (Some iid, c')"
  shows "catalog_reach c' \<and> (\<exists>i r row. reserved c' iid i r \<and> row \<in> set (clips c) \<and> cc_clip_id row = ir_clip_id i
    \<and> sql_eligible c now boot row \<and> (\<forall>other \<in> set (clips c). sql_eligible c now boot other \<longrightarrow> order_key row \<le> order_key other)
    \<and> video_path r = video_path row \<and> sidecar_path r = sidecar_path row
    \<and> (\<forall>j. j \<noteq> ir_clip_id i \<longrightarrow> find_clip c' j = find_clip c j))"
proof -
  let ?el = "sort_key order_key (filter (sql_eligible c now boot) (clips c))"
  from op obtain row rows where el: "?el = row # rows" and del: "prepare_delete_row_locked row now boot c = Inr (iid, c')"
    by (auto simp: prepare_oldest_eligible_delete_def result_simps split: list.splits)
  have sorted: "sorted (map order_key ?el)"
    by (rule sorted_sort_key)
  have mem: "row \<in> set ?el"
    unfolding el by simp
  then have row: "row \<in> set (clips c)" "sql_eligible c now boot row" by simp_all
  have oldest: "order_key row \<le> order_key other" if "other \<in> set (clips c)" "sql_eligible c now boot other" for other
  proof -
    have "other \<in> set ?el" using that by simp
    with sorted show ?thesis unfolding el by auto
  qed
  have reach': "catalog_reach c'"
    using catalog_reach.step [OF reach catalog_step.delete_oldest [OF op]] .
  from prepare_delete_rowD [OF del] row(2) obtain i ps c1
    where i: "insert_intent_locked (cc_clip_id row) DELETE ps now None c = Inr (i, c1)" "iid = intent_id i"
      and c'_def: "c' = update_clip (cc_clip_id row) (\<lambda>r. r\<lparr>cc_lifecycle := DELETING, cc_pair_reconciled := False,
            cc_download_lease := None, lease_boot_id := None, updated_catalog_ns := now\<rparr>) c1"
    by (auto simp: sql_eligible_def)
  have c': "operation_intents c' = operation_intents c1"
    unfolding c'_def by simp
  have c1: "find_clip c1 j = find_clip c j" for j
    using insert_intent_locked_clips [OF i(1)] by (simp add: find_clip_def)
  have row_c: "find_clip c (cc_clip_id row) = Some row"
    using find_clip_Some_iff [OF reach_inv [OF reach]] row(1) by simp
  from insert_intent_lockedD [OF i(1)] have "row_of_intent i None None None \<in> set (operation_intents c')"
      and f: "oi_clip_id i = cc_clip_id row" "oi_kind i = DELETE"
    unfolding c' by (auto simp: insert_intent_row_def split: if_splits)
  then obtain r where r: "reserved c' iid (row_of_intent i None None None) r"
    using pending_delete_reserved [OF reach_inv [OF reach'], of "row_of_intent i None None None"] i(2)
    by (auto simp: row_of_intent_def is_pending_def)
  moreover have "ir_clip_id (row_of_intent i None None None) = cc_clip_id row"
    using f by (simp add: row_of_intent_def)
  moreover have "find_clip c' j = (if j = cc_clip_id row then map_option (\<lambda>r. r\<lparr>cc_lifecycle := DELETING,
      cc_pair_reconciled := False, cc_download_lease := None, lease_boot_id := None, updated_catalog_ns := now\<rparr>)
      (find_clip c j) else find_clip c j)" for j
    unfolding c'_def by (simp add: find_clip_update c1)
  moreover from this [of "cc_clip_id row"] r have "video_path r = video_path row" "sidecar_path r = sidecar_path row"
    using row_c f by (auto simp: reserved_def row_of_intent_def)
  ultimately show ?thesis
    using reach' row oldest r by (intro conjI exI [of _ "row_of_intent i None None None"] exI [of _ r] exI [of _ row]) auto
qed

section \<open>Carrying out a reserved deletion\<close>

lemma delete_steps:
  assumes "(pair_step DELETE ps payload)\<^sup>*\<^sup>* m m'"
  shows "m' p = m p \<or> (p \<in> {video_source ps, sidecar_source ps} \<and> m' p = None)"
  using assms
proof (induction rule: rtranclp_induct)
  case (step x y)
  then show ?case by (auto elim!: pair_step.cases split: if_splits)
qed simp

lemma find_clip_mark [simp]: "find_clip (mark_intent_complete iid now c) k = find_clip c k"
  by (simp add: mark_intent_complete_def find_clip_def)

lemma find_clip_problem [simp]: "find_clip (set_last_problem iid p c) k = find_clip c k"
  by (simp add: set_last_problem_def find_clip_def)

lemma complete_delete_row:
  assumes "complete_intent_locked intent now c = Inr c'" "oi_kind intent = DELETE"
  shows "find_clip c' k = (if k = oi_clip_id intent then map_option (\<lambda>r. r\<lparr>cc_lifecycle := DELETED, cc_pair_reconciled := True,
        cc_size_bytes := 0, cc_download_lease := None, lease_boot_id := None, updated_catalog_ns := now\<rparr>) (find_clip c k)
      else find_clip c k)"
  using assms by (auto simp: complete_intent_locked_def complete_delete_def find_clip_update)

lemma completed_body:
  assumes "reconcile_body fs ps sha row intent now m c s = (Inr (v, c'), s')" "irr_complete v"
  shows "complete_intent_locked intent now c = Inr c' \<and> irr_intent v = intent \<and> irr_problems v = []"
proof -
  let ?P = "\<lambda>(v, c') s'. irr_complete v \<longrightarrow> complete_intent_locked intent now c = Inr c' \<and> irr_intent v = intent
      \<and> irr_problems v = []"
  have "returns ?P (reconcile_body fs ps sha row intent now m c s)"
    unfolding reconcile_body_def Let_def
    by (intro returns_if returns_bindF returns_option returns_sum returns_Inl returns_Inr) (auto simp: complete_def)
  with assms show ?thesis
    by (simp add: returns_def)
qed

text \<open>
  One attempt at a reserved deletion, with any faults: only the two files of the clip can go, the
  clip stays reserved or becomes deleted, no other clip changes, and completion means both files
  are gone.
\<close>

definition pair_only :: "clip_row \<Rightarrow> file_view \<Rightarrow> file_view \<Rightarrow> bool" where
  "pair_only r m m' = (\<forall>p. m' p = m p \<or> p \<in> {video_path r, sidecar_path r} \<and> m' p = None)"

definition fate_of_reserved :: "uuid \<Rightarrow> clip_row \<Rightarrow> catalog \<Rightarrow> catalog \<Rightarrow> bool \<Rightarrow> bool" where
  "fate_of_reserved k r c c' gone = ((\<forall>j. j \<noteq> k \<longrightarrow> find_clip c' j = find_clip c j)
     \<and> (\<exists>r'. find_clip c' k = Some r' \<and> video_path r' = video_path r \<and> sidecar_path r' = sidecar_path r
          \<and> \<not> cc_protected r' \<and> cc_lifecycle r' = (if gone then DELETED else DELETING)))"

lemma reserved_attempt:
  assumes res: "reserved c iid i r"
    and op: "reconcile_intent RootedFilesystem parse sha iid now n (c, d) = (x, (c', d'))"
  shows "pair_only r (disk_view d) (disk_view d')
    \<and> (\<exists>gone. fate_of_reserved (ir_clip_id i) r c c' gone
         \<and> (gone \<longrightarrow> disk_view d' (video_path r) = None \<and> disk_view d' (sidecar_path r) = None)
         \<and> (\<forall>v. x = Inr v \<and> irr_complete v \<longrightarrow> gone \<and> oi_clip_id (irr_intent v) = ir_clip_id i))"
proof -
  have row: "row_get ir_intent_id iid (operation_intents c) = Some i" and k: "ir_kind i = DELETE" "is_pending i"
    and paths: "video_source (ir_paths i) = video_path r" "sidecar_source (ir_paths i) = sidecar_path r"
    using res by (simp_all add: reserved_def)
  have only: "pair_only r (disk_view d) (disk_view d')"
    using delete_steps [of "ir_paths i"] rooted_attempt_files [OF op row] unfolding pair_only_def k paths [symmetric] by metis
  have keep: "fate_of_reserved (ir_clip_id i) r c c' False" if "\<And>j. find_clip c' j = find_clip c j"
    using res that by (simp add: fate_of_reserved_def reserved_def)
  from op row show ?thesis
  proof (cases rule: reconcile_intent_cases)
    case idle
    with only keep k show ?thesis by auto
  next
    case (run intent)
    note i = intent_from_rowD [OF run(1)]
    from run(5) show ?thesis
    proof (elim disjE exE conjE)
      fix e
      assume "x = Inl e" "c' = c"
      with only keep show ?thesis by auto
    next
      fix v
      assume body: "reconcile_body RootedFilesystem parse sha i intent now n c d = (Inr (v, c'), d')" and x: "x = Inr v"
      show ?thesis
      proof (cases "irr_complete v")
        case False
        with rooted.reconcile_body_returns [OF body] keep only x show ?thesis by auto
      next
        case True
        then have "complete (view_plan intent (disk_view d'))"
          using rooted.reconcile_body_returns [OF body] by simp
        then have gone: "disk_view d' (video_path r) = None" "disk_view d' (sidecar_path r) = None"
          using i paths by (auto simp: view_plan_complete_iff member_done_def observed_def)
        have "complete_intent_locked intent now c = Inr c'" "irr_intent v = intent"
          using completed_body [OF body True] by simp_all
        with complete_delete_row i k res only gone x show ?thesis
          by (intro conjI exI [of _ True]) (auto simp: fate_of_reserved_def reserved_def)
      qed
    qed
  qed
qed

lemma attempt_reach:
  "catalog_reach c \<Longrightarrow> reconcile_intent RootedFilesystem parse sha iid now n (c, d) = (x, (c', d')) \<Longrightarrow> catalog_reach c'"
  using catalog_reach.step catalog_step.reconcile by blast

lemma carry_out_reserved:
  assumes reach: "catalog_reach c" and res: "reserved c iid i r"
    and op: "carry_out RootedFilesystem parse sha was iid t (c, d) = (x, (c', d'))"
  shows "catalog_reach c' \<and> pair_only r (disk_view d) (disk_view d')
    \<and> (\<exists>gone. fate_of_reserved (ir_clip_id i) r c c' gone
         \<and> (gone \<longrightarrow> disk_view d' (video_path r) = None \<and> disk_view d' (sidecar_path r) = None)
         \<and> (\<forall>st. x = Inr st \<longrightarrow> gone \<and> rs_clip_id st = Some (ir_clip_id i) \<and> recovered st = was \<and> deleted st))"
proof (cases "t < 0")
  case True
  with op have "c' = c" "d' = d" "x = Inl ReclamationError"
    by (simp_all add: carry_out_def clock_reading_def bindF_def)
  with reach res show ?thesis
    by (auto simp: pair_only_def fate_of_reserved_def reserved_def intro!: exI [of _ False])
next
  case False
  obtain y c1 d1 where att: "reconcile_intent RootedFilesystem parse sha iid t 2 (c, d) = (y, (c1, d1))"
    by (metis surj_pair)
  have same: "c' = c1" "d' = d1"
    and fin_ok: "\<forall>st. x = Inr st \<longrightarrow> (\<exists>v. y = Inr v \<and> irr_complete v \<and> rs_clip_id st = Some (oi_clip_id (irr_intent v))
        \<and> recovered st = was \<and> deleted st)"
    using op False att
    by (cases y; auto simp: carry_out_def clock_reading_def bindF_def split: sum.splits if_splits)+
  from reserved_attempt [OF res att] obtain gone where "pair_only r (disk_view d) (disk_view d1)"
      "fate_of_reserved (ir_clip_id i) r c c1 gone" "gone \<longrightarrow> disk_view d1 (video_path r) = None \<and> disk_view d1 (sidecar_path r) = None"
      "\<forall>v. y = Inr v \<and> irr_complete v \<longrightarrow> gone \<and> oi_clip_id (irr_intent v) = ir_clip_id i" by blast
  with fin_ok attempt_reach [OF reach att] show ?thesis
    unfolding same by (metis (no_types, lifting))
qed

lemma carry_out_facts:
  assumes reach: "catalog_reach c" and res: "reserved c iid i r"
    and op: "carry_out RootedFilesystem parse sha was iid t (c, d) = (x, (c', d'))"
  obtains r' where "catalog_reach c'" "find_clip c' (ir_clip_id i) = Some r'" "\<not> cc_protected r'"
    "video_path r' = video_path r" "sidecar_path r' = sidecar_path r" "cc_lifecycle r' \<in> {DELETING, DELETED}"
    "\<forall>j. j \<noteq> ir_clip_id i \<longrightarrow> find_clip c' j = find_clip c j"
    "\<forall>p. disk_view d' p = disk_view d p \<or> p \<in> {video_path r, sidecar_path r} \<and> disk_view d' p = None"
    "\<forall>st. x = Inr st \<longrightarrow> cc_lifecycle r' = DELETED \<and> rs_clip_id st = Some (ir_clip_id i) \<and> recovered st = was \<and> deleted st
       \<and> disk_view d' (video_path r) = None \<and> disk_view d' (sidecar_path r) = None"
proof -
  from carry_out_reserved [OF assms] obtain gone r' where "catalog_reach c'" "pair_only r (disk_view d) (disk_view d')"
    "\<forall>j. j \<noteq> ir_clip_id i \<longrightarrow> find_clip c' j = find_clip c j" "find_clip c' (ir_clip_id i) = Some r'"
    "video_path r' = video_path r" "sidecar_path r' = sidecar_path r" "\<not> cc_protected r'"
    "cc_lifecycle r' = (if gone then DELETED else DELETING)"
    "gone \<longrightarrow> disk_view d' (video_path r) = None \<and> disk_view d' (sidecar_path r) = None"
    "\<forall>st. x = Inr st \<longrightarrow> gone \<and> rs_clip_id st = Some (ir_clip_id i) \<and> recovered st = was \<and> deleted st"
    unfolding fate_of_reserved_def by blast
  then show thesis
    by (intro that [of r']) (auto simp: pair_only_def)
qed

lemma run_one_cases:
  assumes reach: "catalog_reach c" and op: "run_one RootedFilesystem parse sha boot allow t1 t2 (c, d) = (x, (c', d'))"
  obtains (idle) "c' = c" "d' = d" "(\<exists>e. x = Inl e) \<or> x = Inr idle_step
      \<and> (\<forall>i \<in> set (operation_intents c). is_pending i \<longrightarrow> ir_kind i \<noteq> DELETE)
      \<and> (allow \<longrightarrow> (\<forall>r \<in> set (clips c). \<not> sql_eligible c t1 boot r))"
  | (replay) iid i r where "reserved c iid i r" "carry_out RootedFilesystem parse sha True iid t1 (c, d) = (x, (c', d'))"
  | (fresh) iid c1 where "allow" "prepare_oldest_eligible_delete t1 boot c = Inr (Some iid, c1)"
      "\<forall>i \<in> set (operation_intents c). is_pending i \<longrightarrow> ir_kind i \<noteq> DELETE"
      "carry_out RootedFilesystem parse sha False iid t2 (c1, d) = (x, (c', d'))"
proof -
  have inv: "catalog_inv c" using reach_inv [OF reach] .
  obtain xs where xs: "list_pending_delete_intents 1 c = Inr xs"
    using pending_deletes_read [OF inv] by blast
  show thesis
  proof (cases "boot = [] \<or> length boot > 128")
    case True
    with op show thesis by (intro idle) (auto simp: run_one_def)
  next
    case boot: False
    show thesis
    proof (cases xs)
      case (Cons intent more)
      from first_pending_delete [OF inv xs [unfolded Cons]] obtain i r
        where res: "reserved c (intent_id intent) i r" "oi_kind intent = DELETE" by blast
      with op boot xs Cons show thesis
        by (intro replay [OF res(1)]) (simp add: run_one_def bindF_def)
    next
      case Nil
      note quiet = no_pending_delete [OF inv xs [unfolded Nil]]
      show thesis
      proof (cases "allow \<and> 0 \<le> t1")
        case False
        with op boot xs Nil quiet show thesis
          by (intro idle) (auto simp: run_one_def bindF_def clock_reading_def split: if_splits)
      next
        case True
        show thesis
        proof (cases "prepare_oldest_eligible_delete t1 boot c")
          case (Inl e)
          with op boot xs Nil True show thesis
            by (intro idle) (auto simp: run_one_def bindF_def clock_reading_def)
        next
          case (Inr uc)
          obtain u c1 where u: "prepare_oldest_eligible_delete t1 boot c = Inr (u, c1)"
            using Inr by (cases uc) auto
          show thesis
          proof (cases u)
            case None
            with u have none: "c1 = c" "sort_key order_key (filter (sql_eligible c t1 boot) (clips c)) = []"
              by (auto simp: prepare_oldest_eligible_delete_def result_simps split: list.splits)
            from none(2) have "filter (sql_eligible c t1 boot) (clips c) = []"
              by (metis length_0_conv length_sort)
            with op boot xs Nil True u None none quiet show thesis
              by (intro idle) (auto simp: run_one_def bindF_def clock_reading_def filter_empty_conv)
          next
            case (Some iid)
            with op boot xs Nil True u quiet show thesis
              by (intro fresh [of iid c1]) (simp_all add: run_one_def bindF_def clock_reading_def)
          qed
        qed
      qed
    qed
  qed
qed

text \<open>How many deletions are pending.\<close>

definition pending_deletes :: "catalog \<Rightarrow> nat" where
  "pending_deletes c = length (filter (\<lambda>i. is_pending i \<and> ir_kind i = DELETE) (operation_intents c))"

lemma filter_update_less:
  assumes "\<And>x. P (f x) \<Longrightarrow> P x" "x \<in> set xs" "key x = k" "P x" "\<not> P (f x)"
  shows "length (filter P (row_update key k f xs)) < length (filter P xs)"
proof -
  have le: "length (filter P (row_update key k f ys)) \<le> length (filter P ys)" for ys
    by (induction ys) (auto simp: row_update_def dest: assms(1))
  show ?thesis
    using assms(2)
  proof (induction xs)
    case (Cons y ys)
    show ?case
    proof (cases "y = x")
      case True
      with assms(3-5) le [of ys] show ?thesis by (simp add: row_update_def)
    next
      case False
      with Cons show ?thesis by (auto simp: row_update_def dest: assms(1))
    qed
  qed simp
qed

lemma complete_delete_pending:
  assumes "complete_intent_locked intent now c = Inr c'" "oi_kind intent = DELETE"
    and "row_get ir_intent_id (intent_id intent) (operation_intents c) = Some i" "is_pending i" "ir_kind i = DELETE"
  shows "pending_deletes c' < pending_deletes c"
proof -
  have ops: "operation_intents c' = row_update ir_intent_id (intent_id intent)
      (\<lambda>i. i\<lparr>ir_status := COMPLETE, last_problem := None, completed_monotonic_ns := Some now\<rparr>) (operation_intents c)"
    using assms(1,2) by (auto simp: complete_intent_locked_def complete_delete_def mark_intent_complete_def)
  show ?thesis
    unfolding pending_deletes_def ops
    by (rule filter_update_less [of _ _ i]) (use intent_table.get_SomeD [OF assms(3)] assms(4,5) in \<open>auto simp: is_pending_def\<close>)
qed

lemma replay_completes:
  assumes reach: "catalog_reach c" and pend: "pending_deletes c > 0"
    and paths: "\<forall>i \<in> set (operation_intents c). is_pending i \<and> ir_kind i = DELETE \<longrightarrow>
        reachable_path (video_source (ir_paths i)) d \<and> reachable_path (sidecar_source (ir_paths i)) d"
    and args: "boot \<noteq> []" "length boot \<le> 128" "0 \<le> t1"
  shows "\<exists>st c' d'. run_one RootedFilesystem parse sha boot allow t1 t2 (c, d\<lparr>fault_schedule := []\<rparr>) = (Inr st, (c', d'))
    \<and> deleted st \<and> recovered st \<and> pending_deletes c' < pending_deletes c
    \<and> (pending_delete_remaining st \<longleftrightarrow> pending_deletes c' > 0)"
proof -
  have inv: "catalog_inv c" using reach_inv [OF reach] .
  let ?d = "d\<lparr>fault_schedule := []\<rparr>"
  obtain zs where zs: "list_pending_delete_intents 1 c = Inr zs"
    using pending_deletes_read [OF inv] by blast
  have "zs \<noteq> []"
    using zs no_pending_delete [OF inv] pend by (auto simp: pending_deletes_def filter_empty_conv)
  then obtain x xs where l: "list_pending_delete_intents 1 c = Inr (x # xs)"
    using zs by (cases zs) auto
  from first_pending_delete [OF inv l] obtain i r where res: "reserved c (intent_id x) i r"
    and x: "intent_from_row i = Inr x" "oi_kind x = DELETE" by blast
  have row: "row_get ir_intent_id (intent_id x) (operation_intents c) = Some i" "is_pending i" "ir_kind i = DELETE"
    using res by (simp_all add: reserved_def)
  have "rooted.healthy_at ?d (ir_paths i)"
    using paths intent_table.get_SomeD [OF row(1)] row intent_targets [OF x(1)]
    by (intro rooted_healthy_at) auto
  from last_attempt [OF row(1,2) x(1) _ _ this args(3), of 2 parse sha] row(3)
  obtain v c2 d2 where att: "reconcile_intent RootedFilesystem parse sha (intent_id x) t1 2 (c, ?d) = (Inr v, (c2, d2))"
      "irr_complete v" by auto
  from att(1) row(1) have "complete_intent_locked x t1 c = Inr c2 \<and> irr_intent v = x \<and> irr_problems v = []"
  proof (cases rule: reconcile_intent_cases)
    case idle
    with row(2) show ?thesis by simp
  next
    case (run intent)
    then have same: "intent = x" and body: "reconcile_body RootedFilesystem parse sha i intent t1 2 c ?d = (Inr (v, c2), d2)"
      using x(1) by auto
    from completed_body [OF body att(2)] show ?thesis unfolding same .
  qed
  note fin = this
  have less: "pending_deletes c2 < pending_deletes c"
    using complete_delete_pending [OF _ x(2) row] fin by blast
  have inv2: "catalog_inv c2"
    using reach_inv [OF attempt_reach [OF reach att(1)]] .
  obtain ys where ys: "list_pending_delete_intents 1 c2 = Inr ys"
      "list_all2 (\<lambda>i x. intent_from_row i = Inr x) (take 1 (pending_rows (\<lambda>i. ir_kind i = DELETE) c2)) ys"
    using pending_deletes_read [OF inv2] by blast
  have "ys = [] \<longleftrightarrow> pending_rows (\<lambda>i. ir_kind i = DELETE) c2 = []"
    using ys(2) by (cases "pending_rows (\<lambda>i. ir_kind i = DELETE) c2") auto
  also have "\<dots> \<longleftrightarrow> pending_deletes c2 = 0"
    unfolding pending_rows_def pending_deletes_def by (metis length_0_conv length_sort)
  finally have rest: "ys \<noteq> [] \<longleftrightarrow> pending_deletes c2 > 0" by simp
  have "run_one RootedFilesystem parse sha boot allow t1 t2 (c, ?d)
      = (Inr \<lparr>rs_clip_id = Some (oi_clip_id x), rs_intent_id = Some (intent_id x), recovered = True,
          deleted = True, eligible_found = True, rs_actions_attempted = actions_attempted v,
          pending_delete_remaining = (ys \<noteq> [])\<rparr>, (c2, d2))"
    using l x args att fin ys(1) by (simp add: run_one_def carry_out_def bindF_def clock_reading_def)
  with less rest show ?thesis by auto
qed

section \<open>Properties\<close>

text \<open>
  C4: A reclamation call never touches anything but the two files of one clip that the catalog has
  reserved. Whatever faults the device injects and whether the call returns or raises, the catalog
  stays reachable by its own transactions, at most one clip's record changes, and the only files that
  change are removed ones of a clip that is unprotected, lives in \<^verbatim>\<open>clips/\<close> by its catalog record
  and is marked DELETING or DELETED. That clip was already reserved, or it is the oldest clip
  eligible under the policy at the clock reading.
\<close>

theorem reclaimer_touches_only_reserved_pair:
  assumes "catalog_reach c" and "run_one RootedFilesystem parse sha boot allow t1 t2 (c, d) = (x, (c', d'))"
  shows "catalog_reach c' \<and> (c' = c \<and> d' = d \<or> (\<exists>row r'.
      find_clip c (cc_clip_id row) = Some row \<and> find_clip c' (cc_clip_id row) = Some r'
      \<and> (\<forall>j. j \<noteq> cc_clip_id row \<longrightarrow> find_clip c' j = find_clip c j)
      \<and> \<not> cc_protected row \<and> \<not> cc_protected r' \<and> cc_lifecycle r' \<in> {DELETING, DELETED}
      \<and> path_parent (video_path row) = ''clips'' \<and> path_parent (sidecar_path row) = ''clips''
      \<and> (cc_lifecycle row = DELETING \<or> sql_eligible c t1 boot row
           \<and> (\<forall>other \<in> set (clips c). sql_eligible c t1 boot other \<longrightarrow> order_key row \<le> order_key other))
      \<and> (\<forall>p. disk_view d' p = disk_view d p \<or> p \<in> {video_path row, sidecar_path row} \<and> disk_view d' p = None)))"
  using assms
proof (cases rule: run_one_cases)
  case idle
  with assms show ?thesis by simp
next
  case (replay iid i r)
  have r: "find_clip c (cc_clip_id r) = Some r" "ir_clip_id i = cc_clip_id r" "\<not> cc_protected r" "cc_lifecycle r = DELETING"
      "path_parent (video_path r) = ''clips''" "path_parent (sidecar_path r) = ''clips''"
    using replay(1) find_clip_Some_iff [OF reach_inv [OF assms(1)]] by (auto simp: reserved_def)
  obtain r' where r': "catalog_reach c'" "find_clip c' (cc_clip_id r) = Some r'"
      "\<not> cc_protected r'" "cc_lifecycle r' \<in> {DELETING, DELETED}"
      "\<forall>j. j \<noteq> cc_clip_id r \<longrightarrow> find_clip c' j = find_clip c j"
      "\<forall>p. disk_view d' p = disk_view d p \<or> p \<in> {video_path r, sidecar_path r} \<and> disk_view d' p = None"
    by (rule carry_out_facts [OF assms(1) replay, unfolded r(2)]) (rule that)
  show ?thesis
    by (rule conjI [OF r'(1) disjI2], rule exI [of _ r], rule exI [of _ r']) (use r r' in simp)
next
  case (fresh iid c1)
  from new_reservation [OF assms(1) fresh(2)] obtain i r row where c1: "catalog_reach c1" and res: "reserved c1 iid i r"
    and row: "row \<in> set (clips c)" "cc_clip_id row = ir_clip_id i" "sql_eligible c t1 boot row"
      "\<forall>other \<in> set (clips c). sql_eligible c t1 boot other \<longrightarrow> order_key row \<le> order_key other"
      "video_path r = video_path row" "sidecar_path r = sidecar_path row"
    and others: "\<forall>j. j \<noteq> ir_clip_id i \<longrightarrow> find_clip c1 j = find_clip c j" by blast
  obtain r' where r': "catalog_reach c'" "find_clip c' (cc_clip_id row) = Some r'"
      "\<not> cc_protected r'" "cc_lifecycle r' \<in> {DELETING, DELETED}"
      "\<forall>j. j \<noteq> cc_clip_id row \<longrightarrow> find_clip c' j = find_clip c1 j"
      "\<forall>p. disk_view d' p = disk_view d p \<or> p \<in> {video_path row, sidecar_path row} \<and> disk_view d' p = None"
    by (rule carry_out_facts [OF c1 res fresh(4), folded row(2), unfolded row(5,6)]) (rule that)
  have "find_clip c (cc_clip_id row) = Some row" "\<not> cc_protected row"
    using find_clip_Some_iff [OF reach_inv [OF assms(1)]] row by (auto simp: sql_eligible_def)
  note old = this
  have dirs: "path_parent (video_path row) = ''clips''" "path_parent (sidecar_path row) = ''clips''"
    using res row by (auto simp: reserved_def)
  have rest: "\<forall>j. j \<noteq> cc_clip_id row \<longrightarrow> find_clip c' j = find_clip c j"
    using r'(5) others row(2) by simp
  show ?thesis
    by (rule conjI [OF r'(1) disjI2], rule exI [of _ row], rule exI [of _ r'])
      (use old dirs rest r' row(3,4) in simp)
qed

text \<open>
  A returned step tells the truth. \<open>deleted\<close> means the named clip is DELETED in the catalog
  and neither of its two files exists any more; it is reported as recovered exactly if the clip was
  already DELETING before the call. A step that deleted nothing means that nothing changed, that no
  deletion is pending and, if new deletions were allowed, that no clip is eligible.
\<close>

theorem reclamation_step_is_truthful:
  assumes "catalog_reach c" and "run_one RootedFilesystem parse sha boot allow t1 t2 (c, d) = (Inr st, (c', d'))"
  shows "if deleted st
    then (\<exists>k row r'. rs_clip_id st = Some k \<and> find_clip c k = Some row \<and> find_clip c' k = Some r' \<and> cc_lifecycle r' = DELETED
        \<and> disk_view d' (video_path row) = None \<and> disk_view d' (sidecar_path row) = None
        \<and> (recovered st \<longleftrightarrow> cc_lifecycle row = DELETING) \<and> (\<not> recovered st \<longrightarrow> allow \<and> sql_eligible c t1 boot row))
    else c' = c \<and> d' = d \<and> \<not> progress st
      \<and> (\<forall>i \<in> set (operation_intents c). is_pending i \<longrightarrow> ir_kind i \<noteq> DELETE)
      \<and> (allow \<longrightarrow> (\<forall>r \<in> set (clips c). \<not> sql_eligible c t1 boot r))"
  using assms
proof (cases rule: run_one_cases)
  case idle
  then show ?thesis by (auto simp: idle_step_def progress_def)
next
  case (replay iid i r)
  have r: "find_clip c (ir_clip_id i) = Some r" "cc_lifecycle r = DELETING"
    using replay(1) by (auto simp: reserved_def)
  obtain r' where "find_clip c' (ir_clip_id i) = Some r'" "cc_lifecycle r' = DELETED"
     "rs_clip_id st = Some (ir_clip_id i)" "recovered st" "deleted st"
     "disk_view d' (video_path r) = None" "disk_view d' (sidecar_path r) = None"
    by (rule carry_out_facts [OF assms(1) replay]) (use that in simp)
  with r show ?thesis by auto
next
  case (fresh iid c1)
  from new_reservation [OF assms(1) fresh(2)] obtain i r row where c1: "catalog_reach c1" and res: "reserved c1 iid i r"
    and row: "row \<in> set (clips c)" "cc_clip_id row = ir_clip_id i" "sql_eligible c t1 boot row"
      "video_path r = video_path row" "sidecar_path r = sidecar_path row" by blast
  obtain r' where "find_clip c' (ir_clip_id i) = Some r'" "cc_lifecycle r' = DELETED"
     "rs_clip_id st = Some (ir_clip_id i)" "\<not> recovered st" "deleted st"
     "disk_view d' (video_path row) = None" "disk_view d' (sidecar_path row) = None"
    by (rule carry_out_facts [OF c1 res fresh(4), unfolded row(4,5)]) (use that in simp)
  moreover have "find_clip c (ir_clip_id i) = Some row" "cc_lifecycle row \<noteq> DELETING"
    using find_clip_Some_iff [OF reach_inv [OF assms(1)]] row by (auto simp: sql_eligible_def)
  ultimately show ?thesis
    using row(3) fresh(1) by auto
qed

text \<open>
  C32: Interrupted deletions are finished by replay. Whenever a deletion is pending, whatever
  happened before, one call that meets no device fault completes a pending deletion, even when new
  deletions are not allowed: it returns a recovered, deleted step and leaves strictly fewer pending
  deletions, so that repeating it drains them, and it reports truthfully whether any remains.
\<close>

theorem pending_deletion_is_completed_by_replay:
  assumes reach: "catalog_reach c" and pend: "pending_deletes c > 0"
    and paths: "\<forall>i \<in> set (operation_intents c). is_pending i \<and> ir_kind i = DELETE \<longrightarrow>
        reachable_path (video_source (ir_paths i)) d \<and> reachable_path (sidecar_source (ir_paths i)) d"
    and args: "boot \<noteq> []" "length boot \<le> 128" "0 \<le> t1"
  shows "\<exists>st c' d'. run_one RootedFilesystem parse sha boot allow t1 t2 (c, d\<lparr>fault_schedule := []\<rparr>) = (Inr st, (c', d'))
    \<and> deleted st \<and> recovered st \<and> pending_deletes c' < pending_deletes c
    \<and> (pending_delete_remaining st \<longleftrightarrow> pending_deletes c' > 0)"
  using replay_completes [OF assms] .

section \<open>Witnesses\<close>

text \<open>The example catalog with its clip reserved, and a disk whose schedule injects no fault.\<close>

lemma ex_reserved:
  "\<exists>c. catalog_reach c \<and> pending_deletes c = 1
     \<and> (\<forall>i \<in> set (operation_intents c). is_pending i \<and> ir_kind i = DELETE \<longrightarrow>
        reachable_path (video_source (ir_paths i)) ex_disk \<and> reachable_path (sidecar_source (ir_paths i)) ex_disk)"
proof -
  have b: "check_boot_id ''b'' = Inr ()"
    by code_simp
  have "\<exists>u c. prepare_delete (UUID 1) 5 ''b'' ex_catalog = Inr (u, c) \<and> pending_deletes c = 1
     \<and> (\<forall>i \<in> set (operation_intents c). is_pending i \<and> ir_kind i = DELETE \<longrightarrow>
        reachable_path (video_source (ir_paths i)) ex_disk \<and> reachable_path (sidecar_source (ir_paths i)) ex_disk)"
    by (simp add: prepare_delete_def b non_negative_integer_def required_clip_row_def
        prepare_delete_row_locked_def pending_intent_row_def row_has_active_lease_def ex_paths
        insert_intent_locked_def fresh_uuid_def mk_operation_intent_def insert_intent_row_def
        find_clip_def row_get_def row_of_intent_def update_clip_def row_update_def pending_deletes_def
        is_pending_def ex_reachable)
  then show ?thesis
    using catalog_reach.step [OF ex_reach catalog_step.delete] by blast
qed

theorem reclaimer_touches_only_reserved_pair_witness:
  "\<exists>x c' d'. run_one RootedFilesystem (\<lambda>_. Inl SidecarParseError) (\<lambda>_. []) ''b'' True 5 6 (ex_catalog, ex_disk) = (x, (c', d'))
     \<and> catalog_reach c'"
proof -
  obtain x c' d' where run: "run_one RootedFilesystem (\<lambda>_. Inl SidecarParseError) (\<lambda>_. []) ''b'' True 5 6 (ex_catalog, ex_disk)
      = (x, (c', d'))"
    by (metis surj_pair)
  from reclaimer_touches_only_reserved_pair [OF ex_reach run] run show ?thesis by blast
qed

theorem reclamation_step_is_truthful_witness:
  "\<exists>c st c' d'. run_one RootedFilesystem (\<lambda>_. Inl SidecarParseError) (\<lambda>_. []) ''b'' False 5 6 (c, ex_disk\<lparr>fault_schedule := []\<rparr>)
      = (Inr st, (c', d'))
     \<and> (\<exists>k row. rs_clip_id st = Some k \<and> find_clip c k = Some row \<and> disk_view d' (video_path row) = None)"
proof -
  obtain c where c: "catalog_reach c" "pending_deletes c = 1"
      "\<forall>i \<in> set (operation_intents c). is_pending i \<and> ir_kind i = DELETE \<longrightarrow>
        reachable_path (video_source (ir_paths i)) ex_disk \<and> reachable_path (sidecar_source (ir_paths i)) ex_disk"
    using ex_reserved by blast
  from replay_completes [OF c(1) _ c(3), of "''b''" 5] c(2) obtain st c' d'
    where run: "run_one RootedFilesystem (\<lambda>_. Inl SidecarParseError) (\<lambda>_. []) ''b'' False 5 6 (c, ex_disk\<lparr>fault_schedule := []\<rparr>)
      = (Inr st, (c', d'))" "deleted st" by fastforce
  from reclamation_step_is_truthful [OF c(1) run(1)] run(2) have "\<exists>k row. rs_clip_id st = Some k
      \<and> find_clip c k = Some row \<and> disk_view d' (video_path row) = None"
    by auto
  with run(1) show ?thesis by blast
qed

theorem pending_deletion_is_completed_by_replay_witness:
  "\<exists>c st c' d'. run_one RootedFilesystem (\<lambda>_. Inl SidecarParseError) (\<lambda>_. []) ''b'' False 5 6 (c, ex_disk\<lparr>fault_schedule := []\<rparr>)
      = (Inr st, (c', d')) \<and> pending_deletes c = 1 \<and> pending_deletes c' = 0 \<and> \<not> pending_delete_remaining st"
proof -
  obtain c where c: "catalog_reach c" "pending_deletes c = 1"
      "\<forall>i \<in> set (operation_intents c). is_pending i \<and> ir_kind i = DELETE \<longrightarrow>
        reachable_path (video_source (ir_paths i)) ex_disk \<and> reachable_path (sidecar_source (ir_paths i)) ex_disk"
    using ex_reserved by blast
  from pending_deletion_is_completed_by_replay [OF c(1) _ c(3), of "''b''" 5] c(2) show ?thesis
    by fastforce
qed

end
