(* ===== verification/Segmenter.thy ===== *)
theory Segmenter
  imports Dashcam_Prelude
begin

text \<open>
  Segmentation and bounded finalization: \<^verbatim>\<open>src/dashcam/recorder/segmenter.py\<close>.

  \<^item> \<^verbatim>\<open>asyncio\<close> runs one task at a time and switches only at an \<^verbatim>\<open>await\<close>, so every stretch of
    code between two awaits is one atomic operation here: \<open>seg_observe\<close> runs up to the first
    await and says what it waits for, \<open>seg_idr_returned\<close> and \<open>seg_rotate_returned\<close> go on from
    there with what the output backend returned or raised; the finalizer task takes an artifact
    (\<open>worker_take\<close>) and later ends it (\<open>worker_finish\<close>); \<open>queue_close_begin\<close> and
    \<open>queue_close_end\<close> are the two halves of \<^verbatim>\<open>close\<close> around the wait for the queue to drain.
  \<^item> \<^verbatim>\<open>asyncio.Queue\<close> is the list of its items with the count of unfinished tasks behind
    \<^verbatim>\<open>join\<close>. The output backend and the finalizer are outside the program: what they return or
    raise are arguments.
  \<^item> An operation that raises returns the exception together with the state it leaves.
\<close>

section \<open>Access units and the boundary policy\<close>

record AccessUnit =
  timestamp_ns :: int
  is_idr :: bool
  closed_gop :: bool
  has_decoder_config :: bool

definition mk_access_unit :: "int \<Rightarrow> bool \<Rightarrow> bool \<Rightarrow> bool \<Rightarrow> AccessUnit result" where
  "mk_access_unit t idr gop config = (if t < 0 then Inl ValueError
     else Inr \<lparr>timestamp_ns = t, is_idr = idr, closed_gop = gop, has_decoder_config = config\<rparr>)"

definition independently_decodable :: "AccessUnit \<Rightarrow> bool" where
  "independently_decodable u = (is_idr u \<and> closed_gop u \<and> has_decoder_config u)"

datatype ClipPosition = FIRST | MIDDLE | FINAL

datatype BoundaryDecision = WAIT | REQUEST_IDR | SPLIT | FAULT

record SegmentBoundaryPolicy =
  target_duration_ns :: int
  minimum_normal_duration_ns :: int
  maximum_normal_duration_ns :: int
  request_lead_ns :: int

definition mk_policy :: "int \<Rightarrow> int \<Rightarrow> int \<Rightarrow> int \<Rightarrow> SegmentBoundaryPolicy result" where
  "mk_policy target minimum maximum lead =
     (if \<not> (0 < minimum \<and> minimum \<le> target \<and> target \<le> maximum) then Inl ValueError
      else if \<not> (0 \<le> lead \<and> lead \<le> target) then Inl ValueError
      else Inr \<lparr>target_duration_ns = target, minimum_normal_duration_ns = minimum,
             maximum_normal_duration_ns = maximum, request_lead_ns = lead\<rparr>)"

definition default_policy :: SegmentBoundaryPolicy where
  "default_policy = \<lparr>target_duration_ns = 60000000000, minimum_normal_duration_ns = 59000000000,
     maximum_normal_duration_ns = 61000000000, request_lead_ns = 1000000000\<rparr>"

definition duration_allowed :: "SegmentBoundaryPolicy \<Rightarrow> int \<Rightarrow> ClipPosition \<Rightarrow> bool result" where
  "duration_allowed p duration position =
     (if duration < 0 then Inl ValueError
      else if position = MIDDLE
      then Inr (minimum_normal_duration_ns p \<le> duration \<and> duration \<le> maximum_normal_duration_ns p)
      else Inr (duration \<le> maximum_normal_duration_ns p))"

definition decide :: "SegmentBoundaryPolicy \<Rightarrow> int \<Rightarrow> AccessUnit \<Rightarrow> BoundaryDecision result" where
  "decide p start u =
     (if start < 0 then Inl ValueError
      else if timestamp_ns u < start then Inl SegmentContractError
      else let duration = timestamp_ns u - start
      in if duration < minimum_normal_duration_ns p then Inr WAIT
         else if duration > maximum_normal_duration_ns p then Inr FAULT
         else if independently_decodable u then Inr SPLIT
         else if duration \<ge> maximum_normal_duration_ns p then Inr FAULT
         else if duration \<ge> target_duration_ns p - request_lead_ns p then Inr REQUEST_IDR
         else Inr WAIT)"

section \<open>The finalization queue\<close>

record SegmentArtifact =
  sa_clip_id :: string
  start_timestamp_ns :: int
  end_timestamp_ns :: int
  token :: string

definition printable_text :: "nat \<Rightarrow> string \<Rightarrow> bool" where
  "printable_text n s = (s \<noteq> [] \<and> length s \<le> n \<and> list_all (\<lambda>c. code_between 32 126 c
     \<or> code_between 161 255 c \<and> \<not> code_between 173 173 c) s)"

definition mk_artifact :: "string \<Rightarrow> int \<Rightarrow> int \<Rightarrow> string \<Rightarrow> SegmentArtifact result" where
  "mk_artifact k start stop tok =
     (if \<not> printable_text 128 k then Inl ValueError
      else if \<not> printable_text 512 tok then Inl ValueError
      else if start < 0 \<or> stop \<le> start then Inl ValueError
      else Inr \<lparr>sa_clip_id = k, start_timestamp_ns = start, end_timestamp_ns = stop, token = tok\<rparr>)"

datatype FinalizationState = NEW | RUNNING | DEGRADED | CLOSED

text \<open>The finalizer task: not created, waiting in \<^verbatim>\<open>get\<close>, in \<^verbatim>\<open>finalize\<close>, or ended.\<close>

datatype worker = ABSENT | IDLE | FINALIZING SegmentArtifact | STOPPED

record FinalizationQueue =
  q_capacity :: int
  q_items :: "SegmentArtifact list"
  q_unfinished :: int
  q_worker :: worker
  outstanding :: int
  failed_count :: int
  last_failure :: "string option"
  q_accepting :: bool
  q_state :: FinalizationState

record FinalizationCloseResult =
  drained :: bool
  cr_outstanding :: int
  cr_failed_count :: int

definition mk_queue :: "int \<Rightarrow> FinalizationQueue result" where
  "mk_queue capacity = (if \<not> (1 \<le> capacity \<and> capacity \<le> 64) then Inl ValueError
     else Inr \<lparr>q_capacity = capacity, q_items = [], q_unfinished = 0, q_worker = ABSENT, outstanding = 0,
            failed_count = 0, last_failure = None, q_accepting = False, q_state = NEW\<rparr>)"

definition queue_start :: "FinalizationQueue \<Rightarrow> FinalizationQueue result" where
  "queue_start q = (if q_state q \<noteq> NEW then Inl RuntimeError
     else Inr (q\<lparr>q_accepting := True, q_state := RUNNING, q_worker := IDLE\<rparr>))"

definition queue_reserve :: "FinalizationQueue \<Rightarrow> bool \<times> FinalizationQueue" where
  "queue_reserve q = (if \<not> q_accepting q \<or> outstanding q \<ge> q_capacity q then (False, q)
     else (True, q\<lparr>outstanding := outstanding q + 1\<rparr>))"

definition cancel_reservation :: "FinalizationQueue \<Rightarrow> unit result \<times> FinalizationQueue" where
  "cancel_reservation q = (if outstanding q \<le> 0 then (Inl SegmentContractError, q)
     else (Inr (), q\<lparr>outstanding := outstanding q - 1\<rparr>))"

definition submit_reserved :: "SegmentArtifact \<Rightarrow> FinalizationQueue \<Rightarrow> unit result \<times> FinalizationQueue" where
  "submit_reserved a q =
     (if \<not> q_accepting q
      then (case cancel_reservation q of (Inl e, q') \<Rightarrow> (Inl e, q') | (Inr _, q') \<Rightarrow> (Inl SegmentContractError, q'))
      else if int (length (q_items q)) \<ge> q_capacity q
      then (case cancel_reservation q of (Inl e, q') \<Rightarrow> (Inl e, q') | (Inr _, q') \<Rightarrow> (Inl SegmentContractError, q'))
      else (Inr (), q\<lparr>q_items := q_items q @ [a], q_unfinished := q_unfinished q + 1\<rparr>))"

definition try_submit :: "SegmentArtifact \<Rightarrow> FinalizationQueue \<Rightarrow> bool result \<times> FinalizationQueue" where
  "try_submit a q = (case queue_reserve q of (False, q') \<Rightarrow> (Inr False, q')
     | (True, q') \<Rightarrow> (case submit_reserved a q' of (Inl e, q'') \<Rightarrow> (Inl e, q'') | (Inr _, q'') \<Rightarrow> (Inr True, q'')))"

subsection \<open>The worker\<close>

definition worker_take :: "FinalizationQueue \<Rightarrow> FinalizationQueue option" where
  "worker_take q = (case (q_worker q, q_items q) of
       (IDLE, a # rest) \<Rightarrow> Some (q\<lparr>q_worker := FINALIZING a, q_items := rest\<rparr>)
     | _ \<Rightarrow> None)"

text \<open>\<^verbatim>\<open>str.splitlines\<close> on the characters up to 255; \<^verbatim>\<open>\\r\\n\<close> is one line break.\<close>

definition line_break :: "char \<Rightarrow> bool" where
  "line_break c = (code_between 10 13 c \<or> code_between 28 30 c \<or> code_between 133 133 c)"

fun lines_from :: "string \<Rightarrow> string \<Rightarrow> string list" where
  "lines_from acc [] = (if acc = [] then [] else [acc])"
| "lines_from acc [c] = (if line_break c then [acc] else [acc @ [c]])"
| "lines_from acc (c # d # cs) =
     (if code_between 13 13 c \<and> code_between 10 10 d then acc # lines_from [] cs
      else if line_break c then acc # lines_from [] (d # cs)
      else lines_from (acc @ [c]) (d # cs))"

fun join_with_space :: "string list \<Rightarrow> string" where
  "join_with_space [] = []"
| "join_with_space [l] = l"
| "join_with_space (l # m # ls) = l @ '' '' @ join_with_space (m # ls)"

definition failure_detail :: "string \<Rightarrow> string \<Rightarrow> string" where
  "failure_detail name text =
     (let message = map (\<lambda>c. if code_between 0 0 c then CHR '' '' else c) (name @ '': '' @ text);
          detail = take 512 (join_with_space (lines_from [] message))
      in if detail = [] then name else detail)"

text \<open>What \<^verbatim>\<open>await finalize(artifact)\<close> ended with.\<close>

datatype finalize_outcome = FINALIZED_OK | FAILED_WITH string string

definition worker_finish :: "finalize_outcome \<Rightarrow> FinalizationQueue \<Rightarrow> FinalizationQueue option" where
  "worker_finish res q = (case q_worker q of
       FINALIZING a \<Rightarrow>
         let q1 = (case res of FINALIZED_OK \<Rightarrow> q
               | FAILED_WITH name text \<Rightarrow> q\<lparr>failed_count := failed_count q + 1,
                   last_failure := Some (failure_detail name text), q_state := DEGRADED\<rparr>)
         in Some (q1\<lparr>outstanding := outstanding q1 - 1, q_unfinished := q_unfinished q1 - 1, q_worker := IDLE\<rparr>)
     | _ \<Rightarrow> None)"

text \<open>Cancelling the task: in \<^verbatim>\<open>finalize\<close> the \<^verbatim>\<open>finally\<close> block still runs, in \<^verbatim>\<open>get\<close> there is none.\<close>

definition cancel_worker :: "FinalizationQueue \<Rightarrow> FinalizationQueue" where
  "cancel_worker q = (case q_worker q of
       FINALIZING a \<Rightarrow> q\<lparr>outstanding := outstanding q - 1, q_unfinished := q_unfinished q - 1, q_worker := STOPPED\<rparr>
     | IDLE \<Rightarrow> q\<lparr>q_worker := STOPPED\<rparr>
     | _ \<Rightarrow> q)"

subsection \<open>Closing\<close>

text \<open>The checks of \<^verbatim>\<open>close\<close>; \<open>timeout_valid\<close> is \<^verbatim>\<open>0 < drain_timeout_s <= 300\<close> of a number.\<close>

definition queue_close_begin :: "bool \<Rightarrow> FinalizationQueue \<Rightarrow> FinalizationQueue result" where
  "queue_close_begin timeout_valid q =
     (if \<not> timeout_valid then Inl ValueError
      else if q_state q = NEW then Inl RuntimeError
      else if q_state q = CLOSED then Inl RuntimeError
      else Inr (q\<lparr>q_accepting := False\<rparr>))"

text \<open>After \<^verbatim>\<open>join\<close> returned (possible only with no unfinished task) or the timeout expired.\<close>

definition queue_close_end :: "bool \<Rightarrow> FinalizationQueue \<Rightarrow> FinalizationCloseResult \<times> FinalizationQueue" where
  "queue_close_end joined q =
     (let q' = (cancel_worker q)\<lparr>q_state := CLOSED\<rparr>
      in (\<lparr>drained = joined, cr_outstanding = outstanding q', cr_failed_count = failed_count q'\<rparr>, q'))"

section \<open>The segmenter\<close>

datatype SegmentAction = NONE | IDR_REQUESTED | ROTATED | FINALIZED_ACTIVE | FINALIZER_OVERLOAD
  | BOUNDARY_FAULT | OUTPUT_FAULT

record SegmentOutcome =
  action :: SegmentAction
  artifact :: "SegmentArtifact option"
  detail :: "string option"

record ContinuousSegmenter =
  segment_start_ns :: int
  policy :: SegmentBoundaryPolicy
  idr_requested :: bool
  faulted :: bool
  closed :: bool

definition mk_segmenter :: "int \<Rightarrow> SegmentBoundaryPolicy option \<Rightarrow> ContinuousSegmenter result" where
  "mk_segmenter start p = (if start < 0 then Inl ValueError
     else Inr \<lparr>segment_start_ns = start, policy = (case p of None \<Rightarrow> default_policy | Some x \<Rightarrow> x),
            idr_requested = False, faulted = False, closed = False\<rparr>)"

definition seg_outcome :: "SegmentAction \<Rightarrow> SegmentOutcome" where
  "seg_outcome a = \<lparr>action = a, artifact = None, detail = None\<rparr>"

definition seg_fault :: "SegmentAction \<Rightarrow> string \<Rightarrow> SegmentOutcome" where
  "seg_fault a text = \<lparr>action = a, artifact = None, detail = Some text\<rparr>"

text \<open>Where an operation stands after its current stretch of code.\<close>

datatype suspension = ENDED "SegmentOutcome result" | AWAIT_IDR | AWAIT_ROTATE AccessUnit | AWAIT_CLOSE

definition seg_observe :: "AccessUnit \<Rightarrow> ContinuousSegmenter \<Rightarrow> FinalizationQueue
    \<Rightarrow> suspension \<times> ContinuousSegmenter \<times> FinalizationQueue" where
  "seg_observe u s q =
     (if closed s then (ENDED (Inl SegmentContractError), s, q)
      else if faulted s then (ENDED (Inl SegmentContractError), s, q)
      else case decide (policy s) (segment_start_ns s) u of
          Inl e \<Rightarrow> (ENDED (Inl e), s, q)
        | Inr WAIT \<Rightarrow> (ENDED (Inr (seg_outcome NONE)), s, q)
        | Inr REQUEST_IDR \<Rightarrow> if idr_requested s then (ENDED (Inr (seg_outcome NONE)), s, q) else (AWAIT_IDR, s, q)
        | Inr FAULT \<Rightarrow> (ENDED (Inr (seg_fault BOUNDARY_FAULT
              ''no closed-GOP IDR with decoder configuration arrived within the bound'')), s\<lparr>faulted := True\<rparr>, q)
        | Inr SPLIT \<Rightarrow> (case queue_reserve q of
              (False, q') \<Rightarrow> (ENDED (Inr (seg_fault FINALIZER_OVERLOAD
                 ''bounded finalization capacity is exhausted'')), s\<lparr>faulted := True\<rparr>, q')
            | (True, q') \<Rightarrow> (AWAIT_ROTATE u, s, q')))"

definition seg_idr_returned :: "string option \<Rightarrow> ContinuousSegmenter \<Rightarrow> suspension \<times> ContinuousSegmenter" where
  "seg_idr_returned error s = (case error of
       Some text \<Rightarrow> (ENDED (Inr (seg_fault OUTPUT_FAULT (take 512 text))), s\<lparr>faulted := True\<rparr>)
     | None \<Rightarrow> (ENDED (Inr (seg_outcome IDR_REQUESTED)), s\<lparr>idr_requested := True\<rparr>))"

definition seg_output_failed :: "string \<Rightarrow> ContinuousSegmenter \<Rightarrow> FinalizationQueue
    \<Rightarrow> suspension \<times> ContinuousSegmenter \<times> FinalizationQueue" where
  "seg_output_failed text s q = (case cancel_reservation q of
       (Inl e, q') \<Rightarrow> (ENDED (Inl e), s, q')
     | (Inr _, q') \<Rightarrow> (ENDED (Inr (seg_fault OUTPUT_FAULT (take 512 text))), s\<lparr>faulted := True\<rparr>, q'))"

definition seg_rotate_returned :: "AccessUnit \<Rightarrow> string + SegmentArtifact \<Rightarrow> ContinuousSegmenter \<Rightarrow> FinalizationQueue
    \<Rightarrow> suspension \<times> ContinuousSegmenter \<times> FinalizationQueue" where
  "seg_rotate_returned u res s q = (case res of
       Inl text \<Rightarrow> seg_output_failed text s q
     | Inr a \<Rightarrow> (case submit_reserved a q of
          (Inl e, q') \<Rightarrow> (ENDED (Inl e), s, q')
        | (Inr _, q') \<Rightarrow> (ENDED (Inr \<lparr>action = ROTATED, artifact = Some a, detail = None\<rparr>),
             s\<lparr>segment_start_ns := timestamp_ns u, idr_requested := False\<rparr>, q')))"

definition seg_close :: "int \<Rightarrow> ContinuousSegmenter \<Rightarrow> FinalizationQueue
    \<Rightarrow> suspension \<times> ContinuousSegmenter \<times> FinalizationQueue" where
  "seg_close final s q =
     (if closed s then (ENDED (Inl SegmentContractError), s, q)
      else if faulted s then (ENDED (Inl SegmentContractError), s, q)
      else if final < segment_start_ns s then (ENDED (Inl ValueError), s, q)
      else case duration_allowed (policy s) (final - segment_start_ns s) FINAL of
          Inl e \<Rightarrow> (ENDED (Inl e), s, q)
        | Inr False \<Rightarrow> (ENDED (Inr (seg_fault BOUNDARY_FAULT
             ''final clip exceeds the maximum segment-duration bound'')), s\<lparr>faulted := True\<rparr>, q)
        | Inr True \<Rightarrow> (case queue_reserve q of
              (False, q') \<Rightarrow> (ENDED (Inr (seg_fault FINALIZER_OVERLOAD
                 ''bounded finalization capacity is exhausted'')), s\<lparr>faulted := True\<rparr>, q')
            | (True, q') \<Rightarrow> (AWAIT_CLOSE, s, q')))"

definition seg_close_returned :: "string + SegmentArtifact \<Rightarrow> ContinuousSegmenter \<Rightarrow> FinalizationQueue
    \<Rightarrow> suspension \<times> ContinuousSegmenter \<times> FinalizationQueue" where
  "seg_close_returned res s q = (case res of
       Inl text \<Rightarrow> seg_output_failed text s q
     | Inr a \<Rightarrow> (case submit_reserved a q of
          (Inl e, q') \<Rightarrow> (ENDED (Inl e), s, q')
        | (Inr _, q') \<Rightarrow> (ENDED (Inr \<lparr>action = FINALIZED_ACTIVE, artifact = Some a, detail = None\<rparr>),
             s\<lparr>closed := True\<rparr>, q')))"

section \<open>All interleavings\<close>

text \<open>
  The queue with what its users know: how many reservations producers hold, the artifacts
  submitted so far, and the ones the worker has ended with how it ended (\<open>None\<close>: cancelled).
  Any producer may reserve; only a holder of a reservation cancels or submits it.
\<close>

record queue_run =
  rq :: FinalizationQueue
  held :: nat
  submitted :: "SegmentArtifact list"
  handled :: "(SegmentArtifact \<times> finalize_outcome option) list"

definition in_hand :: "FinalizationQueue \<Rightarrow> SegmentArtifact list" where
  "in_hand q = (case q_worker q of FINALIZING a \<Rightarrow> [a] | _ \<Rightarrow> [])"

inductive queue_step :: "queue_run \<Rightarrow> queue_run \<Rightarrow> bool" where
  start: "queue_start (rq r) = Inr q \<Longrightarrow> queue_step r (r\<lparr>rq := q\<rparr>)"
| reserve: "queue_reserve (rq r) = (True, q) \<Longrightarrow> queue_step r (r\<lparr>rq := q, held := held r + 1\<rparr>)"
| cancel: "0 < held r \<Longrightarrow> cancel_reservation (rq r) = (x, q) \<Longrightarrow> queue_step r (r\<lparr>rq := q, held := held r - 1\<rparr>)"
| submit: "0 < held r \<Longrightarrow> submit_reserved a (rq r) = (x, q) \<Longrightarrow>
    queue_step r (r\<lparr>rq := q, held := held r - 1, submitted := submitted r @ (if x = Inr () then [a] else [])\<rparr>)"
| take: "worker_take (rq r) = Some q \<Longrightarrow> queue_step r (r\<lparr>rq := q\<rparr>)"
| finish: "q_worker (rq r) = FINALIZING a \<Longrightarrow> worker_finish res (rq r) = Some q \<Longrightarrow>
    queue_step r (r\<lparr>rq := q, handled := handled r @ [(a, Some res)]\<rparr>)"
| close_begin: "queue_close_begin v (rq r) = Inr q \<Longrightarrow> queue_step r (r\<lparr>rq := q\<rparr>)"
| close_end: "\<not> q_accepting (rq r) \<Longrightarrow> q_state (rq r) \<noteq> NEW \<Longrightarrow> q_state (rq r) \<noteq> CLOSED \<Longrightarrow>
    joined \<longrightarrow> q_unfinished (rq r) = 0 \<Longrightarrow> queue_close_end joined (rq r) = (x, q) \<Longrightarrow>
    queue_step r (r\<lparr>rq := q, handled := handled r @ map (\<lambda>a. (a, None)) (in_hand (rq r))\<rparr>)"

definition failures :: "(SegmentArtifact \<times> finalize_outcome option) list \<Rightarrow> int" where
  "failures hs = int (length (filter (\<lambda>(a, x). \<exists>n t. x = Some (FAILED_WITH n t)) hs))"

definition queue_ok :: "int \<Rightarrow> queue_run \<Rightarrow> bool" where
  "queue_ok cap r = (let q = rq r in
     q_capacity q = cap \<and> 1 \<le> cap
     \<and> outstanding q = int (held r) + int (length (q_items q)) + int (length (in_hand q))
     \<and> outstanding q \<le> cap
     \<and> q_unfinished q = int (length (q_items q)) + int (length (in_hand q))
     \<and> submitted r = map fst (handled r) @ in_hand q @ q_items q
     \<and> failed_count q = failures (handled r)
     \<and> (q_accepting q \<longrightarrow> q_state q \<in> {RUNNING, DEGRADED})
     \<and> (q_state q = NEW \<longleftrightarrow> q_worker q = ABSENT) \<and> (q_state q = CLOSED \<longleftrightarrow> q_worker q = STOPPED))"

lemma queue_ok_new: "mk_queue cap = Inr q \<Longrightarrow> queue_ok cap \<lparr>rq = q, held = 0, submitted = [], handled = []\<rparr>"
  by (auto simp: mk_queue_def queue_ok_def in_hand_def failures_def split: if_splits)

lemma failures_snoc [simp]:
  "failures (hs @ [(a, Some FINALIZED_OK)]) = failures hs"
  "failures (hs @ [(a, Some (FAILED_WITH n t))]) = failures hs + 1"
  "failures (hs @ [(a, None)]) = failures hs"
  by (simp_all add: failures_def)

lemma ok_reserve:
  "queue_ok cap r \<Longrightarrow> queue_reserve (rq r) = (True, q) \<Longrightarrow> queue_ok cap (r\<lparr>rq := q, held := held r + 1\<rparr>)"
  by (auto simp: queue_reserve_def queue_ok_def in_hand_def Let_def split: if_splits)

lemma ok_cancel:
  assumes "queue_ok cap r" "0 < held r"
  shows "\<exists>q. cancel_reservation (rq r) = (Inr (), q) \<and> queue_ok cap (r\<lparr>rq := q, held := held r - 1\<rparr>)"
  using assms by (auto simp: cancel_reservation_def queue_ok_def in_hand_def Let_def)

lemma ok_submit:
  assumes "queue_ok cap r" "0 < held r"
  shows "\<exists>q. submit_reserved a (rq r) = (if q_accepting (rq r) then Inr () else Inl SegmentContractError, q)
     \<and> queue_ok cap (r\<lparr>rq := q, held := held r - 1,
          submitted := submitted r @ (if q_accepting (rq r) then [a] else [])\<rparr>)"
proof (cases "q_accepting (rq r)")
  case True
  have "int (length (q_items (rq r))) < q_capacity (rq r)"
    using assms by (simp add: queue_ok_def Let_def)
  with True assms show ?thesis
    by (auto simp: submit_reserved_def queue_ok_def in_hand_def Let_def)
next
  case False
  from ok_cancel [OF assms] False show ?thesis
    by (auto simp: submit_reserved_def)
qed

lemma ok_take: "queue_ok cap r \<Longrightarrow> worker_take (rq r) = Some q \<Longrightarrow> queue_ok cap (r\<lparr>rq := q\<rparr>)"
  by (auto simp: worker_take_def queue_ok_def in_hand_def Let_def split: worker.splits list.splits)

lemma ok_finish:
  "queue_ok cap r \<Longrightarrow> q_worker (rq r) = FINALIZING a \<Longrightarrow> worker_finish res (rq r) = Some q \<Longrightarrow>
   queue_ok cap (r\<lparr>rq := q, handled := handled r @ [(a, Some res)]\<rparr>)"
  by (cases res) (auto simp: worker_finish_def queue_ok_def in_hand_def Let_def)

lemma ok_close_end:
  assumes "queue_ok cap r" "\<not> q_accepting (rq r)" "q_state (rq r) \<noteq> NEW" "q_state (rq r) \<noteq> CLOSED"
    and "queue_close_end joined (rq r) = (x, q)"
  shows "queue_ok cap (r\<lparr>rq := q, handled := handled r @ map (\<lambda>a. (a, None)) (in_hand (rq r))\<rparr>)"
  using assms by (cases "q_worker (rq r)")
    (auto simp: queue_close_end_def cancel_worker_def queue_ok_def in_hand_def Let_def failures_def)

lemma queue_step_ok:
  assumes "queue_step r r'" and ok: "queue_ok cap r"
  shows "queue_ok cap r'"
  using assms(1)
proof cases
  case (start q)
  with ok show ?thesis by (auto simp: queue_start_def queue_ok_def in_hand_def Let_def split: if_splits)
next
  case (reserve q)
  with ok ok_reserve show ?thesis by simp
next
  case (cancel x q)
  with ok ok_cancel [of cap r] show ?thesis by auto
next
  case (submit a x q)
  with ok_submit [OF ok, of a] show ?thesis by (auto split: if_splits)
next
  case (take q)
  with ok ok_take show ?thesis by simp
next
  case (finish a res q)
  with ok ok_finish show ?thesis by simp
next
  case (close_begin v q)
  with ok show ?thesis by (auto simp: queue_close_begin_def queue_ok_def in_hand_def Let_def split: if_splits)
next
  case (close_end joined x q)
  with ok ok_close_end show ?thesis by blast
qed

section \<open>The segmenter over its queue\<close>

text \<open>
  A segmenter whose operations are called one after the other, over a queue that other tasks step
  at any point, also while an operation of the segmenter waits for the output backend. \<open>boundaries\<close>
  are the access units at which the output was rotated, \<open>requests\<close> the segment starts for which an
  IDR was requested.
\<close>

record recorder =
  run :: queue_run
  seg :: ContinuousSegmenter
  waiting :: "suspension option"
  boundaries :: "AccessUnit list"
  requests :: "int list"

definition waits :: "suspension \<Rightarrow> suspension option" where
  "waits p = (case p of ENDED _ \<Rightarrow> None | _ \<Rightarrow> Some p)"

definition own_slots :: "suspension option \<Rightarrow> nat" where
  "own_slots w = (case w of Some (AWAIT_ROTATE _) \<Rightarrow> 1 | Some AWAIT_CLOSE \<Rightarrow> 1 | _ \<Rightarrow> 0)"

inductive rec_step :: "recorder \<Rightarrow> recorder \<Rightarrow> bool" where
  observe: "waiting R = None \<Longrightarrow> seg_observe u (seg R) (rq (run R)) = (p, s, q) \<Longrightarrow>
    rec_step R (R\<lparr>run := (run R)\<lparr>rq := q, held := held (run R) + own_slots (waits p)\<rparr>, seg := s, waiting := waits p,
      requests := requests R @ (if p = AWAIT_IDR then [segment_start_ns (seg R)] else [])\<rparr>)"
| idr: "waiting R = Some AWAIT_IDR \<Longrightarrow> seg_idr_returned e (seg R) = (p, s) \<Longrightarrow>
    rec_step R (R\<lparr>seg := s, waiting := None\<rparr>)"
| rotated: "waiting R = Some (AWAIT_ROTATE u) \<Longrightarrow> seg_rotate_returned u (Inr a) (seg R) (rq (run R)) = (ENDED x, s, q) \<Longrightarrow>
    rec_step R (R\<lparr>run := (run R)\<lparr>rq := q, held := held (run R) - 1,
        submitted := submitted (run R) @ (if (\<exists>ob. x = Inr ob) then [a] else [])\<rparr>, seg := s, waiting := None,
      boundaries := boundaries R @ (if (\<exists>ob. x = Inr ob) then [u] else [])\<rparr>)"
| rotate_failed: "waiting R = Some (AWAIT_ROTATE u) \<Longrightarrow> seg_rotate_returned u (Inl e) (seg R) (rq (run R)) = (p, s, q) \<Longrightarrow>
    rec_step R (R\<lparr>run := (run R)\<lparr>rq := q, held := held (run R) - 1\<rparr>, seg := s, waiting := None\<rparr>)"
| close: "waiting R = None \<Longrightarrow> seg_close t (seg R) (rq (run R)) = (p, s, q) \<Longrightarrow>
    rec_step R (R\<lparr>run := (run R)\<lparr>rq := q, held := held (run R) + own_slots (waits p)\<rparr>, seg := s, waiting := waits p\<rparr>)"
| closed_output: "waiting R = Some AWAIT_CLOSE \<Longrightarrow> seg_close_returned (Inr a) (seg R) (rq (run R)) = (ENDED x, s, q) \<Longrightarrow>
    rec_step R (R\<lparr>run := (run R)\<lparr>rq := q, held := held (run R) - 1,
        submitted := submitted (run R) @ (if (\<exists>ob. x = Inr ob) then [a] else [])\<rparr>, seg := s, waiting := None\<rparr>)"
| close_failed: "waiting R = Some AWAIT_CLOSE \<Longrightarrow> seg_close_returned (Inl e) (seg R) (rq (run R)) = (p, s, q) \<Longrightarrow>
    rec_step R (R\<lparr>run := (run R)\<lparr>rq := q, held := held (run R) - 1\<rparr>, seg := s, waiting := None\<rparr>)"
| elsewhere: "queue_step (run R) r \<Longrightarrow> own_slots (waiting R) \<le> held r \<Longrightarrow> rec_step R (R\<lparr>run := r\<rparr>)"

inductive rec_reach :: "int \<Rightarrow> int \<Rightarrow> SegmentBoundaryPolicy \<Rightarrow> recorder \<Rightarrow> bool" for cap start pol where
  initial: "mk_queue cap = Inr q \<Longrightarrow> mk_segmenter start (Some pol) = Inr s \<Longrightarrow>
    rec_reach cap start pol \<lparr>run = \<lparr>rq = q, held = 0, submitted = [], handled = []\<rparr>, seg = s, waiting = None,
      boundaries = [], requests = []\<rparr>"
| step: "rec_reach cap start pol R \<Longrightarrow> rec_step R R' \<Longrightarrow> rec_reach cap start pol R'"

text \<open>The starts of all segments so far.\<close>

definition starts :: "int \<Rightarrow> AccessUnit list \<Rightarrow> int list" where
  "starts start us = start # map timestamp_ns us"

lemma last_start [simp]: "last (starts a us) \<in> set (starts a us)"
  by (rule last_in_set) (simp add: starts_def)

definition policy_ok :: "SegmentBoundaryPolicy \<Rightarrow> bool" where
  "policy_ok p = (0 < minimum_normal_duration_ns p \<and> minimum_normal_duration_ns p \<le> target_duration_ns p
     \<and> target_duration_ns p \<le> maximum_normal_duration_ns p)"

fun spaced :: "SegmentBoundaryPolicy \<Rightarrow> int list \<Rightarrow> bool" where
  "spaced p (a # b # ts) = (minimum_normal_duration_ns p \<le> b - a \<and> b - a \<le> maximum_normal_duration_ns p \<and> spaced p (b # ts))"
| "spaced p ts = True"

lemma spaced_snoc:
  "ts \<noteq> [] \<Longrightarrow> spaced p (ts @ [b]) \<longleftrightarrow> spaced p ts \<and> minimum_normal_duration_ns p \<le> b - last ts \<and> b - last ts \<le> maximum_normal_duration_ns p"
proof (induction ts rule: spaced.induct [of _ p])
  case (1 p a c ts)
  then show ?case by (cases ts) auto
qed auto

lemma spaced_le_last: "spaced p ts \<Longrightarrow> policy_ok p \<Longrightarrow> \<forall>t \<in> set ts. t \<le> last ts"
proof (induction p ts rule: spaced.induct)
  case (1 p a b ts)
  then have "\<forall>t \<in> set (b # ts). t \<le> last (b # ts)" "a < b" by (auto simp: policy_ok_def)
  then have "a \<le> last (b # ts)" by fastforce
  with \<open>\<forall>t \<in> set (b # ts). t \<le> last (b # ts)\<close> show ?case by simp
qed auto

lemma decide_split:
  "decide p start u = Inr SPLIT \<Longrightarrow> independently_decodable u \<and> minimum_normal_duration_ns p \<le> timestamp_ns u - start
     \<and> timestamp_ns u - start \<le> maximum_normal_duration_ns p"
  by (auto simp: decide_def Let_def split: if_splits)

definition rec_ok :: "int \<Rightarrow> int \<Rightarrow> SegmentBoundaryPolicy \<Rightarrow> recorder \<Rightarrow> bool" where
  "rec_ok cap start pol R = (queue_ok cap (run R) \<and> own_slots (waiting R) \<le> held (run R) \<and> policy (seg R) = pol
     \<and> spaced pol (starts start (boundaries R)) \<and> segment_start_ns (seg R) = last (starts start (boundaries R))
     \<and> list_all independently_decodable (boundaries R)
     \<and> distinct (requests R) \<and> set (requests R) \<subseteq> set (starts start (boundaries R))
     \<and> (segment_start_ns (seg R) \<in> set (requests R) \<longrightarrow> idr_requested (seg R) \<or> faulted (seg R) \<or> waiting R = Some AWAIT_IDR)
     \<and> (\<forall>u. waiting R = Some (AWAIT_ROTATE u) \<longrightarrow> decide pol (segment_start_ns (seg R)) u = Inr SPLIT))"

lemma waits_simps [simp]:
  "waits (ENDED x) = None" "waits AWAIT_IDR = Some AWAIT_IDR" "waits (AWAIT_ROTATE u) = Some (AWAIT_ROTATE u)"
  "waits AWAIT_CLOSE = Some AWAIT_CLOSE"
  by (simp_all add: waits_def)

lemma own_slots_simps [simp]:
  "own_slots None = 0" "own_slots (Some AWAIT_IDR) = 0" "own_slots (Some (AWAIT_ROTATE u)) = 1" "own_slots (Some AWAIT_CLOSE) = 1"
  by (simp_all add: own_slots_def)

text \<open>What an observation can do.\<close>

lemma seg_observe_cases:
  assumes "seg_observe u s q = (p, s', q')"
  obtains (quiet) x where "p = ENDED x" "q' = q" "s' = s \<or> s' = s\<lparr>faulted := True\<rparr>"
  | (ask) "p = AWAIT_IDR" "q' = q" "s' = s" "\<not> idr_requested s" "\<not> faulted s"
  | (split) "p = AWAIT_ROTATE u" "queue_reserve q = (True, q')" "s' = s" "decide (policy s) (segment_start_ns s) u = Inr SPLIT"
proof -
  have full: "queue_reserve q = (False, q1) \<Longrightarrow> q1 = q" for q1
    by (auto simp: queue_reserve_def split: if_splits)
  show thesis
    using assms full
    by (auto simp: seg_observe_def intro: quiet ask split
        split: if_splits sum.splits BoundaryDecision.splits prod.splits bool.splits)
qed

lemma seg_close_cases:
  assumes "seg_close t s q = (p, s', q')"
  obtains (quiet) x where "p = ENDED x" "q' = q" "s' = s \<or> s' = s\<lparr>faulted := True\<rparr>"
  | (go) "p = AWAIT_CLOSE" "queue_reserve q = (True, q')" "s' = s"
      "0 \<le> t - segment_start_ns s" "t - segment_start_ns s \<le> maximum_normal_duration_ns (policy s)"
proof -
  have full: "queue_reserve q = (False, q1) \<Longrightarrow> q1 = q" for q1
    by (auto simp: queue_reserve_def split: if_splits)
  show thesis
    using assms full
    by (auto simp: seg_close_def duration_allowed_def intro: quiet go split: if_splits sum.splits prod.splits bool.splits)
qed

lemma rec_step_ok:
  assumes "rec_step R R'" and ok: "rec_ok cap start pol R" and pol: "policy_ok pol"
  shows "rec_ok cap start pol R'"
  using assms(1)
proof cases
  case (observe u p s q)
  from observe(3) show ?thesis
  proof (cases rule: seg_observe_cases)
    case (quiet x)
    with ok observe show ?thesis by (auto simp: rec_ok_def)
  next
    case ask
    with ok observe show ?thesis by (auto simp: rec_ok_def)
  next
    case split
    with ok observe ok_reserve [of cap "run R" q] show ?thesis by (auto simp: rec_ok_def)
  qed
next
  case (idr e p s)
  with ok show ?thesis by (auto simp: rec_ok_def seg_idr_returned_def split: option.splits)
next
  case (rotated u a x s q)
  have held: "0 < held (run R)" and q: "queue_ok cap (run R)" and dec: "decide pol (segment_start_ns (seg R)) u = Inr SPLIT"
    using ok rotated(2) by (auto simp: rec_ok_def)
  obtain q1 where q1: "submit_reserved a (rq (run R)) = (if q_accepting (rq (run R)) then Inr () else Inl SegmentContractError, q1)"
     "queue_ok cap ((run R)\<lparr>rq := q1, held := held (run R) - 1,
          submitted := submitted (run R) @ (if q_accepting (rq (run R)) then [a] else [])\<rparr>)"
    using ok_submit [OF q held] by blast
  show ?thesis
  proof (cases "q_accepting (rq (run R))")
    case False
    with q1 ok rotated show ?thesis by (auto simp: rec_ok_def seg_rotate_returned_def)
  next
    case True
    have d: "minimum_normal_duration_ns pol \<le> timestamp_ns u - segment_start_ns (seg R)"
       "timestamp_ns u - segment_start_ns (seg R) \<le> maximum_normal_duration_ns pol" "independently_decodable u"
      using decide_split [OF dec] by simp_all
    have "\<forall>t \<in> set (starts start (boundaries R)). t \<le> segment_start_ns (seg R)"
      using spaced_le_last [of pol "starts start (boundaries R)"] ok pol by (simp add: rec_ok_def)
    then have "timestamp_ns u \<notin> set (requests R)"
      using d(1) pol ok by (fastforce simp: rec_ok_def policy_ok_def)
    moreover have "starts start (boundaries R @ [u]) = starts start (boundaries R) @ [timestamp_ns u]"
      by (simp add: starts_def)
    moreover have "spaced pol (starts start (boundaries R) @ [timestamp_ns u])"
      using spaced_snoc [of "starts start (boundaries R)" pol "timestamp_ns u"] d ok by (simp add: rec_ok_def starts_def)
    ultimately show ?thesis
      using True q1 ok rotated d by (auto simp: rec_ok_def seg_rotate_returned_def)
  qed
next
  case (rotate_failed u e p s q)
  have "0 < held (run R)" "queue_ok cap (run R)"
    using ok rotate_failed by (simp_all add: rec_ok_def)
  from ok_cancel [OF this(2,1)] ok rotate_failed show ?thesis
    by (auto simp: rec_ok_def seg_rotate_returned_def seg_output_failed_def)
next
  case (close t p s q)
  from close(3) show ?thesis
  proof (cases rule: seg_close_cases)
    case (quiet x)
    with ok close show ?thesis by (auto simp: rec_ok_def)
  next
    case go
    with ok close ok_reserve [of cap "run R" q] show ?thesis by (auto simp: rec_ok_def)
  qed
next
  case (closed_output a x s q)
  have held: "0 < held (run R)" and q: "queue_ok cap (run R)"
    using ok closed_output by (simp_all add: rec_ok_def)
  from ok_submit [OF q held, of a] ok closed_output show ?thesis
    by (auto simp: rec_ok_def seg_close_returned_def split: if_splits)
next
  case (close_failed e p s q)
  have "0 < held (run R)" "queue_ok cap (run R)"
    using ok close_failed by (simp_all add: rec_ok_def)
  from ok_cancel [OF this(2,1)] ok close_failed show ?thesis
    by (auto simp: rec_ok_def seg_close_returned_def seg_output_failed_def)
next
  case (elsewhere r)
  with ok queue_step_ok [of "run R" r cap] show ?thesis by (auto simp: rec_ok_def)
qed

lemma rec_reach_ok: "rec_reach cap start pol R \<Longrightarrow> policy_ok pol \<Longrightarrow> rec_ok cap start pol R"
proof (induction rule: rec_reach.induct)
  case (initial q s)
  then show ?case
    using queue_ok_new [of cap q]
    by (auto simp: rec_ok_def mk_segmenter_def starts_def own_slots_def split: if_splits)
next
  case (step R R')
  with rec_step_ok show ?case by blast
qed

lemma mk_policy_ok: "mk_policy target minimum maximum lead = Inr pol \<Longrightarrow> policy_ok pol"
  by (auto simp: mk_policy_def policy_ok_def split: if_splits)

section \<open>Properties\<close>

text \<open>
  The recording path is bounded and never blocked. In every interleaving of the segmenter, other
  producers, the finalizer task and closing, the outstanding count is exactly the reservations held
  plus the artifacts queued and in the finalizer's hands and never exceeds the capacity; a holder of
  a reservation can always give it back, and its submission succeeds whenever the queue still
  accepts work - the queue is never full for it; and a reservation is refused only if the queue has
  stopped accepting or is at capacity.
\<close>

theorem finalization_is_bounded:
  assumes "mk_policy target minimum maximum lead = Inr pol" and "rec_reach cap start pol R"
    and "r = run R" and "q = rq r"
  shows "0 \<le> outstanding q \<and> outstanding q \<le> cap
    \<and> outstanding q = int (held r) + int (length (q_items q)) + int (length (in_hand q))
    \<and> (0 < held r \<longrightarrow> fst (cancel_reservation q) = Inr ()
         \<and> fst (submit_reserved a q) = (if q_accepting q then Inr () else Inl SegmentContractError))
    \<and> (fst (queue_reserve q) \<longleftrightarrow> q_accepting q \<and> outstanding q < cap)"
proof -
  have ok: "queue_ok cap r"
    using rec_reach_ok [OF assms(2) mk_policy_ok [OF assms(1)]] assms(3) by (simp add: rec_ok_def)
  have "fst (cancel_reservation q) = Inr () \<and> fst (submit_reserved a q) = (if q_accepting q then Inr () else Inl SegmentContractError)"
    if "0 < held r"
    using ok_cancel [OF ok that] ok_submit [OF ok that, of a] assms(4) by auto
  with ok assms(4) show ?thesis
    by (auto simp: queue_ok_def Let_def queue_reserve_def)
qed

text \<open>
  C28: Nothing submitted is lost or reordered. In every interleaving the artifacts submitted are, in
  order, those the worker has ended with, the one in its hands and those queued; the failure count
  is the number that failed, so a failed finalization is counted and does not stop the next one.
  When closing ends after the queue drained, every submitted artifact has been finalized or counted
  as failed; when it ends at the deadline, the reported outstanding number is exactly the held
  reservations and the artifacts left queued.
\<close>

theorem submitted_artifacts_accounted:
  assumes "mk_policy target minimum maximum lead = Inr pol" and "rec_reach cap start pol R"
    and "r = run R" and "q = rq r"
  shows "submitted r = map fst (handled r) @ in_hand q @ q_items q \<and> failed_count q = failures (handled r)
    \<and> (q_unfinished q = 0 \<longrightarrow> submitted r = map fst (handled r))
    \<and> cr_outstanding (fst (queue_close_end joined q)) = int (held r) + int (length (q_items q))
    \<and> cr_failed_count (fst (queue_close_end joined q)) = failures (handled r)"
proof -
  have ok: "queue_ok cap r"
    using rec_reach_ok [OF assms(2) mk_policy_ok [OF assms(1)]] assms(3) by (simp add: rec_ok_def)
  then show ?thesis
    using assms(4) by (cases "q_worker q")
      (auto simp: queue_ok_def Let_def queue_close_end_def cancel_worker_def in_hand_def)
qed


text \<open>
  C38: A rotation whose queue was closed meanwhile raises and keeps nothing. When the output backend
  returns the closed segment, the artifact is submitted and the next segment starts at the boundary
  if the queue still accepts work; if closing began while the rotation was awaited, the call raises,
  the artifact is not queued, and the segmenter is neither faulted nor advanced: its active segment
  still starts before the boundary at which the output was already rotated.
\<close>

theorem rotation_hands_over_or_raises:
  assumes "mk_policy target minimum maximum lead = Inr pol" and "rec_reach cap start pol R"
    and "waiting R = Some (AWAIT_ROTATE u)"
    and "seg_rotate_returned u (Inr a) (seg R) (rq (run R)) = (p, s, q)"
  shows "if q_accepting (rq (run R))
    then p = ENDED (Inr \<lparr>action = ROTATED, artifact = Some a, detail = None\<rparr>) \<and> q_items q = q_items (rq (run R)) @ [a]
      \<and> segment_start_ns s = timestamp_ns u \<and> outstanding q = outstanding (rq (run R))
    else p = ENDED (Inl SegmentContractError) \<and> q_items q = q_items (rq (run R)) \<and> s = seg R
      \<and> segment_start_ns s < timestamp_ns u \<and> outstanding q = outstanding (rq (run R)) - 1"
proof -
  have pol: "policy_ok pol" using mk_policy_ok [OF assms(1)] .
  have ok: "rec_ok cap start pol R"
    using rec_reach_ok [OF assms(2) pol] .
  have held: "0 < held (run R)" and dec: "decide pol (segment_start_ns (seg R)) u = Inr SPLIT"
    using ok assms(3) by (auto simp: rec_ok_def)
  have "segment_start_ns (seg R) < timestamp_ns u"
    using decide_split [OF dec] pol by (simp add: policy_ok_def)
  moreover have "int (length (q_items (rq (run R)))) < q_capacity (rq (run R))" "0 < outstanding (rq (run R))"
    using ok held by (simp_all add: rec_ok_def queue_ok_def Let_def)
  ultimately show ?thesis
    using assms(4) by (auto simp: seg_rotate_returned_def submit_reserved_def cancel_reservation_def split: if_splits)
qed

section \<open>Witnesses\<close>

definition ex_pol :: SegmentBoundaryPolicy where
  "ex_pol = \<lparr>target_duration_ns = 60, minimum_normal_duration_ns = 59, maximum_normal_duration_ns = 61, request_lead_ns = 1\<rparr>"

definition ex_unit :: AccessUnit where
  "ex_unit = \<lparr>timestamp_ns = 60, is_idr = True, closed_gop = True, has_decoder_config = True\<rparr>"

definition ex_artifact :: SegmentArtifact where
  "ex_artifact = \<lparr>sa_clip_id = ''c1'', start_timestamp_ns = 0, end_timestamp_ns = 60, token = ''t''\<rparr>"

text \<open>A queue of capacity two that was started; a segmenter that waits for its first rotation; the
  same after closing has begun; and after the rotation.\<close>

definition ex_queue :: "bool \<Rightarrow> int \<Rightarrow> SegmentArtifact list \<Rightarrow> FinalizationQueue" where
  "ex_queue acc n items = \<lparr>q_capacity = 2, q_items = items, q_unfinished = int (length items), q_worker = IDLE, outstanding = n,
     failed_count = 0, last_failure = None, q_accepting = acc, q_state = RUNNING\<rparr>"

definition ex_seg :: "int \<Rightarrow> ContinuousSegmenter" where
  "ex_seg t = \<lparr>segment_start_ns = t, policy = ex_pol, idr_requested = False, faulted = False, closed = False\<rparr>"

definition ex_wait :: "bool \<Rightarrow> recorder" where
  "ex_wait acc = \<lparr>run = \<lparr>rq = ex_queue acc 1 [], held = 1, submitted = [], handled = []\<rparr>, seg = ex_seg 0,
     waiting = Some (AWAIT_ROTATE ex_unit), boundaries = [], requests = []\<rparr>"

definition ex_rotated :: recorder where
  "ex_rotated = \<lparr>run = \<lparr>rq = ex_queue True 1 [ex_artifact], held = 0, submitted = [ex_artifact], handled = []\<rparr>, seg = ex_seg 60,
     waiting = None, boundaries = [ex_unit], requests = []\<rparr>"

lemmas ex_seg_defs = ex_pol_def ex_unit_def ex_artifact_def ex_queue_def ex_seg_def ex_wait_def ex_rotated_def

lemma ex_pol_ok: "mk_policy 60 59 61 1 = Inr ex_pol"
  by (simp add: mk_policy_def ex_pol_def)

lemma ex_wait_reach: "rec_reach 2 0 ex_pol (ex_wait True)"
proof -
  let ?q0 = "\<lparr>q_capacity = 2, q_items = [], q_unfinished = 0, q_worker = ABSENT, outstanding = 0,
            failed_count = 0, last_failure = None, q_accepting = False, q_state = NEW\<rparr>"
  let ?R = "\<lambda>q h w. \<lparr>run = \<lparr>rq = q, held = h, submitted = [], handled = []\<rparr>, seg = ex_seg 0, waiting = w,
      boundaries = [], requests = []\<rparr>"
  have "rec_reach 2 0 ex_pol (?R ?q0 0 None)"
    by (rule rec_reach.initial) (simp_all add: mk_queue_def mk_segmenter_def ex_seg_def)
  moreover have "rec_step (?R ?q0 0 None) (?R (ex_queue True 0 []) 0 None)"
    using rec_step.elsewhere [OF queue_step.start, of "?R ?q0 0 None"]
    by (simp add: queue_start_def ex_queue_def)
  moreover have "rec_step (?R (ex_queue True 0 []) 0 None) (ex_wait True)"
    using rec_step.observe [of "?R (ex_queue True 0 []) 0 None" ex_unit "AWAIT_ROTATE ex_unit" "ex_seg 0" "ex_queue True 1 []"]
    by (simp add: seg_observe_def ex_seg_defs decide_def independently_decodable_def queue_reserve_def)
  ultimately show ?thesis
    by (blast intro: rec_reach.step)
qed

lemma ex_closing_reach: "rec_reach 2 0 ex_pol (ex_wait False)"
proof -
  have "rec_step (ex_wait True) (ex_wait False)"
    using rec_step.elsewhere [OF queue_step.close_begin, of True "ex_wait True" "ex_queue False 1 []"]
    by (simp add: queue_close_begin_def ex_seg_defs)
  with ex_wait_reach show ?thesis
    by (blast intro: rec_reach.step)
qed

lemma ex_rotated_reach: "rec_reach 2 0 ex_pol ex_rotated"
proof -
  have "rec_step (ex_wait True) ex_rotated"
    using rec_step.rotated [of "ex_wait True" ex_unit ex_artifact "Inr \<lparr>action = ROTATED, artifact = Some ex_artifact, detail = None\<rparr>"
        "ex_seg 60" "ex_queue True 1 [ex_artifact]"]
    by (simp add: seg_rotate_returned_def submit_reserved_def ex_seg_defs)
  with ex_wait_reach show ?thesis
    by (blast intro: rec_reach.step)
qed

theorem finalization_is_bounded_witness:
  "outstanding (ex_queue True 1 []) \<le> 2 \<and> fst (cancel_reservation (ex_queue True 1 [])) = Inr ()"
  using finalization_is_bounded [OF ex_pol_ok ex_wait_reach refl refl, of ex_artifact]
  by (simp add: ex_wait_def ex_queue_def in_hand_def)

theorem submitted_artifacts_accounted_witness:
  "cr_outstanding (fst (queue_close_end False (ex_queue True 1 [ex_artifact]))) = 1"
  using submitted_artifacts_accounted [OF ex_pol_ok ex_rotated_reach refl refl, of False] by (simp add: ex_rotated_def ex_queue_def)


theorem rotation_hands_over_or_raises_witness:
  "fst (seg_rotate_returned ex_unit (Inr ex_artifact) (seg (ex_wait False)) (rq (run (ex_wait False)))) = ENDED (Inl SegmentContractError)"
proof -
  obtain p s q where op: "seg_rotate_returned ex_unit (Inr ex_artifact) (seg (ex_wait False)) (rq (run (ex_wait False))) = (p, s, q)"
    by (metis surj_pair)
  have "waiting (ex_wait False) = Some (AWAIT_ROTATE ex_unit)" "\<not> q_accepting (rq (run (ex_wait False)))"
    by (simp_all add: ex_wait_def ex_queue_def)
  with rotation_hands_over_or_raises [OF ex_pol_ok ex_closing_reach _ op] op show ?thesis by simp
qed

end
