(* ===== verification/Sidecar_Codec.thy ===== *)
theory Sidecar_Codec
  imports Metadata_Schema
begin

text \<open>
  The wire form of a sidecar: \<^verbatim>\<open>to_mapping\<close> of \<^verbatim>\<open>src/dashcam/metadata/schema.py\<close> and the strict parser of
  \<^verbatim>\<open>src/dashcam/metadata/reconcile.py\<close>, at the level of JSON values. An object is the association list of
  its members; the text of a JSON document is the standard library's \<^verbatim>\<open>json\<close> codec, a parameter of
  \<open>parse_sidecar_payload\<close>.
\<close>

section \<open>JSON values\<close>

datatype json = JNull | JBool bool | JInt int | JFloat pyfloat | JStr string
  | JArr "json list" | JObj "(string \<times> json) list"

definition json_opt :: "('a \<Rightarrow> json) \<Rightarrow> 'a option \<Rightarrow> json" where
  "json_opt f v = (case v of None \<Rightarrow> JNull | Some x \<Rightarrow> f x)"

section \<open>Timestamps\<close>

definition iso_text :: "civil \<Rightarrow> string" where
  "iso_text c = pad_dec 4 (nat (cv_year c)) @ ''-'' @ pad_dec 2 (nat (cv_month c)) @ ''-'' @ pad_dec 2 (nat (cv_day c))
     @ ''T'' @ pad_dec 2 (nat (cv_hour c)) @ '':'' @ pad_dec 2 (nat (cv_minute c)) @ '':'' @ pad_dec 2 (nat (cv_second c))
     @ ''.'' @ pad_dec 3 (nat (cv_microsecond c div 1000))"

definition iso_utc :: "datetime \<Rightarrow> string" where
  "iso_utc d = iso_text (civil_of_us (instant d)) @ ''Z''"

text \<open>\<^verbatim>\<open>isoformat\<close> prints the seconds of an offset only when there are any.\<close>

definition offset_text :: "int \<Rightarrow> string" where
  "offset_text off = (let s = \<bar>off\<bar> div 1000000 in
     (if off < 0 then ''-'' else ''+'') @ pad_dec 2 (nat (s div 3600)) @ '':'' @ pad_dec 2 (nat (s div 60 mod 60))
     @ (if s mod 60 = 0 then [] else '':'' @ pad_dec 2 (nat (s mod 60))))"

definition iso_local :: "local_time \<Rightarrow> string" where
  "iso_local lt = iso_text (civil_of_us (dt_us (lc_time lt)))
     @ (case dt_offset (lc_time lt) of None \<Rightarrow> [] | Some off \<Rightarrow> offset_text off)"

text \<open>The common part \<^verbatim>\<open>\d{4}-\d{2}-\d{2}T\d{2}:\d{2}:\d{2}\.\d{3}\<close> of the two patterns.\<close>

definition iso_shape :: "string \<Rightarrow> bool" where
  "iso_shape s = (length s = 23 \<and> list_all is_digit (take 4 s) \<and> s ! 4 = CHR ''-'' \<and> list_all is_digit (take 2 (drop 5 s))
     \<and> s ! 7 = CHR ''-'' \<and> list_all is_digit (take 2 (drop 8 s)) \<and> s ! 10 = CHR ''T''
     \<and> list_all is_digit (take 2 (drop 11 s)) \<and> s ! 13 = CHR '':'' \<and> list_all is_digit (take 2 (drop 14 s))
     \<and> s ! 16 = CHR '':'' \<and> list_all is_digit (take 2 (drop 17 s)) \<and> s ! 19 = CHR ''.''
     \<and> list_all is_digit (drop 20 s))"

definition civil_of_iso :: "string \<Rightarrow> civil" where
  "civil_of_iso s = \<lparr>cv_year = int (dec_value (take 4 s)), cv_month = int (dec_value (take 2 (drop 5 s))),
     cv_day = int (dec_value (take 2 (drop 8 s))), cv_hour = int (dec_value (take 2 (drop 11 s))),
     cv_minute = int (dec_value (take 2 (drop 14 s))), cv_second = int (dec_value (take 2 (drop 17 s))),
     cv_microsecond = 1000 * int (dec_value (take 3 (drop 20 s)))\<rparr>"

definition parse_iso :: "string \<Rightarrow> int result" where
  "parse_iso s = (if iso_shape s \<and> civil_valid (civil_of_iso s) then Inr (us_of_civil (civil_of_iso s))
     else Inl SidecarParseError)"

definition parse_offset :: "string \<Rightarrow> int result" where
  "parse_offset s =
     (let hh = int (dec_value (take 2 (tl s))); mm = int (dec_value (drop 4 s)); m = hh * 60 + mm
      in if length s = 6 \<and> hd s \<in> {CHR ''+'', CHR ''-''} \<and> list_all is_digit (take 2 (tl s)) \<and> s ! 3 = CHR '':''
            \<and> list_all is_digit (drop 4 s) \<and> m < 24 * 60
         then Inr ((if hd s = CHR ''-'' then - m else m) * 60000000) else Inl SidecarParseError)"

section \<open>Strict scalars\<close>

definition strict_str :: "json \<Rightarrow> string result" where
  "strict_str v = (case v of JStr s \<Rightarrow> Inr s | _ \<Rightarrow> Inl SidecarParseError)"

definition strict_bool :: "json \<Rightarrow> bool result" where
  "strict_bool v = (case v of JBool b \<Rightarrow> Inr b | _ \<Rightarrow> Inl SidecarParseError)"

definition strict_int :: "json \<Rightarrow> int result" where
  "strict_int v = (case v of JInt n \<Rightarrow> Inr n | _ \<Rightarrow> Inl SidecarParseError)"

definition strict_number :: "json \<Rightarrow> pyfloat result" where
  "strict_number v = (case v of JInt n \<Rightarrow> float_of_int n | JFloat f \<Rightarrow> Inr f | _ \<Rightarrow> Inl SidecarParseError)"

definition json_optional :: "(json \<Rightarrow> 'a result) \<Rightarrow> json \<Rightarrow> 'a option result" where
  "json_optional f v = (if v = JNull then Inr None else bindR (f v) (\<lambda>x. Inr (Some x)))"

definition required_utc :: "json \<Rightarrow> datetime result" where
  "required_utc v = bindR (strict_str v) (\<lambda>s.
     if length s = 24 \<and> last s = CHR ''Z'' then bindR (parse_iso (butlast s)) (\<lambda>us. Inr \<lparr>dt_us = us, dt_offset = Some 0\<rparr>)
     else Inl SidecarParseError)"

definition required_local :: "json \<Rightarrow> local_time result" where
  "required_local v = bindR (strict_str v) (\<lambda>s.
     if length s = 29 then bindR (parse_iso (take 23 s)) (\<lambda>us. bindR (parse_offset (drop 23 s)) (\<lambda>off.
       Inr \<lparr>lc_time = \<lparr>dt_us = us, dt_offset = Some off\<rparr>, lc_zone = None\<rparr>))
     else Inl SidecarParseError)"

definition canonical_uuid :: "json \<Rightarrow> uuid result" where
  "canonical_uuid v = bindR (strict_str v) (\<lambda>s. case parse_clip_id s of Inl _ \<Rightarrow> Inl SidecarParseError | Inr u \<Rightarrow> Inr u)"

text \<open>\<^verbatim>\<open>Enum(text)\<close> of a string enumeration: its members and their values.\<close>

definition enum_value :: "('a \<times> string) list \<Rightarrow> json \<Rightarrow> 'a result" where
  "enum_value members v = bindR (strict_str v) (\<lambda>s.
     case find (\<lambda>m. snd m = s) members of None \<Rightarrow> Inl ValueError | Some m \<Rightarrow> Inr (fst m))"

definition enum_json :: "('a \<times> string) list \<Rightarrow> 'a \<Rightarrow> json" where
  "enum_json members x = (case find (\<lambda>m. fst m = x) members of None \<Rightarrow> JNull | Some m \<Rightarrow> JStr (snd m))"

definition anchor_sources :: "(TimeAnchorSource \<times> string) list" where
  "anchor_sources = [(ANCHOR_GPS, ''GPS''), (ANCHOR_SYSTEM_CLOCK, ''SYSTEM_CLOCK'')]"

definition gps_time_states :: "(GpsTimeState \<times> string) list" where
  "gps_time_states = [(UNSYNCED, ''UNSYNCED''), (GPS_TIME_VALID, ''GPS_TIME_VALID''), (GPS_TIME_STALE, ''GPS_TIME_STALE'')]"

definition system_clock_states :: "(SystemClockState \<times> string) list" where
  "system_clock_states = [(UNSET, ''UNSET''), (SYNCING, ''SYNCING''), (SYNCHRONIZED, ''SYNCHRONIZED''), (ERROR, ''ERROR'')]"

definition timestamp_qualities :: "(TimestampQuality \<times> string) list" where
  "timestamp_qualities = [(MONOTONIC_ONLY, ''MONOTONIC_ONLY''), (GPS_ANCHORED, ''GPS_ANCHORED''), (SYSTEM_DERIVED, ''SYSTEM_DERIVED'')]"

section \<open>Objects\<close>

definition closed_mapping :: "string list \<Rightarrow> json \<Rightarrow> (string \<times> json) list result" where
  "closed_mapping expected v = (case v of
     JObj kvs \<Rightarrow> if set (map fst kvs) = set expected then Inr kvs else Inl SidecarParseError
   | _ \<Rightarrow> Inl SidecarParseError)"

definition member :: "(string \<times> json) list \<Rightarrow> string \<Rightarrow> json" where
  "member kvs k = (case map_of kvs k of None \<Rightarrow> JNull | Some v \<Rightarrow> v)"

definition anchor_mapping :: "TimeAnchor \<Rightarrow> json" where
  "anchor_mapping a = JObj [(''source'', enum_json anchor_sources (ta_source a)), (''monotonic_ns'', JInt (ta_monotonic_ns a)),
     (''utc'', JStr (iso_utc (ta_utc a))), (''uncertainty_ns'', JInt (ta_uncertainty_ns a)), (''provenance'', JStr (ta_provenance a))]"

definition video_mapping :: "VideoSummary \<Rightarrow> json" where
  "video_mapping v = JObj [(''codec'', JStr (vi_codec v)), (''width'', JInt (vi_width v)), (''height'', JInt (vi_height v)),
     (''fps_nominal'', JFloat (vi_fps_nominal v)), (''target_bitrate_bps'', JInt (vi_target_bitrate_bps v)),
     (''measured_bitrate_bps'', JInt (vi_measured_bitrate_bps v)), (''frames_written'', JInt (vi_frames_written v)),
     (''dropped_frames'', JInt (vi_dropped_frames v))]"

definition audio_mapping :: "AudioSummary \<Rightarrow> json" where
  "audio_mapping a = JObj [(''available'', JBool (au_available a)), (''codec'', json_opt JStr (au_codec a)),
     (''sample_rate_hz'', json_opt JInt (au_sample_rate_hz a)), (''channels'', json_opt JInt (au_channels a)),
     (''target_bitrate_bps'', json_opt JInt (au_target_bitrate_bps a))]"

definition sample_mapping :: "GpsSample \<Rightarrow> json" where
  "sample_mapping g = JObj [(''monotonic_ns'', JInt (gs_monotonic_ns g)), (''utc'', json_opt (\<lambda>d. JStr (iso_utc d)) (gs_utc g)),
     (''timestamp_quality'', enum_json timestamp_qualities (gs_timestamp_quality g)),
     (''lat_deg'', json_opt JFloat (gs_lat_deg g)), (''lon_deg'', json_opt JFloat (gs_lon_deg g)),
     (''speed_mps'', json_opt JFloat (gs_speed_mps g)), (''course_deg'', json_opt JFloat (gs_course_deg g)),
     (''altitude_m'', json_opt JFloat (gs_altitude_m g)), (''fix_quality'', json_opt JInt (gs_fix_quality g)),
     (''satellites'', json_opt JInt (gs_satellites g)), (''hdop'', json_opt JFloat (gs_hdop g))]"

definition gps_mapping :: "GpsSummary \<Rightarrow> json" where
  "gps_mapping g = JObj [(''available'', JBool (gp_available g)),
     (''first_fix_utc'', json_opt (\<lambda>d. JStr (iso_utc d)) (gp_first_fix_utc g)),
     (''samples'', JArr (map sample_mapping (gp_samples g)))]"

definition to_mapping :: "ClipSidecar \<Rightarrow> json" where
  "to_mapping sc = JObj [(''schema_version'', JInt (sc_schema_version sc)), (''clip_id'', JStr (uuid_str (sc_clip_id sc))),
     (''boot_id'', JStr (uuid_str (sc_boot_id sc))), (''sequence'', JInt (sc_sequence sc)),
     (''video_file'', JStr (video_file sc)), (''metadata_file'', JStr (metadata_file sc)),
     (''start_utc'', json_opt (\<lambda>d. JStr (iso_utc d)) (sc_start_utc sc)), (''end_utc'', json_opt (\<lambda>d. JStr (iso_utc d)) (sc_end_utc sc)),
     (''start_monotonic_ns'', JInt (sc_start_ns sc)), (''end_monotonic_ns'', JInt (sc_end_ns sc)),
     (''gps_time_state'', enum_json gps_time_states (sc_gps_time_state sc)),
     (''system_clock_state'', enum_json system_clock_states (sc_system_clock_state sc)),
     (''timestamp_quality'', enum_json timestamp_qualities (sc_timestamp_quality sc)),
     (''time_anchor'', json_opt anchor_mapping (sc_time_anchor sc)), (''timezone'', JStr (sc_timezone sc)),
     (''start_local'', json_opt (\<lambda>l. JStr (iso_local l)) (sc_start_local sc)), (''video'', video_mapping (sc_video sc)),
     (''audio'', audio_mapping (sc_audio sc)), (''gps'', gps_mapping (sc_gps sc)), (''protected'', JBool (sc_protected sc)),
     (''protection_reason'', json_opt JStr (sc_protection_reason sc)), (''software_version'', JStr (sc_software_version sc)),
     (''warnings'', JArr (map JStr (sc_warnings sc)))]"

section \<open>Parsing\<close>

definition TIME_ANCHOR_KEYS :: "string list" where
  "TIME_ANCHOR_KEYS = [''source'', ''monotonic_ns'', ''utc'', ''uncertainty_ns'', ''provenance'']"

definition VIDEO_KEYS :: "string list" where
  "VIDEO_KEYS = [''codec'', ''width'', ''height'', ''fps_nominal'', ''target_bitrate_bps'',
     ''measured_bitrate_bps'', ''frames_written'', ''dropped_frames'']"

definition AUDIO_KEYS :: "string list" where
  "AUDIO_KEYS = [''available'', ''codec'', ''sample_rate_hz'', ''channels'', ''target_bitrate_bps'']"

definition GPS_KEYS :: "string list" where
  "GPS_KEYS = [''available'', ''first_fix_utc'', ''samples'']"

definition GPS_SAMPLE_KEYS :: "string list" where
  "GPS_SAMPLE_KEYS = [''monotonic_ns'', ''utc'', ''timestamp_quality'', ''lat_deg'', ''lon_deg'', ''speed_mps'',
     ''course_deg'', ''altitude_m'', ''fix_quality'', ''satellites'', ''hdop'']"

definition TOP_LEVEL_KEYS :: "string list" where
  "TOP_LEVEL_KEYS = [''schema_version'', ''clip_id'', ''boot_id'', ''sequence'', ''video_file'',
     ''metadata_file'', ''start_utc'', ''end_utc'', ''start_monotonic_ns'', ''end_monotonic_ns'',
     ''gps_time_state'', ''system_clock_state'', ''timestamp_quality'', ''time_anchor'', ''timezone'',
     ''start_local'', ''video'', ''audio'', ''gps'', ''protected'', ''protection_reason'', ''software_version'',
     ''warnings'']"

definition parse_anchor :: "json \<Rightarrow> TimeAnchor option result" where
  "parse_anchor v = (if v = JNull then Inr None else bindR (closed_mapping TIME_ANCHOR_KEYS v) (\<lambda>raw.
     bindR (enum_value anchor_sources (member raw ''source'')) (\<lambda>src.
     bindR (strict_int (member raw ''monotonic_ns'')) (\<lambda>ns. bindR (required_utc (member raw ''utc'')) (\<lambda>u.
     bindR (strict_int (member raw ''uncertainty_ns'')) (\<lambda>unc. bindR (strict_str (member raw ''provenance'')) (\<lambda>prov.
       let a = \<lparr>ta_source = src, ta_monotonic_ns = ns, ta_utc = u, ta_uncertainty_ns = unc, ta_provenance = prov\<rparr>
       in bindR (check_anchor a) (\<lambda>_. Inr (Some a)))))))))"

definition parse_video :: "json \<Rightarrow> VideoSummary result" where
  "parse_video v = bindR (closed_mapping VIDEO_KEYS v) (\<lambda>raw. bindR (strict_str (member raw ''codec'')) (\<lambda>codec.
     bindR (strict_int (member raw ''width'')) (\<lambda>w. bindR (strict_int (member raw ''height'')) (\<lambda>h.
     bindR (strict_number (member raw ''fps_nominal'')) (\<lambda>fps. bindR (strict_int (member raw ''target_bitrate_bps'')) (\<lambda>tb.
     bindR (strict_int (member raw ''measured_bitrate_bps'')) (\<lambda>mb. bindR (strict_int (member raw ''frames_written'')) (\<lambda>fw.
     bindR (strict_int (member raw ''dropped_frames'')) (\<lambda>df.
       let x = \<lparr>vi_codec = codec, vi_width = w, vi_height = h, vi_fps_nominal = fps, vi_target_bitrate_bps = tb,
                vi_measured_bitrate_bps = mb, vi_frames_written = fw, vi_dropped_frames = df\<rparr>
       in bindR (check_video x) (\<lambda>_. Inr x))))))))))"

definition parse_audio :: "json \<Rightarrow> AudioSummary result" where
  "parse_audio v = bindR (closed_mapping AUDIO_KEYS v) (\<lambda>raw. bindR (strict_bool (member raw ''available'')) (\<lambda>av.
     bindR (json_optional strict_str (member raw ''codec'')) (\<lambda>codec.
     bindR (json_optional strict_int (member raw ''sample_rate_hz'')) (\<lambda>rate.
     bindR (json_optional strict_int (member raw ''channels'')) (\<lambda>ch.
     bindR (json_optional strict_int (member raw ''target_bitrate_bps'')) (\<lambda>tb.
       let x = \<lparr>au_available = av, au_codec = codec, au_sample_rate_hz = rate, au_channels = ch, au_target_bitrate_bps = tb\<rparr>
       in bindR (check_audio x) (\<lambda>_. Inr x)))))))"

definition parse_gps_sample :: "json \<Rightarrow> GpsSample result" where
  "parse_gps_sample v = bindR (closed_mapping GPS_SAMPLE_KEYS v) (\<lambda>raw.
     bindR (strict_int (member raw ''monotonic_ns'')) (\<lambda>ns. bindR (json_optional required_utc (member raw ''utc'')) (\<lambda>u.
     bindR (enum_value timestamp_qualities (member raw ''timestamp_quality'')) (\<lambda>q.
     bindR (json_optional strict_number (member raw ''lat_deg'')) (\<lambda>lat.
     bindR (json_optional strict_number (member raw ''lon_deg'')) (\<lambda>lon.
     bindR (json_optional strict_number (member raw ''speed_mps'')) (\<lambda>speed.
     bindR (json_optional strict_number (member raw ''course_deg'')) (\<lambda>course.
     bindR (json_optional strict_number (member raw ''altitude_m'')) (\<lambda>alt.
     bindR (json_optional strict_int (member raw ''fix_quality'')) (\<lambda>fix_q.
     bindR (json_optional strict_int (member raw ''satellites'')) (\<lambda>sats.
     bindR (json_optional strict_number (member raw ''hdop'')) (\<lambda>hd.
       let x = \<lparr>gs_monotonic_ns = ns, gs_utc = u, gs_timestamp_quality = q, gs_lat_deg = lat, gs_lon_deg = lon,
                gs_speed_mps = speed, gs_course_deg = course, gs_altitude_m = alt, gs_fix_quality = fix_q,
                gs_satellites = sats, gs_hdop = hd\<rparr>
       in bindR (check_sample x) (\<lambda>_. Inr x)))))))))))))"

definition bounded_array :: "nat \<Rightarrow> json \<Rightarrow> json list result" where
  "bounded_array bound v = (case v of JArr xs \<Rightarrow> if length xs > bound then Inl SidecarParseError else Inr xs
     | _ \<Rightarrow> Inl SidecarParseError)"

definition parse_gps :: "json \<Rightarrow> GpsSummary result" where
  "parse_gps v = bindR (closed_mapping GPS_KEYS v) (\<lambda>raw. bindR (bounded_array MAX_GPS_SAMPLES (member raw ''samples'')) (\<lambda>xs.
     bindR (strict_bool (member raw ''available'')) (\<lambda>av. bindR (json_optional required_utc (member raw ''first_fix_utc'')) (\<lambda>ff.
     bindR (mapR parse_gps_sample xs) (\<lambda>gs.
       let x = \<lparr>gp_available = av, gp_first_fix_utc = ff, gp_samples = gs\<rparr>
       in bindR (check_gps x) (\<lambda>_. Inr x))))))"

text \<open>The scalar members of the top level, read in the order of the constructor call.\<close>

definition parse_identity :: "(string \<times> json) list \<Rightarrow> (int \<times> uuid \<times> uuid \<times> int \<times> string \<times> string) result" where
  "parse_identity raw = bindR (strict_int (member raw ''schema_version'')) (\<lambda>ver.
     bindR (canonical_uuid (member raw ''clip_id'')) (\<lambda>cid. bindR (canonical_uuid (member raw ''boot_id'')) (\<lambda>bid.
     bindR (strict_int (member raw ''sequence'')) (\<lambda>sq. bindR (strict_str (member raw ''video_file'')) (\<lambda>vf.
     bindR (strict_str (member raw ''metadata_file'')) (\<lambda>mf. Inr (ver, cid, bid, sq, vf, mf)))))))"

definition parse_times :: "(string \<times> json) list \<Rightarrow> (datetime option \<times> datetime option \<times> int \<times> int) result" where
  "parse_times raw = bindR (json_optional required_utc (member raw ''start_utc'')) (\<lambda>su.
     bindR (json_optional required_utc (member raw ''end_utc'')) (\<lambda>eu.
     bindR (strict_int (member raw ''start_monotonic_ns'')) (\<lambda>sn. bindR (strict_int (member raw ''end_monotonic_ns'')) (\<lambda>en.
       Inr (su, eu, sn, en)))))"

definition parse_states :: "(string \<times> json) list
    \<Rightarrow> (GpsTimeState \<times> SystemClockState \<times> TimestampQuality \<times> string \<times> local_time option) result" where
  "parse_states raw = bindR (enum_value gps_time_states (member raw ''gps_time_state'')) (\<lambda>g.
     bindR (enum_value system_clock_states (member raw ''system_clock_state'')) (\<lambda>s.
     bindR (enum_value timestamp_qualities (member raw ''timestamp_quality'')) (\<lambda>q.
     bindR (strict_str (member raw ''timezone'')) (\<lambda>tz. bindR (json_optional required_local (member raw ''start_local'')) (\<lambda>sl.
       Inr (g, s, q, tz, sl))))))"

definition parse_tail :: "(string \<times> json) list \<Rightarrow> (bool \<times> string option \<times> string) result" where
  "parse_tail raw = bindR (strict_bool (member raw ''protected'')) (\<lambda>p.
     bindR (json_optional strict_str (member raw ''protection_reason'')) (\<lambda>r.
     bindR (strict_str (member raw ''software_version'')) (\<lambda>sw. Inr (p, r, sw))))"

definition parse_members :: "zone_database \<Rightarrow> (string \<times> json) list \<Rightarrow> ClipSidecar result" where
  "parse_members zone_info raw =
     bindR (parse_anchor (member raw ''time_anchor'')) (\<lambda>a. bindR (parse_video (member raw ''video'')) (\<lambda>video.
     bindR (parse_audio (member raw ''audio'')) (\<lambda>audio. bindR (parse_gps (member raw ''gps'')) (\<lambda>gps.
     bindR (bounded_array MAX_WARNINGS (member raw ''warnings'')) (\<lambda>ws. bindR (mapR strict_str ws) (\<lambda>warnings.
     bindR (parse_identity raw) (\<lambda>(ver, cid, bid, sq, vf, mf). bindR (parse_times raw) (\<lambda>(su, eu, sn, en).
     bindR (parse_states raw) (\<lambda>(g, s, q, tz, sl). bindR (parse_tail raw) (\<lambda>(p, r, sw).
       let sc = \<lparr>sc_schema_version = ver, sc_clip_id = cid, sc_boot_id = bid, sc_sequence = sq, video_file = vf,
             metadata_file = mf, sc_start_utc = su, sc_end_utc = eu, sc_start_ns = sn, sc_end_ns = en,
             sc_gps_time_state = g, sc_system_clock_state = s, sc_timestamp_quality = q, sc_time_anchor = a,
             sc_timezone = tz, sc_start_local = sl, sc_video = video, sc_audio = audio, sc_gps = gps,
             sc_protected = p, sc_protection_reason = r, sc_software_version = sw, sc_warnings = warnings\<rparr>
       in bindR (check_sidecar zone_info sc) (\<lambda>_. Inr sc)))))))))))"

definition as_parse_error :: "'a result \<Rightarrow> 'a result" where
  "as_parse_error m = (case m of Inr x \<Rightarrow> Inr x
     | Inl e \<Rightarrow> Inl (if e \<in> {MetadataValidationError, TypeError, ValueError} then SidecarParseError else e))"

definition parse_sidecar_mapping :: "zone_database \<Rightarrow> json \<Rightarrow> ClipSidecar result" where
  "parse_sidecar_mapping zone_info v =
     as_parse_error (bindR (closed_mapping TOP_LEVEL_KEYS v) (parse_members zone_info))"

section \<open>Printed values parse back\<close>

lemma iso_text_parse: "civil_valid c \<Longrightarrow> parse_iso (iso_text c) = Inr (us_of_civil (floor_ms c))"
proof -
  assume v: "civil_valid c"
  note d = stamp_digits [OF v] and b = civil_nat_bounds [OF v]
  have nn: "0 \<le> cv_microsecond c div 1000"
    using v by (simp add: civil_valid_def pos_imp_zdiv_nonneg_iff)
  have "iso_shape (iso_text c)"
    using d by (simp add: iso_shape_def iso_text_def nth_append)
  moreover have "civil_of_iso (iso_text c) = floor_ms c"
    using v nn by (simp add: civil_of_iso_def iso_text_def floor_ms_def dec_value_pad_dec [OF b(1)]
      dec_value_pad_dec [OF b(2)] dec_value_pad_dec [OF b(3)] dec_value_pad_dec [OF b(4)] dec_value_pad_dec [OF b(5)]
      dec_value_pad_dec [OF b(6)] dec_value_pad_dec [OF b(7)] civil_valid_def)
  ultimately show ?thesis
    using floor_ms_valid [OF v] by (simp add: parse_iso_def)
qed

lemma length_iso_text [simp]: "length (iso_text c) = 23"
  by (simp add: iso_text_def)

lemma parse_iso_us: "us_in_range t \<Longrightarrow> parse_iso (iso_text (civil_of_us t)) = Inr (t - t mod 1000)"
  by (simp add: iso_text_parse civil_of_us_valid us_floor_ms)

text \<open>Times a sidecar can carry on the wire: whole milliseconds, a whole-minute offset below a day.\<close>

definition wire_utc :: "datetime \<Rightarrow> bool" where
  "wire_utc d = (dt_offset d = Some 0 \<and> us_in_range (dt_us d) \<and> dt_us d mod 1000 = 0)"

definition wire_local :: "local_time \<Rightarrow> bool" where
  "wire_local lt = (us_in_range (dt_us (lc_time lt)) \<and> dt_us (lc_time lt) mod 1000 = 0
     \<and> (\<exists>m. dt_offset (lc_time lt) = Some (m * 60000000) \<and> \<bar>m\<bar> < 1440))"

lemma required_utc_iso: "wire_utc d \<Longrightarrow> required_utc (JStr (iso_utc d)) = Inr d"
  by (simp add: required_utc_def strict_str_def iso_utc_def instant_def wire_utc_def butlast_append parse_iso_us)

lemma pad2: "0 \<le> n \<Longrightarrow> n < 100 \<Longrightarrow> list_all is_digit (pad_dec 2 (nat n)) \<and> int (dec_value (pad_dec 2 (nat n))) = n"
  using pad_dec_digits [of "nat n" 2] dec_value_pad_dec [of "nat n" 2] by (simp add: nat_less_iff)

lemma parse_offset_text: "\<bar>m\<bar> < 1440 \<Longrightarrow> parse_offset (offset_text (m * 60000000)) = Inr (m * 60000000)"
proof -
  assume m: "\<bar>m\<bar> < 1440"
  define k where "k = \<bar>m\<bar>"
  have k: "0 \<le> k" "k < 1440" using m by (simp_all add: k_def)
  have s: "\<bar>m * 60000000\<bar> div 1000000 = k * 60"
    by (simp add: k_def abs_mult)
  have hm: "k * 60 div 3600 = k div 60" "k * 60 div 60 mod 60 = k mod 60" "k * 60 mod 60 = 0"
    by (simp_all add: div_mult2_eq [symmetric])
  have t: "offset_text (m * 60000000) = (if m < 0 then CHR ''-'' else CHR ''+'') # pad_dec 2 (nat (k div 60))
      @ '':'' @ pad_dec 2 (nat (k mod 60))"
    unfolding offset_text_def s hm Let_def by (simp add: mult_less_0_iff)
  have h: "0 \<le> k div 60" "k div 60 < 100" "0 \<le> k mod 60" "k mod 60 < 100"
    using k div_bounds [of 60 k] by (simp_all add: pos_imp_zdiv_nonneg_iff)
  have "k div 60 * 60 + k mod 60 = k" by simp
  then show ?thesis
    using pad2 [OF h(1,2)] pad2 [OF h(3,4)] k unfolding t parse_offset_def
    by (simp add: nth_append numeral_eq_Suc k_def Let_def)
qed

subsection \<open>Components\<close>

lemma strict_simps [simp]: "strict_str (JStr t) = Inr t" "strict_bool (JBool b) = Inr b" "strict_int (JInt n) = Inr n"
  "strict_number (JFloat f) = Inr f"
  by (simp_all add: strict_str_def strict_bool_def strict_int_def strict_number_def)

lemma json_optional_opt:
  "(\<And>x. v = Some x \<Longrightarrow> f (g x) = Inr x) \<Longrightarrow> (\<And>x. g x \<noteq> JNull) \<Longrightarrow> json_optional f (json_opt g v) = Inr v"
  by (cases v) (simp_all add: json_optional_def json_opt_def)

lemma json_optional_scalar [simp]:
  "json_optional strict_str (json_opt JStr s) = Inr s" "json_optional strict_int (json_opt JInt n) = Inr n"
  "json_optional strict_number (json_opt JFloat f) = Inr f"
  by (rule json_optional_opt; simp)+

lemma json_optional_utc [simp]:
  "opt_all wire_utc v \<Longrightarrow> json_optional required_utc (json_opt (\<lambda>d. JStr (iso_utc d)) v) = Inr v"
  by (rule json_optional_opt) (simp_all add: required_utc_iso)

lemma canonical_uuid_str [simp]: "canonical_uuid (JStr (uuid_str u)) = Inr u"
  by (simp add: canonical_uuid_def parse_clip_id_uuid_str)

lemma anchor_sources_round_trip [simp]: "enum_value anchor_sources (enum_json anchor_sources x) = Inr x"
  by (cases x) (simp_all add: enum_value_def enum_json_def anchor_sources_def)

lemma gps_time_states_round_trip [simp]: "enum_value gps_time_states (enum_json gps_time_states x) = Inr x"
  by (cases x) (simp_all add: enum_value_def enum_json_def gps_time_states_def)

lemma system_clock_states_round_trip [simp]: "enum_value system_clock_states (enum_json system_clock_states x) = Inr x"
  by (cases x) (simp_all add: enum_value_def enum_json_def system_clock_states_def)

lemma timestamp_qualities_round_trip [simp]: "enum_value timestamp_qualities (enum_json timestamp_qualities x) = Inr x"
  by (cases x) (simp_all add: enum_value_def enum_json_def timestamp_qualities_def)

lemma member_Cons: "member ((k, v) # kvs) k' = (if k = k' then v else member kvs k')"
  by (simp add: member_def)

lemma closed_mapping_eq: "map fst kvs = ks \<Longrightarrow> closed_mapping ks (JObj kvs) = Inr kvs"
  by (auto simp: closed_mapping_def)

lemma parse_anchor_mapping:
  "check_anchor a = Inr () \<Longrightarrow> wire_utc (ta_utc a) \<Longrightarrow> parse_anchor (anchor_mapping a) = Inr (Some a)"
  unfolding parse_anchor_def anchor_mapping_def
  by (cases a) (simp add: closed_mapping_eq TIME_ANCHOR_KEYS_def member_Cons required_utc_iso Let_def)

lemma parse_video_mapping: "check_video v = Inr () \<Longrightarrow> parse_video (video_mapping v) = Inr v"
  unfolding parse_video_def video_mapping_def
  by (cases v) (simp add: closed_mapping_eq VIDEO_KEYS_def member_Cons Let_def)

lemma parse_audio_mapping: "check_audio a = Inr () \<Longrightarrow> parse_audio (audio_mapping a) = Inr a"
  unfolding parse_audio_def audio_mapping_def
  by (cases a) (simp add: closed_mapping_eq AUDIO_KEYS_def member_Cons Let_def)

lemma parse_sample_mapping:
  "check_sample g = Inr () \<Longrightarrow> opt_all wire_utc (gs_utc g) \<Longrightarrow> parse_gps_sample (sample_mapping g) = Inr g"
  unfolding parse_gps_sample_def sample_mapping_def
  by (cases g) (simp add: closed_mapping_eq GPS_SAMPLE_KEYS_def member_Cons Let_def)

lemma parse_gps_mapping:
  assumes "check_gps g = Inr ()" "opt_all wire_utc (gp_first_fix_utc g)"
    "\<And>x. x \<in> set (gp_samples g) \<Longrightarrow> check_sample x = Inr () \<and> opt_all wire_utc (gs_utc x)"
  shows "parse_gps (gps_mapping g) = Inr g"
proof -
  have "mapR parse_gps_sample (map sample_mapping gs) = Inr gs" if "set gs \<subseteq> set (gp_samples g)" for gs
    using that
  proof (induction gs)
    case (Cons x gs)
    then have "parse_gps_sample (sample_mapping x) = Inr x"
      using assms(3) [of x] by (intro parse_sample_mapping) auto
    then show ?case using Cons by simp
  qed simp
  moreover have "length (gp_samples g) \<le> MAX_GPS_SAMPLES" using assms(1) by (simp add: check_gps_def)
  ultimately show ?thesis
    using assms(1,2) unfolding parse_gps_def gps_mapping_def
    by (cases g) (simp add: closed_mapping_eq GPS_KEYS_def member_Cons Let_def bounded_array_def)
qed

subsection \<open>The sidecar\<close>

definition wire_times :: "ClipSidecar \<Rightarrow> bool" where
  "wire_times sc = (opt_all wire_utc (sc_start_utc sc) \<and> opt_all wire_utc (sc_end_utc sc)
     \<and> opt_all wire_local (sc_start_local sc) \<and> opt_all (\<lambda>a. wire_utc (ta_utc a)) (sc_time_anchor sc)
     \<and> opt_all wire_utc (gp_first_fix_utc (sc_gps sc))
     \<and> list_all (\<lambda>g. opt_all wire_utc (gs_utc g)) (gp_samples (sc_gps sc)))"

text \<open>The members of a sidecar were constructed, so their own checks have passed.\<close>

definition members_ok :: "ClipSidecar \<Rightarrow> bool" where
  "members_ok sc = (opt_all (\<lambda>a. check_anchor a = Inr ()) (sc_time_anchor sc) \<and> check_video (sc_video sc) = Inr ()
     \<and> check_audio (sc_audio sc) = Inr () \<and> check_gps (sc_gps sc) = Inr ()
     \<and> list_all (\<lambda>g. check_sample g = Inr ()) (gp_samples (sc_gps sc)))"

text \<open>The parsed value: the local start keeps its wall clock and its offset, not its zone.\<close>

definition off_zone :: "ClipSidecar \<Rightarrow> ClipSidecar" where
  "off_zone sc = sc\<lparr>sc_start_local := map_option (lc_zone_update (\<lambda>_. None)) (sc_start_local sc)\<rparr>"

definition ambiguous_start :: "zone_database \<Rightarrow> ClipSidecar \<Rightarrow> bool" where
  "ambiguous_start zone_info sc = (case (zone_info (sc_timezone sc), sc_start_utc sc) of
     (Inr z, Some su) \<Rightarrow> sc_start_local sc \<noteq> None \<and> zone_folded z (dt_us su) | _ \<Rightarrow> False)"

lemma required_local_iso: "wire_local l \<Longrightarrow> required_local (JStr (iso_local l)) = Inr (l\<lparr>lc_zone := None\<rparr>)"
proof -
  assume l: "wire_local l"
  then obtain m where m: "dt_offset (lc_time l) = Some (m * 60000000)" "\<bar>m\<bar> < 1440"
    by (auto simp: wire_local_def)
  have "length (offset_text (m * 60000000)) = 6"
    by (simp add: offset_text_def Let_def abs_mult)
  then have "iso_local l = iso_text (civil_of_us (dt_us (lc_time l))) @ offset_text (m * 60000000)"
      "length (iso_local l) = 29"
    by (simp_all add: iso_local_def m(1))
  then show ?thesis
    using l m parse_offset_text [OF m(2)]
    by (cases l; cases "lc_time l") (simp add: required_local_def wire_local_def parse_iso_us)
qed

lemma parse_members_mapping:
  assumes "wire_times sc" "members_ok sc" "length (sc_warnings sc) \<le> MAX_WARNINGS"
    "to_mapping sc = JObj raw"
  shows "parse_members zone_info raw = bindR (check_sidecar zone_info (off_zone sc)) (\<lambda>_. Inr (off_zone sc))"
proof -
  have anchor: "parse_anchor (json_opt anchor_mapping (sc_time_anchor sc)) = Inr (sc_time_anchor sc)"
  proof (cases "sc_time_anchor sc")
    case None
    then show ?thesis by (simp add: json_opt_def parse_anchor_def)
  next
    case (Some a)
    then show ?thesis using assms(1,2) by (simp add: json_opt_def parse_anchor_mapping wire_times_def members_ok_def)
  qed
  have gps: "parse_gps (gps_mapping (sc_gps sc)) = Inr (sc_gps sc)"
    using assms(1,2) by (intro parse_gps_mapping) (auto simp: wire_times_def members_ok_def list_all_iff)
  have warn: "mapR strict_str (map JStr ws) = Inr ws" for ws by (induction ws) simp_all
  have local: "json_optional required_local (json_opt (\<lambda>l. JStr (iso_local l)) (sc_start_local sc))
      = Inr (sc_start_local (off_zone sc))"
    using assms(1) by (cases "sc_start_local sc")
      (simp_all add: json_optional_def json_opt_def required_local_iso wire_times_def off_zone_def)
  have "raw = (case to_mapping sc of JObj kvs \<Rightarrow> kvs)" by (simp add: assms(4))
  then have raw: "member raw ''time_anchor'' = json_opt anchor_mapping (sc_time_anchor sc)"
      "member raw ''video'' = video_mapping (sc_video sc)" "member raw ''audio'' = audio_mapping (sc_audio sc)"
      "member raw ''gps'' = gps_mapping (sc_gps sc)" "member raw ''warnings'' = JArr (map JStr (sc_warnings sc))"
      "parse_identity raw = Inr (sc_schema_version sc, sc_clip_id sc, sc_boot_id sc, sc_sequence sc, video_file sc, metadata_file sc)"
      "parse_times raw = Inr (sc_start_utc sc, sc_end_utc sc, sc_start_ns sc, sc_end_ns sc)"
      "parse_states raw = Inr (sc_gps_time_state sc, sc_system_clock_state sc, sc_timestamp_quality sc, sc_timezone sc,
         sc_start_local (off_zone sc))"
      "parse_tail raw = Inr (sc_protected sc, sc_protection_reason sc, sc_software_version sc)"
    using assms(1) local
    by (simp_all add: to_mapping_def member_Cons parse_identity_def parse_times_def parse_states_def parse_tail_def
        wire_times_def)
  have "off_zone sc = \<lparr>sc_schema_version = sc_schema_version sc, sc_clip_id = sc_clip_id sc, sc_boot_id = sc_boot_id sc,
      sc_sequence = sc_sequence sc, video_file = video_file sc, metadata_file = metadata_file sc,
      sc_start_utc = sc_start_utc sc, sc_end_utc = sc_end_utc sc, sc_start_ns = sc_start_ns sc, sc_end_ns = sc_end_ns sc,
      sc_gps_time_state = sc_gps_time_state sc, sc_system_clock_state = sc_system_clock_state sc,
      sc_timestamp_quality = sc_timestamp_quality sc, sc_time_anchor = sc_time_anchor sc, sc_timezone = sc_timezone sc,
      sc_start_local = sc_start_local (off_zone sc), sc_video = sc_video sc, sc_audio = sc_audio sc, sc_gps = sc_gps sc,
      sc_protected = sc_protected sc, sc_protection_reason = sc_protection_reason sc,
      sc_software_version = sc_software_version sc, sc_warnings = sc_warnings sc\<rparr>"
    by (cases sc) (simp add: off_zone_def)
  then show ?thesis
    using assms(2,3) by (simp add: parse_members_def raw anchor gps warn parse_video_mapping parse_audio_mapping
        members_ok_def bounded_array_def Let_def)
qed

lemma check_times_off_zone:
  assumes "check_times zone_info z sc = Inr ()" "zone_info (sc_timezone sc) = Inr z"
  shows "check_times zone_info z (off_zone sc)
    = (if ambiguous_start zone_info sc then Inl MetadataValidationError else Inr ())"
proof (cases "sc_timestamp_quality sc = MONOTONIC_ONLY")
  case True
  then show ?thesis using assms by (simp add: check_times_def off_zone_def ambiguous_start_def)
next
  case False
  then obtain su eu sl a where t: "sc_start_utc sc = Some su" "sc_end_utc sc = Some eu" "sc_start_local sc = Some sl"
      "sc_time_anchor sc = Some a" "check_civil_times zone_info z sc su eu sl a = Inr ()"
    using assms(1) by (auto simp: check_times_def split: option.splits)
  obtain ex where ex: "local_of (sc_timezone sc) z su = Inr ex" "dt_offset su = Some 0" "dt_offset eu = Some 0"
      "same_local zone_info sl ex" "dt_offset (lc_time sl) = dt_offset (lc_time ex)" "dt_offset (lc_time sl) \<noteq> None"
    using t(5) by (auto simp: check_civil_times_def bindR_eq_Inr utc_value_eq)
  have exv: "lc_zone ex = Some (sc_timezone sc)" "instant (lc_time ex) = dt_us su"
    using ex(1) by (auto simp: local_of_def Let_def instant_def split: if_splits)
  have fd: "fold_dependent zone_info ex = ambiguous_start zone_info sc"
    by (simp add: fold_dependent_def ambiguous_start_def exv assms(2) t)
  have "same_local zone_info (sl\<lparr>lc_zone := None\<rparr>) ex = (\<not> ambiguous_start zone_info sc)"
    using ex(4,5) fd exv(1) by (auto simp: same_local_def instant_def fold_dependent_def split: if_splits)
  then show ?thesis
    using False t(5) ex(1-3,5) t(1-4)
    by (auto simp: check_times_def check_civil_times_def off_zone_def utc_value_def bindR_eq_Inr checks.simps
        invalid_if_def split: if_splits)
qed

lemma off_zone_checks:
  "check_window (off_zone sc) p gs = check_window sc p gs" "check_first_fix (off_zone sc) = check_first_fix sc"
  "check_protection (off_zone sc) = check_protection sc" "check_name (off_zone sc) nm = check_name sc nm"
  by (induction gs arbitrary: p)
    (simp_all add: check_sample_utc_def check_first_fix_def check_protection_def check_name_def off_zone_def)

lemma off_zone_selects [simp]:
  "sc_schema_version (off_zone sc) = sc_schema_version sc" "sc_sequence (off_zone sc) = sc_sequence sc"
  "video_file (off_zone sc) = video_file sc" "metadata_file (off_zone sc) = metadata_file sc"
  "sc_start_ns (off_zone sc) = sc_start_ns sc" "sc_end_ns (off_zone sc) = sc_end_ns sc"
  "sc_timezone (off_zone sc) = sc_timezone sc" "sc_gps (off_zone sc) = sc_gps sc"
  "sc_software_version (off_zone sc) = sc_software_version sc" "sc_warnings (off_zone sc) = sc_warnings sc"
  by (simp_all add: off_zone_def)

lemma check_sidecar_off_zone:
  assumes "check_sidecar zone_info sc = Inr ()"
  shows "check_sidecar zone_info (off_zone sc)
    = (if ambiguous_start zone_info sc then Inl MetadataValidationError else Inr ())"
  using assms
  by (auto simp: check_sidecar_def bindR_eq_Inr off_zone_checks zone_or_invalid_def check_times_off_zone list.pred_map comp_def
        checks.simps as_invalid_def check_integer_def split: sum.splits if_splits)

lemma wire_round_trip_lemma:
  assumes "check_sidecar zone_info sc = Inr ()" "members_ok sc" "wire_times sc"
  shows "parse_sidecar_mapping zone_info (to_mapping sc)
       = (if ambiguous_start zone_info sc then Inl SidecarParseError else Inr (off_zone sc))
     \<and> to_mapping (off_zone sc) = to_mapping sc"
proof
  have w: "length (sc_warnings sc) \<le> MAX_WARNINGS"
    using assms(1) unfolding check_sidecar_ok by blast
  obtain raw where raw: "to_mapping sc = JObj raw" "map fst raw = TOP_LEVEL_KEYS"
    by (simp add: to_mapping_def TOP_LEVEL_KEYS_def)
  show "parse_sidecar_mapping zone_info (to_mapping sc)
       = (if ambiguous_start zone_info sc then Inl SidecarParseError else Inr (off_zone sc))"
    unfolding parse_sidecar_mapping_def raw(1) closed_mapping_eq [OF raw(2)]
    by (simp add: parse_members_mapping [OF assms(3,2) w raw(1)] check_sidecar_off_zone [OF assms(1)] as_parse_error_def)
  show "to_mapping (off_zone sc) = to_mapping sc"
    by (cases "sc_start_local sc") (simp_all add: to_mapping_def off_zone_def json_opt_def iso_local_def)
qed

text \<open>
  C7: The wire form is read back exactly. For a valid sidecar whose times are whole milliseconds with
  whole-minute offsets, parsing what was written returns the same sidecar (its local start with a fixed
  offset instead of the zone), which prints the same again; the one exception is a local start that
  occurs twice on its day, when the clocks are set back: such a sidecar can be written but is always
  refused when it is read.
\<close>

theorem wire_round_trip:
  assumes "check_sidecar zone_info sc = Inr ()" "members_ok sc" "wire_times sc"
  shows "parse_sidecar_mapping zone_info (to_mapping sc)
       = (if ambiguous_start zone_info sc then Inl SidecarParseError else Inr (off_zone sc))
     \<and> to_mapping (off_zone sc) = to_mapping sc"
  by (rule wire_round_trip_lemma [OF assms])

lemma ex_clip_members: "members_ok ex_clip"
proof -
  have "check_audio ex_audio = Inr ()" by code_simp
  then show ?thesis
    using ex_clip_ok(2,3) ex_video_ok by (simp add: members_ok_def) (simp add: ex_clip_def)
qed

lemma ex_anchored_members: "members_ok (ex_anchored tz)"
proof -
  have "check_anchor ex_anchor = Inr ()" by (rule ex_clip_ok)
  then show ?thesis
    using ex_clip_members by (simp add: members_ok_def ex_anchored_def check_anchor_def check_gps_def check_option_ok)
qed

lemma ex_anchored_ok: "check_sidecar ex_zones (ex_anchored ''Etc/Fold'') = Inr ()" "members_ok (ex_anchored ''Etc/Fold'')"
  "wire_times (ex_anchored ''Etc/Fold'')" "ambiguous_start ex_zones (ex_anchored ''Etc/Fold'')"
proof -
  have l: "wire_local l" if "us_in_range (dt_us (lc_time l)) \<and> dt_us (lc_time l) mod 1000 = 0
      \<and> dt_offset (lc_time l) = Some (60 * 60000000)" for l
    using that by (auto simp: wire_local_def)
  show "check_sidecar ex_zones (ex_anchored ''Etc/Fold'') = Inr ()" by code_simp
  show "members_ok (ex_anchored ''Etc/Fold'')" by (rule ex_anchored_members)
  show "ambiguous_start ex_zones (ex_anchored ''Etc/Fold'')" by code_simp
  show "wire_times (ex_anchored ''Etc/Fold'')"
    by (simp add: wire_times_def ex_anchored_def ex_anchor_def wire_utc_def l us_in_range_def MAX_US_def)
qed

theorem wire_round_trip_witness:
  "parse_sidecar_mapping ex_zones (to_mapping (ex_anchored ''Etc/Fold'')) = Inl SidecarParseError
   \<and> parse_sidecar_mapping ex_zones (to_mapping ex_clip) = Inr (off_zone ex_clip)"
proof
  show "parse_sidecar_mapping ex_zones (to_mapping (ex_anchored ''Etc/Fold'')) = Inl SidecarParseError"
    using wire_round_trip [OF ex_anchored_ok(1-3)] ex_anchored_ok(4) by simp
  have "wire_times ex_clip" "\<not> ambiguous_start ex_zones ex_clip"
    by (simp_all add: wire_times_def ex_clip_def ex_sample_def ambiguous_start_def ex_zones_def)
  then show "parse_sidecar_mapping ex_zones (to_mapping ex_clip) = Inr (off_zone ex_clip)"
    using wire_round_trip [OF ex_clip_ok(1) ex_clip_members] by simp
qed

end
