(* ===== verification/Metadata_Projection.thy ===== *)
theory Metadata_Projection
  imports Sidecar_Codec Utc_Clock Pair_Intents
begin

text \<open>
  Post-anchor reconciliation of a sidecar: the planning half of \<^verbatim>\<open>src/dashcam/metadata/reconcile.py\<close>.
  A clip recorded before the time was known has a provisional name and no civil times. Once an anchor
  (a pair of a monotonic and a UTC time) is trusted, \<open>project_anchored_sidecar\<close> computes the civil
  times, the final name and the sample times, and \<open>plan_post_anchor_reconciliation\<close> wraps the result in
  a \<open>RECONCILE_NAME\<close> intent. \<^verbatim>\<open>replace(...)\<close> constructs a value, so it runs the constructor's checks.
\<close>

section \<open>Planning\<close>

definition quality_for_anchor :: "TimeAnchor \<Rightarrow> TimestampQuality" where
  "quality_for_anchor a = (case ta_source a of ANCHOR_GPS \<Rightarrow> GPS_ANCHORED | ANCHOR_SYSTEM_CLOCK \<Rightarrow> SYSTEM_DERIVED)"

definition resolved_clock_states :: "ClipSidecar \<Rightarrow> TimeAnchor \<Rightarrow> GpsTimeState option \<Rightarrow> SystemClockState option
    \<Rightarrow> (GpsTimeState \<times> SystemClockState) result" where
  "resolved_clock_states sc a gps_time system_clock =
     (let gps_state = (case gps_time of None \<Rightarrow> sc_gps_time_state sc | Some g \<Rightarrow> g);
          system_state = (case system_clock of None \<Rightarrow> sc_system_clock_state sc | Some g \<Rightarrow> g)
      in case ta_source a of
           ANCHOR_GPS \<Rightarrow>
             (let g = if gps_time = None then GPS_TIME_VALID else gps_state
              in if g = UNSYNCED then Inl MetadataReconciliationError else Inr (g, system_state))
         | ANCHOR_SYSTEM_CLOCK \<Rightarrow>
             (let s = if system_clock = None then SYNCHRONIZED else system_state
              in if s \<noteq> SYNCHRONIZED then Inl MetadataReconciliationError else Inr (gps_state, s)))"

definition project_utc :: "TimeAnchor \<Rightarrow> int \<Rightarrow> datetime result" where
  "project_utc a ns = (case project (ta_utc a) (ns - ta_monotonic_ns a) of
     None \<Rightarrow> Inl MetadataReconciliationError | Some u \<Rightarrow> Inr u)"

definition canonical_millisecond :: "datetime \<Rightarrow> datetime" where
  "canonical_millisecond d = d\<lparr>dt_us := dt_us d - dt_us d mod 1000\<rparr>"

definition project_sample :: "TimeAnchor \<Rightarrow> TimestampQuality \<Rightarrow> GpsSample \<Rightarrow> GpsSample result" where
  "project_sample a quality g =
     bindR (project_utc a (gs_monotonic_ns g)) (\<lambda>u.
       let g' = g\<lparr>gs_utc := Some (canonical_millisecond u), gs_timestamp_quality := quality\<rparr>
       in bindR (check_sample g') (\<lambda>_. Inr g'))"

definition first_fix_of :: "GpsSample list \<Rightarrow> datetime option" where
  "first_fix_of gs = (case filter (\<lambda>g. gs_lat_deg g \<noteq> None \<and> gs_lon_deg g \<noteq> None) gs of
     [] \<Rightarrow> None | g # _ \<Rightarrow> gs_utc g)"

definition project_local :: "zone_database \<Rightarrow> datetime \<Rightarrow> string \<Rightarrow> local_time result" where
  "project_local zone_info u name = bindR (to_local_time zone_info u name) (\<lambda>outcome.
     case outcome of Inl _ \<Rightarrow> Inl MetadataReconciliationError
     | Inr v \<Rightarrow> Inr \<lparr>lc_time = lt_datetime v, lc_zone = Some name\<rparr>)"

definition as_reconciliation_error :: "'a result \<Rightarrow> 'a result" where
  "as_reconciliation_error m = (case m of Inl e \<Rightarrow> Inl (if e = ClipNameError then MetadataReconciliationError else e)
     | Inr x \<Rightarrow> Inr x)"

text \<open>The final \<^verbatim>\<open>replace(sidecar, ...)\<close> with the new GPS summary.\<close>

definition anchored_sidecar :: "zone_database \<Rightarrow> ClipSidecar \<Rightarrow> TimeAnchor \<Rightarrow> GpsTimeState \<times> SystemClockState
    \<Rightarrow> datetime \<Rightarrow> datetime \<Rightarrow> local_time \<Rightarrow> ClipFilePair \<Rightarrow> GpsSample list \<Rightarrow> ClipSidecar result" where
  "anchored_sidecar zone_info sc a states start_utc end_utc start_local pair samples =
     (let gps = (sc_gps sc)\<lparr>gp_first_fix_utc := first_fix_of samples, gp_samples := samples\<rparr>
      in bindR (check_gps gps) (\<lambda>_.
         let sc' = sc\<lparr>video_file := video_name pair, metadata_file := metadata_name pair,
               sc_start_utc := Some start_utc, sc_end_utc := Some end_utc,
               sc_gps_time_state := fst states, sc_system_clock_state := snd states,
               sc_timestamp_quality := quality_for_anchor a, sc_time_anchor := Some a,
               sc_start_local := Some start_local, sc_gps := gps\<rparr>
         in bindR (check_sidecar zone_info sc') (\<lambda>_. Inr sc')))"

definition project_provisional :: "zone_database \<Rightarrow> ClipSidecar \<Rightarrow> string \<Rightarrow> TimeAnchor \<Rightarrow> string list
    \<Rightarrow> GpsTimeState option \<Rightarrow> SystemClockState option \<Rightarrow> ClipSidecar result" where
  "project_provisional zone_info sc boot a existing_names gps_time system_clock =
     bindR (resolved_clock_states sc a gps_time system_clock) (\<lambda>states.
     let a' = a\<lparr>ta_utc := canonical_millisecond (ta_utc a)\<rparr> in
     bindR (check_anchor a') (\<lambda>_.
     bindR (project_utc a (sc_start_ns sc)) (\<lambda>su. bindR (project_utc a (sc_end_ns sc)) (\<lambda>eu.
     let start_utc = canonical_millisecond su; end_utc = canonical_millisecond eu in
     bindR (project_local zone_info start_utc (sc_timezone sc)) (\<lambda>start_local.
     bindR (as_reconciliation_error (finalized_clip_pair start_utc boot (sc_sequence sc) existing_names)) (\<lambda>pair.
     bindR (mapR (project_sample a (quality_for_anchor a)) (gp_samples (sc_gps sc))) (\<lambda>samples.
       anchored_sidecar zone_info sc a' states start_utc end_utc start_local pair samples)))))))"

definition project_anchored_sidecar :: "zone_database \<Rightarrow> ClipSidecar \<Rightarrow> TimeAnchor \<Rightarrow> string list
    \<Rightarrow> GpsTimeState option \<Rightarrow> SystemClockState option \<Rightarrow> ClipSidecar result" where
  "project_anchored_sidecar zone_info sc a existing_names gps_time system_clock =
     bindR (as_reconciliation_error (parse_clip_filename (video_file sc))) (\<lambda>nm.
       if pn_boot_id nm \<noteq> take 12 (uuid_hex (sc_boot_id sc)) then Inl MetadataReconciliationError
       else if \<not> provisional nm then Inr sc
       else project_provisional zone_info sc (pn_boot_id nm) a existing_names gps_time system_clock)"

record MetadataReconciliationPlan =
  mp_sidecar :: ClipSidecar
  mp_intent :: "OperationIntent option"
  already_reconciled :: bool

text \<open>The constructor of the intent with its paths; every failure is a \<^verbatim>\<open>ValueError\<close>.\<close>

definition reconcile_name_intent :: "uuid \<Rightarrow> ClipSidecar \<Rightarrow> ClipSidecar \<Rightarrow> int \<Rightarrow> string
    \<Rightarrow> OperationIntent result" where
  "reconcile_name_intent iid sc sc' created directory =
     bindR (mk_pair_paths (join_path directory (video_file sc)) (join_path directory (metadata_file sc))
       (Some (join_path directory (video_file sc'))) (Some (join_path directory (metadata_file sc')))) (\<lambda>ps.
       mk_operation_intent iid (sc_clip_id sc) RECONCILE_NAME created ps 1)"

text \<open>
  \<^verbatim>\<open>reconciled is sidecar\<close> holds exactly when the name is already final: the projection of a
  provisional name constructs a new object.
\<close>

definition plan_post_anchor_reconciliation :: "zone_database \<Rightarrow> ClipSidecar \<Rightarrow> TimeAnchor \<Rightarrow> uuid \<Rightarrow> int
    \<Rightarrow> string list \<Rightarrow> string \<Rightarrow> GpsTimeState option \<Rightarrow> SystemClockState option
    \<Rightarrow> MetadataReconciliationPlan result" where
  "plan_post_anchor_reconciliation zone_info sc a iid created existing_names directory gps_time
       system_clock =
     (if directory \<notin> {''clips'', ''protected''} then Inl MetadataReconciliationError
      else if created < 0 then Inl MetadataReconciliationError
      else bindR (project_anchored_sidecar zone_info sc a existing_names gps_time system_clock) (\<lambda>sc'.
        if (case parse_clip_filename (video_file sc) of Inl _ \<Rightarrow> False | Inr nm \<Rightarrow> \<not> provisional nm)
        then Inr \<lparr>mp_sidecar = sc, mp_intent = None, already_reconciled = True\<rparr>
        else (case reconcile_name_intent iid sc sc' created directory of
            Inl e \<Rightarrow> Inl (if e \<in> {TypeError, ValueError, ClipNameError} then MetadataReconciliationError else e)
          | Inr intent \<Rightarrow> Inr \<lparr>mp_sidecar = sc', mp_intent = Some intent, already_reconciled = False\<rparr>)))"

section \<open>Names and zones\<close>

text \<open>A timestamped name that parses at all gives back its boot token and sequence.\<close>

lemma match_stamp_digit: "match_stamp s \<Longrightarrow> k < 8 \<Longrightarrow> is_digit (s ! k)"
proof -
  assume m: "match_stamp s" and k: "k < 8"
  then have "take 8 s ! k = s ! k" "k < length (take 8 s)" "list_all is_digit (take 8 s)"
    by (simp_all add: match_stamp_def)
  then show ?thesis by (metis list_all_length)
qed

lemma early_stamp_no_match: "cv_year c < 1000 \<Longrightarrow> \<not> match_stamp (take 20 (utc_stamp c @ x))"
proof
  assume y: "cv_year c < 1000" and m: "match_stamp (take 20 (utc_stamp c @ x))"
  define k where "k = length (year_text (cv_year c)) + 4"
  have k: "k < 8" using y by (simp add: k_def year_text_def)
  then have "take 20 (utc_stamp c @ x) ! k = (utc_stamp c @ x) ! k" by (simp del: take_append)
  also have "\<dots> = CHR ''T''" by (simp add: k_def utc_stamp_def nth_append)
  finally show False
    using match_stamp_digit [OF m k] by (simp add: is_digit_def code_between_def)
qed

lemma year_text_digit: "civil_valid c \<Longrightarrow> is_digit (hd (year_text (cv_year c))) \<and> year_text (cv_year c) \<noteq> []"
proof -
  assume c: "civil_valid c"
  have *: "is_digit (hd (pad_dec k n)) \<and> pad_dec k n \<noteq> []" if "n < 10 ^ k" "0 < k" for k n
    using pad_dec_digit [OF that(1)] length_pad_dec [of k n] that(2) by (cases "pad_dec k n") auto
  show ?thesis
    unfolding year_text_def using c by (intro *) (auto simp: civil_valid_def nat_less_iff split: if_splits)
qed

lemma stamp_not_boot: "civil_valid c \<Longrightarrow> take 5 (utc_stamp c @ x) \<noteq> ''boot-''"
  using year_text_digit [of c]
  by (cases "year_text (cv_year c)") (auto simp: utc_stamp_def is_digit_def code_between_def)

lemma parse_final_stemD:
  assumes t: "us_in_range t" "validated_boot_id b = Inr b" "checked_sequence n = Inr n"
    and nm: "parse_clip_filename (final_stem t b n @ ''.mp4'') = Inr nm"
  shows "1000 \<le> cv_year (civil_of_us t) \<and> pn_boot_id nm = b \<and> pn_sequence nm = n \<and> \<not> provisional nm"
proof -
  have y: "1000 \<le> cv_year (civil_of_us t)"
  proof (rule ccontr)
    assume "\<not> 1000 \<le> cv_year (civil_of_us t)"
    then have "match_final (final_stem t b n @ ''.mp4'') = None"
      using early_stamp_no_match by (simp add: match_final_def final_stem_def del: take_append)
    moreover have "match_boot_name mid (final_stem t b n @ ''.mp4'') = None" for mid
      using stamp_not_boot [OF civil_of_us_valid [OF t(1)]] by (simp add: match_boot_name_def final_stem_def del: take_append)
    ultimately show False
      using nm by (simp add: parse_clip_filename_def bindR_eq_Inr)
  qed
  then show ?thesis using parse_final_stem(1) [OF t] nm by simp
qed

section \<open>Projection in closed form\<close>

text \<open>The millisecond an anchor assigns to a monotonic time, in microseconds.\<close>

definition projected_us :: "TimeAnchor \<Rightarrow> int \<Rightarrow> int" where
  "projected_us a ns = 1000 * ((1000 * dt_us (ta_utc a) + (ns - ta_monotonic_ns a)) div 1000000)"

definition projected_time :: "TimeAnchor \<Rightarrow> int \<Rightarrow> datetime" where
  "projected_time a ns = \<lparr>dt_us = projected_us a ns, dt_offset = Some 0\<rparr>"

definition anchored_stem :: "ClipSidecar \<Rightarrow> TimeAnchor \<Rightarrow> string" where
  "anchored_stem sc a = final_stem (projected_us a (sc_start_ns sc)) (take 12 (uuid_hex (sc_boot_id sc))) (sc_sequence sc)"

lemma floor_to_ms: "(t :: int) - t mod 1000 = 1000 * (t div 1000)"
  by (simp add: minus_mod_eq_mult_div)

lemma projected_us_eq:
  "(dt_us (ta_utc a) + (ns - ta_monotonic_ns a) div 1000) - (dt_us (ta_utc a) + (ns - ta_monotonic_ns a) div 1000) mod 1000
     = projected_us a ns"
proof -
  have "(A + d div 1000) div 1000 = (1000 * A + d) div 1000000" for A d :: int
  proof -
    have "A + d div 1000 = (1000 * A + d) div 1000" by simp
    then show ?thesis by (simp add: zdiv_zmult2_eq [symmetric])
  qed
  then show ?thesis by (simp only: floor_to_ms projected_us_def)
qed

lemma projected_us_mono: "x \<le> y \<Longrightarrow> projected_us a x \<le> projected_us a y"
  unfolding projected_us_def by (intro mult_left_mono zdiv_mono1) simp_all

lemma projected_duration:
  "\<bar>(projected_us a y - projected_us a x) * 1000 - (y - x)\<bar> < MAX_DURATION_ROUNDING_ERROR_NS
   \<and> (x + 1000000 \<le> y \<longrightarrow> projected_us a x < projected_us a y)"
proof -
  define X Y where "X = 1000 * dt_us (ta_utc a) + (x - ta_monotonic_ns a)"
    and "Y = 1000 * dt_us (ta_utc a) + (y - ta_monotonic_ns a)"
  have d: "Y - X = y - x" by (simp add: X_def Y_def)
  define p q where "p = X div 1000000" and "q = Y div 1000000"
  have "1000000 * p \<le> X" "X < 1000000 * p + 1000000" "1000000 * q \<le> Y" "Y < 1000000 * q + 1000000"
    using div_bounds [of 1000000 X] div_bounds [of 1000000 Y] by (simp_all add: p_def q_def)
  then have "\<bar>(1000 * q - 1000 * p) * 1000 - (Y - X)\<bar> < 1000000" "X + 1000000 \<le> Y \<Longrightarrow> 1000 * p < 1000 * q"
    by (simp_all add: abs_less_iff)
  then show ?thesis
    using d unfolding projected_us_def MAX_DURATION_ROUNDING_ERROR_NS_def X_def [symmetric] Y_def [symmetric]
      p_def [symmetric] q_def [symmetric] by linarith
qed

lemma project_utc_ms:
  "project_utc a ns = Inr u \<Longrightarrow> dt_offset (ta_utc a) = Some 0 \<Longrightarrow> canonical_millisecond u = projected_time a ns"
  using project_us [of "ta_utc a" "ns - ta_monotonic_ns a" u]
  by (auto simp: project_utc_def canonical_millisecond_def projected_time_def projected_us_eq [symmetric]
      split: option.splits)

lemma project_utc_in_range:
  "us_in_range (dt_us (ta_utc a) + (ns - ta_monotonic_ns a) div 1000) \<Longrightarrow> \<exists>u. project_utc a ns = Inr u"
  using project_in_range [of "ta_utc a" "ns - ta_monotonic_ns a"] by (auto simp: project_utc_def)

text \<open>Whatever a successful projection of a provisional name does.\<close>

lemma project_provisionalE:
  assumes "project_provisional zone_info sc boot a ex gps_time system_clock = Inr sc'" "dt_offset (ta_utc a) = Some 0"
  obtains states start_local pair samples where
    "resolved_clock_states sc a gps_time system_clock = Inr states"
    "project_local zone_info (projected_time a (sc_start_ns sc)) (sc_timezone sc) = Inr start_local"
    "finalized_clip_pair (projected_time a (sc_start_ns sc)) boot (sc_sequence sc) ex = Inr pair"
    "mapR (project_sample a (quality_for_anchor a)) (gp_samples (sc_gps sc)) = Inr samples"
    "anchored_sidecar zone_info sc (a\<lparr>ta_utc := canonical_millisecond (ta_utc a)\<rparr>) states
       (projected_time a (sc_start_ns sc)) (projected_time a (sc_end_ns sc)) start_local pair samples = Inr sc'"
proof -
  have e: "as_reconciliation_error m = Inr x \<longleftrightarrow> m = Inr x" for m :: "ClipFilePair result" and x
    by (cases m) (simp_all add: as_reconciliation_error_def)
  from assms(1) show thesis
    unfolding project_provisional_def Let_def bindR_eq_Inr e
    by (elim exE conjE) (rule that, simp_all add: project_utc_ms [OF _ assms(2)])
qed

lemma anchored_sidecarD:
  assumes "anchored_sidecar zone_info sc a states su eu sl pair samples = Inr sc'"
  shows "check_sidecar zone_info sc' = Inr ()" "check_gps (sc_gps sc') = Inr ()"
    "sc' = sc\<lparr>video_file := video_name pair, metadata_file := metadata_name pair,
               sc_start_utc := Some su, sc_end_utc := Some eu,
               sc_gps_time_state := fst states, sc_system_clock_state := snd states,
               sc_timestamp_quality := quality_for_anchor a, sc_time_anchor := Some a,
               sc_start_local := Some sl,
               sc_gps := (sc_gps sc)\<lparr>gp_first_fix_utc := first_fix_of samples, gp_samples := samples\<rparr>\<rparr>"
  using assms by (auto simp: anchored_sidecar_def Let_def bindR_eq_Inr)

lemma project_sampleD:
  "project_sample a q g = Inr g' \<Longrightarrow> dt_offset (ta_utc a) = Some 0 \<Longrightarrow>
   g' = g\<lparr>gs_utc := Some (projected_time a (gs_monotonic_ns g)), gs_timestamp_quality := q\<rparr> \<and> check_sample g' = Inr ()"
  by (auto simp: project_sample_def bindR_eq_Inr Let_def project_utc_ms)

lemma project_anchored_sidecar_cases:
  assumes "project_anchored_sidecar zone_info sc a ex gps_time system_clock = Inr sc'"
  obtains (final) nm where "parse_clip_filename (video_file sc) = Inr nm" "\<not> provisional nm" "sc' = sc"
      "pn_boot_id nm = take 12 (uuid_hex (sc_boot_id sc))"
  | (projected) nm where "parse_clip_filename (video_file sc) = Inr nm" "provisional nm"
      "pn_boot_id nm = take 12 (uuid_hex (sc_boot_id sc))"
      "project_provisional zone_info sc (pn_boot_id nm) a ex gps_time system_clock = Inr sc'"
proof -
  have e: "as_reconciliation_error m = Inr x \<longleftrightarrow> m = Inr x" for m :: "ParsedClipName result" and x
    by (cases m) (simp_all add: as_reconciliation_error_def)
  show thesis
    using assms final projected by (auto simp: project_anchored_sidecar_def bindR_eq_Inr e split: if_splits)
qed

section \<open>Properties\<close>

definition with_civil_time :: "ClipSidecar \<Rightarrow> ClipSidecar \<Rightarrow> ClipSidecar" where
  "with_civil_time sc sc' = sc\<lparr>video_file := video_file sc', metadata_file := metadata_file sc',
     sc_start_utc := sc_start_utc sc', sc_end_utc := sc_end_utc sc', sc_gps_time_state := sc_gps_time_state sc',
     sc_system_clock_state := sc_system_clock_state sc', sc_timestamp_quality := sc_timestamp_quality sc',
     sc_time_anchor := sc_time_anchor sc', sc_start_local := sc_start_local sc', sc_gps := sc_gps sc'\<rparr>"

lemma projected_name:
  assumes "check_sidecar zone_info sc = Inr ()"
    "project_anchored_sidecar zone_info sc a ex gps_time system_clock = Inr sc'" "dt_offset (ta_utc a) = Some 0"
  obtains nm where "parse_clip_filename (video_file sc') = Inr nm" "\<not> provisional nm"
    "pn_boot_id nm = take 12 (uuid_hex (sc_boot_id sc'))"
  using assms(2)
proof (cases rule: project_anchored_sidecar_cases)
  case (final nm)
  then show thesis using that by simp
next
  case (projected nm)
  from projected(4) assms(3) show thesis
  proof (cases rule: project_provisionalE)
    case (1 states sl pair samples)
    note sc' = anchored_sidecarD [OF 1(5)]
    obtain u where u: "as_utc (projected_time a (sc_start_ns sc)) = Inr u" "validated_boot_id (pn_boot_id nm) = Inr (pn_boot_id nm)"
        "checked_sequence (sc_sequence sc) = Inr (sc_sequence sc)"
        "new_pair (final_stem (dt_us u) (pn_boot_id nm) (sc_sequence sc)) ex = Inr pair"
      using 1(3) by (rule finalized_clip_pairD)
    have name: "video_file sc' = final_stem (dt_us u) (pn_boot_id nm) (sc_sequence sc) @ ''.mp4''"
      using sc'(3) new_pair_names(1) [OF u(4)] by simp
    obtain nm' where nm': "parse_clip_filename (video_file sc') = Inr nm'"
      using sc'(1) unfolding check_sidecar_ok by blast
    then have "pn_boot_id nm' = pn_boot_id nm \<and> \<not> provisional nm'"
      using parse_final_stemD [OF conjunct1 [OF as_utcD [OF u(1)]] u(2,3)] name by simp
    moreover have "sc_boot_id sc' = sc_boot_id sc"
      by (subst sc'(3)) simp
    ultimately show thesis
      using that [OF nm'] projected(3) by simp
  qed
qed

text \<open>
  C18: Projecting an anchor into a valid sidecar yields a valid sidecar that differs only in its names,
  civil times, clock states and GPS times: the identity, the monotonic interval, the streams, the
  protection and every sample's position are kept. The result is stable: projecting it again, with any
  anchor, returns it unchanged, so a later noisy anchor cannot rename a clip twice.
\<close>

theorem projection_is_stable:
  assumes "check_sidecar zone_info sc = Inr ()" "check_anchor a = Inr ()"
    "project_anchored_sidecar zone_info sc a ex gps_time system_clock = Inr sc'"
  shows "check_sidecar zone_info sc' = Inr () \<and> sc' = with_civil_time sc sc'
     \<and> map (\<lambda>g. g\<lparr>gs_utc := None, gs_timestamp_quality := MONOTONIC_ONLY\<rparr>) (gp_samples (sc_gps sc'))
         = map (\<lambda>g. g\<lparr>gs_utc := None, gs_timestamp_quality := MONOTONIC_ONLY\<rparr>) (gp_samples (sc_gps sc))
     \<and> project_anchored_sidecar zone_info sc' b ex' gps_time' system_clock' = Inr sc'"
proof -
  have off: "dt_offset (ta_utc a) = Some 0"
    using assms(2) by (simp add: check_anchor_def)
  obtain nm where "parse_clip_filename (video_file sc') = Inr nm" "\<not> provisional nm"
      "pn_boot_id nm = take 12 (uuid_hex (sc_boot_id sc'))"
    using assms(1,3) off by (rule projected_name)
  then have again: "project_anchored_sidecar zone_info sc' b ex' gps_time' system_clock' = Inr sc'"
    by (simp add: project_anchored_sidecar_def as_reconciliation_error_def)
  show ?thesis
    using assms(3)
  proof (cases rule: project_anchored_sidecar_cases)
    case (final nm)
    then show ?thesis using assms(1) again by (simp add: with_civil_time_def)
  next
    case (projected nm)
    from projected(4) off show ?thesis
    proof (cases rule: project_provisionalE)
      case (1 states sl pair samples)
      note sc' = anchored_sidecarD [OF 1(5)]
      have "list_all2 (\<lambda>g g'. g\<lparr>gs_utc := None, gs_timestamp_quality := MONOTONIC_ONLY\<rparr>
          = g'\<lparr>gs_utc := None, gs_timestamp_quality := MONOTONIC_ONLY\<rparr>) (gp_samples (sc_gps sc)) samples"
        using 1(4) unfolding mapR_eq_Inr_iff
        by (rule list_all2_mono) (use project_sampleD [OF _ off] in fastforce)
      then have "map (\<lambda>g. g\<lparr>gs_utc := None, gs_timestamp_quality := MONOTONIC_ONLY\<rparr>) samples
          = map (\<lambda>g. g\<lparr>gs_utc := None, gs_timestamp_quality := MONOTONIC_ONLY\<rparr>) (gp_samples (sc_gps sc))"
        by (simp add: list_all2_conv_all_nth list_eq_iff_nth_eq)
      moreover have "sc' = with_civil_time sc sc'" "gp_samples (sc_gps sc') = samples"
        by (simp_all add: sc'(3) with_civil_time_def)
      ultimately show ?thesis using sc'(1) again by simp
    qed
  qed
qed

lemma project_sample_succeeds:
  assumes "dt_offset (ta_utc a) = Some 0" "check_sample g = Inr ()"
    "us_in_range (dt_us (ta_utc a) + (gs_monotonic_ns g - ta_monotonic_ns a) div 1000)"
  shows "project_sample a (quality_for_anchor a) g
    = Inr (g\<lparr>gs_utc := Some (projected_time a (gs_monotonic_ns g)), gs_timestamp_quality := quality_for_anchor a\<rparr>)"
proof -
  obtain u where u: "project_utc a (gs_monotonic_ns g) = Inr u"
    using project_utc_in_range [OF assms(3)] by blast
  have "quality_for_anchor a \<noteq> MONOTONIC_ONLY"
    by (cases "ta_source a") (simp_all add: quality_for_anchor_def)
  then have "check_sample (g\<lparr>gs_utc := Some (projected_time a (gs_monotonic_ns g)),
      gs_timestamp_quality := quality_for_anchor a\<rparr>) = Inr ()"
    using assms(2) unfolding check_sample_def checks_ok
    by (simp add: check_required_ok projected_time_def)
  then show ?thesis
    by (simp add: project_sample_def u project_utc_ms [OF u assms(1)] Let_def)
qed

lemma project_samples_succeed:
  assumes "dt_offset (ta_utc a) = Some 0" "list_all (\<lambda>g. check_sample g = Inr ()) gs"
    "check_window sc p gs = Inr ()"
    "us_in_range (dt_us (ta_utc a) + (sc_start_ns sc - ta_monotonic_ns a) div 1000)"
    "us_in_range (dt_us (ta_utc a) + (sc_end_ns sc - ta_monotonic_ns a) div 1000)"
  shows "mapR (project_sample a (quality_for_anchor a)) gs
    = Inr (map (\<lambda>g. g\<lparr>gs_utc := Some (projected_time a (gs_monotonic_ns g)),
                        gs_timestamp_quality := quality_for_anchor a\<rparr>) gs)"
  using assms(2,3)
proof (induction gs arbitrary: p)
  case (Cons g gs)
  have g: "sc_start_ns sc \<le> gs_monotonic_ns g" "gs_monotonic_ns g \<le> sc_end_ns sc"
    "check_window sc (gs_monotonic_ns g) gs = Inr ()"
    using Cons.prems(2) by (auto simp: bindR_eq_Inr)
  have "(sc_start_ns sc - ta_monotonic_ns a) div 1000 \<le> (gs_monotonic_ns g - ta_monotonic_ns a) div 1000"
    "(gs_monotonic_ns g - ta_monotonic_ns a) div 1000 \<le> (sc_end_ns sc - ta_monotonic_ns a) div 1000"
    using g by (intro zdiv_mono1; simp)+
  then have "us_in_range (dt_us (ta_utc a) + (gs_monotonic_ns g - ta_monotonic_ns a) div 1000)"
    using assms(4,5) unfolding us_in_range_def by linarith
  then show ?case
    using Cons.IH [OF _ g(3)] Cons.prems(1) project_sample_succeeds [OF assms(1)] by simp
qed simp

lemma check_window_projected:
  assumes "check_window sc p gs = Inr ()" "sc_start_ns sc' = sc_start_ns sc" "sc_end_ns sc' = sc_end_ns sc"
    "sc_start_utc sc' = Some (projected_time a (sc_start_ns sc))" "sc_end_utc sc' = Some (projected_time a (sc_end_ns sc))"
  shows "check_window sc' p (map (\<lambda>g. g\<lparr>gs_utc := Some (projected_time a (gs_monotonic_ns g)),
     gs_timestamp_quality := q\<rparr>) gs) = Inr ()"
  using assms(1)
proof (induction gs arbitrary: p)
  case (Cons g gs)
  have g: "sc_start_ns sc \<le> gs_monotonic_ns g" "gs_monotonic_ns g < sc_end_ns sc" "\<not> gs_monotonic_ns g < p"
    "check_window sc (gs_monotonic_ns g) gs = Inr ()"
    using Cons.prems by (auto simp: bindR_eq_Inr)
  have "projected_us a (sc_start_ns sc) \<le> projected_us a (gs_monotonic_ns g)"
    "projected_us a (gs_monotonic_ns g) \<le> projected_us a (sc_end_ns sc)"
    using g by (intro projected_us_mono; simp)+
  then show ?case
    using Cons.IH [OF g(4)] g(1-3) assms(2-5)
    by (simp add: bindR_eq_Inr check_sample_utc_def utc_value_def projected_time_def)
qed simp

lemma first_fix_projected:
  assumes "check_window sc p gs = Inr ()"
    "first_fix_of (map (\<lambda>g. g\<lparr>gs_utc := Some (projected_time a (gs_monotonic_ns g)), gs_timestamp_quality := q\<rparr>) gs)
       = Some f"
  shows "projected_us a (sc_start_ns sc) \<le> dt_us f \<and> dt_us f \<le> projected_us a (sc_end_ns sc) \<and> dt_offset f = Some 0"
proof -
  let ?t = "\<lambda>g. g\<lparr>gs_utc := Some (projected_time a (gs_monotonic_ns g)), gs_timestamp_quality := q\<rparr>"
  have w: "sc_start_ns sc \<le> gs_monotonic_ns g \<and> gs_monotonic_ns g < sc_end_ns sc" if "g \<in> set gs" for g
    using assms(1) that by (induction gs arbitrary: p) (auto simp: bindR_eq_Inr)
  obtain g where g: "g \<in> set (map ?t gs)" "gs_utc g = Some f"
  proof -
    obtain g hs where gh: "filter (\<lambda>g. gs_lat_deg g \<noteq> None \<and> gs_lon_deg g \<noteq> None) (map ?t gs) = g # hs"
        "gs_utc g = Some f"
      using assms(2) by (auto simp: first_fix_of_def split: list.splits)
    have "g \<in> set (filter (\<lambda>g. gs_lat_deg g \<noteq> None \<and> gs_lon_deg g \<noteq> None) (map ?t gs))"
      unfolding gh(1) by simp
    then show thesis using that [of g] gh(2) by simp
  qed
  then obtain g0 where "g0 \<in> set gs" "f = projected_time a (gs_monotonic_ns g0)" by auto
  then show ?thesis
    using w [of g0] projected_us_mono [of "sc_start_ns sc" "gs_monotonic_ns g0" a]
      projected_us_mono [of "gs_monotonic_ns g0" "sc_end_ns sc" a] by (simp add: projected_time_def)
qed

lemma boot_token_valid: "validated_boot_id (take 12 (uuid_hex u)) = Inr (take 12 (uuid_hex u))"
proof -
  have "is_boot_char (hex_char d)" if "d < 16" for d
    using hex_val_hex_char [OF that]
    by (auto simp: is_hex_lower_def is_boot_char_def is_lower_def is_digit_def code_between_def)
  then have "list_all is_boot_char (uuid_hex u)"
    using digits_less [OF _ unat_uuid_bound, of _ u] by (auto simp: uuid_hex_def list_all_iff)
  then have "list_all is_boot_char (take 12 (uuid_hex u))"
    by (auto simp: list_all_iff dest: in_set_takeD)
  moreover have "length (uuid_hex u) = 32" by (simp add: uuid_hex_def)
  ultimately show ?thesis by (simp add: validated_boot_id_def)
qed

lemma project_local_ok:
  "to_local_time zone_info u name = Inr (Inr v) \<Longrightarrow>
   project_local zone_info u name = Inr \<lparr>lc_time = lt_datetime v, lc_zone = Some name\<rparr>"
  by (simp add: project_local_def)

lemma to_local_time_ok:
  "to_local_time zone_info u name = Inr (Inr v) \<Longrightarrow> zone_info name = Inr z \<Longrightarrow>
   local_of name z u = Inr \<lparr>lc_time = lt_datetime v, lc_zone = Some name\<rparr> \<and> dt_offset (lt_datetime v) \<noteq> None"
  by (auto simp: to_local_time_def local_of_def Let_def split: if_splits prod.splits)

lemma projected_times_ok:
  assumes "zone_info (sc_timezone sc) = Inr z" "to_local_time zone_info (projected_time a (sc_start_ns sc)) (sc_timezone sc) = Inr (Inr v)"
    "sc_start_ns sc + 1000000 \<le> sc_end_ns sc" "resolved_clock_states sc0 a g s = Inr states"
    "sc_start_utc sc = Some (projected_time a (sc_start_ns sc))" "sc_end_utc sc = Some (projected_time a (sc_end_ns sc))"
    "sc_start_local sc = Some \<lparr>lc_time = lt_datetime v, lc_zone = Some (sc_timezone sc)\<rparr>"
    "sc_time_anchor sc = Some a'" "ta_source a' = ta_source a" "sc_timestamp_quality sc = quality_for_anchor a"
    "sc_gps_time_state sc = fst states" "sc_system_clock_state sc = snd states"
  shows "check_times zone_info z sc = Inr ()"
proof -
  have loc: "local_of (sc_timezone sc) z (projected_time a (sc_start_ns sc))
      = Inr \<lparr>lc_time = lt_datetime v, lc_zone = Some (sc_timezone sc)\<rparr>" "dt_offset (lt_datetime v) \<noteq> None"
    using to_local_time_ok [OF assms(2,1)] by simp_all
  note dur = projected_duration [of a "sc_end_ns sc" "sc_start_ns sc"]
  have st: "ta_source a = ANCHOR_GPS \<longrightarrow> fst states \<noteq> UNSYNCED" "ta_source a = ANCHOR_SYSTEM_CLOCK \<longrightarrow> snd states = SYNCHRONIZED"
    using assms(4) by (auto simp: resolved_clock_states_def Let_def split: TimeAnchorSource.splits if_splits)
  show ?thesis
  proof (cases "ta_source a")
    case ANCHOR_GPS
    then show ?thesis
      using assms(3,5-) loc dur st
      by (simp add: check_times_def check_civil_times_def quality_for_anchor_def bindR_eq_Inr utc_value_def
          projected_time_def same_local_def)
  next
    case ANCHOR_SYSTEM_CLOCK
    then show ?thesis
      using assms(3,5-) loc dur st
      by (simp add: check_times_def check_civil_times_def quality_for_anchor_def bindR_eq_Inr utc_value_def
          projected_time_def same_local_def)
  qed
qed

lemma anchored_pair:
  assumes "0 \<le> sc_sequence sc" "sc_sequence sc \<le> 999999" "us_in_range (projected_us a (sc_start_ns sc))"
    "1000 \<le> cv_year (civil_of_us (projected_us a (sc_start_ns sc)))"
    "\<forall>x \<in> set ex. casefold x \<noteq> casefold (anchored_stem sc a @ ''.mp4'') \<and> casefold x \<noteq> casefold (anchored_stem sc a @ ''.json'')"
  shows "finalized_clip_pair (projected_time a (sc_start_ns sc)) (take 12 (uuid_hex (sc_boot_id sc))) (sc_sequence sc) ex
      = Inr \<lparr>video_name = anchored_stem sc a @ ''.mp4'', metadata_name = anchored_stem sc a @ ''.json''\<rparr>"
    "is_ok (mk_clip_file_pair (anchored_stem sc a @ ''.mp4'') (anchored_stem sc a @ ''.json''))"
proof -
  let ?b = "take 12 (uuid_hex (sc_boot_id sc))"
  have sq: "checked_sequence (sc_sequence sc) = Inr (sc_sequence sc)"
    using assms(1,2) by (simp add: checked_sequence_def)
  have utc: "as_utc (projected_time a (sc_start_ns sc)) = Inr (projected_time a (sc_start_ns sc))"
    using assms(3) by (simp add: as_utc_def astimezone_utc_def projected_time_def)
  have v: "validate_filename_component (anchored_stem sc a @ ext) = Inr (anchored_stem sc a @ ext)"
    if "ext \<in> {''.mp4'', ''.json''}" for ext
    using validate_final [OF civil_of_us_valid [OF assms(3)] boot_token_valid sq that assms(4)]
    by (simp add: anchored_stem_def final_stem_def)
  note pair = mk_pair_stem [OF v v]
  show "is_ok (mk_clip_file_pair (anchored_stem sc a @ ''.mp4'') (anchored_stem sc a @ ''.json''))"
    by (simp add: pair is_ok_def)
  have "new_pair (anchored_stem sc a) ex
      = Inr \<lparr>video_name = anchored_stem sc a @ ''.mp4'', metadata_name = anchored_stem sc a @ ''.json''\<rparr>"
    using assms(5) by (auto simp: new_pair_def pair Let_def image_iff)
  then show "finalized_clip_pair (projected_time a (sc_start_ns sc)) ?b (sc_sequence sc) ex
      = Inr \<lparr>video_name = anchored_stem sc a @ ''.mp4'', metadata_name = anchored_stem sc a @ ''.json''\<rparr>"
    by (simp add: finalized_clip_pair_def utc boot_token_valid sq)
      (simp add: anchored_stem_def final_stem_def projected_time_def)
qed

lemma us_in_range_floor: "us_in_range t \<Longrightarrow> us_in_range (t - t mod 1000)"
  using div_bounds [of 1000 t] unfolding us_in_range_def floor_to_ms by (simp add: pos_imp_zdiv_nonneg_iff)

lemma anchored_sidecar_ok:
  assumes sc: "sc_schema_version sc = 1" "0 \<le> sc_sequence sc" "sc_sequence sc \<le> 999999"
      "zone_info (sc_timezone sc) = Inr z" "check_monotonic (sc_start_ns sc) = Inr ()"
      "check_monotonic (sc_end_ns sc) = Inr ()" "sc_start_ns sc < sc_end_ns sc" "check_text 128 (sc_timezone sc) = Inr ()"
      "check_window sc (sc_start_ns sc) (gp_samples (sc_gps sc)) = Inr ()" "check_protection sc = Inr ()"
      "check_text 128 (sc_software_version sc) = Inr ()" "length (sc_warnings sc) \<le> MAX_WARNINGS"
      "list_all (\<lambda>w. check_text 256 w = Inr ()) (sc_warnings sc)"
    and gps: "check_gps (sc_gps sc) = Inr ()"
    and pair: "is_ok (mk_clip_file_pair (anchored_stem sc a @ ''.mp4'') (anchored_stem sc a @ ''.json''))"
    and range: "us_in_range (projected_us a (sc_start_ns sc))" "1000 \<le> cv_year (civil_of_us (projected_us a (sc_start_ns sc)))"
    and long: "sc_start_ns sc + 1000000 \<le> sc_end_ns sc"
    and states: "resolved_clock_states sc a gps_time system_clock = Inr states"
    and zone: "to_local_time zone_info (projected_time a (sc_start_ns sc)) (sc_timezone sc) = Inr (Inr v)"
    and q: "quality_for_anchor a' = quality_for_anchor a" "ta_source a' = ta_source a"
  shows "\<exists>sc'. anchored_sidecar zone_info sc a' states (projected_time a (sc_start_ns sc)) (projected_time a (sc_end_ns sc))
      \<lparr>lc_time = lt_datetime v, lc_zone = Some (sc_timezone sc)\<rparr>
      \<lparr>video_name = anchored_stem sc a @ ''.mp4'', metadata_name = anchored_stem sc a @ ''.json''\<rparr>
      (map (\<lambda>g. g\<lparr>gs_utc := Some (projected_time a (gs_monotonic_ns g)), gs_timestamp_quality := quality_for_anchor a\<rparr>)
         (gp_samples (sc_gps sc))) = Inr sc'"
proof -
  let ?gs = "map (\<lambda>g. g\<lparr>gs_utc := Some (projected_time a (gs_monotonic_ns g)),
      gs_timestamp_quality := quality_for_anchor a\<rparr>) (gp_samples (sc_gps sc))"
  let ?gps = "(sc_gps sc)\<lparr>gp_first_fix_utc := first_fix_of ?gs, gp_samples := ?gs\<rparr>"
  let ?lt = "\<lparr>lc_time = lt_datetime v, lc_zone = Some (sc_timezone sc)\<rparr>"
  define sc' where "sc' = sc\<lparr>video_file := anchored_stem sc a @ ''.mp4'', metadata_file := anchored_stem sc a @ ''.json'',
               sc_start_utc := Some (projected_time a (sc_start_ns sc)), sc_end_utc := Some (projected_time a (sc_end_ns sc)),
               sc_gps_time_state := fst states, sc_system_clock_state := snd states,
               sc_timestamp_quality := quality_for_anchor a, sc_time_anchor := Some a',
               sc_start_local := Some ?lt, sc_gps := ?gps\<rparr>"
  note ff = first_fix_projected [OF sc(9), where a = a and q = "quality_for_anchor a"]
  have none: "gp_samples (sc_gps sc) = [] \<Longrightarrow> first_fix_of ?gs = None" by (simp add: first_fix_of_def)
  have gps': "check_gps ?gps = Inr ()"
    using gps ff none by (auto simp: check_gps_def check_option_ok)
  have bq: "quality_for_anchor a \<noteq> MONOTONIC_ONLY"
    by (cases "ta_source a") (simp_all add: quality_for_anchor_def)
  have nm: "parse_clip_filename (video_file sc') = Inr \<lparr>pn_boot_id = take 12 (uuid_hex (sc_boot_id sc)),
      pn_sequence = sc_sequence sc, utc_started_at = Some \<lparr>dt_us = projected_us a (sc_start_ns sc), dt_offset = Some 0\<rparr>,
      extension = ''mp4'', provisional = False, partial = False\<rparr>"
    using parse_final_stem(1) [OF range(1) boot_token_valid, of "sc_sequence sc" "sc_boot_id sc"] sc(2,3) range(2)
    by (simp add: sc'_def anchored_stem_def checked_sequence_def) (simp add: projected_us_def)
  have times: "check_times zone_info z sc' = Inr ()"
    by (rule projected_times_ok [where a = a and a' = a' and v = v, OF _ _ _ states]) (use sc(4) zone long q in \<open>simp_all add: sc'_def\<close>)
  have window: "check_window sc' (sc_start_ns sc') (gp_samples (sc_gps sc')) = Inr ()"
    using check_window_projected [OF sc(9), where sc' = sc' and a = a and q = "quality_for_anchor a"] by (simp add: sc'_def)
  have "check_first_fix sc' = Inr ()"
    using ff by (auto simp: check_first_fix_def sc'_def projected_time_def split: option.splits)
  moreover have "check_name sc' \<lparr>pn_boot_id = take 12 (uuid_hex (sc_boot_id sc)),
      pn_sequence = sc_sequence sc, utc_started_at = Some \<lparr>dt_us = projected_us a (sc_start_ns sc), dt_offset = Some 0\<rparr>,
      extension = ''mp4'', provisional = False, partial = False\<rparr> = Inr ()"
    using bq by (simp add: check_name_def sc'_def projected_time_def utc_value_def projected_us_def)
  moreover have sel: "sc_schema_version sc' = 1" "sc_sequence sc' = sc_sequence sc" "sc_timezone sc' = sc_timezone sc"
      "sc_start_ns sc' = sc_start_ns sc" "sc_end_ns sc' = sc_end_ns sc" "check_protection sc' = check_protection sc"
      "sc_software_version sc' = sc_software_version sc" "sc_warnings sc' = sc_warnings sc"
      "is_ok (mk_clip_file_pair (video_file sc') (metadata_file sc'))"
    using sc(1) pair by (simp_all add: sc'_def check_protection_def)
  ultimately have "check_sidecar zone_info sc' = Inr ()"
    unfolding check_sidecar_ok using sc nm times window by (simp add: sel)
  then have "anchored_sidecar zone_info sc a' states (projected_time a (sc_start_ns sc)) (projected_time a (sc_end_ns sc))
      ?lt \<lparr>video_name = anchored_stem sc a @ ''.mp4'', metadata_name = anchored_stem sc a @ ''.json''\<rparr> ?gs = Inr sc'"
    using gps' by (simp add: anchored_sidecar_def Let_def sc'_def q)
  then show ?thesis by blast
qed

lemma projection_ok:
  assumes ok: "check_sidecar zone_info sc = Inr ()" "check_gps (sc_gps sc) = Inr ()"
      "list_all (\<lambda>g. check_sample g = Inr ()) (gp_samples (sc_gps sc))" "check_anchor a = Inr ()"
    and name: "parse_clip_filename (video_file sc) = Inr nm" "provisional nm"
      "pn_boot_id nm = take 12 (uuid_hex (sc_boot_id sc))"
    and long: "sc_start_ns sc + 1000000 \<le> sc_end_ns sc"
    and states: "resolved_clock_states sc a gps_time system_clock = Inr states"
    and range: "us_in_range (dt_us (ta_utc a) + (sc_start_ns sc - ta_monotonic_ns a) div 1000)"
      "us_in_range (dt_us (ta_utc a) + (sc_end_ns sc - ta_monotonic_ns a) div 1000)"
      "1000 \<le> cv_year (civil_of_us (projected_us a (sc_start_ns sc)))"
    and zone: "to_local_time zone_info (projected_time a (sc_start_ns sc)) (sc_timezone sc) = Inr (Inr v)"
    and fresh: "\<forall>x \<in> set ex. casefold x \<noteq> casefold (anchored_stem sc a @ ''.mp4'')
      \<and> casefold x \<noteq> casefold (anchored_stem sc a @ ''.json'')"
  shows "\<exists>sc'. project_anchored_sidecar zone_info sc a ex gps_time system_clock = Inr sc'
     \<and> video_file sc' = anchored_stem sc a @ ''.mp4'' \<and> metadata_file sc' = anchored_stem sc a @ ''.json''
     \<and> sc_start_utc sc' = Some (projected_time a (sc_start_ns sc)) \<and> sc_end_utc sc' = Some (projected_time a (sc_end_ns sc))
     \<and> sc_timestamp_quality sc' = quality_for_anchor a"
proof -
  obtain nm0 z where sc: "sc_schema_version sc = 1" "0 \<le> sc_sequence sc" "sc_sequence sc \<le> 999999"
      "zone_info (sc_timezone sc) = Inr z" "check_monotonic (sc_start_ns sc) = Inr ()"
      "check_monotonic (sc_end_ns sc) = Inr ()" "sc_start_ns sc < sc_end_ns sc" "check_text 128 (sc_timezone sc) = Inr ()"
      "check_window sc (sc_start_ns sc) (gp_samples (sc_gps sc)) = Inr ()" "check_protection sc = Inr ()"
      "check_text 128 (sc_software_version sc) = Inr ()" "length (sc_warnings sc) \<le> MAX_WARNINGS"
      "list_all (\<lambda>w. check_text 256 w = Inr ()) (sc_warnings sc)"
    using ok(1) unfolding check_sidecar_ok by blast
  have off: "dt_offset (ta_utc a) = Some 0" using ok(4) by (simp add: check_anchor_def)
  let ?gs = "map (\<lambda>g. g\<lparr>gs_utc := Some (projected_time a (gs_monotonic_ns g)),
      gs_timestamp_quality := quality_for_anchor a\<rparr>) (gp_samples (sc_gps sc))"
  let ?pair = "\<lparr>video_name = anchored_stem sc a @ ''.mp4'', metadata_name = anchored_stem sc a @ ''.json''\<rparr>"
  let ?a = "a\<lparr>ta_utc := canonical_millisecond (ta_utc a)\<rparr>"
  let ?lt = "\<lparr>lc_time = lt_datetime v, lc_zone = Some (sc_timezone sc)\<rparr>"
  obtain su eu where u: "project_utc a (sc_start_ns sc) = Inr su" "project_utc a (sc_end_ns sc) = Inr eu"
    using project_utc_in_range range(1,2) by blast
  have pr: "us_in_range (projected_us a (sc_start_ns sc))"
    unfolding projected_us_eq [symmetric] by (rule us_in_range_floor [OF range(1)])
  note pair = anchored_pair [OF sc(2,3) pr range(3) fresh]
  have gs: "mapR (project_sample a (quality_for_anchor a)) (gp_samples (sc_gps sc)) = Inr ?gs"
    by (rule project_samples_succeed [OF off ok(3) sc(9) range(1,2)])
  have a': "check_anchor ?a = Inr ()"
    using ok(4) by (simp add: check_anchor_def canonical_millisecond_def)
  have "\<exists>sc'. anchored_sidecar zone_info sc ?a states (projected_time a (sc_start_ns sc)) (projected_time a (sc_end_ns sc))
      ?lt ?pair ?gs = Inr sc'"
    using anchored_sidecar_ok [OF sc ok(2) pair(2) pr range(3) long states zone] by (simp add: quality_for_anchor_def)
  then obtain sc' where sc': "anchored_sidecar zone_info sc ?a states (projected_time a (sc_start_ns sc))
      (projected_time a (sc_end_ns sc)) ?lt ?pair ?gs = Inr sc'" by blast
  have "project_anchored_sidecar zone_info sc a ex gps_time system_clock = Inr sc'"
    using name by (simp add: project_anchored_sidecar_def as_reconciliation_error_def project_provisional_def states a' u
        project_utc_ms [OF u(1) off] project_utc_ms [OF u(2) off] project_local_ok [OF zone] pair(1) gs sc' Let_def)
  then show ?thesis
    using anchored_sidecarD(3) [OF sc'] by (simp add: quality_for_anchor_def)
qed

text \<open>
  C10: The projection of a valid provisional clip of at least one millisecond succeeds whenever the
  anchor's times for the clip are in range, the zone is known, the clock states can be resolved and the
  new name is free. The civil start and end are the anchored instants floored to the millisecond, and the
  name carries the start: the tolerance of one millisecond between the civil and the monotonic duration,
  the sample window and the first fix never refuse a result of the rounding itself.
\<close>

theorem projection_succeeds:
  assumes ok: "check_sidecar zone_info sc = Inr ()" "check_gps (sc_gps sc) = Inr ()"
      "list_all (\<lambda>g. check_sample g = Inr ()) (gp_samples (sc_gps sc))" "check_anchor a = Inr ()"
    and name: "parse_clip_filename (video_file sc) = Inr nm" "provisional nm"
      "pn_boot_id nm = take 12 (uuid_hex (sc_boot_id sc))"
    and long: "sc_start_ns sc + 1000000 \<le> sc_end_ns sc"
    and states: "resolved_clock_states sc a gps_time system_clock = Inr states"
    and range: "us_in_range (dt_us (ta_utc a) + (sc_start_ns sc - ta_monotonic_ns a) div 1000)"
      "us_in_range (dt_us (ta_utc a) + (sc_end_ns sc - ta_monotonic_ns a) div 1000)"
      "1000 \<le> cv_year (civil_of_us (projected_us a (sc_start_ns sc)))"
    and zone: "to_local_time zone_info (projected_time a (sc_start_ns sc)) (sc_timezone sc) = Inr (Inr v)"
    and fresh: "\<forall>x \<in> set ex. casefold x \<noteq> casefold (anchored_stem sc a @ ''.mp4'')
      \<and> casefold x \<noteq> casefold (anchored_stem sc a @ ''.json'')"
  shows "\<exists>sc'. project_anchored_sidecar zone_info sc a ex gps_time system_clock = Inr sc'
     \<and> video_file sc' = anchored_stem sc a @ ''.mp4'' \<and> metadata_file sc' = anchored_stem sc a @ ''.json''
     \<and> sc_start_utc sc' = Some (projected_time a (sc_start_ns sc)) \<and> sc_end_utc sc' = Some (projected_time a (sc_end_ns sc))
     \<and> sc_timestamp_quality sc' = quality_for_anchor a"
  by (rule projection_ok [OF assms])

text \<open>A zone whose offset at an instant is a whole number of minutes below a day.\<close>

definition whole_minute_offset :: "zone_rules \<Rightarrow> int \<Rightarrow> bool" where
  "whole_minute_offset z us = (fst (zone_at z us) mod 60 = 0 \<and> \<bar>fst (zone_at z us)\<bar> < 86400)"

lemma wire_projected_time:
  assumes "project_utc a ns = Inr u" "dt_offset (ta_utc a) = Some 0"
  shows "wire_utc (projected_time a ns)"
proof -
  have "us_in_range (dt_us u)"
    using assms(1) project_us [of "ta_utc a" "ns - ta_monotonic_ns a" u] by (auto simp: project_utc_def split: option.splits)
  then have "us_in_range (dt_us u - dt_us u mod 1000)" by (rule us_in_range_floor)
  moreover have "dt_us u - dt_us u mod 1000 = projected_us a ns"
    using arg_cong [OF project_utc_ms [OF assms], of dt_us] by (simp add: canonical_millisecond_def projected_time_def)
  ultimately show ?thesis
    by (simp add: wire_utc_def projected_time_def) (simp add: projected_us_def)
qed

lemma project_localD:
  "project_local zone_info u tz = Inr sl \<Longrightarrow>
   \<exists>v. to_local_time zone_info u tz = Inr (Inr v) \<and> sl = \<lparr>lc_time = lt_datetime v, lc_zone = Some tz\<rparr>"
proof (cases "to_local_time zone_info u tz")
  case (Inr r)
  then show "project_local zone_info u tz = Inr sl \<Longrightarrow> ?thesis" by (cases r) (auto simp: project_local_def)
qed (simp add: project_local_def)

lemma wire_start_local:
  assumes "project_local zone_info (projected_time a ns) tz = Inr sl" "zone_info tz = Inr z"
    "whole_minute_offset z (projected_us a ns)"
  shows "wire_local sl"
proof -
  obtain off where off: "fst (zone_at z (projected_us a ns)) = 60 * off" "\<bar>off\<bar> < 1440"
  proof -
    obtain off where "fst (zone_at z (projected_us a ns)) = 60 * off"
      using assms(3) by (auto simp: whole_minute_offset_def mod_eq_0_iff_dvd elim: dvdE)
    then show thesis using that assms(3) by (simp add: whole_minute_offset_def abs_mult)
  qed
  have "dt_us (lc_time sl) = projected_us a ns + off * 60000000 \<and> us_in_range (dt_us (lc_time sl))
      \<and> dt_offset (lc_time sl) = Some (off * 60000000)"
    using project_localD [OF assms(1)] assms(2) off(1)
    by (auto simp: to_local_time_def projected_time_def split: if_splits prod.splits)
  moreover have "(projected_us a ns + off * 60000000) mod 1000 = 0"
  proof -
    have "(1000 * q + off * 60000000) = 1000 * (q + 60000 * off)" for q by simp
    then show ?thesis by (metis projected_us_def mod_mult_self1_is_0)
  qed
  ultimately show ?thesis using off(2) by (auto simp: wire_local_def)
qed

text \<open>
  What the projection produces can be read back. For a valid provisional clip and a zone whose offset
  at the clip's start is a whole number of minutes, the projected sidecar written to the card parses to
  itself (its local start with a fixed offset), unless the local start is ambiguous, in which case the
  finished clip's own sidecar is refused.
\<close>

theorem projected_sidecar_reads_back:
  assumes ok: "check_sidecar zone_info sc = Inr ()" "members_ok sc" "check_anchor a = Inr ()" "us_in_range (dt_us (ta_utc a))"
    and name: "parse_clip_filename (video_file sc) = Inr nm" "provisional nm"
    and proj: "project_anchored_sidecar zone_info sc a ex gps_time system_clock = Inr sc'"
    and zone: "zone_info (sc_timezone sc) = Inr z" "whole_minute_offset z (projected_us a (sc_start_ns sc))"
  shows "parse_sidecar_mapping zone_info (to_mapping sc')
    = (if zone_folded z (projected_us a (sc_start_ns sc)) then Inl SidecarParseError else Inr (off_zone sc'))"
proof -
  have off: "dt_offset (ta_utc a) = Some 0" using ok(3) by (simp add: check_anchor_def)
  have prov: "project_provisional zone_info sc (pn_boot_id nm) a ex gps_time system_clock = Inr sc'"
    using proj name by (auto elim: project_anchored_sidecar_cases)
  show ?thesis
    using prov off
  proof (cases rule: project_provisionalE)
    case (1 states sl pair samples)
    note sc' = anchored_sidecarD [OF 1(5)]
    have utc: "wire_utc (projected_time a (sc_start_ns sc))" "wire_utc (projected_time a (sc_end_ns sc))"
    proof -
      have "\<exists>su eu. project_utc a (sc_start_ns sc) = Inr su \<and> project_utc a (sc_end_ns sc) = Inr eu"
        using prov unfolding project_provisional_def Let_def bindR_eq_Inr by blast
      then show "wire_utc (projected_time a (sc_start_ns sc))" "wire_utc (projected_time a (sc_end_ns sc))"
        using wire_projected_time [OF _ off] by blast+
    qed
    have gs: "check_sample g = Inr () \<and> opt_all wire_utc (gs_utc g)" if g: "g \<in> set samples" for g
    proof -
      obtain g0 where g0: "project_sample a (quality_for_anchor a) g0 = Inr g"
        using mapR_in_set [OF 1(4) g] by blast
      then obtain u where "project_utc a (gs_monotonic_ns g0) = Inr u" by (auto simp: project_sample_def bindR_eq_Inr)
      then have "wire_utc (projected_time a (gs_monotonic_ns g0))" by (rule wire_projected_time [OF _ off])
      moreover have "gs_utc g = Some (projected_time a (gs_monotonic_ns g0))"
        by (subst conjunct1 [OF project_sampleD [OF g0 off]]) simp
      ultimately show ?thesis using conjunct2 [OF project_sampleD [OF g0 off]] by simp
    qed
    have ff: "opt_all wire_utc (first_fix_of samples)"
    proof (cases "filter (\<lambda>g. gs_lat_deg g \<noteq> None \<and> gs_lon_deg g \<noteq> None) samples")
      case (Cons g hs)
      then have "g \<in> set samples" by (metis filter_is_subset list.set_intros(1) subsetD)
      then show ?thesis using gs Cons by (simp add: first_fix_of_def)
    qed (simp add: first_fix_of_def)
    let ?a = "a\<lparr>ta_utc := canonical_millisecond (ta_utc a)\<rparr>"
    have anchor: "check_anchor ?a = Inr ()" "wire_utc (ta_utc ?a)"
      using ok(3,4) us_in_range_floor [OF ok(4)]
      by (simp_all add: check_anchor_def canonical_millisecond_def wire_utc_def)
    have members: "members_ok sc'"
      using ok(2) sc'(2) anchor gs by (simp add: members_ok_def sc'(3) list_all_iff)
    have times: "wire_times sc'"
      using utc anchor ff gs wire_start_local [OF 1(2) zone] by (simp add: wire_times_def sc'(3) list_all_iff)
    have "ambiguous_start zone_info sc' = zone_folded z (projected_us a (sc_start_ns sc))"
      by (simp add: ambiguous_start_def sc'(3) zone projected_time_def)
    then show ?thesis
      using wire_round_trip_lemma [OF sc'(1) members times] by simp
  qed
qed

section \<open>Instances\<close>

lemma ex_boot: "take 12 (uuid_hex (UUID 0)) = ''000000000000''"
proof -
  have "digits b k 0 = replicate k 0" for b k by (induction k) simp_all
  moreover have "hex_char 0 = CHR ''0''" by code_simp
  ultimately have "take 12 (uuid_hex (UUID 0)) = replicate 12 CHR ''0''"
    by (simp add: uuid_hex_def map_replicate take_replicate)
  also have "\<dots> = ''000000000000''" by (simp add: numeral_eq_Suc)
  finally show ?thesis .
qed

lemma ex_name: "\<exists>nm. parse_clip_filename (video_file ex_clip) = Inr nm \<and> provisional nm
    \<and> pn_boot_id nm = take 12 (uuid_hex (sc_boot_id ex_clip))"
proof -
  have "case parse_clip_filename (video_file ex_clip) of Inl _ \<Rightarrow> False
      | Inr nm \<Rightarrow> provisional nm \<and> pn_boot_id nm = ''000000000000''"
    by code_simp
  moreover have "take 12 (uuid_hex (sc_boot_id ex_clip)) = ''000000000000''"
    by (simp add: ex_clip_def ex_boot)
  ultimately show ?thesis by (auto split: sum.splits)
qed

lemma ex_states: "\<exists>states. resolved_clock_states ex_clip ex_anchor None None = Inr states"
  by (simp add: resolved_clock_states_def ex_anchor_def)

lemma ex_range:
  "us_in_range (dt_us (ta_utc ex_anchor) + (sc_start_ns ex_clip - ta_monotonic_ns ex_anchor) div 1000)"
  "us_in_range (dt_us (ta_utc ex_anchor) + (sc_end_ns ex_clip - ta_monotonic_ns ex_anchor) div 1000)"
  "1000 \<le> cv_year (civil_of_us (projected_us ex_anchor (sc_start_ns ex_clip)))"
  "sc_start_ns ex_clip + 1000000 \<le> sc_end_ns ex_clip"
  by code_simp+

lemma ex_local: "\<exists>v. to_local_time ex_zones (projected_time ex_anchor (sc_start_ns ex_clip)) (sc_timezone ex_clip) = Inr (Inr v)"
proof -
  have "case to_local_time ex_zones (projected_time ex_anchor (sc_start_ns ex_clip)) (sc_timezone ex_clip) of
      Inr (Inr v) \<Rightarrow> True | _ \<Rightarrow> False"
    by code_simp
  then show ?thesis by (auto split: sum.splits)
qed

lemma ex_projection: "\<exists>sc'. project_anchored_sidecar ex_zones ex_clip ex_anchor [] None None = Inr sc'"
proof -
  obtain nm states v where "parse_clip_filename (video_file ex_clip) = Inr nm" "provisional nm"
    "pn_boot_id nm = take 12 (uuid_hex (sc_boot_id ex_clip))" "resolved_clock_states ex_clip ex_anchor None None = Inr states"
    "to_local_time ex_zones (projected_time ex_anchor (sc_start_ns ex_clip)) (sc_timezone ex_clip) = Inr (Inr v)"
    using ex_name ex_states ex_local by blast
  then show ?thesis
    using projection_ok [OF ex_clip_ok _ _ _ ex_range(4) _ ex_range(1-3), of nm None None states v "[]"] by auto
qed

theorem projection_is_stable_witness:
  "\<exists>sc'. project_anchored_sidecar ex_zones ex_clip ex_anchor [] None None = Inr sc'
     \<and> project_anchored_sidecar ex_zones sc' ex_anchor [] None (Some UNSET) = Inr sc'"
proof -
  obtain sc' where sc': "project_anchored_sidecar ex_zones ex_clip ex_anchor [] None None = Inr sc'"
    using ex_projection by blast
  then show ?thesis using projection_is_stable [OF ex_clip_ok(1,4) sc'] by blast
qed

theorem projection_succeeds_witness:
  "\<exists>sc'. project_anchored_sidecar ex_zones ex_clip ex_anchor [] None None = Inr sc'
     \<and> sc_end_utc sc' = Some \<lparr>dt_us = 63871545632234000, dt_offset = Some 0\<rparr>"
proof -
  obtain nm states v where "parse_clip_filename (video_file ex_clip) = Inr nm" "provisional nm"
    "pn_boot_id nm = take 12 (uuid_hex (sc_boot_id ex_clip))" "resolved_clock_states ex_clip ex_anchor None None = Inr states"
    "to_local_time ex_zones (projected_time ex_anchor (sc_start_ns ex_clip)) (sc_timezone ex_clip) = Inr (Inr v)"
    using ex_name ex_states ex_local by blast
  moreover have "projected_time ex_anchor (sc_end_ns ex_clip) = \<lparr>dt_us = 63871545632234000, dt_offset = Some 0\<rparr>"
    by code_simp
  ultimately show ?thesis
    using projection_succeeds [OF ex_clip_ok _ _ _ ex_range(4) _ ex_range(1-3), of nm None None states v "[]"] by auto
qed

theorem projected_sidecar_reads_back_witness:
  "\<exists>sc'. project_anchored_sidecar ex_zones ex_clip ex_anchor [] None None = Inr sc'
     \<and> parse_sidecar_mapping ex_zones (to_mapping sc') = Inr (off_zone sc')"
proof -
  obtain sc' where sc': "project_anchored_sidecar ex_zones ex_clip ex_anchor [] None None = Inr sc'"
    using ex_projection by blast
  obtain nm where nm: "parse_clip_filename (video_file ex_clip) = Inr nm" "provisional nm"
    using ex_name by blast
  obtain z where z: "ex_zones (sc_timezone ex_clip) = Inr z" "zone_at z = (\<lambda>_. (3600, ''TST'', Some 0))" "\<not> zone_folded z t" for t
    by (simp add: ex_zones_def ex_clip_def)
  have "us_in_range (dt_us (ta_utc ex_anchor))" by code_simp
  then show ?thesis
    using projected_sidecar_reads_back [OF ex_clip_ok(1) ex_clip_members ex_clip_ok(4) _ nm sc' z(1)] sc' z(2,3)
    by (simp add: whole_minute_offset_def)
qed

end
