(* ===== verification/Float_Arithmetic.thy ===== *)
theory Float_Arithmetic
  imports Py_Float
begin

text \<open>
  Arithmetic on Python floats: every operation is the exact rational result, rounded once. Only
  finite operands with a positive divisor occur in the sources. \<open>within a b x\<close> says that a float is
  finite and between two integers; the rounding never leaves such a range.
\<close>

section \<open>Operations\<close>

definition float_signed :: "int \<Rightarrow> nat \<Rightarrow> pyfloat" where
  "float_signed p q = (let v = float_of_ratio (nat \<bar>p\<bar>) q in if p < 0 then float_neg v else v)"

fun float_add :: "pyfloat \<Rightarrow> pyfloat \<Rightarrow> pyfloat" where
  "float_add (Finite a j) (Finite b k) = float_signed (a * 2 ^ k + b * 2 ^ j) (2 ^ (j + k))"
| "float_add _ _ = NotFinite"

fun float_mul :: "pyfloat \<Rightarrow> pyfloat \<Rightarrow> pyfloat" where
  "float_mul (Finite a j) (Finite b k) = float_signed (a * b) (2 ^ (j + k))"
| "float_mul _ _ = NotFinite"

fun float_div :: "pyfloat \<Rightarrow> pyfloat \<Rightarrow> pyfloat" where
  "float_div (Finite a j) (Finite b k) = float_signed (a * 2 ^ k) (nat b * 2 ^ j)"
| "float_div _ _ = NotFinite"

definition float_eq :: "pyfloat \<Rightarrow> pyfloat \<Rightarrow> bool" where
  "float_eq x y = (float_le x y \<and> float_le y x)"

definition is_finite :: "pyfloat \<Rightarrow> bool" where
  "is_finite x = (x \<noteq> NotFinite)"

text \<open>A decimal literal, \<open>n\<close> with \<open>k\<close> digits after the point.\<close>

definition float_decimal :: "int \<Rightarrow> nat \<Rightarrow> pyfloat" where
  "float_decimal n k = float_signed n (10 ^ k)"

text \<open>\<^verbatim>\<open>int(x)\<close> truncates towards zero.\<close>

fun int_of_float :: "pyfloat \<Rightarrow> int result" where
  "int_of_float (Finite a k) = Inr (if a < 0 then - (- a div 2 ^ k) else a div 2 ^ k)"
| "int_of_float NotFinite = Inl OverflowError"

fun float_min :: "pyfloat \<Rightarrow> pyfloat \<Rightarrow> pyfloat" where
  "float_min x y = (if float_less y x then y else x)"

section \<open>Ranges\<close>

definition within :: "int \<Rightarrow> int \<Rightarrow> pyfloat \<Rightarrow> bool" where
  "within a b x = (float_le (Finite a 0) x \<and> float_le x (Finite b 0))"

lemma within_Finite [simp]: "within a b (Finite m k) \<longleftrightarrow> a * 2 ^ k \<le> m \<and> m \<le> b * 2 ^ k"
  by (simp add: within_def)

lemma not_within_NotFinite [simp]: "\<not> within a b NotFinite"
  by (simp add: within_def)

lemma within_finite: "within a b x \<Longrightarrow> x \<noteq> NotFinite"
  by (cases x) simp_all

lemma within_cases: "within a b x \<Longrightarrow> \<exists>m k. x = Finite m k \<and> a * 2 ^ k \<le> m \<and> m \<le> b * 2 ^ k"
  by (cases x) simp_all

lemma within_mono: "within a b x \<Longrightarrow> c \<le> a \<Longrightarrow> b \<le> d \<Longrightarrow> within c d x"
proof (cases x)
  case (Finite m k)
  assume "within a b x" "c \<le> a" "b \<le> d"
  moreover have "c * 2 ^ k \<le> a * 2 ^ k" "b * 2 ^ k \<le> d * 2 ^ k"
    using \<open>c \<le> a\<close> \<open>b \<le> d\<close> by simp_all
  ultimately show ?thesis
    unfolding Finite within_Finite by linarith
qed simp

lemma float_le_trans: "float_le x y \<Longrightarrow> float_le y z \<Longrightarrow> float_le x z"
proof -
  assume l: "float_le x y" "float_le y z"
  then obtain a j b k c i where f: "x = Finite a j" "y = Finite b k" "z = Finite c i"
    by (cases x; cases y; cases z) auto
  have "a * 2 ^ k * 2 ^ i \<le> b * 2 ^ j * 2 ^ i" "b * 2 ^ i * 2 ^ j \<le> c * 2 ^ k * 2 ^ j"
    using l f by (intro mult_right_mono; simp)+
  then have "(a * 2 ^ i) * 2 ^ k \<le> (c * 2 ^ j) * 2 ^ k"
    by (simp only: mult.assoc mult.commute mult.left_commute)
  then show ?thesis using f by simp
qed

lemma within_neg: "within a b x \<Longrightarrow> within (- b) (- a) (float_neg x)"
  by (cases x) auto

lemma float_signed_within:
  assumes "0 < q" "0 \<le> p" "p \<le> int b * int q" "b < 2 ^ 52"
  shows "within 0 (int b) (float_signed p q)"
proof -
  have "nat p \<le> b * q"
    using assms(2,3) by (simp add: nat_le_iff)
  then obtain m k where "float_of_ratio (nat p) q = Finite m k" "0 \<le> m" "m \<le> int b * 2 ^ k"
    using float_of_ratio_bounds [OF assms(1) _ assms(4)] by blast
  then show ?thesis using assms(2) by (simp add: float_signed_def)
qed

lemma float_add_within:
  assumes x: "within 0 (int a) x" and y: "within 0 (int b) y" and s: "a + b < 2 ^ 52"
  shows "within 0 (int (a + b)) (float_add x y)"
proof -
  obtain m j n k where f: "x = Finite m j" "y = Finite n k"
      and b: "0 \<le> m" "m \<le> int a * 2 ^ j" "0 \<le> n" "n \<le> int b * 2 ^ k"
    using within_cases [OF x] within_cases [OF y] by auto
  have "m * 2 ^ k \<le> int a * 2 ^ j * 2 ^ k" "n * 2 ^ j \<le> int b * 2 ^ k * 2 ^ j"
    using b by (intro mult_right_mono; simp)+
  then have "m * 2 ^ k + n * 2 ^ j \<le> int a * 2 ^ j * 2 ^ k + int b * 2 ^ k * 2 ^ j"
    by (rule add_mono)
  also have "\<dots> = int (a + b) * int (2 ^ (j + k))"
    by (simp add: power_add algebra_simps)
  finally have "m * 2 ^ k + n * 2 ^ j \<le> int (a + b) * int (2 ^ (j + k))" .
  then show ?thesis
    using float_signed_within [of "2 ^ (j + k)" "m * 2 ^ k + n * 2 ^ j" "a + b"] b s f by simp
qed

lemma float_mul_within:
  assumes x: "within 0 (int a) x" and y: "within 0 (int b) y" and s: "a * b < 2 ^ 52"
  shows "within 0 (int (a * b)) (float_mul x y)"
proof -
  obtain m j n k where f: "x = Finite m j" "y = Finite n k"
      and b: "0 \<le> m" "m \<le> int a * 2 ^ j" "0 \<le> n" "n \<le> int b * 2 ^ k"
    using within_cases [OF x] within_cases [OF y] by auto
  have "m * n \<le> (int a * 2 ^ j) * (int b * 2 ^ k)"
    using b by (intro mult_mono) simp_all
  then have "m * n \<le> int (a * b) * int (2 ^ (j + k))"
    by (simp add: power_add algebra_simps)
  then show ?thesis
    using float_signed_within [of "2 ^ (j + k)" "m * n" "a * b"] b s f by simp
qed

text \<open>Dividing a float of at most \<open>a\<close> by the integer \<open>c\<close>, where \<open>a \<le> b * c\<close>.\<close>

lemma float_div_within:
  assumes x: "within 0 (int a) x" and c: "0 < c" and s: "a \<le> b * c" "b < 2 ^ 52"
  shows "within 0 (int b) (float_div x (Finite (int c) 0))"
proof -
  obtain m j where f: "x = Finite m j" and b: "0 \<le> m" "m \<le> int a * 2 ^ j"
    using within_cases [OF x] by auto
  have "int a * 2 ^ j \<le> int (b * c) * 2 ^ j"
    using s(1) by (intro mult_right_mono) (simp_all only: of_nat_le_iff zero_le_power zero_le_numeral)
  with b(2) have "m \<le> int (b * c) * 2 ^ j" by (rule order_trans)
  then have "m \<le> int b * int (c * 2 ^ j)" by (simp add: mult.assoc)
  then show ?thesis
    using float_signed_within [of "c * 2 ^ j" m b] b c s f by simp
qed

lemma float_eq_zero: "float_eq (Finite m k) (Finite 0 0) \<longleftrightarrow> m = 0"
  by (auto simp: float_eq_def)

end
