(* ===== verification/Nmea_Parser.thy ===== *)
theory Nmea_Parser
  imports Float_Arithmetic Civil_Time
begin

text \<open>
  The NMEA parser: \<^verbatim>\<open>src/dashcam/gps/nmea.py\<close>. A raw record is a byte string or a text of at most 82
  characters; the regular expressions are boolean predicates on texts, the numbers are Python
  integers and exact doubles (\<open>Float_Arithmetic\<close>). Every refusal of a field is a \<^verbatim>\<open>ValueError\<close>, which
  the entry point turns into an outcome.
\<close>

unbundle bit_operations_syntax

section \<open>Data\<close>

definition MAX_NMEA_LINE_BYTES :: nat where
  "MAX_NMEA_LINE_BYTES = 82"

definition MAX_NMEA_FIELDS :: nat where
  "MAX_NMEA_FIELDS = 20"

definition supported_talkers :: "string list" where
  "supported_talkers = [''BD'', ''GA'', ''GB'', ''GI'', ''GL'', ''GN'', ''GP'', ''GQ'']"

datatype SentenceType = RMC | ZDA | GGA

datatype TimeTrust = TIME_UNAVAILABLE | RMC_STATUS_VALID | RMC_STATUS_INVALID | ZDA_REQUIRES_PLAUSIBILITY

datatype NmeaError = NMEA_EMPTY | TOO_LONG | NON_ASCII | NMEA_INVALID_MONOTONIC | MALFORMED_ENVELOPE
  | BAD_CHECKSUM_FORMAT | CHECKSUM_MISMATCH | TOO_MANY_FIELDS | UNSUPPORTED_TALKER
  | UNSUPPORTED_SENTENCE | MALFORMED_FIELDS

datatype raw_line = RawBytes string | RawText string

text \<open>A \<^verbatim>\<open>datetime.time\<close> and a \<^verbatim>\<open>datetime.date\<close> (year, month, day).\<close>

record utc_time =
  ut_hour :: int
  ut_minute :: int
  ut_second :: int
  ut_microsecond :: int

type_synonym utc_date = "int \<times> int \<times> int"

record NmeaSentence =
  ns_type :: SentenceType
  ns_talker :: string
  ns_received_ns :: "int option"
  ns_utc_time :: "utc_time option"
  ns_utc_datetime :: "datetime option"
  ns_time_trust :: TimeTrust
  ns_latitude :: "pyfloat option"
  ns_longitude :: "pyfloat option"
  ns_speed_knots :: "pyfloat option"
  ns_course :: "pyfloat option"
  ns_altitude :: "pyfloat option"
  ns_fix_quality :: "int option"
  ns_satellites :: "int option"
  ns_hdop :: "pyfloat option"
  navigation_valid :: bool

definition time_anchor_candidate :: "NmeaSentence \<Rightarrow> bool" where
  "time_anchor_candidate s = (ns_utc_datetime s \<noteq> None
     \<and> ns_time_trust s \<in> {RMC_STATUS_VALID, ZDA_REQUIRES_PLAUSIBILITY})"

record NmeaParseOutcome =
  po_sentence :: "NmeaSentence option"
  po_error :: "NmeaError option"

definition outcome_ok :: "NmeaParseOutcome \<Rightarrow> bool" where
  "outcome_ok ob = (po_sentence ob \<noteq> None \<and> po_error ob = None)"

definition failure :: "NmeaError \<Rightarrow> NmeaParseOutcome" where
  "failure e = \<lparr>po_sentence = None, po_error = Some e\<rparr>"

text \<open>The fields every sentence starts from: the keyword defaults of the class.\<close>

definition plain_sentence :: "SentenceType \<Rightarrow> string \<Rightarrow> int option \<Rightarrow> NmeaSentence" where
  "plain_sentence st talker received = \<lparr>ns_type = st, ns_talker = talker, ns_received_ns = received,
     ns_utc_time = None, ns_utc_datetime = None, ns_time_trust = TIME_UNAVAILABLE, ns_latitude = None,
     ns_longitude = None, ns_speed_knots = None, ns_course = None, ns_altitude = None,
     ns_fix_quality = None, ns_satellites = None, ns_hdop = None, navigation_valid = False\<rparr>"

section \<open>Texts\<close>

fun split_on :: "char \<Rightarrow> string \<Rightarrow> string list" where
  "split_on c [] = [[]]"
| "split_on c (x # s) = (if x = c then [] # split_on c s
     else case split_on c s of [] \<Rightarrow> [[x]] | f # fs \<Rightarrow> (x # f) # fs)"

definition occurrences :: "char \<Rightarrow> string \<Rightarrow> nat" where
  "occurrences c s = length (filter (\<lambda>x. x = c) s)"

definition field :: "string list \<Rightarrow> nat \<Rightarrow> string" where
  "field fs i = (if i < length fs then fs ! i else [])"

definition checksum :: "string \<Rightarrow> int" where
  "checksum body = foldl (\<lambda>a c. a XOR of_char c) 0 body"

definition is_hex :: "char \<Rightarrow> bool" where
  "is_hex c = (is_digit c \<or> code_between 65 70 c \<or> code_between 97 102 c)"

definition hex_digit_value :: "char \<Rightarrow> int" where
  "hex_digit_value c = (if is_digit c then of_char c - 48 else if is_upper c then of_char c - 55 else of_char c - 87)"

definition hex_text_value :: "string \<Rightarrow> int" where
  "hex_text_value s = foldl (\<lambda>a c. a * 16 + hex_digit_value c) 0 s"

section \<open>Fields\<close>

text \<open>The sign of \<^verbatim>\<open>[+-]?\<close> and the rest.\<close>

definition split_sign :: "string \<Rightarrow> bool \<times> string" where
  "split_sign s = (case s of [] \<Rightarrow> (False, [])
     | c # cs \<Rightarrow> if c = CHR ''-'' then (True, cs) else if c = CHR ''+'' then (False, cs) else (False, s))"

definition match_integer :: "string \<Rightarrow> bool" where
  "match_integer s = (let t = snd (split_sign s) in t \<noteq> [] \<and> list_all is_digit t)"

text \<open>\<^verbatim>\<open>[+-]?(?:\d+(?:\.\d*)?|\.\d+)\<close>: the digits before and after the point.\<close>

definition decimal_parts :: "string \<Rightarrow> (string \<times> string) option" where
  "decimal_parts s = (let t = snd (split_sign s); ip = takeWhile is_digit t; rest = dropWhile is_digit t
     in case rest of [] \<Rightarrow> if ip = [] then None else Some (ip, [])
        | c # fr \<Rightarrow> if c = CHR ''.'' \<and> list_all is_digit fr \<and> (ip \<noteq> [] \<or> fr \<noteq> []) then Some (ip, fr) else None)"

definition required_float :: "pyfloat \<Rightarrow> pyfloat \<Rightarrow> string \<Rightarrow> pyfloat result" where
  "required_float minimum maximum s = (case decimal_parts s of None \<Rightarrow> Inl ValueError
     | Some (ip, fr) \<Rightarrow>
         (let n = int (dec_value (ip @ fr));
              parsed = float_decimal (if fst (split_sign s) then - n else n) (length fr)
          in if \<not> is_finite parsed \<or> \<not> (float_le minimum parsed \<and> float_le parsed maximum)
             then Inl ValueError else Inr parsed))"

definition required_int :: "int \<Rightarrow> int \<Rightarrow> string \<Rightarrow> int result" where
  "required_int minimum maximum s =
     (if \<not> match_integer s then Inl ValueError
      else let n = int (dec_value (snd (split_sign s))); parsed = (if fst (split_sign s) then - n else n)
           in if minimum \<le> parsed \<and> parsed \<le> maximum then Inr parsed else Inl ValueError)"

definition optional_field :: "(string \<Rightarrow> 'a result) \<Rightarrow> string \<Rightarrow> 'a option result" where
  "optional_field f s = (if s = [] then Inr None else bindR (f s) (\<lambda>v. Inr (Some v)))"

definition time_shape :: "string \<Rightarrow> bool" where
  "time_shape s = (6 \<le> length s \<and> list_all is_digit (take 6 s)
     \<and> (case drop 6 s of [] \<Rightarrow> True
        | c # fr \<Rightarrow> c = CHR ''.'' \<and> 1 \<le> length fr \<and> length fr \<le> 9 \<and> list_all is_digit fr))"

definition required_utc_time :: "string \<Rightarrow> utc_time result" where
  "required_utc_time s =
     (if \<not> time_shape s then Inl ValueError
      else let h = int (dec_value (take 2 s)); m = int (dec_value (take 2 (drop 2 s)));
               sec = int (dec_value (take 2 (drop 4 s)));
               us = int (dec_value (take 6 (drop 7 s @ ''000000'')))
           in if h < 24 \<and> m < 60 \<and> sec < 60
              then Inr \<lparr>ut_hour = h, ut_minute = m, ut_second = sec, ut_microsecond = us\<rparr> else Inl ValueError)"

text \<open>The constructor \<^verbatim>\<open>date(year, month, day)\<close>.\<close>

definition mk_date :: "int \<Rightarrow> int \<Rightarrow> int \<Rightarrow> utc_date result" where
  "mk_date y m d = (if 1 \<le> y \<and> y \<le> 9999 \<and> 1 \<le> m \<and> m \<le> 12 \<and> 1 \<le> d \<and> d \<le> days_in_month y m
     then Inr (y, m, d) else Inl ValueError)"

definition nmea_date :: "string \<Rightarrow> utc_date result" where
  "nmea_date s =
     (if length s \<noteq> 6 \<or> \<not> list_all is_digit s then Inl ValueError
      else let day = int (dec_value (take 2 s)); month = int (dec_value (take 2 (drop 2 s)));
               yy = int (dec_value (drop 4 s)); year = (if 80 \<le> yy then 1900 + yy else 2000 + yy)
           in mk_date year month day)"

definition combine_utc :: "utc_date option \<Rightarrow> utc_time option \<Rightarrow> datetime option" where
  "combine_utc d t = (case (d, t) of
     (Some (y, m, dd), Some u) \<Rightarrow> Some \<lparr>dt_us = us_of_civil \<lparr>cv_year = y, cv_month = m, cv_day = dd, cv_hour = ut_hour u,
         cv_minute = ut_minute u, cv_second = ut_second u, cv_microsecond = ut_microsecond u\<rparr>, dt_offset = Some 0\<rparr>
   | _ \<Rightarrow> None)"

definition coordinate :: "nat \<Rightarrow> nat \<Rightarrow> string \<Rightarrow> string \<Rightarrow> pyfloat result" where
  "coordinate degree_digits limit v hemisphere =
     (let degrees_text = take degree_digits v; minutes_text = drop degree_digits v in
      if hemisphere \<notin> set (if degree_digits = 2 then [''N'', ''S''] else [''E'', ''W'']) then Inl ValueError
      else if length v < degree_digits + 3 \<or> \<not> list_all is_digit (take 2 minutes_text) then Inl ValueError
      else if \<not> list_all is_digit degrees_text then Inl ValueError
      else if \<not> (case drop 2 minutes_text of [] \<Rightarrow> True | c # fr \<Rightarrow> c = CHR ''.'' \<and> fr \<noteq> [] \<and> list_all is_digit fr)
      then Inl ValueError
      else bindR (required_float (Finite 0 0) (float_decimal 59999999999 9) minutes_text) (\<lambda>minutes.
        let degrees = dec_value degrees_text in
        if limit < degrees \<or> (degrees = limit \<and> \<not> float_eq minutes (Finite 0 0)) then Inl ValueError
        else let r = float_add (Finite (int degrees) 0) (float_div minutes (Finite 60 0))
             in Inr (if hemisphere \<in> {''S'', ''W''} then float_neg r else r)))"

definition coordinates :: "string \<Rightarrow> string \<Rightarrow> string \<Rightarrow> string \<Rightarrow> (pyfloat \<times> pyfloat) option result" where
  "coordinates lat ns lon ew =
     (if lat = [] \<and> ns = [] \<and> lon = [] \<and> ew = [] then Inr None
      else if lat = [] \<or> ns = [] \<or> lon = [] \<or> ew = [] then Inl ValueError
      else bindR (coordinate 2 90 lat ns) (\<lambda>x. bindR (coordinate 3 180 lon ew) (\<lambda>y. Inr (Some (x, y)))))"

section \<open>Sentences\<close>

definition parse_rmc :: "string \<Rightarrow> string list \<Rightarrow> int option \<Rightarrow> NmeaSentence result" where
  "parse_rmc talker fs received =
     bindR (optional_field required_utc_time (field fs 0)) (\<lambda>t.
     let status = field fs 1 in
     if status \<notin> {''A'', ''V''} then Inl ValueError
     else bindR (coordinates (field fs 2) (field fs 3) (field fs 4) (field fs 5)) (\<lambda>pos.
     bindR (optional_field (required_float (Finite 0 0) (Finite 2000 0)) (field fs 6)) (\<lambda>speed.
     bindR (optional_field (required_float (Finite 0 0) (Finite 360 0)) (field fs 7)) (\<lambda>course.
     bindR (optional_field nmea_date (field fs 8)) (\<lambda>d.
     let dt = combine_utc d t;
         trust = (if status = ''A'' \<and> dt \<noteq> None then RMC_STATUS_VALID
                  else if status = ''V'' then RMC_STATUS_INVALID else TIME_UNAVAILABLE)
     in Inr ((plain_sentence RMC talker received)\<lparr>ns_utc_time := t, ns_utc_datetime := dt, ns_time_trust := trust,
          ns_latitude := map_option fst pos, ns_longitude := map_option snd pos, ns_speed_knots := speed,
          ns_course := course, navigation_valid := (status = ''A'' \<and> pos \<noteq> None)\<rparr>))))))"

definition parse_zda :: "string \<Rightarrow> string list \<Rightarrow> int option \<Rightarrow> NmeaSentence result" where
  "parse_zda talker fs received =
     bindR (required_utc_time (field fs 0)) (\<lambda>t. bindR (required_int 1 31 (field fs 1)) (\<lambda>day.
     bindR (required_int 1 12 (field fs 2)) (\<lambda>month. bindR (required_int 1980 9999 (field fs 3)) (\<lambda>year.
     bindR (mk_date year month day) (\<lambda>d.
     if (field fs 4 = []) \<noteq> (field fs 5 = []) then Inl ValueError
     else bindR (optional_field (required_int (- 13) 13) (field fs 4)) (\<lambda>_.
     bindR (optional_field (required_int 0 59) (field fs 5)) (\<lambda>_.
       Inr ((plain_sentence ZDA talker received)\<lparr>ns_utc_time := Some t, ns_utc_datetime := combine_utc (Some d) (Some t),
          ns_time_trust := ZDA_REQUIRES_PLAUSIBILITY\<rparr>))))))))"

definition parse_gga :: "string \<Rightarrow> string list \<Rightarrow> int option \<Rightarrow> NmeaSentence result" where
  "parse_gga talker fs received =
     bindR (optional_field required_utc_time (field fs 0)) (\<lambda>t.
     bindR (coordinates (field fs 1) (field fs 2) (field fs 3) (field fs 4)) (\<lambda>pos.
     bindR (required_int 0 8 (field fs 5)) (\<lambda>quality.
     bindR (optional_field (required_int 0 99) (field fs 6)) (\<lambda>sats.
     bindR (optional_field (required_float (Finite 0 0) (Finite 100 0)) (field fs 7)) (\<lambda>dilution.
     bindR (optional_field (required_float (Finite (- 20000) 0) (Finite 20000 0)) (field fs 8)) (\<lambda>alt.
     if alt \<noteq> None \<and> field fs 9 \<noteq> ''M'' then Inl ValueError
     else Inr ((plain_sentence GGA talker received)\<lparr>ns_utc_time := t, ns_latitude := map_option fst pos,
          ns_longitude := map_option snd pos, ns_altitude := alt, ns_fix_quality := Some quality,
          ns_satellites := sats, ns_hdop := dilution, navigation_valid := (0 < quality \<and> pos \<noteq> None)\<rparr>)))))))"

definition sentence_type_of :: "string \<Rightarrow> SentenceType option" where
  "sentence_type_of s = (if s = ''RMC'' then Some RMC else if s = ''ZDA'' then Some ZDA
     else if s = ''GGA'' then Some GGA else None)"

definition parse_sentence :: "SentenceType \<Rightarrow> string \<Rightarrow> string list \<Rightarrow> int option \<Rightarrow> NmeaSentence result" where
  "parse_sentence st = (case st of RMC \<Rightarrow> parse_rmc | ZDA \<Rightarrow> parse_zda | GGA \<Rightarrow> parse_gga)"

section \<open>Records\<close>

definition identifier_ok :: "string \<Rightarrow> bool" where
  "identifier_ok s = (length s = 5 \<and> list_all (\<lambda>c. is_upper c \<or> is_digit c) s)"

text \<open>A body whose checksum has been verified.\<close>

definition parse_body :: "string \<Rightarrow> int option \<Rightarrow> NmeaParseOutcome" where
  "parse_body body received =
     (let identifier = takeWhile (\<lambda>c. c \<noteq> CHR '','') body; talker = take 2 identifier in
      if occurrences (CHR '','') body + 1 > MAX_NMEA_FIELDS then failure TOO_MANY_FIELDS
      else if \<not> identifier_ok identifier then failure MALFORMED_ENVELOPE
      else if talker \<notin> set supported_talkers then failure UNSUPPORTED_TALKER
      else case sentence_type_of (drop 2 identifier) of None \<Rightarrow> failure UNSUPPORTED_SENTENCE
      | Some st \<Rightarrow>
          (case parse_sentence st talker (tl (split_on (CHR '','') body)) received of
             Inl _ \<Rightarrow> failure MALFORMED_FIELDS
           | Inr s \<Rightarrow> \<lparr>po_sentence = Some s, po_error = None\<rparr>))"

definition parse_record :: "string \<Rightarrow> int option \<Rightarrow> NmeaParseOutcome" where
  "parse_record line received =
     (let body = takeWhile (\<lambda>c. c \<noteq> CHR ''*'') (tl line); sent = tl (dropWhile (\<lambda>c. c \<noteq> CHR ''*'') (tl line)) in
      if line = [] then failure NMEA_EMPTY
      else if \<not> list_all is_printable line then failure NON_ASCII
      else if hd line \<noteq> CHR ''$'' \<or> occurrences (CHR ''*'') line \<noteq> 1 then failure MALFORMED_ENVELOPE
      else if \<not> (length sent = 2 \<and> list_all is_hex sent) then failure BAD_CHECKSUM_FORMAT
      else if checksum body \<noteq> hex_text_value sent then failure CHECKSUM_MISMATCH
      else parse_body body received)"

definition without_line_ending :: "string \<Rightarrow> string" where
  "without_line_ending s =
     (if 2 \<le> length s \<and> drop (length s - 2) s = [CHR 0x0D, CHR 0x0A] then take (length s - 2) s
      else if s \<noteq> [] \<and> last s \<in> {CHR 0x0D, CHR 0x0A} then butlast s else s)"

definition decode_bounded_ascii :: "raw_line \<Rightarrow> NmeaError + string" where
  "decode_bounded_ascii raw = (case raw of
     RawBytes s \<Rightarrow> if length s > MAX_NMEA_LINE_BYTES then Inl TOO_LONG
       else if \<not> list_all is_ascii s then Inl NON_ASCII else Inr (without_line_ending s)
   | RawText s \<Rightarrow> if \<not> list_all is_ascii s then Inl NON_ASCII
       else if length s > MAX_NMEA_LINE_BYTES then Inl TOO_LONG else Inr (without_line_ending s))"

definition parse_nmea_line :: "raw_line \<Rightarrow> int option \<Rightarrow> NmeaParseOutcome" where
  "parse_nmea_line raw received =
     (if (case received of None \<Rightarrow> False | Some r \<Rightarrow> r < 0) then failure NMEA_INVALID_MONOTONIC
      else case decode_bounded_ascii raw of Inl e \<Rightarrow> failure e | Inr line \<Rightarrow> parse_record line received)"

definition is_stale :: "NmeaSentence \<Rightarrow> int \<Rightarrow> int \<Rightarrow> bool" where
  "is_stale s now stale_after = (case ns_received_ns s of None \<Rightarrow> True
     | Some r \<Rightarrow> if now < r \<or> stale_after < 0 then True else now - r > stale_after)"

section \<open>Texts of digits\<close>

lemma dec_value_bound: "list_all is_digit s \<Longrightarrow> dec_value s < 10 ^ length s"
proof (induction s rule: rev_induct)
  case Nil
  then show ?case by (simp add: dec_value_def undigits_def)
next
  case (snoc c s)
  then have "char_val c < 10" by (simp add: is_digit_def code_between_def char_val_def less_diff_conv2)
  moreover have "dec_value s + 1 \<le> 10 ^ length s" using snoc by simp
  ultimately show ?case by (simp add: dec_value_def undigits_def)
qed

section \<open>Accepted fields are in range\<close>

lemma optional_fieldD: "optional_field f s = Inr ov \<Longrightarrow> ov = Some v \<Longrightarrow> f s = Inr v"
  by (auto simp: optional_field_def result_simps split: if_splits)

lemma required_float_within: "required_float (Finite a 0) (Finite b 0) s = Inr v \<Longrightarrow> within a b v"
  by (auto simp: required_float_def Let_def within_def split: option.splits if_splits)

lemma required_int_range: "required_int a b s = Inr v \<Longrightarrow> a \<le> v \<and> v \<le> b"
  by (auto simp: required_int_def Let_def split: if_splits)

lemma required_utc_timeD: "required_utc_time s = Inr t \<Longrightarrow> 0 \<le> ut_hour t \<and> ut_hour t < 24 \<and> 0 \<le> ut_minute t
    \<and> ut_minute t < 60 \<and> 0 \<le> ut_second t \<and> ut_second t < 60"
  by (auto simp: required_utc_time_def Let_def split: if_splits)

lemma minutes_within:
  "required_float (Finite 0 0) (float_decimal 59999999999 9) s = Inr v \<Longrightarrow> within 0 60 v"
proof -
  assume v: "required_float (Finite 0 0) (float_decimal 59999999999 9) s = Inr v"
  have "within 0 (int 60) (float_decimal 59999999999 9)"
    unfolding float_decimal_def by (rule float_signed_within) simp_all
  moreover have "float_le v (float_decimal 59999999999 9)" "float_le (Finite 0 0) v"
    using v by (auto simp: required_float_def Let_def split: option.splits if_splits)
  ultimately show ?thesis
    using float_le_trans by (auto simp: within_def)
qed

lemma coordinate_within:
  assumes "coordinate k limit v h = Inr x" "limit < 1000"
  shows "within (- int limit) (int limit) x"
proof -
  let ?r = "\<lambda>m. float_add (Finite (int (dec_value (take k v))) 0) (float_div m (Finite 60 0))"
  have "\<exists>m. required_float (Finite 0 0) (float_decimal 59999999999 9) (drop k v) = Inr m
      \<and> \<not> (limit < dec_value (take k v) \<or> dec_value (take k v) = limit \<and> \<not> float_eq m (Finite 0 0))
      \<and> Inr (if h \<in> {''S'', ''W''} then float_neg (?r m) else ?r m) = (Inr x :: pyfloat result)"
    using assms(1) unfolding coordinate_def Let_def if_Inl_eq_Inr bindR_eq_Inr by (elim conjE)
  then obtain m where m: "required_float (Finite 0 0) (float_decimal 59999999999 9) (drop k v) = Inr m"
      and g: "dec_value (take k v) < limit \<or> dec_value (take k v) = limit \<and> float_eq m (Finite 0 0)"
      and x: "x = ?r m \<or> x = float_neg (?r m)"
    by (auto simp: linorder_not_less order.order_iff_strict split: if_splits)
  define n where "n = dec_value (take k v)"
  have "within 0 (int limit) (float_add (Finite (int n) 0) (float_div m (Finite 60 0)))"
  proof (cases "n < limit")
    case True
    have "within 0 (int 1) (float_div m (Finite (int 60) 0))"
      by (rule float_div_within [where a = 60]) (use minutes_within [OF m] in simp_all)
    moreover have "within 0 (int n) (Finite (int n) 0)" by simp
    ultimately have "within 0 (int (n + 1)) (float_add (Finite (int n) 0) (float_div m (Finite 60 0)))"
      using float_add_within [of n "Finite (int n) 0" 1 "float_div m (Finite 60 0)"] True assms(2) by simp
    then show ?thesis
      by (rule within_mono) (use True in simp_all)
  next
    case False
    then have n: "n = limit" and z: "float_eq m (Finite 0 0)" using g by (auto simp: n_def)
    then obtain j where "m = Finite 0 j" by (cases m) (auto simp: float_eq_def)
    then have "within 0 (int 0) (float_div m (Finite (int 60) 0))"
      by (intro float_div_within [where a = 0]) simp_all
    then show ?thesis
      using float_add_within [of n "Finite (int n) 0" 0 "float_div m (Finite 60 0)"] n assms(2) by simp
  qed
  then have "within (- int limit) (int limit) (float_add (Finite (int n) 0) (float_div m (Finite 60 0)))"
      "within (- int limit) 0 (float_neg (float_add (Finite (int n) 0) (float_div m (Finite 60 0))))"
    using within_neg [of 0 "int limit"] by (auto elim: within_mono)
  then show ?thesis
    using within_mono [of "- int limit" 0] x by (auto simp: n_def)
qed

lemma coordinatesD:
  "coordinates a b c d = Inr (Some (x, y)) \<Longrightarrow> within (- 90) 90 x \<and> within (- 180) 180 y"
  using coordinate_within [of 2 90 a b x] coordinate_within [of 3 180 c d y]
  by (auto simp: coordinates_def result_simps split: if_splits)

lemma us_of_civil_in_range: "civil_valid c \<Longrightarrow> us_in_range (us_of_civil c)"
proof -
  assume v: "civil_valid c"
  define k where "k = days_before_month (cv_year c) (cv_month c) + cv_day c - 1"
  have k: "0 \<le> k" "k < 365 + leap_day (cv_year c)"
    using month_day_days_before [of "cv_month c" "cv_day c" "cv_year c"] v by (simp_all add: civil_valid_def k_def)
  have "days_before_year 1 = 0" "days_before_year 10000 = 3652059"
    by (simp_all add: days_before_year_def)
  then have y: "0 \<le> days_before_year (cv_year c)" "days_before_year (cv_year c + 1) \<le> 3652059"
    using days_before_year_mono [of 1 "cv_year c"] days_before_year_mono [of "cv_year c + 1" 10000] v
    by (simp_all only: civil_valid_def) linarith+
  have d: "day_of_civil c = days_before_year (cv_year c) + k"
    by (simp add: day_of_civil_def k_def)
  have "0 \<le> day_of_civil c" "day_of_civil c < 3652059"
    using y k days_before_year_Suc [of "cv_year c"] unfolding d by linarith+
  moreover have "0 \<le> cv_hour c" "cv_hour c < 24" "0 \<le> cv_minute c" "cv_minute c < 60" "0 \<le> cv_second c"
      "cv_second c < 60" "0 \<le> cv_microsecond c" "cv_microsecond c < 1000000"
    using v by (simp_all add: civil_valid_def)
  moreover define a b e where "a = day_of_civil c * 24 + cv_hour c" and "b = a * 60 + cv_minute c"
    and "e = b * 60 + cv_second c"
  ultimately have "0 \<le> e" "e < 3652059 * 86400"
    by linarith+
  then show ?thesis
    using v by (simp add: us_in_range_def MAX_US_def us_of_civil_def civil_valid_def a_def [symmetric] b_def [symmetric]
      e_def [symmetric])
qed

text \<open>What every date-time of a sentence satisfies: it is a UTC instant that Python can represent.\<close>

lemma mk_dateD: "mk_date y m d = Inr dd \<Longrightarrow> dd = (y, m, d) \<and> 1 \<le> y \<and> y \<le> 9999 \<and> 1 \<le> m \<and> m \<le> 12 \<and> 1 \<le> d
    \<and> d \<le> days_in_month y m"
  by (auto simp: mk_date_def split: if_splits)

lemma microsecond_bound: "required_utc_time s = Inr t \<Longrightarrow> 0 \<le> ut_microsecond t \<and> ut_microsecond t < 1000000"
proof -
  assume t: "required_utc_time s = Inr t"
  then have sh: "time_shape s" and u: "ut_microsecond t = int (dec_value (take 6 (drop 7 s @ ''000000'')))"
    by (auto simp: required_utc_time_def Let_def split: if_splits)
  define f where "f = take 6 (drop 7 s @ ''000000'')"
  have "list_all is_digit (drop 7 s)"
  proof (cases "drop 6 s")
    case Nil
    then show ?thesis by (simp add: drop_eq_Nil)
  next
    case (Cons c fr)
    moreover have "drop 7 s = drop 1 (drop 6 s)" by (simp add: drop_drop)
    ultimately show ?thesis using sh by (auto simp: time_shape_def)
  qed
  then have "list_all is_digit (drop 7 s @ ''000000'')"
    by (simp add: is_digit_def code_between_def)
  then have "list_all is_digit f"
    unfolding f_def list_all_iff by (meson in_set_takeD)
  then have "dec_value f < 10 ^ length f" by (rule dec_value_bound)
  also have "\<dots> \<le> 10 ^ 6" by (rule power_increasing) (simp_all add: f_def)
  finally show ?thesis using u by (simp add: f_def)
qed

lemma combine_utc_valid:
  assumes "mk_date y m d = Inr dd" "required_utc_time s = Inr t" "combine_utc (Some dd) (Some t) = Some x"
  shows "us_in_range (dt_us x) \<and> dt_offset x = Some 0"
  using mk_dateD [OF assms(1)] required_utc_timeD [OF assms(2)] microsecond_bound [OF assms(2)] assms(3)
  by (auto simp: combine_utc_def intro!: us_of_civil_in_range simp: civil_valid_def)

section \<open>Accepted sentences\<close>

definition opt_within :: "int \<Rightarrow> int \<Rightarrow> pyfloat option \<Rightarrow> bool" where
  "opt_within a b x = (case x of None \<Rightarrow> True | Some v \<Rightarrow> within a b v)"

definition opt_between :: "int \<Rightarrow> int \<Rightarrow> int option \<Rightarrow> bool" where
  "opt_between a b x = (case x of None \<Rightarrow> True | Some v \<Rightarrow> a \<le> v \<and> v \<le> b)"

text \<open>
  Every numeric field in its range, both coordinates or none, an exact UTC instant, and the trust the
  type of the sentence allows.
\<close>

definition sentence_in_range :: "NmeaSentence \<Rightarrow> bool" where
  "sentence_in_range s =
     (opt_within (- 90) 90 (ns_latitude s) \<and> opt_within (- 180) 180 (ns_longitude s)
      \<and> ((ns_latitude s = None) = (ns_longitude s = None))
      \<and> opt_within 0 2000 (ns_speed_knots s) \<and> opt_within 0 360 (ns_course s)
      \<and> opt_within (- 20000) 20000 (ns_altitude s) \<and> opt_within 0 100 (ns_hdop s)
      \<and> opt_between 0 8 (ns_fix_quality s) \<and> opt_between 0 99 (ns_satellites s)
      \<and> (case ns_utc_datetime s of None \<Rightarrow> True | Some d \<Rightarrow> us_in_range (dt_us d) \<and> dt_offset d = Some 0)
      \<and> (navigation_valid s \<longrightarrow> ns_latitude s \<noteq> None)
      \<and> (ns_time_trust s = RMC_STATUS_VALID \<longrightarrow> ns_type s = RMC \<and> ns_utc_datetime s \<noteq> None)
      \<and> (ns_time_trust s = ZDA_REQUIRES_PLAUSIBILITY \<longleftrightarrow> ns_type s = ZDA)
      \<and> (ns_type s = ZDA \<longrightarrow> ns_utc_datetime s \<noteq> None \<and> \<not> navigation_valid s))"

lemma optional_float_within:
  "optional_field (required_float (Finite a 0) (Finite b 0)) s = Inr x \<Longrightarrow> opt_within a b x"
  using required_float_within by (auto simp: optional_field_def opt_within_def result_simps split: if_splits)

lemma optional_int_between: "optional_field (required_int a b) s = Inr x \<Longrightarrow> opt_between a b x"
  using required_int_range by (auto simp: optional_field_def opt_between_def result_simps split: if_splits)

lemma coordinates_opt:
  "coordinates a b c d = Inr pos \<Longrightarrow>
     opt_within (- 90) 90 (map_option fst pos) \<and> opt_within (- 180) 180 (map_option snd pos)"
  using coordinatesD [of a b c d] by (cases pos) (auto simp: opt_within_def)

lemma combine_utc_opt:
  "optional_field nmea_date a = Inr d \<Longrightarrow> optional_field required_utc_time b = Inr t \<Longrightarrow> combine_utc d t = Some x
    \<Longrightarrow> us_in_range (dt_us x) \<and> dt_offset x = Some 0"
proof (cases d; cases t)
  fix dd tt assume o: "optional_field nmea_date a = Inr d" "optional_field required_utc_time b = Inr t"
    "combine_utc d t = Some x" and e: "d = Some dd" "t = Some tt"
  obtain y m k where "mk_date y m k = Inr dd"
    using optional_fieldD [OF o(1) e(1)] by (auto simp: nmea_date_def Let_def split: if_splits)
  then show ?thesis
    using combine_utc_valid optional_fieldD [OF o(2) e(2)] o(3) e by simp
qed (auto simp: combine_utc_def)

lemmas accepted_fields = optional_float_within optional_int_between coordinates_opt required_int_range

lemma parse_rmc_in_range: "parse_rmc talker fs r = Inr s \<Longrightarrow> sentence_in_range s \<and> ns_received_ns s = r \<and> ns_talker s = talker \<and> ns_type s = RMC"
proof -
  assume "parse_rmc talker fs r = Inr s"
  then obtain t pos speed course d st where f: "optional_field required_utc_time (field fs 0) = Inr t"
      "coordinates (field fs 2) (field fs 3) (field fs 4) (field fs 5) = Inr pos"
      "optional_field (required_float (Finite 0 0) (Finite 2000 0)) (field fs 6) = Inr speed"
      "optional_field (required_float (Finite 0 0) (Finite 360 0)) (field fs 7) = Inr course"
      "optional_field nmea_date (field fs 8) = Inr d"
    and s: "s = (let dt = combine_utc d t in (plain_sentence RMC talker r)\<lparr>ns_utc_time := t, ns_utc_datetime := dt,
          ns_time_trust := (if st = ''A'' \<and> dt \<noteq> None then RMC_STATUS_VALID
                  else if st = ''V'' then RMC_STATUS_INVALID else TIME_UNAVAILABLE),
          ns_latitude := map_option fst pos, ns_longitude := map_option snd pos, ns_speed_knots := speed,
          ns_course := course, navigation_valid := (st = ''A'' \<and> pos \<noteq> None)\<rparr>)"
    unfolding parse_rmc_def Let_def bindR_eq_Inr if_Inl_eq_Inr sum.inject by blast
  show ?thesis
    using f(1,2,5) s coordinates_opt [OF f(2)] optional_float_within [OF f(3)] optional_float_within [OF f(4)]
      combine_utc_opt [OF f(5,1)]
    by (auto simp: sentence_in_range_def plain_sentence_def Let_def opt_within_def opt_between_def split: option.splits)
qed

lemma parse_zda_in_range: "parse_zda talker fs r = Inr s \<Longrightarrow> sentence_in_range s \<and> ns_received_ns s = r \<and> ns_talker s = talker \<and> ns_type s = ZDA"
proof -
  assume "parse_zda talker fs r = Inr s"
  then obtain t y m k d where f: "required_utc_time (field fs 0) = Inr t" "mk_date y m k = Inr d"
    and s: "s = (plain_sentence ZDA talker r)\<lparr>ns_utc_time := Some t, ns_utc_datetime := combine_utc (Some d) (Some t),
          ns_time_trust := ZDA_REQUIRES_PLAUSIBILITY\<rparr>"
    unfolding parse_zda_def Let_def bindR_eq_Inr if_Inl_eq_Inr sum.inject by blast
  obtain x where "combine_utc (Some d) (Some t) = Some x" by (cases d) (simp add: combine_utc_def)
  then show ?thesis
    using s combine_utc_valid [OF f(2,1)]
    by (simp add: sentence_in_range_def plain_sentence_def opt_within_def opt_between_def)
qed

lemma parse_gga_in_range: "parse_gga talker fs r = Inr s \<Longrightarrow> sentence_in_range s \<and> ns_received_ns s = r \<and> ns_talker s = talker \<and> ns_type s = GGA"
proof -
  assume "parse_gga talker fs r = Inr s"
  then obtain t pos q sats dil alt where f: "coordinates (field fs 1) (field fs 2) (field fs 3) (field fs 4) = Inr pos"
      "required_int 0 8 (field fs 5) = Inr q" "optional_field (required_int 0 99) (field fs 6) = Inr sats"
      "optional_field (required_float (Finite 0 0) (Finite 100 0)) (field fs 7) = Inr dil"
      "optional_field (required_float (Finite (- 20000) 0) (Finite 20000 0)) (field fs 8) = Inr alt"
    and s: "s = (plain_sentence GGA talker r)\<lparr>ns_utc_time := t, ns_latitude := map_option fst pos,
          ns_longitude := map_option snd pos, ns_altitude := alt, ns_fix_quality := Some q,
          ns_satellites := sats, ns_hdop := dil, navigation_valid := (0 < q \<and> pos \<noteq> None)\<rparr>"
    unfolding parse_gga_def Let_def bindR_eq_Inr if_Inl_eq_Inr sum.inject by blast
  show ?thesis
    using s coordinates_opt [OF f(1)] required_int_range [OF f(2)] optional_int_between [OF f(3)]
      optional_float_within [OF f(4)] optional_float_within [OF f(5)]
    by (auto simp: sentence_in_range_def plain_sentence_def opt_within_def opt_between_def split: option.splits)
qed

lemma parse_sentence_in_range:
  "parse_sentence st talker fs r = Inr s \<Longrightarrow> sentence_in_range s \<and> ns_received_ns s = r \<and> ns_talker s = talker \<and> ns_type s = st"
  using parse_rmc_in_range parse_zda_in_range parse_gga_in_range
  by (cases st) (simp_all add: parse_sentence_def)

section \<open>Accepted records\<close>

definition raw_text :: "raw_line \<Rightarrow> string" where
  "raw_text raw = (case raw of RawBytes s \<Rightarrow> s | RawText s \<Rightarrow> s)"

lemma decodeD: "decode_bounded_ascii raw = Inr line \<Longrightarrow>
    line = without_line_ending (raw_text raw) \<and> length (raw_text raw) \<le> MAX_NMEA_LINE_BYTES"
  by (auto simp: decode_bounded_ascii_def raw_text_def split: raw_line.splits if_splits)

lemma failure_simps [simp]: "po_sentence (failure e) = None" "po_error (failure e) = Some e"
  by (simp_all add: failure_def)

text \<open>A record is accepted by its envelope and then by its body.\<close>

definition enveloped :: "string \<Rightarrow> string \<Rightarrow> string \<Rightarrow> bool" where
  "enveloped line body sent = (line = CHR ''$'' # body @ CHR ''*'' # sent \<and> CHR ''*'' \<notin> set (body @ sent)
     \<and> length sent = 2 \<and> list_all is_hex sent \<and> checksum body = hex_text_value sent
     \<and> list_all is_printable line)"

lemma occurrences_zero: "occurrences c s = 0 \<longleftrightarrow> c \<notin> set s"
  by (auto simp: occurrences_def filter_empty_conv)

lemma occurrences_Cons [simp]: "occurrences c (x # s) = (if x = c then 1 else 0) + occurrences c s"
  by (simp add: occurrences_def)

lemma occurrences_append [simp]: "occurrences c (xs @ ys) = occurrences c xs + occurrences c ys"
  by (simp add: occurrences_def)

lemma parse_record_SomeD:
  assumes "po_sentence (parse_record line r) = Some s"
  shows "\<exists>body sent. enveloped line body sent \<and> po_sentence (parse_body body r) = Some s"
proof -
  define body where "body = takeWhile (\<lambda>c. c \<noteq> CHR ''*'') (tl line)"
  define sent where "sent = tl (dropWhile (\<lambda>c. c \<noteq> CHR ''*'') (tl line))"
  have g: "line \<noteq> []" "list_all is_printable line" "hd line = CHR ''$''" "occurrences (CHR ''*'') line = 1"
      "length sent = 2" "list_all is_hex sent" "checksum body = hex_text_value sent"
      "po_sentence (parse_body body r) = Some s"
    using assms unfolding parse_record_def Let_def body_def [symmetric] sent_def [symmetric]
    by (simp_all split: if_splits)
  obtain t where t: "line = CHR ''$'' # t" using g(1,3) by (cases line) auto
  have "CHR ''*'' \<in> set t"
    using g(4) occurrences_zero [of "CHR ''*''" t] by (auto simp: t)
  then have "dropWhile (\<lambda>c. c \<noteq> CHR ''*'') t \<noteq> []" by (auto simp: dropWhile_eq_Nil_conv)
  then have "dropWhile (\<lambda>c. c \<noteq> CHR ''*'') t = CHR ''*'' # sent"
    using hd_dropWhile [of "\<lambda>c. c \<noteq> CHR ''*''" t]
    by (cases "dropWhile (\<lambda>c. c \<noteq> CHR ''*'') t") (simp_all add: sent_def t)
  then have line: "line = CHR ''$'' # body @ CHR ''*'' # sent"
    using takeWhile_dropWhile_id [of "\<lambda>c. c \<noteq> CHR ''*''" t] by (simp add: body_def t)
  then have "CHR ''*'' \<notin> set (body @ sent)"
    using g(4) by (simp add: occurrences_zero)
  then show ?thesis using line g by (auto simp: enveloped_def)
qed

lemma parse_body_SomeD:
  assumes "po_sentence (parse_body body r) = Some s"
  shows "sentence_in_range s \<and> ns_received_ns s = r \<and> ns_talker s = take 2 body \<and> ns_talker s \<in> set supported_talkers
    \<and> occurrences (CHR '','') body < MAX_NMEA_FIELDS"
proof -
  define i where "i = takeWhile (\<lambda>c. c \<noteq> CHR '','') body"
  have g: "occurrences (CHR '','') body + 1 \<le> MAX_NMEA_FIELDS" "identifier_ok i"
      "take 2 i \<in> set supported_talkers"
      "po_sentence (case sentence_type_of (drop 2 i) of None \<Rightarrow> failure UNSUPPORTED_SENTENCE
        | Some st \<Rightarrow> (case parse_sentence st (take 2 i) (tl (split_on (CHR '','') body)) r of
             Inl _ \<Rightarrow> failure MALFORMED_FIELDS | Inr s \<Rightarrow> \<lparr>po_sentence = Some s, po_error = None\<rparr>)) = Some s"
    using assms unfolding parse_body_def Let_def i_def [symmetric] by (simp_all split: if_splits)
  then obtain st where st: "parse_sentence st (take 2 i) (tl (split_on (CHR '','') body)) r = Inr s"
    by (auto split: option.splits sum.splits)
  have "length i = 5" using g(2) by (simp add: identifier_ok_def)
  moreover have "body = i @ dropWhile (\<lambda>c. c \<noteq> CHR '','') body" by (simp add: i_def)
  ultimately have "take 2 body = take 2 i" 
    using take_append [of 2 i "dropWhile (\<lambda>c. c \<noteq> CHR '','') body"] by simp
  then show ?thesis using g parse_sentence_in_range [OF st] by auto
qed

lemma parse_record_total: "po_sentence (parse_record line r) = None \<longleftrightarrow> po_error (parse_record line r) \<noteq> None"
proof -
  have "po_sentence (parse_body body r) = None \<longleftrightarrow> po_error (parse_body body r) \<noteq> None" for body
    by (simp add: parse_body_def Let_def split: option.split sum.split)
  then show ?thesis by (simp add: parse_record_def Let_def)
qed

lemma parse_nmea_line_total:
  "po_sentence (parse_nmea_line raw r) = None \<longleftrightarrow> po_error (parse_nmea_line raw r) \<noteq> None"
  using parse_record_total by (auto simp: parse_nmea_line_def split: option.split sum.split)

lemma parse_nmea_line_SomeD:
  assumes "po_sentence (parse_nmea_line raw r) = Some s"
  shows "\<exists>body sent. enveloped (without_line_ending (raw_text raw)) body sent \<and> po_sentence (parse_body body r) = Some s
    \<and> length (raw_text raw) \<le> MAX_NMEA_LINE_BYTES \<and> (\<forall>n. r = Some n \<longrightarrow> 0 \<le> n)"
proof -
  obtain line where l: "decode_bounded_ascii raw = Inr line" "po_sentence (parse_record line r) = Some s"
      "\<forall>n. r = Some n \<longrightarrow> 0 \<le> n"
    using assms by (auto simp: parse_nmea_line_def split: if_splits sum.splits option.splits)
  then show ?thesis using parse_record_SomeD [OF l(2)] decodeD [OF l(1)] by auto
qed

section \<open>Checksums\<close>

lemma foldl_xor: "foldl (\<lambda>a c. a XOR of_char c) z s = z XOR checksum s"
proof (induction s arbitrary: z)
  case Nil
  then show ?case by (simp add: checksum_def)
next
  case (Cons c s)
  have "checksum (c # s) = of_char c XOR checksum s"
    using Cons [of "0 XOR of_char c"] by (simp add: checksum_def)
  then show ?case using Cons [of "z XOR of_char c"] by (simp add: xor.assoc)
qed

lemma checksum_simps: "checksum [] = 0" "checksum (c # s) = of_char c XOR checksum s"
  "checksum (s @ t) = checksum s XOR checksum t"
proof -
  show "checksum [] = 0" by (simp add: checksum_def)
  show "checksum (c # s) = of_char c XOR checksum s"
    using foldl_xor [of "0 XOR of_char c" s] by (simp add: checksum_def)
  show "checksum (s @ t) = checksum s XOR checksum t"
    using foldl_xor [of "checksum s" t] by (simp add: checksum_def)
qed

lemma checksum_changed: "c \<noteq> d \<Longrightarrow> checksum (xs @ c # ys) \<noteq> checksum (xs @ d # ys)"
proof
  assume cd: "c \<noteq> d" and "checksum (xs @ c # ys) = checksum (xs @ d # ys)"
  then have "of_char c XOR checksum ys = (of_char d XOR checksum ys :: int)"
    by (metis checksum_simps(2,3) xor.assoc xor.left_neutral xor_self_eq)
  then have "of_char c = (of_char d :: int)"
    by (metis xor.assoc xor.right_neutral xor_self_eq)
  then show False using cd by simp
qed

section \<open>Properties\<close>

text \<open>
  C23: Parsing a record gives exactly one of a sentence and an error, and a sentence comes only from a
  record of bounded length whose envelope and checksum are right, with the talker it names and every
  field in its range.
\<close>

theorem nmea_outcome_is_verified:
  "case po_sentence (parse_nmea_line raw r) of
     None \<Rightarrow> po_error (parse_nmea_line raw r) \<noteq> None
   | Some s \<Rightarrow> po_error (parse_nmea_line raw r) = None
       \<and> length (raw_text raw) \<le> MAX_NMEA_LINE_BYTES
       \<and> (\<exists>body sent. enveloped (without_line_ending (raw_text raw)) body sent \<and> take 2 body = ns_talker s
            \<and> occurrences (CHR '','') body < MAX_NMEA_FIELDS)
       \<and> ns_talker s \<in> set supported_talkers \<and> ns_received_ns s = r \<and> sentence_in_range s"
proof (cases "po_sentence (parse_nmea_line raw r)")
  case None
  then show ?thesis using parse_nmea_line_total [of raw r] by simp
next
  case (Some s)
  obtain body sent where b: "enveloped (without_line_ending (raw_text raw)) body sent"
      "po_sentence (parse_body body r) = Some s" "length (raw_text raw) \<le> MAX_NMEA_LINE_BYTES"
    using parse_nmea_line_SomeD [OF Some] by blast
  then show ?thesis
    using Some parse_nmea_line_total [of raw r] parse_body_SomeD [OF b(2)] by auto
qed

lemma without_line_ending_append:
  "z \<in> set ys \<Longrightarrow> z \<notin> {CHR 0x0D, CHR 0x0A} \<Longrightarrow>
     without_line_ending (xs @ ys) = xs @ without_line_ending ys \<and> z \<in> set (without_line_ending ys)"
proof (cases ys rule: rev_cases)
  case (snoc zs y)
  assume z: "z \<in> set ys" "z \<notin> {CHR 0x0D, CHR 0x0A}"
  show ?thesis
  proof (cases zs rule: rev_cases)
    case Nil
    then show ?thesis using z snoc
      by (cases xs rule: rev_cases) (auto simp: without_line_ending_def)
  next
    case (snoc us u)
    then show ?thesis using z \<open>ys = zs @ [y]\<close>
      by (auto simp: without_line_ending_def butlast_append)
  qed
qed simp

lemma enveloped_uniqueD:
  assumes "enveloped (CHR ''$'' # xs @ c # ys) body sent" "CHR ''*'' \<in> set ys"
  shows "\<exists>zs. ys = zs @ CHR ''*'' # sent \<and> body = xs @ c # zs"
proof -
  obtain zs ws where y: "ys = zs @ CHR ''*'' # ws" using split_list [OF assms(2)] by blast
  have e: "(xs @ c # zs) @ CHR ''*'' # ws = body @ CHR ''*'' # sent" "CHR ''*'' \<notin> set body" "CHR ''*'' \<notin> set sent"
    using assms(1) y by (simp_all add: enveloped_def)
  then have "xs @ c # zs = body \<and> ws = sent"
    by (metis append_Cons_eq_iff in_set_conv_decomp)
  then show ?thesis using y by auto
qed

text \<open>
  C39: One changed character between the dollar sign and the asterisk of an accepted record is always
  noticed: the changed record is not accepted.
\<close>

theorem corrupted_character_is_refused:
  assumes "outcome_ok (parse_nmea_line (RawBytes (CHR ''$'' # xs @ c # ys)) r)"
    and "CHR ''*'' \<in> set ys" "c \<noteq> d"
  shows "\<not> outcome_ok (parse_nmea_line (RawBytes (CHR ''$'' # xs @ d # ys)) r')"
proof
  assume "outcome_ok (parse_nmea_line (RawBytes (CHR ''$'' # xs @ d # ys)) r')"
  note ok = assms(1) this
  define t where "t = without_line_ending ys"
  have t: "without_line_ending (CHR ''$'' # xs @ e # ys) = CHR ''$'' # xs @ e # t" "CHR ''*'' \<in> set t" for e
    using without_line_ending_append [of "CHR ''*''" ys "CHR ''$'' # xs @ [e]"] assms(2) by (simp_all add: t_def)
  have env: "\<exists>body sent. enveloped (CHR ''$'' # xs @ e # t) body sent"
    if "outcome_ok (parse_nmea_line (RawBytes (CHR ''$'' # xs @ e # ys)) q)" for e q
    using parse_nmea_line_SomeD [of "RawBytes (CHR ''$'' # xs @ e # ys)" q] that t
    by (simp add: outcome_ok_def raw_text_def) blast
  obtain b1 s1 b2 s2 where e: "enveloped (CHR ''$'' # xs @ c # t) b1 s1" "enveloped (CHR ''$'' # xs @ d # t) b2 s2"
    using env ok by blast
  obtain z1 z2 where z: "t = z1 @ CHR ''*'' # s1" "b1 = xs @ c # z1" "t = z2 @ CHR ''*'' # s2" "b2 = xs @ d # z2"
    using enveloped_uniqueD [OF e(1) t(2)] enveloped_uniqueD [OF e(2) t(2)] by blast
  have "CHR ''*'' \<notin> set z1" "CHR ''*'' \<notin> set z2" using e z by (auto simp: enveloped_def)
  then have "z1 = z2 \<and> s1 = s2"
    using z(1,3) by (metis append_Cons_eq_iff e enveloped_def set_append UnCI)
  then show False
    using e z checksum_changed [OF assms(3), of xs z1] by (simp add: enveloped_def)
qed

definition ex_zda :: string where
  "ex_zda = ''GPZDA,160012.71,11,03,2004,-1,00*'' @ ''7D''"

lemma ex_zda_checksum: "checksum ''GPZDA,160012.71,11,03,2004,-1,00'' = 125"
  by (simp add: checksum_def)

lemma ex_zda_sent: "hex_text_value ''7D'' = 125"
proof -
  have "hex_digit_value CHR ''7'' = 7" "hex_digit_value CHR ''D'' = 13"
    by (simp_all add: hex_digit_value_def is_digit_def is_upper_def code_between_def)
  then show ?thesis by (simp add: hex_text_value_def)
qed

lemma ex_zda_fields: "split_on (CHR '','') ''GPZDA,160012.71,11,03,2004,-1,00''
    = [''GPZDA'', ''160012.71'', ''11'', ''03'', ''2004'', ''-1'', ''00'']"
  by simp

lemma ex_zda_body: "\<exists>s. parse_body ''GPZDA,160012.71,11,03,2004,-1,00'' (Some 5) = \<lparr>po_sentence = Some s, po_error = None\<rparr>
    \<and> time_anchor_candidate s"
  unfolding parse_body_def ex_zda_fields
  by (simp add: occurrences_def MAX_NMEA_FIELDS_def identifier_ok_def is_upper_def
    code_between_def supported_talkers_def sentence_type_of_def parse_sentence_def parse_zda_def field_def
    required_utc_time_def time_shape_def is_digit_def dec_value_def undigits_def char_val_def required_int_def
    match_integer_def split_sign_def mk_date_def days_in_month_def optional_field_def plain_sentence_def
    time_anchor_candidate_def combine_utc_def)

lemma ex_zda_accepted: "\<exists>s. parse_nmea_line (RawBytes (CHR ''$'' # ex_zda)) (Some 5) = \<lparr>po_sentence = Some s, po_error = None\<rparr>
    \<and> time_anchor_candidate s"
  using ex_zda_body unfolding parse_nmea_line_def parse_record_def
  by (simp add: ex_zda_def decode_bounded_ascii_def without_line_ending_def MAX_NMEA_LINE_BYTES_def is_ascii_def
    is_printable_def is_hex_def is_digit_def code_between_def ex_zda_checksum ex_zda_sent occurrences_def)

theorem corrupted_character_is_refused_witness:
  "\<not> outcome_ok (parse_nmea_line (RawBytes ''$GPZDA,160013.71,11,03,2004,-1,00*7D'') (Some 9))"
  using corrupted_character_is_refused [of "''GPZDA,16001''" "CHR ''2''" "''.71,11,03,2004,-1,00*7D''" "Some 5"
      "CHR ''3''" "Some 9"] ex_zda_accepted
  by (auto simp: ex_zda_def outcome_ok_def)

end
