(* ===== verification/Nmea_Anchors.thy ===== *)
theory Nmea_Anchors
  imports Nmea_Parser Utc_Clock
begin

text \<open>
  From sentences to the anchored clock: \<^verbatim>\<open>src/dashcam/gps/anchors.py\<close>. The tracker turns a trusted
  complete sentence into an anchor candidate and leaves every decision about it to \<open>consider_anchor\<close>.
\<close>

section \<open>The tracker\<close>

datatype NmeaAnchorError = ADAPT_INVALID_UNCERTAINTY | ADAPT_INVALID_MONOTONIC | INVALID_SENTENCE
  | ADAPT_UNSUPPORTED_SENTENCE | RMC_NOT_ACTIVE_VALID | ZDA_NOT_COMPLETE | INCOMPLETE_UTC

record NmeaCandidateOutcome =
  co_candidate :: "AnchorCandidate option"
  co_error :: "NmeaAnchorError option"

record NmeaAnchorTracker =
  tr_policy :: AnchorPolicy
  tr_uncertainty_ns :: int
  tr_clock :: MonotonicUtcClock

record NmeaAnchorOutcome =
  na_tracker :: NmeaAnchorTracker
  na_candidate_outcome :: NmeaCandidateOutcome
  na_clock_outcome :: "AnchorOutcome option"

definition anchor_accepted :: "NmeaAnchorOutcome \<Rightarrow> bool" where
  "anchor_accepted ob = (case na_clock_outcome ob of None \<Rightarrow> False | Some c \<Rightarrow> accepted c)"

definition valid_uncertainty :: "int \<Rightarrow> AnchorPolicy \<Rightarrow> bool" where
  "valid_uncertainty u p = (0 < u \<and> u \<le> max_uncertainty_ns p)"

definition valid_talker :: "string \<Rightarrow> bool" where
  "valid_talker t = (length t = 2 \<and> list_all is_ascii t \<and> list_all is_alnum t \<and> map ascii_upper t = t)"

definition adapt_failure :: "NmeaAnchorError \<Rightarrow> NmeaCandidateOutcome" where
  "adapt_failure e = \<lparr>co_candidate = None, co_error = Some e\<rparr>"

text \<open>The source and the provenance of the two trusted forms, or the refusal.\<close>

definition anchor_origin :: "NmeaSentence \<Rightarrow> NmeaAnchorError + AnchorSource \<times> string" where
  "anchor_origin s = (case ns_type s of
     RMC \<Rightarrow> if ns_time_trust s \<noteq> RMC_STATUS_VALID then Inl RMC_NOT_ACTIVE_VALID
       else if ns_utc_datetime s = None then Inl INCOMPLETE_UTC
       else Inr (GPS_RMC_VALID, ''NMEA:'' @ ns_talker s @ ''RMC:active-valid:complete-utc'')
   | ZDA \<Rightarrow> if ns_time_trust s \<noteq> ZDA_REQUIRES_PLAUSIBILITY then Inl ZDA_NOT_COMPLETE
       else if ns_utc_datetime s = None then Inl INCOMPLETE_UTC
       else Inr (GPS_ZDA_NO_VALIDITY_FLAG, ''NMEA:'' @ ns_talker s @ ''ZDA:complete:no-validity-flag'')
   | GGA \<Rightarrow> Inl ADAPT_UNSUPPORTED_SENTENCE)"

definition candidate_from :: "NmeaAnchorTracker \<Rightarrow> NmeaSentence \<Rightarrow> NmeaCandidateOutcome" where
  "candidate_from t s =
     (if \<not> valid_uncertainty (tr_uncertainty_ns t) (tr_policy t) then adapt_failure ADAPT_INVALID_UNCERTAINTY
      else case ns_received_ns s of None \<Rightarrow> adapt_failure ADAPT_INVALID_MONOTONIC
      | Some received \<Rightarrow>
          if received < 0 then adapt_failure ADAPT_INVALID_MONOTONIC
          else if \<not> valid_talker (ns_talker s) then adapt_failure INVALID_SENTENCE
          else (case anchor_origin s of Inl e \<Rightarrow> adapt_failure e
            | Inr (src, provenance) \<Rightarrow>
                if \<not> time_anchor_candidate s \<or> length provenance > MAX_PROVENANCE_CHARS
                then adapt_failure INCOMPLETE_UTC
                else \<lparr>co_candidate = Some \<lparr>an_monotonic_ns = received, an_utc = the (ns_utc_datetime s), an_source = src,
                        an_provenance = provenance, an_uncertainty_ns = tr_uncertainty_ns t\<rparr>, co_error = None\<rparr>))"

definition consider_sentence :: "NmeaAnchorTracker \<Rightarrow> NmeaSentence \<Rightarrow> NmeaAnchorOutcome" where
  "consider_sentence t s =
     (let cand = candidate_from t s in case co_candidate cand of
        None \<Rightarrow> \<lparr>na_tracker = t, na_candidate_outcome = cand, na_clock_outcome = None\<rparr>
      | Some c \<Rightarrow> let ob = consider_anchor (tr_clock t) c (tr_policy t)
          in \<lparr>na_tracker = t\<lparr>tr_clock := ao_clock ob\<rparr>, na_candidate_outcome = cand, na_clock_outcome = Some ob\<rparr>)"

definition tracker_time_state :: "NmeaAnchorTracker \<Rightarrow> int \<Rightarrow> GpsTimeState" where
  "tracker_time_state t now = gps_time_state (tr_clock t) now (tr_policy t)"

section \<open>Lemmas\<close>

lemma supported_talker_valid: "t \<in> set supported_talkers \<Longrightarrow> valid_talker t \<and> list_all is_printable t"
  by (auto simp: supported_talkers_def valid_talker_def is_ascii_def is_alnum_def is_upper_def is_lower_def
    code_between_def ascii_upper_def is_printable_def)

lemma origin_provenance:
  assumes "anchor_origin s = Inr (src, prov)" "ns_talker s \<in> set supported_talkers"
  shows "prov \<noteq> [] \<and> length prov \<le> MAX_PROVENANCE_CHARS \<and> list_all is_ascii prov \<and> list_all is_printable prov"
proof -
  have lit: "list_all is_ascii x \<and> list_all is_printable x"
    if "x \<in> {''NMEA:'', ''RMC:active-valid:complete-utc'', ''ZDA:complete:no-validity-flag''}" for x
    using that by (auto simp: is_ascii_def is_printable_def code_between_def)
  have "list_all is_ascii (ns_talker s) \<and> list_all is_printable (ns_talker s) \<and> length (ns_talker s) = 2"
    using supported_talker_valid [OF assms(2)] by (simp add: valid_talker_def)
  moreover have "prov = ''NMEA:'' @ ns_talker s @ ''RMC:active-valid:complete-utc''
      \<or> prov = ''NMEA:'' @ ns_talker s @ ''ZDA:complete:no-validity-flag''"
    using assms(1) by (auto simp: anchor_origin_def split: SentenceType.splits if_splits)
  ultimately show ?thesis
    using lit [of "''NMEA:''"] lit [of "''RMC:active-valid:complete-utc''"] lit [of "''ZDA:complete:no-validity-flag''"]
    by (elim disjE) (simp_all add: MAX_PROVENANCE_CHARS_def)
qed

lemma origin_iff_candidate:
  "sentence_in_range s \<Longrightarrow> (\<exists>x. anchor_origin s = Inr x) \<longleftrightarrow> time_anchor_candidate s"
  by (auto simp: sentence_in_range_def anchor_origin_def time_anchor_candidate_def split: SentenceType.splits)

text \<open>A candidate of the right form is refused by the policy only because of its time.\<close>

lemma validate_candidate_time:
  assumes "validate_policy p = None" "0 \<le> an_monotonic_ns c" "dt_offset (an_utc c) = Some 0"
    "valid_uncertainty (an_uncertainty_ns c) p" "an_provenance c \<noteq> []" "length (an_provenance c) \<le> MAX_PROVENANCE_CHARS"
    "list_all is_ascii (an_provenance c)" "list_all is_printable (an_provenance c)"
  shows "validate_candidate c p =
    (if dt_us (earliest_utc p) \<le> dt_us (an_utc c) \<and> dt_us (an_utc c) \<le> dt_us (latest_utc p)
     then Inr c else Inl IMPLAUSIBLE_UTC)"
  using assms by (simp add: validate_candidate_def valid_uncertainty_def)

section \<open>Properties\<close>

lemma candidate_from_parsed:
  assumes s: "po_sentence (parse_nmea_line raw (Some n)) = Some s"
    and u: "valid_uncertainty (tr_uncertainty_ns t) (tr_policy t)" and p: "validate_policy (tr_policy t) = None"
  shows "case co_candidate (candidate_from t s) of
     None \<Rightarrow> \<not> time_anchor_candidate s
   | Some c \<Rightarrow> time_anchor_candidate s \<and> an_monotonic_ns c = n \<and> ns_utc_datetime s = Some (an_utc c)
       \<and> us_in_range (dt_us (an_utc c))
       \<and> validate_candidate c (tr_policy t) =
          (if dt_us (earliest_utc (tr_policy t)) \<le> dt_us (an_utc c) \<and> dt_us (an_utc c) \<le> dt_us (latest_utc (tr_policy t))
           then Inr c else Inl IMPLAUSIBLE_UTC)"
proof -
  obtain body where b: "po_sentence (parse_body body (Some n)) = Some s" "0 \<le> n"
    using parse_nmea_line_SomeD [OF s] by auto
  note v = parse_body_SomeD [OF b(1)]
  have talker: "valid_talker (ns_talker s)" using v supported_talker_valid by blast
  show ?thesis
  proof (cases "time_anchor_candidate s")
    case True
    then obtain src prov where o: "anchor_origin s = Inr (src, prov)"
      using v origin_iff_candidate by (metis surj_pair)
    obtain d where d: "ns_utc_datetime s = Some d" using True by (auto simp: time_anchor_candidate_def)
    have dd: "us_in_range (dt_us d)" "dt_offset d = Some 0" using v d by (simp_all add: sentence_in_range_def)
    have pr: "prov \<noteq> [] \<and> length prov \<le> MAX_PROVENANCE_CHARS \<and> list_all is_ascii prov \<and> list_all is_printable prov"
      using origin_provenance [OF o] v by blast
    have "co_candidate (candidate_from t s) = Some \<lparr>an_monotonic_ns = n, an_utc = d, an_source = src,
        an_provenance = prov, an_uncertainty_ns = tr_uncertainty_ns t\<rparr>"
      using u v b(2) talker o True pr d by (simp add: candidate_from_def)
    then show ?thesis
      using True d dd pr p u b(2) by (simp add: validate_candidate_time)
  next
    case False
    then obtain e where "anchor_origin s = Inl e"
      using v origin_iff_candidate by (cases "anchor_origin s") auto
    then show ?thesis
      using u v b(2) talker False by (simp add: candidate_from_def adapt_failure_def)
  qed
qed

text \<open>
  C24: A parsed sentence becomes a candidate exactly when its time is trusted and complete; the
  candidate carries the sentence's own receive time and UTC instant, and only an instant outside the
  policy's window makes it inadmissible. Any other sentence leaves the tracker as it was.
\<close>

theorem only_trusted_time_reaches_clock:
  assumes "po_sentence (parse_nmea_line raw (Some n)) = Some s"
    and "valid_uncertainty (tr_uncertainty_ns t) (tr_policy t)" "validate_policy (tr_policy t) = None"
  shows "case co_candidate (candidate_from t s) of
     None \<Rightarrow> \<not> time_anchor_candidate s \<and> na_tracker (consider_sentence t s) = t
   | Some c \<Rightarrow> time_anchor_candidate s \<and> an_monotonic_ns c = n \<and> ns_utc_datetime s = Some (an_utc c)
       \<and> us_in_range (dt_us (an_utc c))
       \<and> tr_clock (na_tracker (consider_sentence t s)) = ao_clock (consider_anchor (tr_clock t) c (tr_policy t))
       \<and> validate_candidate c (tr_policy t) =
          (if dt_us (earliest_utc (tr_policy t)) \<le> dt_us (an_utc c) \<and> dt_us (an_utc c) \<le> dt_us (latest_utc (tr_policy t))
           then Inr c else Inl IMPLAUSIBLE_UTC)"
  using candidate_from_parsed [OF assms] by (simp add: consider_sentence_def Let_def split: option.splits)

definition ex_tracker :: NmeaAnchorTracker where
  "ex_tracker = \<lparr>tr_policy = sample_policy, tr_uncertainty_ns = 1000000, tr_clock = empty_clock\<rparr>"

theorem only_trusted_time_reaches_clock_witness:
  "\<exists>s c. po_sentence (parse_nmea_line (RawBytes (CHR ''$'' # ex_zda)) (Some 5)) = Some s
     \<and> co_candidate (candidate_from ex_tracker s) = Some c \<and> an_monotonic_ns c = 5"
proof -
  obtain s where s: "po_sentence (parse_nmea_line (RawBytes (CHR ''$'' # ex_zda)) (Some 5)) = Some s" "time_anchor_candidate s"
    using ex_zda_accepted by auto
  show ?thesis
    using only_trusted_time_reaches_clock [OF s(1), of ex_tracker] s sample_policy_valid
    by (auto simp: ex_tracker_def valid_uncertainty_def sample_defs split: option.splits)
qed

end
