(* ===== verification/Gps_Telemetry.thy ===== *)
theory Gps_Telemetry
  imports Nmea_Parser
begin

text \<open>
  The telemetry history: \<^verbatim>\<open>src/dashcam/gps/telemetry.py\<close>. The collector merges the sentences of one
  receiver into samples, keeps the newest ones up to its capacity and serves half-open windows. The
  bounded \<^verbatim>\<open>deque\<close> is a list, oldest first.
\<close>

section \<open>Data\<close>

definition MAX_TELEMETRY_SAMPLE_HZ :: int where
  "MAX_TELEMETRY_SAMPLE_HZ = 10"

definition MAX_TELEMETRY_HISTORY_SAMPLES :: int where
  "MAX_TELEMETRY_HISTORY_SAMPLES = 3 * 60 * MAX_TELEMETRY_SAMPLE_HZ"

definition MAX_CLIP_TELEMETRY_SAMPLES :: int where
  "MAX_CLIP_TELEMETRY_SAMPLES = 60 * MAX_TELEMETRY_SAMPLE_HZ"

definition KNOTS_TO_METRES_PER_SECOND :: pyfloat where
  "KNOTS_TO_METRES_PER_SECOND = float_div (Finite 1852 0) (Finite 3600 0)"

definition SECOND_NS :: int where
  "SECOND_NS = 1000000000"

definition NANOSECONDS_PER_DAY :: int where
  "NANOSECONDS_PER_DAY = 24 * 60 * 60 * SECOND_NS"

definition MAX_FORWARD_SOURCE_DELTA_NS :: int where
  "MAX_FORWARD_SOURCE_DELTA_NS = 12 * 60 * 60 * SECOND_NS"

definition MAX_INTEGER :: int where
  "MAX_INTEGER = 9223372036854775807"

datatype TelemetryWindowIssue = HISTORY_EVICTED | SAMPLE_LIMIT

record GpsTelemetrySample =
  tm_monotonic_ns :: int
  tm_latitude :: pyfloat
  tm_longitude :: pyfloat
  tm_speed_mps :: "pyfloat option"
  tm_course :: "pyfloat option"
  tm_altitude :: "pyfloat option"
  tm_fix_quality :: "int option"
  tm_satellites :: "int option"
  tm_hdop :: "pyfloat option"

record GpsTelemetryCounters =
  sentences_considered :: int
  navigation_observations :: int
  invalid_navigation :: int
  ignored_sentences :: int
  samples_emitted :: int
  samples_coalesced :: int
  samples_rate_limited :: int
  samples_evicted :: int
  monotonic_regressions :: int
  source_time_regressions :: int
  omitted_out_of_range_fields :: int
  retained_samples :: int

record GpsTelemetryWindow =
  tw_start_ns :: int
  tw_end_ns :: int
  tw_samples :: "GpsTelemetrySample list"
  tw_issues :: "TelemetryWindowIssue list"

definition window_complete :: "GpsTelemetryWindow \<Rightarrow> bool" where
  "window_complete w = (tw_issues w = [])"

record Motion =
  mo_monotonic_ns :: int
  mo_speed_mps :: "pyfloat option"
  mo_course :: "pyfloat option"

record FixDetails =
  fd_monotonic_ns :: int
  fd_altitude :: "pyfloat option"
  fd_fix_quality :: "int option"
  fd_satellites :: "int option"
  fd_hdop :: "pyfloat option"

record GpsTelemetryCollector =
  minimum_interval_ns :: int
  tc_stale_after_ns :: int
  history_capacity :: int
  tc_samples :: "GpsTelemetrySample list"
  tc_motion :: "Motion option"
  tc_fix :: "FixDetails option"
  last_observation_ns :: "int option"
  last_emitted_source_epoch_ns :: "int option"
  evicted_through_ns :: "int option"
  tc_counters :: GpsTelemetryCounters

section \<open>Checks\<close>

definition integer_in :: "int \<Rightarrow> int \<Rightarrow> int \<Rightarrow> unit result" where
  "integer_in minimum maximum v = (if minimum \<le> v \<and> v \<le> maximum then Inr () else Inl ValueError)"

definition finite_in :: "pyfloat \<Rightarrow> pyfloat \<Rightarrow> bool \<Rightarrow> pyfloat \<Rightarrow> unit result" where
  "finite_in minimum maximum exclusive v =
     (if \<not> is_finite v \<or> \<not> (float_le minimum v \<and> (if exclusive then float_less v maximum else float_le v maximum))
      then Inl ValueError else Inr ())"

definition if_present :: "('a \<Rightarrow> unit result) \<Rightarrow> 'a option \<Rightarrow> unit result" where
  "if_present f v = (case v of None \<Rightarrow> Inr () | Some x \<Rightarrow> f x)"

definition check_telemetry_sample :: "GpsTelemetrySample \<Rightarrow> unit result" where
  "check_telemetry_sample x =
     bindR (integer_in 0 MAX_INTEGER (tm_monotonic_ns x)) (\<lambda>_.
     bindR (finite_in (Finite (- 90) 0) (Finite 90 0) False (tm_latitude x)) (\<lambda>_.
     bindR (finite_in (Finite (- 180) 0) (Finite 180 0) False (tm_longitude x)) (\<lambda>_.
     bindR (if_present (finite_in (Finite 0 0) (Finite 1000 0) False) (tm_speed_mps x)) (\<lambda>_.
     bindR (if_present (finite_in (Finite 0 0) (Finite 360 0) True) (tm_course x)) (\<lambda>_.
     bindR (if_present (finite_in (Finite (- 2000) 0) (Finite 100000 0) False) (tm_altitude x)) (\<lambda>_.
     bindR (if_present (integer_in 0 8) (tm_fix_quality x)) (\<lambda>_.
     bindR (if_present (integer_in 0 255) (tm_satellites x)) (\<lambda>_.
       if_present (finite_in (Finite 0 0) (Finite 1000 0) False) (tm_hdop x)))))))))"

definition zero_telemetry_counters :: GpsTelemetryCounters where
  "zero_telemetry_counters = \<lparr>sentences_considered = 0, navigation_observations = 0, invalid_navigation = 0,
     ignored_sentences = 0, samples_emitted = 0, samples_coalesced = 0, samples_rate_limited = 0, samples_evicted = 0,
     monotonic_regressions = 0, source_time_regressions = 0, omitted_out_of_range_fields = 0, retained_samples = 0\<rparr>"

definition mk_collector :: "int \<Rightarrow> int \<Rightarrow> int \<Rightarrow> GpsTelemetryCollector result" where
  "mk_collector max_sample_hz stale_after capacity =
     bindR (integer_in 1 MAX_TELEMETRY_SAMPLE_HZ max_sample_hz) (\<lambda>_.
     bindR (integer_in 1 (3600 * SECOND_NS) stale_after) (\<lambda>_.
     bindR (integer_in 1 MAX_TELEMETRY_HISTORY_SAMPLES capacity) (\<lambda>_.
       Inr \<lparr>minimum_interval_ns = SECOND_NS div max_sample_hz, tc_stale_after_ns = stale_after,
            history_capacity = capacity, tc_samples = [], tc_motion = None, tc_fix = None, last_observation_ns = None,
            last_emitted_source_epoch_ns = None, evicted_through_ns = None, tc_counters = zero_telemetry_counters\<rparr>)))"

section \<open>Observation\<close>

definition count_telemetry :: "(GpsTelemetryCounters \<Rightarrow> GpsTelemetryCounters) \<Rightarrow> GpsTelemetryCollector \<Rightarrow> GpsTelemetryCollector" where
  "count_telemetry f c = c\<lparr>tc_counters := f (tc_counters c)\<rparr>"

definition source_epoch_ns :: "utc_time option \<Rightarrow> int option" where
  "source_epoch_ns t = (case t of None \<Rightarrow> None
     | Some v \<Rightarrow> Some (((ut_hour v * 60 + ut_minute v) * 60 + ut_second v) * SECOND_NS + ut_microsecond v * 1000))"

definition observe_rmc :: "NmeaSentence \<Rightarrow> int \<Rightarrow> GpsTelemetryCollector \<Rightarrow> GpsTelemetryCollector" where
  "observe_rmc s received c =
     (if \<not> navigation_valid s then c\<lparr>tc_motion := None\<rparr>
      else let speed = map_option (\<lambda>k. float_mul k KNOTS_TO_METRES_PER_SECOND) (ns_speed_knots s);
               too_fast = (case speed of None \<Rightarrow> False | Some v \<Rightarrow> float_less (Finite 1000 0) v);
               course = map_option (\<lambda>v. if float_eq v (Finite 360 0) then Finite 0 0 else v) (ns_course s);
               c1 = c\<lparr>tc_motion := Some \<lparr>mo_monotonic_ns = received, mo_speed_mps = (if too_fast then None else speed),
                        mo_course = course\<rparr>\<rparr>
           in if too_fast then count_telemetry (\<lambda>k. k\<lparr>omitted_out_of_range_fields := omitted_out_of_range_fields k + 1\<rparr>) c1
              else c1)"

definition observe_gga :: "NmeaSentence \<Rightarrow> int \<Rightarrow> GpsTelemetryCollector \<Rightarrow> GpsTelemetryCollector" where
  "observe_gga s received c =
     (if \<not> navigation_valid s then c\<lparr>tc_fix := None\<rparr>
      else let out_of_range = (case ns_altitude s of None \<Rightarrow> False
                 | Some v \<Rightarrow> \<not> (float_le (Finite (- 2000) 0) v \<and> float_le v (Finite 100000 0)));
               c1 = c\<lparr>tc_fix := Some \<lparr>fd_monotonic_ns = received,
                        fd_altitude = (if out_of_range then None else ns_altitude s),
                        fd_fix_quality = ns_fix_quality s, fd_satellites = ns_satellites s, fd_hdop = ns_hdop s\<rparr>\<rparr>
           in if out_of_range
              then count_telemetry (\<lambda>k. k\<lparr>omitted_out_of_range_fields := omitted_out_of_range_fields k + 1\<rparr>) c1 else c1)"

text \<open>\<^verbatim>\<open>_fresh\<close>, on the time of the observation.\<close>

definition fresh :: "GpsTelemetryCollector \<Rightarrow> int option \<Rightarrow> int \<Rightarrow> bool" where
  "fresh c t now = (case t of None \<Rightarrow> False | Some m \<Rightarrow> m \<le> now \<and> now - m \<le> tc_stale_after_ns c)"

definition telemetry_sample :: "GpsTelemetryCollector \<Rightarrow> int \<Rightarrow> pyfloat \<Rightarrow> pyfloat \<Rightarrow> GpsTelemetrySample result" where
  "telemetry_sample c received lat lon =
     (let motion = (if fresh c (map_option mo_monotonic_ns (tc_motion c)) received then tc_motion c else None);
          fix' = (if fresh c (map_option fd_monotonic_ns (tc_fix c)) received then tc_fix c else None);
          x = \<lparr>tm_monotonic_ns = received, tm_latitude = lat, tm_longitude = lon,
               tm_speed_mps = Option.bind motion mo_speed_mps, tm_course = Option.bind motion mo_course,
               tm_altitude = Option.bind fix' fd_altitude, tm_fix_quality = Option.bind fix' fd_fix_quality,
               tm_satellites = Option.bind fix' fd_satellites, tm_hdop = Option.bind fix' fd_hdop\<rparr>
      in bindR (check_telemetry_sample x) (\<lambda>_. Inr x))"

definition replace_last :: "GpsTelemetrySample \<Rightarrow> GpsTelemetryCollector \<Rightarrow> GpsTelemetryCollector" where
  "replace_last x c = count_telemetry (\<lambda>k. k\<lparr>samples_coalesced := samples_coalesced k + 1\<rparr>)
     (c\<lparr>tc_samples := butlast (tc_samples c) @ [x]\<rparr>)"

definition refresh_last_sample :: "NmeaSentence \<Rightarrow> int \<Rightarrow> GpsTelemetryCollector
    \<Rightarrow> unit result \<times> GpsTelemetryCollector" where
  "refresh_last_sample s received c =
     (if tc_samples c = [] then (Inr (), c)
      else let previous = last (tc_samples c); epoch = source_epoch_ns (ns_utc_time s)
        in if tm_monotonic_ns previous \<noteq> received \<and> (epoch = None \<or> epoch \<noteq> last_emitted_source_epoch_ns c)
           then (Inr (), c)
           else case telemetry_sample c (tm_monotonic_ns previous) (tm_latitude previous) (tm_longitude previous) of
               Inl e \<Rightarrow> (Inl e, c) | Inr x \<Rightarrow> (Inr (), replace_last x c))"

definition source_elapsed_ns :: "int option \<Rightarrow> GpsTelemetryCollector \<Rightarrow> int option \<times> GpsTelemetryCollector" where
  "source_elapsed_ns epoch c = (case (epoch, last_emitted_source_epoch_ns c) of
     (Some e, Some previous) \<Rightarrow>
       (let elapsed = (e - previous) mod NANOSECONDS_PER_DAY
        in if elapsed \<le> MAX_FORWARD_SOURCE_DELTA_NS then (Some elapsed, c)
           else (None, count_telemetry (\<lambda>k. k\<lparr>source_time_regressions := source_time_regressions k + 1\<rparr>) c))
   | _ \<Rightarrow> (None, c))"

definition append_sample :: "GpsTelemetrySample \<Rightarrow> GpsTelemetryCollector \<Rightarrow> GpsTelemetryCollector" where
  "append_sample x c =
     (let c1 = (if int (length (tc_samples c)) = history_capacity c
                then count_telemetry (\<lambda>k. k\<lparr>samples_evicted := samples_evicted k + 1\<rparr>)
                  (c\<lparr>tc_samples := tl (tc_samples c), evicted_through_ns := Some (tm_monotonic_ns (hd (tc_samples c)))\<rparr>)
                else c);
          c2 = c1\<lparr>tc_samples := tc_samples c1 @ [x]\<rparr>
      in count_telemetry (\<lambda>k. k\<lparr>samples_emitted := samples_emitted k + 1,
           retained_samples := retained_samples k + (int (length (tc_samples c2)) - retained_samples k)\<rparr>) c2)"

text \<open>The part of \<^verbatim>\<open>observe\<close> for a sentence with a valid position.\<close>

definition record_position :: "NmeaSentence \<Rightarrow> int \<Rightarrow> pyfloat \<Rightarrow> pyfloat \<Rightarrow> GpsTelemetryCollector
    \<Rightarrow> unit result \<times> GpsTelemetryCollector" where
  "record_position s received lat lon c =
     (let epoch = source_epoch_ns (ns_utc_time s);
          same_source_epoch = (epoch \<noteq> None \<and> epoch = last_emitted_source_epoch_ns c)
      in case telemetry_sample c received lat lon of Inl e \<Rightarrow> (Inl e, c)
      | Inr x \<Rightarrow>
          if tc_samples c \<noteq> [] \<and> (received = tm_monotonic_ns (last (tc_samples c)) \<or> same_source_epoch)
          then let x' = x\<lparr>tm_monotonic_ns := tm_monotonic_ns (last (tc_samples c))\<rparr>
            in (case check_telemetry_sample x' of Inl e \<Rightarrow> (Inl e, c) | Inr _ \<Rightarrow> (Inr (), replace_last x' c))
          else (case source_elapsed_ns epoch c of (elapsed, c1) \<Rightarrow>
            let rate_limited = (case elapsed of Some el \<Rightarrow> el < minimum_interval_ns c1
                  | None \<Rightarrow> tc_samples c1 \<noteq> []
                      \<and> received - tm_monotonic_ns (last (tc_samples c1)) < minimum_interval_ns c1)
            in if rate_limited
               then (Inr (), count_telemetry (\<lambda>k. k\<lparr>samples_rate_limited := samples_rate_limited k + 1\<rparr>) c1)
               else (Inr (), (append_sample x c1)\<lparr>last_emitted_source_epoch_ns := epoch\<rparr>)))"

definition merge_sentence :: "NmeaSentence \<Rightarrow> int \<Rightarrow> GpsTelemetryCollector \<Rightarrow> GpsTelemetryCollector" where
  "merge_sentence s received c = (if ns_type s = RMC then observe_rmc s received c else observe_gga s received c)"

text \<open>The part of \<^verbatim>\<open>observe\<close> after the merge: a position, or a refresh of the newest sample.\<close>

definition observe_position :: "NmeaSentence \<Rightarrow> int \<Rightarrow> GpsTelemetryCollector \<Rightarrow> unit result \<times> GpsTelemetryCollector" where
  "observe_position s received c =
     (if \<not> navigation_valid s \<or> ns_latitude s = None \<or> ns_longitude s = None
      then refresh_last_sample s received
        (count_telemetry (\<lambda>k. k\<lparr>invalid_navigation := invalid_navigation k + 1\<rparr>) c)
      else record_position s received (the (ns_latitude s)) (the (ns_longitude s))
        (count_telemetry (\<lambda>k. k\<lparr>navigation_observations := navigation_observations k + 1\<rparr>) c))"

definition in_order :: "NmeaSentence \<Rightarrow> GpsTelemetryCollector \<Rightarrow> bool" where
  "in_order s c = (case ns_received_ns s of None \<Rightarrow> False
     | Some n \<Rightarrow> 0 \<le> n \<and> (case last_observation_ns c of None \<Rightarrow> True | Some l \<Rightarrow> l \<le> n))"

definition telemetry_observe :: "NmeaSentence \<Rightarrow> GpsTelemetryCollector \<Rightarrow> unit result \<times> GpsTelemetryCollector" where
  "telemetry_observe s c =
     (let c1 = count_telemetry (\<lambda>k. k\<lparr>sentences_considered := sentences_considered k + 1\<rparr>) c in
      if ns_type s \<notin> {RMC, GGA}
      then (Inr (), count_telemetry (\<lambda>k. k\<lparr>ignored_sentences := ignored_sentences k + 1\<rparr>) c1)
      else if \<not> in_order s c1
      then (Inr (), count_telemetry (\<lambda>k. k\<lparr>monotonic_regressions := monotonic_regressions k + 1\<rparr>) c1)
      else let received = the (ns_received_ns s)
        in observe_position s received (merge_sentence s received (c1\<lparr>last_observation_ns := Some received\<rparr>)))"

section \<open>Windows\<close>

definition telemetry_window :: "int \<Rightarrow> int \<Rightarrow> int \<Rightarrow> GpsTelemetryCollector \<Rightarrow> GpsTelemetryWindow result" where
  "telemetry_window start_ns end_ns max_samples c =
     bindR (integer_in 0 MAX_INTEGER start_ns) (\<lambda>_. bindR (integer_in 1 MAX_INTEGER end_ns) (\<lambda>_.
     if end_ns \<le> start_ns then Inl ValueError
     else bindR (integer_in 1 MAX_CLIP_TELEMETRY_SAMPLES max_samples) (\<lambda>_.
       let evicted = (case evicted_through_ns c of None \<Rightarrow> False | Some t \<Rightarrow> start_ns \<le> t);
           selected = filter (\<lambda>x. start_ns \<le> tm_monotonic_ns x \<and> tm_monotonic_ns x < end_ns) (tc_samples c);
           limited = (int (length selected) > max_samples)
       in Inr \<lparr>tw_start_ns = start_ns, tw_end_ns = end_ns,
               tw_samples = (if limited then take (nat max_samples) selected else selected),
               tw_issues = (if evicted then [HISTORY_EVICTED] else []) @ (if limited then [SAMPLE_LIMIT] else [])\<rparr>)))"

section \<open>The collector's invariant\<close>

lemma finite_in_within: "finite_in (Finite a 0) (Finite b 0) False v = Inr () \<longleftrightarrow> within a b v"
  by (auto simp: finite_in_def within_def is_finite_def)

lemma integer_in_iff: "integer_in a b v = Inr () \<longleftrightarrow> a \<le> v \<and> v \<le> b"
  by (simp add: integer_in_def)

lemma if_present_simps [simp]: "if_present f None = Inr ()" "if_present f (Some v) = f v"
  by (simp_all add: if_present_def)

definition motion_ok :: "Motion \<Rightarrow> bool" where
  "motion_ok m = (if_present (finite_in (Finite 0 0) (Finite 1000 0) False) (mo_speed_mps m) = Inr ()
     \<and> if_present (finite_in (Finite 0 0) (Finite 360 0) True) (mo_course m) = Inr ())"

definition fix_ok :: "FixDetails \<Rightarrow> bool" where
  "fix_ok f = (if_present (finite_in (Finite (- 2000) 0) (Finite 100000 0) False) (fd_altitude f) = Inr ()
     \<and> if_present (integer_in 0 8) (fd_fix_quality f) = Inr () \<and> if_present (integer_in 0 255) (fd_satellites f) = Inr ()
     \<and> if_present (finite_in (Finite 0 0) (Finite 1000 0) False) (fd_hdop f) = Inr ())"

definition fields_ok :: "GpsTelemetryCollector \<Rightarrow> bool" where
  "fields_ok c = ((case tc_motion c of None \<Rightarrow> True | Some m \<Rightarrow> motion_ok m)
     \<and> (case tc_fix c of None \<Rightarrow> True | Some f \<Rightarrow> fix_ok f))"

text \<open>
  The history is valid, strictly increasing and within its capacity, everything evicted is older than
  what is kept, and the counters tell how many samples were emitted, kept and evicted.
\<close>

definition history_ok :: "GpsTelemetryCollector \<Rightarrow> bool" where
  "history_ok c = (list_all (\<lambda>x. check_telemetry_sample x = Inr ()) (tc_samples c)
     \<and> sorted_wrt (\<lambda>x y. tm_monotonic_ns x < tm_monotonic_ns y) (tc_samples c)
     \<and> (case last_observation_ns c of None \<Rightarrow> tc_samples c = []
        | Some l \<Rightarrow> 0 \<le> l \<and> list_all (\<lambda>x. tm_monotonic_ns x \<le> l) (tc_samples c))
     \<and> (case evicted_through_ns c of None \<Rightarrow> samples_evicted (tc_counters c) = 0
        | Some t \<Rightarrow> 0 < samples_evicted (tc_counters c) \<and> tc_samples c \<noteq> []
            \<and> list_all (\<lambda>x. t < tm_monotonic_ns x) (tc_samples c))
     \<and> 1 \<le> history_capacity c \<and> int (length (tc_samples c)) \<le> history_capacity c
     \<and> retained_samples (tc_counters c) = int (length (tc_samples c))
     \<and> samples_emitted (tc_counters c) = retained_samples (tc_counters c) + samples_evicted (tc_counters c))"

definition collector_ok :: "GpsTelemetryCollector \<Rightarrow> bool" where
  "collector_ok c = (fields_ok c \<and> history_ok c)"

lemma mk_collector_ok: "mk_collector hz stale cap = Inr c \<Longrightarrow> collector_ok c"
  by (auto simp: mk_collector_def result_simps integer_in_def collector_ok_def fields_ok_def history_ok_def
    zero_telemetry_counters_def split: if_splits)

lemma count_telemetry_simps [simp]:
  "tc_samples (count_telemetry f c) = tc_samples c" "tc_motion (count_telemetry f c) = tc_motion c"
  "tc_fix (count_telemetry f c) = tc_fix c" "last_observation_ns (count_telemetry f c) = last_observation_ns c"
  "last_emitted_source_epoch_ns (count_telemetry f c) = last_emitted_source_epoch_ns c"
  "evicted_through_ns (count_telemetry f c) = evicted_through_ns c"
  "history_capacity (count_telemetry f c) = history_capacity c"
  "minimum_interval_ns (count_telemetry f c) = minimum_interval_ns c"
  "tc_stale_after_ns (count_telemetry f c) = tc_stale_after_ns c"
  "tc_counters (count_telemetry f c) = f (tc_counters c)"
  by (simp_all add: count_telemetry_def)

lemma in_order_count [simp]: "in_order s (count_telemetry f c) = in_order s c"
  by (simp add: in_order_def cong: option.case_cong)

lemma fields_ok_count [simp]: "fields_ok (count_telemetry f c) = fields_ok c"
  by (simp add: fields_ok_def)

lemma knots_within: "within 0 1 KNOTS_TO_METRES_PER_SECOND"
  using float_div_within [of 1852 "Finite 1852 0" 3600 1] by (simp add: KNOTS_TO_METRES_PER_SECOND_def)

lemma speed_conversion:
  assumes "within 0 2000 k" "\<not> float_less (Finite 1000 0) (float_mul k KNOTS_TO_METRES_PER_SECOND)"
  shows "within 0 1000 (float_mul k KNOTS_TO_METRES_PER_SECOND)"
proof -
  have "within 0 (int (2000 * 1)) (float_mul k KNOTS_TO_METRES_PER_SECOND)"
    using assms(1) knots_within by (intro float_mul_within) simp_all
  then show ?thesis
    using assms(2) by (cases "float_mul k KNOTS_TO_METRES_PER_SECOND") auto
qed

lemma course_conversion:
  "within 0 360 v \<Longrightarrow> finite_in (Finite 0 0) (Finite 360 0) True (if float_eq v (Finite 360 0) then Finite 0 0 else v) = Inr ()"
  by (cases v) (auto simp: finite_in_def is_finite_def float_eq_def)

lemma observe_rmc_fields:
  assumes "sentence_in_range s" "fields_ok c"
  shows "fields_ok (observe_rmc s r c)"
proof -
  have "opt_within 0 2000 (ns_speed_knots s)" "opt_within 0 360 (ns_course s)"
    using assms(1) by (simp_all add: sentence_in_range_def)
  then show ?thesis
    using assms(2) speed_conversion course_conversion
    by (auto simp: observe_rmc_def Let_def fields_ok_def motion_ok_def opt_within_def finite_in_within
      split: option.splits)
qed

lemma observe_gga_fields:
  assumes "sentence_in_range s" "fields_ok c"
  shows "fields_ok (observe_gga s r c)"
proof -
  have "opt_within (- 20000) 20000 (ns_altitude s)" "opt_within 0 100 (ns_hdop s)"
      "opt_between 0 8 (ns_fix_quality s)" "opt_between 0 99 (ns_satellites s)"
    using assms(1) by (simp_all add: sentence_in_range_def)
  then have "if_present (finite_in (Finite 0 0) (Finite 1000 0) False) (ns_hdop s) = Inr ()"
      "if_present (integer_in 0 8) (ns_fix_quality s) = Inr ()" "if_present (integer_in 0 255) (ns_satellites s) = Inr ()"
    using within_mono [of 0 100 _ 0 1000]
    by (auto simp: opt_within_def opt_between_def finite_in_within integer_in_iff split: option.splits)
  then show ?thesis
    using assms(2)
    by (auto simp: observe_gga_def Let_def fields_ok_def fix_ok_def finite_in_within within_def split: option.splits)
qed

lemma telemetry_sample_ok:
  assumes "fields_ok c" "0 \<le> r" "r \<le> MAX_INTEGER" "within (- 90) 90 lat" "within (- 180) 180 lon"
  shows "\<exists>x. telemetry_sample c r lat lon = Inr x \<and> tm_monotonic_ns x = r \<and> check_telemetry_sample x = Inr ()"
proof -
  let ?m = "if fresh c (map_option mo_monotonic_ns (tc_motion c)) r then tc_motion c else None"
  let ?f = "if fresh c (map_option fd_monotonic_ns (tc_fix c)) r then tc_fix c else None"
  have m: "case ?m of None \<Rightarrow> True | Some x \<Rightarrow> motion_ok x" and f: "case ?f of None \<Rightarrow> True | Some x \<Rightarrow> fix_ok x"
    using assms(1) by (simp_all add: fields_ok_def)
  have "check_telemetry_sample \<lparr>tm_monotonic_ns = r, tm_latitude = lat, tm_longitude = lon,
       tm_speed_mps = Option.bind ?m mo_speed_mps, tm_course = Option.bind ?m mo_course,
       tm_altitude = Option.bind ?f fd_altitude, tm_fix_quality = Option.bind ?f fd_fix_quality,
       tm_satellites = Option.bind ?f fd_satellites, tm_hdop = Option.bind ?f fd_hdop\<rparr> = Inr ()"
    using m f assms(2,3) assms(4,5) [folded finite_in_within]
    by (cases ?m; cases ?f) (simp_all add: check_telemetry_sample_def motion_ok_def fix_ok_def integer_in_def)
  then show ?thesis by (simp add: telemetry_sample_def Let_def)
qed

lemma checked_sample: "check_telemetry_sample x = Inr () \<Longrightarrow>
    0 \<le> tm_monotonic_ns x \<and> tm_monotonic_ns x \<le> MAX_INTEGER \<and> within (- 90) 90 (tm_latitude x)
    \<and> within (- 180) 180 (tm_longitude x)"
  by (simp add: check_telemetry_sample_def result_simps integer_in_iff finite_in_within)

lemma check_telemetry_sample_time:
  "check_telemetry_sample x = Inr () \<Longrightarrow> 0 \<le> t \<Longrightarrow> t \<le> MAX_INTEGER \<Longrightarrow>
     check_telemetry_sample (x\<lparr>tm_monotonic_ns := t\<rparr>) = Inr ()"
  by (simp add: check_telemetry_sample_def result_simps integer_in_iff)

lemma replace_last_history:
  assumes "history_ok c" "tc_samples c \<noteq> []" "check_telemetry_sample x = Inr ()"
    "tm_monotonic_ns x = tm_monotonic_ns (last (tc_samples c))"
  shows "history_ok (replace_last x c)"
proof -
  obtain ys l where "tc_samples c = ys @ [l]" using assms(2) by (cases "tc_samples c" rule: rev_cases) auto
  then show ?thesis
    using assms by (auto simp: history_ok_def replace_last_def sorted_wrt_append split: option.splits)
qed

lemma append_sample_history:
  assumes h: "history_ok c" and x: "check_telemetry_sample x = Inr ()"
    and l: "last_observation_ns c = Some (tm_monotonic_ns x)"
    and n: "\<And>y. y \<in> set (tc_samples c) \<Longrightarrow> tm_monotonic_ns y < tm_monotonic_ns x"
  shows "history_ok (append_sample x c)"
proof (cases "int (length (tc_samples c)) = history_capacity c")
  case True
  then obtain y ys where s: "tc_samples c = y # ys"
    using h by (cases "tc_samples c") (auto simp: history_ok_def)
  have "list_all (\<lambda>z. tm_monotonic_ns y < tm_monotonic_ns z) ys" "tm_monotonic_ns y < tm_monotonic_ns x"
    using h n s by (auto simp: history_ok_def list_all_iff)
  then show ?thesis
    using True h x l n s checked_sample [OF x]
    by (auto simp: append_sample_def Let_def history_ok_def sorted_wrt_append list_all_iff split: option.splits)
next
  case False
  have "tm_monotonic_ns x > t" if "evicted_through_ns c = Some t" for t
    using that h n by (fastforce simp: history_ok_def list_all_iff neq_Nil_conv)
  then show ?thesis
    using False h x l n checked_sample [OF x]
    by (auto simp: append_sample_def Let_def history_ok_def sorted_wrt_append list_all_iff split: option.splits)
qed

lemma history_ok_count:
  "history_ok (count_telemetry f c) \<longleftrightarrow> history_ok c"
  if "\<And>k. retained_samples (f k) = retained_samples k \<and> samples_emitted (f k) = samples_emitted k
    \<and> samples_evicted (f k) = samples_evicted k"
  using that by (simp add: history_ok_def cong: option.case_cong)

lemma history_ok_observed:
  "history_ok c \<Longrightarrow> 0 \<le> r \<Longrightarrow> (case last_observation_ns c of None \<Rightarrow> True | Some l \<Rightarrow> l \<le> r) \<Longrightarrow>
     history_ok (c\<lparr>last_observation_ns := Some r\<rparr>)"
  by (fastforce simp: history_ok_def list_all_iff split: option.splits)

text \<open>The two merges and the elapsed time touch neither the history nor its counters.\<close>

lemma merge_simps [simp]:
  "tc_samples (observe_rmc s r c) = tc_samples c" "last_observation_ns (observe_rmc s r c) = last_observation_ns c"
  "history_ok (observe_rmc s r c) = history_ok c"
  "tc_samples (observe_gga s r c) = tc_samples c" "last_observation_ns (observe_gga s r c) = last_observation_ns c"
  "history_ok (observe_gga s r c) = history_ok c"
  by (simp_all add: observe_rmc_def observe_gga_def Let_def history_ok_count) (simp_all add: history_ok_def cong: option.case_cong)

lemma source_elapsed_collector: "snd (source_elapsed_ns e c) = c
    \<or> snd (source_elapsed_ns e c) = count_telemetry (\<lambda>k. k\<lparr>source_time_regressions := source_time_regressions k + 1\<rparr>) c"
  by (simp add: source_elapsed_ns_def Let_def split: option.split)

lemma collector_ok_count: "collector_ok (count_telemetry f c) \<longleftrightarrow> collector_ok c"
  if "\<And>k. retained_samples (f k) = retained_samples k \<and> samples_emitted (f k) = samples_emitted k
    \<and> samples_evicted (f k) = samples_evicted k"
  using that history_ok_count [of f c] by (simp add: collector_ok_def)

lemma replace_last_ok:
  assumes "collector_ok c" "tc_samples c \<noteq> []" "check_telemetry_sample x = Inr ()"
    "tm_monotonic_ns x = tm_monotonic_ns (last (tc_samples c))"
  shows "collector_ok (replace_last x c)"
  using replace_last_history [of c x] assms by (simp add: collector_ok_def replace_last_def fields_ok_def)

lemma last_sample_ok: "history_ok c \<Longrightarrow> tc_samples c \<noteq> [] \<Longrightarrow> check_telemetry_sample (last (tc_samples c)) = Inr ()"
  by (simp add: history_ok_def list_all_iff)

lemma refresh_last_sample_ok:
  assumes c: "collector_ok c"
  shows "fst (refresh_last_sample s r c) = Inr () \<and> collector_ok (snd (refresh_last_sample s r c))"
proof (cases "tc_samples c = []")
  case True
  then show ?thesis using c by (simp add: refresh_last_sample_def)
next
  case False
  let ?l = "last (tc_samples c)"
  note l = checked_sample [OF last_sample_ok [OF _ False]]
  obtain x where x: "telemetry_sample c (tm_monotonic_ns ?l) (tm_latitude ?l) (tm_longitude ?l) = Inr x"
      "tm_monotonic_ns x = tm_monotonic_ns ?l" "check_telemetry_sample x = Inr ()"
    using telemetry_sample_ok [of c "tm_monotonic_ns ?l" "tm_latitude ?l" "tm_longitude ?l"] l c
    by (auto simp: collector_ok_def)
  then show ?thesis
    using replace_last_ok [OF c False x(3,2)] c False by (simp add: refresh_last_sample_def Let_def)
qed

lemma record_position_ok:
  assumes c: "collector_ok c" and o: "last_observation_ns c = Some r" "0 \<le> r" "r \<le> MAX_INTEGER"
    and p: "within (- 90) 90 lat" "within (- 180) 180 lon"
  shows "fst (record_position s r lat lon c) = Inr () \<and> collector_ok (snd (record_position s r lat lon c))"
proof -
  obtain x where x: "telemetry_sample c r lat lon = Inr x" "tm_monotonic_ns x = r" "check_telemetry_sample x = Inr ()"
    using telemetry_sample_ok [OF _ o(2,3) p] c by (auto simp: collector_ok_def)
  let ?l = "last (tc_samples c)"
  show ?thesis
  proof (cases "tc_samples c \<noteq> [] \<and> (r = tm_monotonic_ns ?l
      \<or> source_epoch_ns (ns_utc_time s) \<noteq> None \<and> source_epoch_ns (ns_utc_time s) = last_emitted_source_epoch_ns c)")
    case True
    then have "check_telemetry_sample (x\<lparr>tm_monotonic_ns := tm_monotonic_ns ?l\<rparr>) = Inr ()"
      using x c checked_sample [OF last_sample_ok [of c]] by (simp add: check_telemetry_sample_time collector_ok_def)
    then show ?thesis
      using replace_last_ok [OF c, of "x\<lparr>tm_monotonic_ns := tm_monotonic_ns ?l\<rparr>"] True x
      by (simp add: record_position_def Let_def)
  next
    case False
    let ?e = "source_elapsed_ns (source_epoch_ns (ns_utc_time s)) c"
    have e: "collector_ok (snd ?e) \<and> tc_samples (snd ?e) = tc_samples c \<and> last_observation_ns (snd ?e) = Some r"
      using source_elapsed_collector [of "source_epoch_ns (ns_utc_time s)" c] c o collector_ok_count
      by (elim disjE) simp_all
    have "tm_monotonic_ns y < r" if "y \<in> set (tc_samples c)" for y
    proof -
      obtain ys l where s: "tc_samples c = ys @ [l]" using \<open>y \<in> _\<close> by (cases "tc_samples c" rule: rev_cases) auto
      have "tm_monotonic_ns y \<le> tm_monotonic_ns l" "tm_monotonic_ns l \<le> r" "tm_monotonic_ns l \<noteq> r"
        using c o that False s by (auto simp: collector_ok_def history_ok_def sorted_wrt_append less_imp_le)
      then show ?thesis by simp
    qed
    then have "collector_ok (append_sample x (snd ?e))"
      using append_sample_history [of "snd ?e" x] e x
      by (simp add: collector_ok_def append_sample_def Let_def fields_ok_def)
    then have "collector_ok ((append_sample x (snd ?e))\<lparr>last_emitted_source_epoch_ns := source_epoch_ns (ns_utc_time s)\<rparr>)"
      by (simp add: collector_ok_def fields_ok_def history_ok_def cong: option.case_cong)
    then show ?thesis
      using False x e
      by (cases ?e) (auto simp: record_position_def Let_def collector_ok_count)
  qed
qed

text \<open>Observing a parsed sentence never fails and keeps the invariant.\<close>

lemma telemetry_observe_ok:
  assumes s: "sentence_in_range s" and r: "case ns_received_ns s of None \<Rightarrow> True | Some n \<Rightarrow> n \<le> MAX_INTEGER"
    and c: "collector_ok c"
  shows "fst (telemetry_observe s c) = Inr () \<and> collector_ok (snd (telemetry_observe s c))"
proof (cases "ns_type s \<in> {RMC, GGA} \<and> in_order s c")
  case False
  then show ?thesis
    using c by (auto simp: telemetry_observe_def Let_def collector_ok_count)
next
  case True
  then obtain n where n: "ns_received_ns s = Some n" "0 \<le> n" "n \<le> MAX_INTEGER"
      "case last_observation_ns c of None \<Rightarrow> True | Some l \<Rightarrow> l \<le> n"
    using r by (auto simp: in_order_def split: option.splits)
  define c1 where "c1 = (count_telemetry (\<lambda>k. k\<lparr>sentences_considered := sentences_considered k + 1\<rparr>) c)
    \<lparr>last_observation_ns := Some n\<rparr>"
  have "collector_ok c1"
    using c n history_ok_observed [of "count_telemetry (\<lambda>k. k\<lparr>sentences_considered := sentences_considered k + 1\<rparr>) c" n]
    by (simp add: c1_def collector_ok_def history_ok_count fields_ok_def)
  then have c2: "collector_ok (merge_sentence s n c1)" "last_observation_ns (merge_sentence s n c1) = Some n"
    using observe_rmc_fields [OF s] observe_gga_fields [OF s]
    by (auto simp: merge_sentence_def collector_ok_def c1_def)
  have "telemetry_observe s c = observe_position s n (merge_sentence s n c1)"
    using True n by (simp add: telemetry_observe_def Let_def c1_def)
  moreover have "opt_within (- 90) 90 (ns_latitude s)" "opt_within (- 180) 180 (ns_longitude s)"
    using s by (simp_all add: sentence_in_range_def)
  ultimately show ?thesis
    using c2 n record_position_ok refresh_last_sample_ok collector_ok_count
    by (auto simp: observe_position_def opt_within_def split: option.splits)
qed

section \<open>The bounded history against an unbounded one\<close>

definition observe_sentences :: "NmeaSentence list \<Rightarrow> GpsTelemetryCollector \<Rightarrow> GpsTelemetryCollector" where
  "observe_sentences ss c = foldl (\<lambda>c s. snd (telemetry_observe s c)) c ss"

text \<open>
  \<open>views c u\<close>: the collector \<open>c\<close> keeps of the longer history \<open>u\<close> the newest samples, as many as its
  capacity allows, and the time of the newest one it dropped; their counters may differ.
\<close>

definition dropped :: "GpsTelemetryCollector \<Rightarrow> GpsTelemetryCollector \<Rightarrow> nat" where
  "dropped c u = length (tc_samples u) - nat (history_capacity c)"

definition views :: "GpsTelemetryCollector \<Rightarrow> GpsTelemetryCollector \<Rightarrow> bool" where
  "views c u = (minimum_interval_ns c = minimum_interval_ns u \<and> tc_stale_after_ns c = tc_stale_after_ns u
     \<and> tc_motion c = tc_motion u \<and> tc_fix c = tc_fix u \<and> last_observation_ns c = last_observation_ns u
     \<and> last_emitted_source_epoch_ns c = last_emitted_source_epoch_ns u
     \<and> tc_samples c = drop (dropped c u) (tc_samples u)
     \<and> evicted_through_ns c = (if dropped c u = 0 then None
          else Some (tm_monotonic_ns (tc_samples u ! (dropped c u - 1))))
     \<and> 1 \<le> history_capacity c)"

lemma views_sample: "views c u \<Longrightarrow> telemetry_sample c = telemetry_sample u"
proof -
  assume v: "views c u"
  have "fresh c = fresh u"
    using v by (intro ext) (simp add: views_def fresh_def cong: option.case_cong)
  then show ?thesis using v by (intro ext) (simp add: telemetry_sample_def views_def)
qed

lemma views_capacity: "views c u \<Longrightarrow> 1 \<le> nat (history_capacity c)"
proof -
  assume "views c u"
  then have "1 \<le> history_capacity c" by (simp only: views_def)
  then show ?thesis by linarith
qed

lemma views_last:
  assumes "views c u"
  shows "tc_samples c = [] \<longleftrightarrow> tc_samples u = []" and "tc_samples u \<noteq> [] \<Longrightarrow> last (tc_samples c) = last (tc_samples u)"
proof -
  note n = views_capacity [OF assms]
  then show e: "tc_samples c = [] \<longleftrightarrow> tc_samples u = []"
    using assms by (cases "tc_samples u") (auto simp: views_def dropped_def)
  show "last (tc_samples c) = last (tc_samples u)" if "tc_samples u \<noteq> []"
    using assms that e by (simp add: views_def last_drop)
qed

lemma views_updates:
  assumes "views c u"
  shows "views (count_telemetry f c) (count_telemetry g u)"
    and "views (c\<lparr>last_observation_ns := r\<rparr>) (u\<lparr>last_observation_ns := r\<rparr>)"
    and "views (c\<lparr>last_emitted_source_epoch_ns := r\<rparr>) (u\<lparr>last_emitted_source_epoch_ns := r\<rparr>)"
    and "views (c\<lparr>tc_motion := m\<rparr>) (u\<lparr>tc_motion := m\<rparr>)"
    and "views (c\<lparr>tc_fix := x\<rparr>) (u\<lparr>tc_fix := x\<rparr>)"
  using assms by (simp_all add: views_def dropped_def)

lemma views_merge:
  "views c u \<Longrightarrow> views (observe_rmc s r c) (observe_rmc s r u)"
  "views c u \<Longrightarrow> views (observe_gga s r c) (observe_gga s r u)"
  by (simp_all add: observe_rmc_def observe_gga_def Let_def views_updates)

lemma views_replace_last:
  assumes v: "views c u" and n: "tc_samples u \<noteq> []"
  shows "views (replace_last x c) (replace_last x u)"
proof -
  obtain ys l where y: "tc_samples u = ys @ [l]" using n by (cases "tc_samples u" rule: rev_cases) auto
  have d: "dropped c u \<le> length ys" using views_capacity [OF v] y unfolding dropped_def by simp
  have "dropped (replace_last x c) (replace_last x u) = dropped c u"
    using y by (simp add: dropped_def replace_last_def)
  moreover have "(ys @ [l]) ! (dropped c u - 1) = (ys @ [x]) ! (dropped c u - 1)" if "dropped c u \<noteq> 0"
    using d that by (simp add: nth_append)
  moreover have "butlast (drop (dropped c u) (ys @ [l])) @ [x] = drop (dropped c u) (ys @ [x])"
    using d by simp
  ultimately show ?thesis
    using v y by (simp add: views_def) (simp add: replace_last_def)
qed

lemma views_append:
  assumes v: "views c u" and n: "int (length (tc_samples u)) < history_capacity u"
  shows "views (append_sample x c) (append_sample x u)"
proof -
  have u: "tc_samples (append_sample x u) = tc_samples u @ [x]" using n by (simp add: append_sample_def Let_def)
  show ?thesis
  proof (cases "length (tc_samples u) < nat (history_capacity c)")
    case True
    then have "dropped c u = 0" "dropped (append_sample x c) (append_sample x u) = 0"
        "int (length (tc_samples c)) \<noteq> history_capacity c"
      using v u by (auto simp: dropped_def views_def append_sample_def Let_def)
    then show ?thesis
      using v n by (simp add: views_def) (simp add: append_sample_def Let_def)
  next
    case False
    define d where "d = dropped c u"
    have l: "int (length (tc_samples c)) = history_capacity c" "d < length (tc_samples u)"
        "dropped (append_sample x c) (append_sample x u) = Suc d"
      using v u False by (auto simp: dropped_def views_def d_def append_sample_def Let_def)
    have "tl (drop d (tc_samples u)) @ [x] = drop (Suc d) (tc_samples u @ [x])"
      using l(2) by (simp add: drop_Suc drop_tl)
    moreover have "hd (drop d (tc_samples u)) = (tc_samples u @ [x]) ! d"
      using l(2) by (simp add: hd_drop_conv_nth nth_append)
    ultimately show ?thesis
      using v l n u by (simp add: views_def d_def [symmetric]) (simp add: append_sample_def Let_def)
  qed
qed

lemma views_refresh:
  assumes v: "views c u"
  shows "views (snd (refresh_last_sample s r c)) (snd (refresh_last_sample s r u))"
proof (cases "tc_samples u = []")
  case False
  then show ?thesis
    using v views_last [OF v] views_sample [OF v] views_replace_last [OF v]
    by (auto simp: refresh_last_sample_def Let_def views_def split: sum.split)
qed (use v views_last [OF v] in \<open>simp add: refresh_last_sample_def\<close>)

lemma views_elapsed:
  assumes "views c u"
  shows "fst (source_elapsed_ns e c) = fst (source_elapsed_ns e u)"
    and "views (snd (source_elapsed_ns e c)) (snd (source_elapsed_ns e u))"
proof -
  have "last_emitted_source_epoch_ns c = last_emitted_source_epoch_ns u" using assms by (simp add: views_def)
  then show "fst (source_elapsed_ns e c) = fst (source_elapsed_ns e u)"
      "views (snd (source_elapsed_ns e c)) (snd (source_elapsed_ns e u))"
    using assms by (auto simp: source_elapsed_ns_def Let_def views_updates split: option.split)
qed

lemma elapsed_samples [simp]:
  "tc_samples (snd (source_elapsed_ns e u)) = tc_samples u"
  "history_capacity (snd (source_elapsed_ns e u)) = history_capacity u"
  using source_elapsed_collector [of e u] by auto

lemma views_record:
  assumes v: "views c u" and n: "int (length (tc_samples u)) < history_capacity u"
  shows "views (snd (record_position s r lat lon c)) (snd (record_position s r lat lon u))"
proof -
  let ?e = "source_epoch_ns (ns_utc_time s)"
  have f: "last_emitted_source_epoch_ns c = last_emitted_source_epoch_ns u" using v by (simp add: views_def)
  obtain el c1 u1 where e: "source_elapsed_ns ?e c = (el, c1)" "source_elapsed_ns ?e u = (el, u1)" "views c1 u1"
    using views_elapsed [OF v, of ?e] by (metis prod.collapse)
  have n1: "int (length (tc_samples u1)) < history_capacity u1" and s1: "tc_samples u1 = tc_samples u"
    using n elapsed_samples [of ?e u] e(2) by simp_all
  have m: "minimum_interval_ns c1 = minimum_interval_ns u1" using e(3) by (simp add: views_def)
  note l = views_last [OF v] and l1 = views_last [OF e(3)]
  show ?thesis
  proof (cases "tc_samples u = []")
    case True
    then show ?thesis
      using v l l1 e n1 s1 m f
      by (auto simp: record_position_def Let_def views_sample [OF v] views_updates views_append split: sum.split option.split)
  next
    case False
    then show ?thesis
      using v l l1 e n1 s1 m f
      by (auto simp: record_position_def Let_def views_sample [OF v] views_updates views_append views_replace_last
        split: sum.split option.split)
  qed
qed

lemma views_observe:
  assumes v: "views c u" and n: "int (length (tc_samples u)) < history_capacity u"
  shows "views (snd (telemetry_observe s c)) (snd (telemetry_observe s u))"
proof -
  have o: "in_order s c = in_order s u"
    using v by (simp add: in_order_def views_def cong: option.case_cong)
  have "views (snd (observe_position s r x)) (snd (observe_position s r y))"
    if "views x y" "int (length (tc_samples y)) < history_capacity y" for x y r
    using that by (auto simp: observe_position_def views_refresh views_record views_updates)
  moreover have "views (merge_sentence s r (count_telemetry f c\<lparr>last_observation_ns := Some r\<rparr>))
      (merge_sentence s r (count_telemetry f u\<lparr>last_observation_ns := Some r\<rparr>))" for f r
    using v by (simp add: merge_sentence_def views_merge views_updates)
  moreover have "int (length (tc_samples (merge_sentence s r (count_telemetry f u\<lparr>last_observation_ns := Some r\<rparr>))))
      < history_capacity (merge_sentence s r (count_telemetry f u\<lparr>last_observation_ns := Some r\<rparr>))" for f r
    using n by (simp add: merge_sentence_def observe_rmc_def observe_gga_def Let_def)
  ultimately show ?thesis
    using v o by (simp add: telemetry_observe_def Let_def views_updates)
qed

lemma refresh_length: "length (tc_samples (snd (refresh_last_sample s n x))) = length (tc_samples x)
    \<and> history_capacity (snd (refresh_last_sample s n x)) = history_capacity x"
  by (auto simp: refresh_last_sample_def Let_def replace_last_def split: sum.split)

lemma record_length: "length (tc_samples (snd (record_position s n a b x))) \<le> length (tc_samples x) + 1
    \<and> history_capacity (snd (record_position s n a b x)) = history_capacity x"
proof -
  obtain el y where e: "source_elapsed_ns (source_epoch_ns (ns_utc_time s)) x = (el, y)" by fastforce
  have "tc_samples y = tc_samples x" "history_capacity y = history_capacity x"
    using elapsed_samples [of "source_epoch_ns (ns_utc_time s)" x] e by simp_all
  then show ?thesis
    by (auto simp: record_position_def Let_def replace_last_def append_sample_def e split: sum.split)
qed

lemma observe_length: "length (tc_samples (snd (telemetry_observe s u))) \<le> length (tc_samples u) + 1
    \<and> history_capacity (snd (telemetry_observe s u)) = history_capacity u"
proof -
  have p: "length (tc_samples (snd (observe_position s n x))) \<le> length (tc_samples x) + 1
      \<and> history_capacity (snd (observe_position s n x)) = history_capacity x" for n x
    using refresh_length [of s n "count_telemetry (\<lambda>k. k\<lparr>invalid_navigation := invalid_navigation k + 1\<rparr>) x"]
      record_length [of s n "the (ns_latitude s)" "the (ns_longitude s)"
        "count_telemetry (\<lambda>k. k\<lparr>navigation_observations := navigation_observations k + 1\<rparr>) x"]
    by (simp add: observe_position_def)
  have m: "tc_samples (merge_sentence s n x) = tc_samples x" "history_capacity (merge_sentence s n x) = history_capacity x" for n x
    by (simp_all add: merge_sentence_def observe_rmc_def observe_gga_def Let_def)
  let ?n = "the (ns_received_ns s)"
  let ?u = "(count_telemetry (\<lambda>k. k\<lparr>sentences_considered := sentences_considered k + 1\<rparr>) u)\<lparr>last_observation_ns := Some ?n\<rparr>"
  show ?thesis
    using p [of ?n "merge_sentence s ?n ?u"] by (simp add: telemetry_observe_def Let_def m)
qed

section \<open>Properties\<close>

definition recorded :: "NmeaSentence \<Rightarrow> bool" where
  "recorded s = (sentence_in_range s \<and> (case ns_received_ns s of None \<Rightarrow> True | Some n \<Rightarrow> n \<le> MAX_INTEGER))"

lemma observe_sentences_snoc: "observe_sentences (ss @ [s]) c = snd (telemetry_observe s (observe_sentences ss c))"
  by (simp add: observe_sentences_def)

lemma observe_sentences_ok: "collector_ok c \<Longrightarrow> list_all recorded ss \<Longrightarrow> collector_ok (observe_sentences ss c)"
  by (induction ss rule: rev_induct) (simp_all add: observe_sentences_def telemetry_observe_ok recorded_def)

text \<open>
  C27: Observing a sentence that the parser accepted never raises, whatever was observed before; the
  kept samples are valid, strictly increasing in time and within the capacity, and the counters
  account for every sample emitted.
\<close>

theorem telemetry_history_is_consistent:
  assumes "mk_collector hz stale cap = Inr c" "list_all recorded ss" "recorded s"
  shows "fst (telemetry_observe s (observe_sentences ss c)) = Inr () \<and> collector_ok (observe_sentences (ss @ [s]) c)"
  using telemetry_observe_ok [OF _ _ observe_sentences_ok [OF mk_collector_ok [OF assms(1)] assms(2)]] assms(3)
  by (simp add: recorded_def observe_sentences_snoc)

lemma observe_sentences_views:
  assumes "views c u" "int (length (tc_samples u)) + int (length ss) < history_capacity u"
  shows "views (observe_sentences ss c) (observe_sentences ss u)"
    and "int (length (tc_samples (observe_sentences ss u))) \<le> int (length (tc_samples u)) + int (length ss)
      \<and> history_capacity (observe_sentences ss u) = history_capacity u"
proof -
  have "views (observe_sentences ss c) (observe_sentences ss u)
      \<and> int (length (tc_samples (observe_sentences ss u))) \<le> int (length (tc_samples u)) + int (length ss)
      \<and> history_capacity (observe_sentences ss u) = history_capacity u"
    using assms(2)
  proof (induction ss rule: rev_induct)
    case Nil
    then show ?case using assms(1) by (simp add: observe_sentences_def)
  next
    case (snoc s ss)
    then show ?case
      using views_observe [of "observe_sentences ss c" "observe_sentences ss u" s] observe_length [of s "observe_sentences ss u"]
      by (simp add: observe_sentences_snoc)
  qed
  then show "views (observe_sentences ss c) (observe_sentences ss u)"
    "int (length (tc_samples (observe_sentences ss u))) \<le> int (length (tc_samples u)) + int (length ss)
      \<and> history_capacity (observe_sentences ss u) = history_capacity u" by simp_all
qed

lemma filter_dropped:
  assumes "sorted_wrt (\<lambda>x y. f x < f y) xs" "d \<noteq> 0 \<longrightarrow> f (xs ! (d - 1)) < (a :: int)" "d \<le> length xs"
  shows "filter (\<lambda>x. a \<le> f x \<and> P x) (drop d xs) = filter (\<lambda>x. a \<le> f x \<and> P x) xs"
proof -
  have "f x < a" if "x \<in> set (take d xs)" for x
  proof -
    obtain i where i: "x = xs ! i" "i < d" "i < length xs"
      using \<open>x \<in> set (take d xs)\<close> assms(3) by (metis in_set_conv_nth length_take min.absorb2 nth_take order_less_le_trans)
    have "f (xs ! i) \<le> f (xs ! (d - 1))"
    proof (cases "i = d - 1")
      case False
      then have "i < d - 1" "d - 1 < length xs" using i assms(3) by linarith+
      then show ?thesis using sorted_wrt_nth_less [OF assms(1)] by (simp add: less_imp_le)
    qed simp
    then show ?thesis using assms(2) i by simp
  qed
  then have "filter (\<lambda>x. a \<le> f x \<and> P x) (take d xs) = []" by (fastforce simp: filter_empty_conv)
  then show ?thesis using filter_append [of "\<lambda>x. a \<le> f x \<and> P x" "take d xs" "drop d xs"] by simp
qed

text \<open>
  C15: A window that does not report evicted history shows exactly the samples, in order and up to the
  requested number, that a collector with room for everything would show; a complete window shows all
  of them.
\<close>

theorem telemetry_window_is_faithful:
  assumes "mk_collector hz stale cap = Inr c" "list_all recorded ss"
    and "telemetry_window a b n (observe_sentences ss c) = Inr w"
    and "HISTORY_EVICTED \<notin> set (tw_issues w)"
  shows "tw_samples w = take (nat n) (filter (\<lambda>x. a \<le> tm_monotonic_ns x \<and> tm_monotonic_ns x < b)
           (tc_samples (observe_sentences ss (c\<lparr>history_capacity := int (length ss) + 1\<rparr>))))
     \<and> (window_complete w \<longleftrightarrow> int (length (filter (\<lambda>x. a \<le> tm_monotonic_ns x \<and> tm_monotonic_ns x < b)
           (tc_samples (observe_sentences ss (c\<lparr>history_capacity := int (length ss) + 1\<rparr>))))) \<le> n)"
proof -
  define u where "u = observe_sentences ss (c\<lparr>history_capacity := int (length ss) + 1\<rparr>)"
  define c' where "c' = observe_sentences ss c"
  have c: "collector_ok c" "tc_samples c = []" "evicted_through_ns c = None"
    using mk_collector_ok [OF assms(1)] assms(1) by (auto simp: mk_collector_def result_simps)
  have cu: "collector_ok (c\<lparr>history_capacity := int (length ss) + 1\<rparr>)"
    using c by (auto simp: collector_ok_def history_ok_def fields_ok_def cong: option.case_cong)
  have "views c (c\<lparr>history_capacity := int (length ss) + 1\<rparr>)"
    using c by (simp add: views_def dropped_def collector_ok_def history_ok_def)
  then have v: "views c' u"
    using observe_sentences_views(1) [of c "c\<lparr>history_capacity := int (length ss) + 1\<rparr>" ss] c
    by (simp add: u_def c'_def)
  have "collector_ok u"
    unfolding u_def by (rule observe_sentences_ok [OF cu assms(2)])
  then have s: "sorted_wrt (\<lambda>x y. tm_monotonic_ns x < tm_monotonic_ns y) (tc_samples u)"
    by (simp add: collector_ok_def history_ok_def)
  have "dropped c' u \<noteq> 0 \<longrightarrow> tm_monotonic_ns (tc_samples u ! (dropped c' u - 1)) < a"
    using assms(3,4) v unfolding c'_def [symmetric]
    by (auto simp: telemetry_window_def Let_def result_simps views_def split: if_splits)
  then have "filter (\<lambda>x. a \<le> tm_monotonic_ns x \<and> tm_monotonic_ns x < b) (tc_samples c')
      = filter (\<lambda>x. a \<le> tm_monotonic_ns x \<and> tm_monotonic_ns x < b) (tc_samples u)"
    using filter_dropped [OF s] v by (simp add: views_def dropped_def)
  then show ?thesis
    using assms(3,4) unfolding c'_def [symmetric] u_def [symmetric]
    by (auto simp: telemetry_window_def Let_def result_simps window_complete_def integer_in_iff split: if_splits option.splits)
qed

section \<open>Witnesses\<close>

text \<open>Three position fixes, a second apart, into a history of two.\<close>

definition ex_fix :: "int \<Rightarrow> int \<Rightarrow> NmeaSentence" where
  "ex_fix ns sec = (plain_sentence GGA ''GP'' (Some ns))\<lparr>
     ns_utc_time := Some \<lparr>ut_hour = 12, ut_minute = 0, ut_second = sec, ut_microsecond = 0\<rparr>,
     ns_latitude := Some (Finite 50 0), ns_longitude := Some (Finite 8 0), ns_fix_quality := Some 1,
     navigation_valid := True\<rparr>"

definition ex_collector :: GpsTelemetryCollector where
  "ex_collector = (case mk_collector 10 2000000000 2 of Inr c \<Rightarrow> c | Inl _ \<Rightarrow> undefined)"

lemma ex_collector_new: "mk_collector 10 2000000000 2 = Inr ex_collector"
  by (simp add: ex_collector_def mk_collector_def integer_in_def SECOND_NS_def MAX_TELEMETRY_SAMPLE_HZ_def
    MAX_TELEMETRY_HISTORY_SAMPLES_def)

lemma ex_fix_recorded: "0 \<le> n \<Longrightarrow> n \<le> 1000 \<Longrightarrow> recorded (ex_fix n k)"
  by (simp add: recorded_def ex_fix_def plain_sentence_def sentence_in_range_def opt_within_def opt_between_def MAX_INTEGER_def)

theorem telemetry_history_is_consistent_witness:
  "fst (telemetry_observe (ex_fix 700 2) (observe_sentences [ex_fix 500 0, ex_fix 600 1] ex_collector)) = Inr ()"
  using telemetry_history_is_consistent [OF ex_collector_new, of "[ex_fix 500 0, ex_fix 600 1]" "ex_fix 700 2"]
  by (simp add: ex_fix_recorded)

lemma ex_window: "case telemetry_window 600 800 10 (observe_sentences [ex_fix 500 0, ex_fix 600 1, ex_fix 700 2] ex_collector) of
    Inl _ \<Rightarrow> False | Inr w \<Rightarrow> list_all (\<lambda>i. i \<noteq> HISTORY_EVICTED) (tw_issues w)"
  by code_simp

theorem telemetry_window_is_faithful_witness:
  "\<exists>w. telemetry_window 600 800 10 (observe_sentences [ex_fix 500 0, ex_fix 600 1, ex_fix 700 2] ex_collector) = Inr w
     \<and> tw_samples w = take 10 (filter (\<lambda>x. 600 \<le> tm_monotonic_ns x \<and> tm_monotonic_ns x < 800)
         (tc_samples (observe_sentences [ex_fix 500 0, ex_fix 600 1, ex_fix 700 2] (ex_collector\<lparr>history_capacity := 4\<rparr>))))"
proof -
  obtain w where w: "telemetry_window 600 800 10 (observe_sentences [ex_fix 500 0, ex_fix 600 1, ex_fix 700 2] ex_collector) = Inr w"
      "HISTORY_EVICTED \<notin> set (tw_issues w)"
    using ex_window by (auto simp: list_all_iff split: sum.splits)
  show ?thesis
    using telemetry_window_is_faithful [OF ex_collector_new _ w] w by (simp add: ex_fix_recorded)
qed

end
