(* ===== verification/Gps_Service.thy ===== *)
theory Gps_Service
  imports Nmea_Anchors Gps_Telemetry
begin

text \<open>
  The GPS supervisor: \<^verbatim>\<open>src/dashcam/gps/service.py\<close>. The service reads byte chunks from a serial
  transport, cuts them into lines, feeds the sentences to the anchor tracker and the telemetry
  collector and reconnects with a growing delay. Bytes are characters; the transport, its failures and
  the clock are events (\<open>read_event\<close>, \<open>attempt\<close>) of which the model is a function. Error texts are left out.
\<close>

section \<open>Limits\<close>

datatype GpsState = UART_UNAVAILABLE | RECEIVING_INVALID | TIME_VALID_POSITION_INVALID | NAVIGATION_VALID
  | STALE | FAULTED

datatype GpsServiceError = TRANSPORT_UNAVAILABLE | TRANSPORT_FAILURE | TRANSPORT_PROTOCOL | CLOSE_FAILURE

record GpsServiceLimits =
  read_size_bytes :: int
  open_timeout_s :: pyfloat
  read_timeout_s :: pyfloat
  read_coalesce_s :: pyfloat
  stale_after_s :: pyfloat
  reconnect_min_s :: pyfloat
  reconnect_max_s :: pyfloat
  close_timeout_s :: pyfloat
  max_line_bytes :: int
  max_consecutive_parse_errors :: int
  max_parse_errors_per_second :: int

definition PARSE_RATE_WINDOW_NS :: int where
  "PARSE_RATE_WINDOW_NS = 1000000000"

definition bounded_float :: "pyfloat \<Rightarrow> pyfloat \<Rightarrow> pyfloat \<Rightarrow> unit result" where
  "bounded_float minimum maximum v =
     (if float_le minimum v \<and> float_le v maximum then Inr () else Inl ValueError)"

definition check_limits :: "GpsServiceLimits \<Rightarrow> unit result" where
  "check_limits l =
     bindR (integer_in 1 4096 (read_size_bytes l)) (\<lambda>_.
     bindR (bounded_float (float_decimal 1 3) (Finite 30 0) (open_timeout_s l)) (\<lambda>_.
     bindR (bounded_float (float_decimal 1 3) (Finite 30 0) (read_timeout_s l)) (\<lambda>_.
     bindR (bounded_float (Finite 0 0) (float_decimal 1 1) (read_coalesce_s l)) (\<lambda>_.
     bindR (bounded_float (float_decimal 1 3) (Finite 3600 0) (stale_after_s l)) (\<lambda>_.
     bindR (bounded_float (float_decimal 1 3) (Finite 300 0) (reconnect_min_s l)) (\<lambda>_.
     bindR (bounded_float (float_decimal 1 3) (Finite 300 0) (reconnect_max_s l)) (\<lambda>_.
     if float_less (reconnect_max_s l) (reconnect_min_s l) then Inl ValueError
     else bindR (bounded_float (float_decimal 1 3) (Finite 30 0) (close_timeout_s l)) (\<lambda>_.
     bindR (integer_in 1 (int MAX_NMEA_LINE_BYTES) (max_line_bytes l)) (\<lambda>_.
     bindR (integer_in 1 4096 (max_consecutive_parse_errors l)) (\<lambda>_.
       integer_in 1 10000 (max_parse_errors_per_second l)))))))))))"

definition stale_after_ns :: "GpsServiceLimits \<Rightarrow> int" where
  "stale_after_ns l = (case int_of_float (float_mul (stale_after_s l) (Finite 1000000000 0)) of Inr n \<Rightarrow> n | Inl _ \<Rightarrow> 0)"

section \<open>State\<close>

record GpsCounters =
  connection_attempts :: int
  connections :: int
  reconnects :: int
  disconnects :: int
  read_timeouts :: int
  bytes_received :: int
  lines_received :: int
  valid_sentences :: int
  parse_errors :: int
  checksum_failures :: int
  unsupported_sentences :: int
  oversized_lines :: int
  transport_errors :: int
  valid_fixes :: int
  stale_transitions :: int
  anchor_attempts :: int
  anchor_acceptances :: int
  anchor_confirmations :: int
  anchor_reacquisitions :: int
  anchor_idempotent :: int
  anchor_rejections :: int

datatype anchor_report = NMEA_REFUSED NmeaAnchorError | CLOCK_REFUSED AnchorError

record GpsService =
  gv_limits :: GpsServiceLimits
  gv_tracker :: "NmeaAnchorTracker option"
  gv_collector :: "GpsTelemetryCollector option"
  gv_state :: GpsState
  gv_navigation :: "NmeaSentence option"
  gv_latest_sentence :: "NmeaSentence option"
  gv_connected :: bool
  gv_last_error :: "GpsServiceError option"
  gv_last_parse_error :: "NmeaError option"
  gv_time_state :: GpsTimeState
  gv_time_anchor :: "UtcAnchor option"
  gv_anchor_status :: "AnchorStatus option"
  gv_anchor_error :: "anchor_report option"
  gv_anchor_disagreement_ns :: "int option"
  gv_counters :: GpsCounters
  gv_line_buffer :: string
  gv_discarding :: bool
  gv_last_sentence_ns :: "int option"
  gv_last_navigation_ns :: "int option"
  gv_consecutive_parse_errors :: int
  gv_window_started_ns :: "int option"
  gv_errors_in_window :: int
  gv_had_connection :: bool

definition zero_gps_counters :: GpsCounters where
  "zero_gps_counters = \<lparr>connection_attempts = 0, connections = 0, reconnects = 0, disconnects = 0, read_timeouts = 0,
     bytes_received = 0, lines_received = 0, valid_sentences = 0, parse_errors = 0, checksum_failures = 0,
     unsupported_sentences = 0, oversized_lines = 0, transport_errors = 0, valid_fixes = 0, stale_transitions = 0,
     anchor_attempts = 0, anchor_acceptances = 0, anchor_confirmations = 0, anchor_reacquisitions = 0,
     anchor_idempotent = 0, anchor_rejections = 0\<rparr>"

definition mk_gps_service :: "GpsServiceLimits \<Rightarrow> NmeaAnchorTracker option \<Rightarrow> GpsTelemetryCollector option \<Rightarrow> GpsService" where
  "mk_gps_service l t c = \<lparr>gv_limits = l, gv_tracker = t, gv_collector = c, gv_state = UART_UNAVAILABLE,
     gv_navigation = None, gv_latest_sentence = None, gv_connected = False, gv_last_error = None,
     gv_last_parse_error = None, gv_time_state = UNSYNCED, gv_time_anchor = None, gv_anchor_status = None,
     gv_anchor_error = None, gv_anchor_disagreement_ns = None, gv_counters = zero_gps_counters, gv_line_buffer = [],
     gv_discarding = False, gv_last_sentence_ns = None, gv_last_navigation_ns = None,
     gv_consecutive_parse_errors = 0, gv_window_started_ns = None, gv_errors_in_window = 0,
     gv_had_connection = False\<rparr>"

definition count_gps :: "(GpsCounters \<Rightarrow> GpsCounters) \<Rightarrow> GpsService \<Rightarrow> GpsService" where
  "count_gps f s = s\<lparr>gv_counters := f (gv_counters s)\<rparr>"

text \<open>What a step raises: the service's own protocol error, or an error of the collector.\<close>

datatype service_raise = PROTOCOL_RAISE | UNEXPECTED_RAISE exn

section \<open>Sentences\<close>

definition record_parse_failure :: "int \<Rightarrow> GpsService \<Rightarrow> service_raise option \<times> GpsService" where
  "record_parse_failure received s =
     (let restart = (case gv_window_started_ns s of None \<Rightarrow> True
            | Some w \<Rightarrow> received < w \<or> received - w \<ge> PARSE_RATE_WINDOW_NS);
          s1 = s\<lparr>gv_consecutive_parse_errors := gv_consecutive_parse_errors s + 1,
                 gv_window_started_ns := (if restart then Some received else gv_window_started_ns s),
                 gv_errors_in_window := (if restart then 0 else gv_errors_in_window s) + 1\<rparr>
      in if gv_consecutive_parse_errors s1 \<ge> max_consecutive_parse_errors (gv_limits s1) then (Some PROTOCOL_RAISE, s1)
         else if gv_errors_in_window s1 > max_parse_errors_per_second (gv_limits s1) then (Some PROTOCOL_RAISE, s1)
         else (None, s1))"

definition tracker_state_at :: "NmeaAnchorTracker \<Rightarrow> int option \<Rightarrow> GpsTimeState" where
  "tracker_state_at t m = (case m of
     Some n \<Rightarrow> if n < 0 then (if anchor (tr_clock t) \<noteq> None then GPS_TIME_STALE else UNSYNCED) else tracker_time_state t n
   | None \<Rightarrow> if anchor (tr_clock t) \<noteq> None then GPS_TIME_STALE else UNSYNCED)"

definition count_anchor :: "AnchorStatus \<Rightarrow> GpsCounters \<Rightarrow> GpsCounters" where
  "count_anchor st k = (case st of
     ACCEPTED \<Rightarrow> k\<lparr>anchor_acceptances := anchor_acceptances k + 1\<rparr>
   | CONFIRMED \<Rightarrow> k\<lparr>anchor_confirmations := anchor_confirmations k + 1\<rparr>
   | REACQUIRED \<Rightarrow> k\<lparr>anchor_reacquisitions := anchor_reacquisitions k + 1\<rparr>
   | IDEMPOTENT \<Rightarrow> k\<lparr>anchor_idempotent := anchor_idempotent k + 1\<rparr>
   | REJECTED \<Rightarrow> k\<lparr>anchor_rejections := anchor_rejections k + 1\<rparr>)"

definition service_consider_anchor :: "NmeaSentence \<Rightarrow> GpsService \<Rightarrow> GpsService" where
  "service_consider_anchor x s = (case gv_tracker s of None \<Rightarrow> s
     | Some t \<Rightarrow>
        if ns_type x \<notin> {RMC, ZDA} then s
        else let ob = consider_sentence t x; t' = na_tracker ob;
                 s1 = (count_gps (\<lambda>k. k\<lparr>anchor_attempts := anchor_attempts k + 1\<rparr>) s)
                   \<lparr>gv_tracker := Some t', gv_time_state := tracker_state_at t' (ns_received_ns x),
                    gv_time_anchor := anchor (tr_clock t')\<rparr>
             in (case na_clock_outcome ob of
                   None \<Rightarrow> (count_gps (\<lambda>k. k\<lparr>anchor_rejections := anchor_rejections k + 1\<rparr>) s1)
                     \<lparr>gv_anchor_status := None, gv_anchor_disagreement_ns := None,
                      gv_anchor_error := map_option NMEA_REFUSED (co_error (na_candidate_outcome ob))\<rparr>
                 | Some c \<Rightarrow> (count_gps (count_anchor (ao_status c)) s1)
                     \<lparr>gv_anchor_status := Some (ao_status c), gv_anchor_disagreement_ns := ao_disagreement_ns c,
                      gv_anchor_error := map_option CLOCK_REFUSED (ao_error c)\<rparr>))"

text \<open>The refused line.\<close>

definition handle_refused :: "NmeaError \<Rightarrow> int \<Rightarrow> GpsService \<Rightarrow> service_raise option \<times> GpsService" where
  "handle_refused e received s =
     record_parse_failure received
       ((count_gps (\<lambda>k. k\<lparr>parse_errors := parse_errors k + 1,
            checksum_failures := checksum_failures k + (if e = CHECKSUM_MISMATCH then 1 else 0),
            unsupported_sentences := unsupported_sentences k
              + (if e \<in> {UNSUPPORTED_SENTENCE, UNSUPPORTED_TALKER} then 1 else 0)\<rparr>) s)
         \<lparr>gv_state := (if gv_navigation s \<noteq> None then gv_state s else RECEIVING_INVALID),
          gv_last_parse_error := Some e\<rparr>)"

text \<open>The sentence's own effect on the published state, after the tracker and the collector.\<close>

definition publish_sentence :: "NmeaSentence \<Rightarrow> int \<Rightarrow> GpsService \<Rightarrow> GpsService" where
  "publish_sentence x received s0 =
     (let s = (count_gps (\<lambda>k. k\<lparr>valid_sentences := valid_sentences k + 1\<rparr>) s0)\<lparr>gv_last_sentence_ns := Some received\<rparr>;
          by_time = (if time_anchor_candidate x then TIME_VALID_POSITION_INVALID else RECEIVING_INVALID);
          s' = (if navigation_valid x
                then (count_gps (\<lambda>k. k\<lparr>valid_fixes := valid_fixes k + 1\<rparr>) s)
                  \<lparr>gv_navigation := Some x, gv_last_navigation_ns := Some received, gv_state := NAVIGATION_VALID\<rparr>
                else if ns_type x \<in> {RMC, GGA}
                then s\<lparr>gv_navigation := None, gv_last_navigation_ns := None, gv_state := by_time\<rparr>
                else if gv_navigation s \<noteq> None then s\<lparr>gv_state := NAVIGATION_VALID\<rparr>
                else s\<lparr>gv_state := by_time\<rparr>)
      in s'\<lparr>gv_latest_sentence := Some x, gv_last_error := None, gv_last_parse_error := None\<rparr>)"

definition handle_accepted :: "NmeaSentence \<Rightarrow> int \<Rightarrow> GpsService \<Rightarrow> service_raise option \<times> GpsService" where
  "handle_accepted x received s0 =
     (let s = service_consider_anchor x (s0\<lparr>gv_consecutive_parse_errors := 0\<rparr>) in
      case gv_collector s of None \<Rightarrow> (None, publish_sentence x received s)
      | Some c \<Rightarrow> (case telemetry_observe x c of
            (Inl e, c') \<Rightarrow> (Some (UNEXPECTED_RAISE e), s\<lparr>gv_collector := Some c'\<rparr>)
          | (Inr _, c') \<Rightarrow> (None, publish_sentence x received (s\<lparr>gv_collector := Some c'\<rparr>))))"

definition handle_line :: "string \<Rightarrow> int \<Rightarrow> GpsService \<Rightarrow> service_raise option \<times> GpsService" where
  "handle_line raw received s0 =
     (let s = count_gps (\<lambda>k. k\<lparr>lines_received := lines_received k + 1\<rparr>) s0;
          ob = parse_nmea_line (RawBytes raw) (Some received)
      in if \<not> outcome_ok ob
         then (case po_error ob of None \<Rightarrow> (Some (UNEXPECTED_RAISE AssertionError), s)
               | Some e \<Rightarrow> handle_refused e received s)
         else handle_accepted (the (po_sentence ob)) received s)"

section \<open>Framing\<close>

text \<open>The line that grew past the bound: drop what is buffered and note whether its end was seen.\<close>

definition drop_oversized :: "bool \<Rightarrow> int \<Rightarrow> GpsService \<Rightarrow> service_raise option \<times> GpsService" where
  "drop_oversized discarding received s =
     record_parse_failure received
       ((count_gps (\<lambda>k. k\<lparr>oversized_lines := oversized_lines k + 1, lines_received := lines_received k + 1\<rparr>) s)
         \<lparr>gv_line_buffer := [], gv_discarding := discarding\<rparr>)"

abbreviation LF :: char where
  "LF \<equiv> CHR 0x0A"

function consume_chunk :: "string \<Rightarrow> int \<Rightarrow> GpsService \<Rightarrow> service_raise option \<times> GpsService" where
  "consume_chunk chunk received s =
     (let line = takeWhile (\<lambda>b. b \<noteq> LF) chunk; has_end = LF \<in> set chunk; segment = line @ (if has_end then [LF] else []);
          rest = drop (length segment) chunk; buffered = gv_line_buffer s; bound = max_line_bytes (gv_limits s)
      in if chunk = [] then (None, s)
         else if gv_discarding s
         then (if has_end then consume_chunk rest received (s\<lparr>gv_discarding := False\<rparr>) else (None, s))
         else if int (length buffered + length segment) > bound
         then (case drop_oversized (chunk ! nat (bound - int (length buffered)) \<noteq> LF) received s of
                 (Some e, s1) \<Rightarrow> (Some e, s1)
               | (None, s1) \<Rightarrow> if has_end then consume_chunk rest received (s1\<lparr>gv_discarding := False\<rparr>) else (None, s1))
         else if \<not> has_end then (None, s\<lparr>gv_line_buffer := buffered @ segment\<rparr>)
         else (case handle_line (buffered @ segment) received (s\<lparr>gv_line_buffer := []\<rparr>) of
                 (Some e, s1) \<Rightarrow> (Some e, s1) | (None, s1) \<Rightarrow> consume_chunk rest received s1))"
  by pat_completeness auto

termination
  by (relation "measure (\<lambda>(chunk, _). length chunk)") (auto simp: length_greater_0_conv [symmetric] simp del: length_greater_0_conv)

declare consume_chunk.simps [simp del]

section \<open>Freshness and connections\<close>

definition refresh_freshness :: "int \<Rightarrow> GpsService \<Rightarrow> GpsService" where
  "refresh_freshness now s =
     (let stale = stale_after_ns (gv_limits s);
          navigation = (if gv_navigation s \<noteq> None \<and> (case gv_last_navigation_ns s of None \<Rightarrow> True
                          | Some n \<Rightarrow> now < n \<or> now - n > stale) then None else gv_navigation s);
          sentence_stale = (case gv_last_sentence_ns s of None \<Rightarrow> False | Some n \<Rightarrow> now < n \<or> now - n > stale);
          became_stale = (sentence_stale \<and> gv_state s \<noteq> STALE);
          state = (if became_stale then STALE
            else if navigation = None \<and> gv_navigation s \<noteq> None
            then (case gv_latest_sentence s of
                    Some x \<Rightarrow> if ns_received_ns x = gv_last_sentence_ns s \<and> time_anchor_candidate x
                      then TIME_VALID_POSITION_INVALID else RECEIVING_INVALID
                  | None \<Rightarrow> RECEIVING_INVALID)
            else gv_state s)
      in (if became_stale then count_gps (\<lambda>k. k\<lparr>stale_transitions := stale_transitions k + 1\<rparr>) s else s)
           \<lparr>gv_state := state, gv_navigation := navigation,
            gv_time_state := (case gv_tracker s of None \<Rightarrow> UNSYNCED | Some t \<Rightarrow> tracker_time_state t now)\<rparr>)"

definition on_connected :: "GpsService \<Rightarrow> GpsService" where
  "on_connected s =
     (count_gps (\<lambda>k. k\<lparr>connections := connections k + 1,
                reconnects := reconnects k + (if gv_had_connection s then 1 else 0)\<rparr>) s)
       \<lparr>gv_had_connection := True, gv_line_buffer := [], gv_discarding := False, gv_consecutive_parse_errors := 0,
        gv_window_started_ns := None, gv_errors_in_window := 0,
        gv_state := (if gv_state s \<in> {UART_UNAVAILABLE, FAULTED} then RECEIVING_INVALID else gv_state s),
        gv_connected := True, gv_last_error := None\<rparr>"

definition on_transport_error :: "GpsServiceError \<Rightarrow> bool \<Rightarrow> bool \<Rightarrow> GpsService \<Rightarrow> GpsService" where
  "on_transport_error e disconnected faulted s =
     (let lost = (disconnected \<and> gv_last_sentence_ns s \<noteq> None)
      in (count_gps (\<lambda>k. k\<lparr>transport_errors := transport_errors k + 1,
             disconnects := disconnects k + (if disconnected then 1 else 0),
             stale_transitions := stale_transitions k + (if lost \<and> gv_state s \<noteq> STALE then 1 else 0)\<rparr>) s)
           \<lparr>gv_line_buffer := [], gv_discarding := False,
            gv_state := (if lost then STALE else if faulted then FAULTED else UART_UNAVAILABLE),
            gv_navigation := None, gv_connected := False, gv_last_error := Some e,
            gv_time_state := (if gv_time_anchor s \<noteq> None then GPS_TIME_STALE else UNSYNCED)\<rparr>)"

definition close_transport :: "bool \<Rightarrow> GpsService \<Rightarrow> GpsService" where
  "close_transport closes s =
     (if closes then s\<lparr>gv_connected := False\<rparr>
      else (count_gps (\<lambda>k. k\<lparr>transport_errors := transport_errors k + 1\<rparr>) s)
             \<lparr>gv_connected := False, gv_last_error := Some CLOSE_FAILURE\<rparr>)"

section \<open>The run loop\<close>

text \<open>
  What happens to a read: it returns bytes, with the clock's reading after it, or it fails. A timeout of
  \<^verbatim>\<open>asyncio.wait_for\<close> is an \<^verbatim>\<open>OSError\<close>; any other exception is \<open>OTHER_FAILURE\<close>.
\<close>

datatype transport_failure = OS_FAILURE | OTHER_FAILURE

datatype read_event = ReadReturns string int | ReadFails transport_failure

datatype connected_end = ReadsStopped | ReadsRaised service_raise | ReadsFailed transport_failure

definition read_step :: "string \<Rightarrow> int \<Rightarrow> GpsService \<Rightarrow> service_raise option \<times> GpsService" where
  "read_step chunk now s =
     (if now < 0 then (Some PROTOCOL_RAISE, s)
      else if int (length chunk) > read_size_bytes (gv_limits s) then (Some PROTOCOL_RAISE, s)
      else if chunk = []
      then (None, refresh_freshness now (count_gps (\<lambda>k. k\<lparr>read_timeouts := read_timeouts k + 1\<rparr>) s))
      else (case consume_chunk chunk now
                   (count_gps (\<lambda>k. k\<lparr>bytes_received := bytes_received k + int (length chunk)\<rparr>) s) of
              (Some e, s1) \<Rightarrow> (Some e, s1) | (None, s1) \<Rightarrow> (None, refresh_freshness now s1)))"

text \<open>\<^verbatim>\<open>_read_connected\<close> until a stop is requested: then it returns whether any bytes came.\<close>

fun read_connected :: "read_event list \<Rightarrow> bool \<Rightarrow> GpsService \<Rightarrow> (connected_end \<times> bool) \<times> GpsService" where
  "read_connected [] received s = ((ReadsStopped, received), s)"
| "read_connected (ReadFails f # es) received s = ((ReadsFailed f, received), s)"
| "read_connected (ReadReturns chunk now # es) received s = (case read_step chunk now s of
     (Some e, s1) \<Rightarrow> ((ReadsRaised e, received), s1)
   | (None, s1) \<Rightarrow> read_connected es (received \<or> chunk \<noteq> []) s1)"

text \<open>
  One turn of the loop in \<^verbatim>\<open>run\<close>: opening fails, or a transport is read until it fails or a stop is
  requested, and closed. Only a stopped read reports that it received data.
\<close>

datatype attempt = OpenFails transport_failure | Opened "read_event list" bool

definition attempt_error :: "connected_end \<Rightarrow> (GpsServiceError \<times> bool) option" where
  "attempt_error x = (case x of
     ReadsStopped \<Rightarrow> None
   | ReadsRaised PROTOCOL_RAISE \<Rightarrow> Some (TRANSPORT_PROTOCOL, True)
   | ReadsRaised (UNEXPECTED_RAISE e) \<Rightarrow> Some (TRANSPORT_FAILURE, True)
   | ReadsFailed OS_FAILURE \<Rightarrow> Some (TRANSPORT_FAILURE, False)
   | ReadsFailed OTHER_FAILURE \<Rightarrow> Some (TRANSPORT_FAILURE, True))"

definition run_attempt :: "attempt \<Rightarrow> GpsService \<Rightarrow> (bool \<times> bool) \<times> GpsService" where
  "run_attempt a s0 =
     (let s = count_gps (\<lambda>k. k\<lparr>connection_attempts := connection_attempts k + 1\<rparr>) s0 in
      case a of
        OpenFails OS_FAILURE \<Rightarrow> ((False, False), on_transport_error TRANSPORT_UNAVAILABLE False False s)
      | OpenFails OTHER_FAILURE \<Rightarrow> ((False, False), on_transport_error TRANSPORT_FAILURE False True s)
      | Opened events closes \<Rightarrow>
          (case read_connected events False (on_connected s) of ((x, received), s1) \<Rightarrow>
           (case attempt_error x of
              None \<Rightarrow> ((True, received), close_transport closes s1)
            | Some (e, faulted) \<Rightarrow> ((False, False), close_transport closes (on_transport_error e True faulted s1)))))"

text \<open>
  \<^verbatim>\<open>run\<close> over the attempts that happen, with the delays it waits between them. It ends when an attempt
  was stopped or no further attempt happens.
\<close>

definition double_delay :: "GpsServiceLimits \<Rightarrow> pyfloat \<Rightarrow> pyfloat" where
  "double_delay l d = float_min (float_mul d (Finite 2 0)) (reconnect_max_s l)"

fun run_service :: "attempt list \<Rightarrow> pyfloat \<Rightarrow> GpsService \<Rightarrow> pyfloat list \<times> GpsService" where
  "run_service [] delay s = ([], s)"
| "run_service (a # as) delay s = (case run_attempt a s of ((stopped, received), s1) \<Rightarrow>
     if stopped then ([], s1)
     else let d = (if received then reconnect_min_s (gv_limits s1) else delay)
          in (case run_service as (double_delay (gv_limits s1) d) s1 of (ds, s2) \<Rightarrow> (d # ds, s2)))"

definition service_telemetry_window :: "int \<Rightarrow> int \<Rightarrow> int \<Rightarrow> GpsService \<Rightarrow> GpsTelemetryWindow result" where
  "service_telemetry_window a b n s = (case gv_collector s of None \<Rightarrow> Inl RuntimeError
     | Some c \<Rightarrow> telemetry_window a b n c)"

section \<open>Framing against a byte-at-a-time reference\<close>

text \<open>The reference: one byte, and a sequence of bytes that stops at the first raise.\<close>

definition feed_byte :: "char \<Rightarrow> int \<Rightarrow> GpsService \<Rightarrow> service_raise option \<times> GpsService" where
  "feed_byte b received s =
     (if gv_discarding s then (None, s\<lparr>gv_discarding := (b \<noteq> LF)\<rparr>)
      else if int (length (gv_line_buffer s)) + 1 > max_line_bytes (gv_limits s) then drop_oversized (b \<noteq> LF) received s
      else if b = LF then handle_line (gv_line_buffer s @ [LF]) received (s\<lparr>gv_line_buffer := []\<rparr>)
      else (None, s\<lparr>gv_line_buffer := gv_line_buffer s @ [b]\<rparr>))"

fun feed_bytes :: "string \<Rightarrow> int \<Rightarrow> GpsService \<Rightarrow> service_raise option \<times> GpsService" where
  "feed_bytes [] received s = (None, s)"
| "feed_bytes (b # bs) received s = (case feed_byte b received s of
     (Some e, s1) \<Rightarrow> (Some e, s1) | (None, s1) \<Rightarrow> feed_bytes bs received s1)"

lemma feed_append: "feed_bytes (xs @ ys) r s = (case feed_bytes xs r s of
    (Some e, s1) \<Rightarrow> (Some e, s1) | (None, s1) \<Rightarrow> feed_bytes ys r s1)"
  by (induction xs arbitrary: s) (auto split: prod.split option.split)

lemma framing_kept [simp]:
  "gv_line_buffer (count_gps f s) = gv_line_buffer s" "gv_discarding (count_gps f s) = gv_discarding s"
  "gv_limits (count_gps f s) = gv_limits s"
  by (simp_all add: count_gps_def)

lemma record_parse_failure_kept [simp]:
  "gv_line_buffer (snd (record_parse_failure r s)) = gv_line_buffer s"
  "gv_discarding (snd (record_parse_failure r s)) = gv_discarding s"
  "gv_limits (snd (record_parse_failure r s)) = gv_limits s"
  by (simp_all add: record_parse_failure_def Let_def)

lemma drop_oversized_kept [simp]:
  "gv_line_buffer (snd (drop_oversized d r s)) = []" "gv_discarding (snd (drop_oversized d r s)) = d"
  "gv_limits (snd (drop_oversized d r s)) = gv_limits s"
  by (simp_all add: drop_oversized_def)

lemma drop_oversized_buffer: "drop_oversized d r (s\<lparr>gv_line_buffer := x\<rparr>) = drop_oversized d r s"
  by (simp add: drop_oversized_def count_gps_def)

lemma consider_kept [simp]:
  "gv_line_buffer (service_consider_anchor x s) = gv_line_buffer s"
  "gv_discarding (service_consider_anchor x s) = gv_discarding s"
  "gv_limits (service_consider_anchor x s) = gv_limits s"
  by (simp_all add: service_consider_anchor_def Let_def split: option.split)

lemma publish_kept [simp]:
  "gv_line_buffer (publish_sentence x r s) = gv_line_buffer s"
  "gv_discarding (publish_sentence x r s) = gv_discarding s"
  "gv_limits (publish_sentence x r s) = gv_limits s"
  by (simp_all add: publish_sentence_def Let_def)

lemma handle_line_kept [simp]:
  "gv_line_buffer (snd (handle_line l r s)) = gv_line_buffer s"
  "gv_discarding (snd (handle_line l r s)) = gv_discarding s"
  "gv_limits (snd (handle_line l r s)) = gv_limits s"
  by (simp_all add: handle_line_def handle_refused_def handle_accepted_def Let_def split: option.split prod.split sum.split)

lemma discard_line:
  "gv_discarding s \<Longrightarrow> LF \<notin> set xs \<Longrightarrow> feed_bytes xs r s = (None, s)"
proof (induction xs)
  case (Cons b xs)
  have e: "s\<lparr>gv_discarding := True\<rparr> = s" "b \<noteq> LF" "LF \<notin> set xs" using Cons.prems by (cases s; auto)+
  show ?case using Cons.IH Cons.prems(1) by (simp add: feed_byte_def e)
qed simp

lemma discard_to_end:
  "gv_discarding s \<Longrightarrow> LF \<notin> set xs \<Longrightarrow> feed_bytes (xs @ LF # ys) r s = feed_bytes ys r (s\<lparr>gv_discarding := False\<rparr>)"
  by (simp add: feed_append discard_line feed_byte_def)

lemma buffer_line:
  "\<not> gv_discarding s \<Longrightarrow> LF \<notin> set xs \<Longrightarrow> int (length (gv_line_buffer s) + length xs) \<le> max_line_bytes (gv_limits s) \<Longrightarrow>
     feed_bytes xs r s = (None, s\<lparr>gv_line_buffer := gv_line_buffer s @ xs\<rparr>)"
  by (induction xs arbitrary: s) (auto simp: feed_byte_def)

lemma overflow_line:
  assumes "\<not> gv_discarding s" "LF \<notin> set xs" "int (length (gv_line_buffer s) + length xs) = max_line_bytes (gv_limits s)"
  shows "feed_bytes (xs @ b # ys) r s = (case drop_oversized (b \<noteq> LF) r s of
     (Some e, s1) \<Rightarrow> (Some e, s1) | (None, s1) \<Rightarrow> feed_bytes ys r s1)"
  using assms by (simp add: feed_append buffer_line feed_byte_def drop_oversized_buffer)

lemma split_line: "LF \<in> set chunk \<Longrightarrow> chunk = takeWhile (\<lambda>b. b \<noteq> LF) chunk @ LF # drop (Suc (length (takeWhile (\<lambda>b. b \<noteq> LF) chunk))) chunk"
  by (induction chunk) auto

lemma no_end_line: "LF \<notin> set chunk \<Longrightarrow> takeWhile (\<lambda>b. b \<noteq> LF) chunk = chunk"
  by (auto simp: takeWhile_eq_all_conv)

lemma line_no_end: "LF \<notin> set (takeWhile (\<lambda>b. b \<noteq> LF) chunk)"
  by (auto dest: set_takeWhileD)

text \<open>The oversized case, with the line cut at the byte that crosses the bound.\<close>

lemma oversized_chunk:
  assumes nd: "\<not> gv_discarding s" and l: "LF \<notin> set line" and k: "k = nat (max_line_bytes (gv_limits s) - int (length (gv_line_buffer s)))"
    and b: "int (length (gv_line_buffer s)) \<le> max_line_bytes (gv_limits s)"
  shows "k \<le> length line \<Longrightarrow> feed_bytes (line @ LF # rest) r s = (case drop_oversized ((line @ LF # rest) ! k \<noteq> LF) r s of
       (Some e, s1) \<Rightarrow> (Some e, s1) | (None, s1) \<Rightarrow> feed_bytes rest r (s1\<lparr>gv_discarding := False\<rparr>))"
    and "k < length line \<Longrightarrow> feed_bytes line r s = (case drop_oversized (line ! k \<noteq> LF) r s of
       (Some e, s1) \<Rightarrow> (Some e, s1) | (None, s1) \<Rightarrow> (None, s1))"
proof -
  have tk: "LF \<notin> set (take k line)" "LF \<notin> set (drop (Suc k) line)" using l by (auto dest: in_set_takeD in_set_dropD)
  have len: "int (length (gv_line_buffer s) + length (take k line)) = max_line_bytes (gv_limits s)" if "k \<le> length line"
    using that k b by simp
  have cut: "line = take k line @ line ! k # drop (Suc k) line" "line ! k \<noteq> LF" if "k < length line"
    using that l nth_mem [OF that] by (simp add: id_take_nth_drop [OF that, symmetric], metis)
  have dis: "gv_discarding (snd (drop_oversized d r s)) = d" for d by simp
  show "feed_bytes (line @ LF # rest) r s = (case drop_oversized ((line @ LF # rest) ! k \<noteq> LF) r s of
       (Some e, s1) \<Rightarrow> (Some e, s1) | (None, s1) \<Rightarrow> feed_bytes rest r (s1\<lparr>gv_discarding := False\<rparr>))" if "k \<le> length line"
  proof (cases "k = length line")
    case True
    obtain e s1 where d: "drop_oversized False r s = (e, s1)" by fastforce
    have "s1\<lparr>gv_discarding := False\<rparr> = s1" using dis [of False] d by (cases s1) simp
    then show ?thesis
      using overflow_line [OF nd tk(1) len [OF that], of LF rest] True d by (simp split: option.split)
  next
    case False
    then have lt: "k < length line" using that by simp
    obtain e s1 where d: "drop_oversized True r s = (e, s1)" by fastforce
    have "gv_discarding s1" using dis [of True] d by simp
    moreover have "(line @ LF # rest) ! k = line ! k" using lt by (simp add: nth_append)
    moreover have "feed_bytes (line @ LF # rest) r s = feed_bytes (take k line @ line ! k # drop (Suc k) line @ LF # rest) r s"
      using cut(1) [OF lt] by (metis append.assoc append_Cons)
    ultimately show ?thesis
      using overflow_line [OF nd tk(1) len [OF that], of "line ! k" "drop (Suc k) line @ LF # rest" r] cut(2) [OF lt] d tk(2)
      by (simp add: discard_to_end split: option.split)
  qed
  show "feed_bytes line r s = (case drop_oversized (line ! k \<noteq> LF) r s of
       (Some e, s1) \<Rightarrow> (Some e, s1) | (None, s1) \<Rightarrow> (None, s1))" if lt: "k < length line"
  proof -
    obtain e s1 where d: "drop_oversized True r s = (e, s1)" by fastforce
    have "gv_discarding s1" using dis [of True] d by simp
    then show ?thesis
      using overflow_line [OF nd tk(1) len, of "line ! k" "drop (Suc k) line" r] cut [OF lt] lt d tk(2)
      by (simp add: discard_line split: option.split)
  qed
qed

lemma consume_is_feed:
  "int (length (gv_line_buffer s)) \<le> max_line_bytes (gv_limits s) \<Longrightarrow> consume_chunk chunk r s = feed_bytes chunk r s"
proof (induction "length chunk" arbitrary: chunk s rule: less_induct)
  case (less chunk s)
  define line where "line = takeWhile (\<lambda>b. b \<noteq> LF) chunk"
  define rest where "rest = drop (Suc (length line)) chunk"
  define k where "k = nat (max_line_bytes (gv_limits s) - int (length (gv_line_buffer s)))"
  have l: "LF \<notin> set line" using line_no_end by (simp add: line_def)
  have IH: "consume_chunk rest r s1 = feed_bytes rest r s1"
    if "LF \<in> set chunk" "int (length (gv_line_buffer s1)) \<le> max_line_bytes (gv_limits s1)" for s1
  proof -
    have "length rest < length chunk" using that(1) by (cases chunk) (simp_all add: rest_def)
    then show ?thesis using less.hyps that(2) by blast
  qed
  consider (empty) "chunk = []" | (ended) "chunk = line @ LF # rest" "LF \<in> set chunk" "chunk \<noteq> []"
    | (open_end) "chunk = line" "LF \<notin> set chunk" "chunk \<noteq> []"
  proof (cases "LF \<in> set chunk")
    case True
    then show ?thesis using ended split_line [OF True] unfolding line_def [symmetric] rest_def [symmetric] by fastforce
  next
    case False
    then show ?thesis using empty open_end no_end_line [OF False] unfolding line_def [symmetric] by metis
  qed
  then show ?case
  proof cases
    case empty
    then show ?thesis by (simp add: consume_chunk.simps)
  next
    case open_end
    have step: "consume_chunk chunk r s = (if gv_discarding s then (None, s)
        else if int (length (gv_line_buffer s) + length chunk) > max_line_bytes (gv_limits s)
        then (case drop_oversized (chunk ! k \<noteq> LF) r s of (Some e, s1) \<Rightarrow> (Some e, s1) | (None, s1) \<Rightarrow> (None, s1))
        else (None, s\<lparr>gv_line_buffer := gv_line_buffer s @ chunk\<rparr>))"
      using open_end(2,3)
      by (subst consume_chunk.simps) (simp add: Let_def k_def no_end_line [OF open_end(2)] cong: option.case_cong)
    show ?thesis
    proof (cases "gv_discarding s")
      case True
      then show ?thesis using step discard_line open_end(2) by simp
    next
      case False
      show ?thesis
      proof (cases "int (length (gv_line_buffer s) + length chunk) > max_line_bytes (gv_limits s)")
        case True
        then have "k < length chunk" using less.prems by (simp add: k_def)
        then show ?thesis
          using True False step oversized_chunk(2) [OF False open_end(2) k_def less.prems] by simp
      next
        case fits: False
        then show ?thesis
          using False step buffer_line [OF False open_end(2)] by simp
      qed
    qed
  next
    case ended
    have step: "consume_chunk chunk r s = (if gv_discarding s then consume_chunk rest r (s\<lparr>gv_discarding := False\<rparr>)
        else if int (length (gv_line_buffer s) + length (line @ [LF])) > max_line_bytes (gv_limits s)
        then (case drop_oversized (chunk ! k \<noteq> LF) r s of
                 (Some e, s1) \<Rightarrow> (Some e, s1) | (None, s1) \<Rightarrow> consume_chunk rest r (s1\<lparr>gv_discarding := False\<rparr>))
        else (case handle_line (gv_line_buffer s @ line @ [LF]) r (s\<lparr>gv_line_buffer := []\<rparr>) of
                 (Some e, s1) \<Rightarrow> (Some e, s1) | (None, s1) \<Rightarrow> consume_chunk rest r s1))"
      using ended(2,3)
      by (subst consume_chunk.simps) (simp add: Let_def line_def [symmetric] k_def rest_def cong: option.case_cong)
    show ?thesis
    proof (cases "gv_discarding s")
      case True
      then show ?thesis
        using step IH [of "s\<lparr>gv_discarding := False\<rparr>"] less.prems discard_to_end [OF True l] ended(1,2) by simp
    next
      case nd: False
      show ?thesis
      proof (cases "int (length (gv_line_buffer s) + length (line @ [LF])) > max_line_bytes (gv_limits s)")
        case True
        then have "k \<le> length line" by (simp add: k_def)
        then have o: "feed_bytes chunk r s = (case drop_oversized (chunk ! k \<noteq> LF) r s of
            (Some e, s1) \<Rightarrow> (Some e, s1) | (None, s1) \<Rightarrow> feed_bytes rest r (s1\<lparr>gv_discarding := False\<rparr>))"
          using oversized_chunk(1) [OF nd l k_def less.prems, of rest r] ended(1) by (simp only:)
        obtain e s1 where d: "drop_oversized (chunk ! k \<noteq> LF) r s = (e, s1)" by fastforce
        have "gv_line_buffer s1 = []" "gv_limits s1 = gv_limits s"
          using drop_oversized_kept [of "chunk ! k \<noteq> LF" r s] d by simp_all
        then have "consume_chunk rest r (s1\<lparr>gv_discarding := False\<rparr>) = feed_bytes rest r (s1\<lparr>gv_discarding := False\<rparr>)"
          using IH [OF ended(2), of "s1\<lparr>gv_discarding := False\<rparr>"] less.prems by simp
        then show ?thesis using step o nd True d by (simp split: option.split)
      next
        case False
        obtain e s1 where h: "handle_line (gv_line_buffer s @ line @ [LF]) r (s\<lparr>gv_line_buffer := []\<rparr>) = (e, s1)" by fastforce
        then have "gv_line_buffer s1 = []" "gv_limits s1 = gv_limits s"
          using handle_line_kept [of "gv_line_buffer s @ line @ [LF]" r "s\<lparr>gv_line_buffer := []\<rparr>"] by simp_all
        then have "consume_chunk rest r s1 = feed_bytes rest r s1"
          using IH [OF ended(2), of s1] less.prems by simp
        moreover have "feed_bytes (line @ LF # rest) r s = (case handle_line (gv_line_buffer s @ line @ [LF]) r (s\<lparr>gv_line_buffer := []\<rparr>) of
            (Some e, s1) \<Rightarrow> (Some e, s1) | (None, s1) \<Rightarrow> feed_bytes rest r s1)"
          using False nd buffer_line [OF nd l, of r] by (simp add: feed_append feed_byte_def)
        ultimately show ?thesis
          using step nd False h ended(1) by (simp split: option.split)
      qed
    qed
  qed
qed

section \<open>Invariants of the service\<close>

text \<open>
  The published state agrees with the published position, the buffer respects its bound, and the
  counters account for every line.
\<close>

definition service_ok :: "GpsService \<Rightarrow> bool" where
  "service_ok s = (int (length (gv_line_buffer s)) \<le> max_line_bytes (gv_limits s)
     \<and> (case gv_collector s of None \<Rightarrow> True | Some c \<Rightarrow> collector_ok c)
     \<and> (gv_state s = NAVIGATION_VALID \<longrightarrow> gv_navigation s \<noteq> None)
     \<and> (case gv_navigation s of None \<Rightarrow> True
        | Some x \<Rightarrow> gv_state s \<in> {NAVIGATION_VALID, STALE} \<and> navigation_valid x \<and> sentence_in_range x
            \<and> ns_received_ns x = gv_last_navigation_ns s \<and> gv_last_navigation_ns s \<noteq> None)
     \<and> lines_received (gv_counters s)
         = valid_sentences (gv_counters s) + parse_errors (gv_counters s) + oversized_lines (gv_counters s))"

lemma count_gps_simps [simp]:
  "gv_tracker (count_gps f s) = gv_tracker s" "gv_collector (count_gps f s) = gv_collector s"
  "gv_state (count_gps f s) = gv_state s" "gv_navigation (count_gps f s) = gv_navigation s"
  "gv_last_navigation_ns (count_gps f s) = gv_last_navigation_ns s"
  "gv_last_sentence_ns (count_gps f s) = gv_last_sentence_ns s" "gv_counters (count_gps f s) = f (gv_counters s)"
  "gv_latest_sentence (count_gps f s) = gv_latest_sentence s"
  by (simp_all add: count_gps_def)

lemma record_parse_failure_published [simp]:
  "gv_collector (snd (record_parse_failure r s)) = gv_collector s"
  "gv_state (snd (record_parse_failure r s)) = gv_state s"
  "gv_navigation (snd (record_parse_failure r s)) = gv_navigation s"
  "gv_last_navigation_ns (snd (record_parse_failure r s)) = gv_last_navigation_ns s"
  "gv_counters (snd (record_parse_failure r s)) = gv_counters s"
  by (simp_all add: record_parse_failure_def Let_def)

lemma parse_failure_raises: "fst (record_parse_failure r s) \<in> {None, Some PROTOCOL_RAISE}"
  by (simp add: record_parse_failure_def Let_def)

lemma consider_published [simp]:
  "gv_collector (service_consider_anchor x s) = gv_collector s" "gv_state (service_consider_anchor x s) = gv_state s"
  "gv_navigation (service_consider_anchor x s) = gv_navigation s"
  "gv_last_navigation_ns (service_consider_anchor x s) = gv_last_navigation_ns s"
  "lines_received (gv_counters (service_consider_anchor x s)) = lines_received (gv_counters s)"
  "valid_sentences (gv_counters (service_consider_anchor x s)) = valid_sentences (gv_counters s)"
  "parse_errors (gv_counters (service_consider_anchor x s)) = parse_errors (gv_counters s)"
  "oversized_lines (gv_counters (service_consider_anchor x s)) = oversized_lines (gv_counters s)"
  by (simp_all add: service_consider_anchor_def Let_def count_anchor_def split: option.split AnchorStatus.split)

lemma consider_navigation [simp]: "gv_last_sentence_ns (service_consider_anchor x s) = gv_last_sentence_ns s"
  by (simp add: service_consider_anchor_def Let_def split: option.split)

lemma record_parse_failure_ok: "service_ok s \<Longrightarrow> service_ok (snd (record_parse_failure r s))"
  by (simp add: service_ok_def cong: option.case_cong)

lemma handle_refused_ok:
  assumes "service_ok s"
  shows "fst (handle_refused e r (count_gps (\<lambda>k. k\<lparr>lines_received := lines_received k + 1\<rparr>) s)) \<in> {None, Some PROTOCOL_RAISE}
    \<and> service_ok (snd (handle_refused e r (count_gps (\<lambda>k. k\<lparr>lines_received := lines_received k + 1\<rparr>) s)))"
  unfolding handle_refused_def
  using assms by (intro conjI parse_failure_raises) (auto simp: service_ok_def split: option.splits)

lemma publish_sentence_ok:
  assumes s: "service_ok s" and x: "sentence_in_range x" "ns_received_ns x = Some r"
    and k: "lines_received (gv_counters s')
      = valid_sentences (gv_counters s') + parse_errors (gv_counters s') + oversized_lines (gv_counters s') + 1"
    and e: "gv_line_buffer s' = gv_line_buffer s" "gv_limits s' = gv_limits s" "gv_state s' = gv_state s"
      "gv_navigation s' = gv_navigation s" "gv_last_navigation_ns s' = gv_last_navigation_ns s"
      "case gv_collector s' of None \<Rightarrow> True | Some c \<Rightarrow> collector_ok c"
  shows "service_ok (publish_sentence x r s')"
  using assms by (auto simp: publish_sentence_def Let_def service_ok_def split: option.splits)

lemma handle_accepted_ok:
  assumes s: "service_ok s" and x: "sentence_in_range x" "ns_received_ns x = Some r" "r \<le> MAX_INTEGER"
  shows "fst (handle_accepted x r (count_gps (\<lambda>k. k\<lparr>lines_received := lines_received k + 1\<rparr>) s)) = None
    \<and> service_ok (snd (handle_accepted x r (count_gps (\<lambda>k. k\<lparr>lines_received := lines_received k + 1\<rparr>) s)))"
proof -
  define s1 where "s1 = service_consider_anchor x
    ((count_gps (\<lambda>k. k\<lparr>lines_received := lines_received k + 1\<rparr>) s)\<lparr>gv_consecutive_parse_errors := 0\<rparr>)"
  have s1: "gv_line_buffer s1 = gv_line_buffer s" "gv_limits s1 = gv_limits s" "gv_state s1 = gv_state s"
      "gv_navigation s1 = gv_navigation s" "gv_last_navigation_ns s1 = gv_last_navigation_ns s"
      "gv_collector s1 = gv_collector s"
      "lines_received (gv_counters s1)
        = valid_sentences (gv_counters s1) + parse_errors (gv_counters s1) + oversized_lines (gv_counters s1) + 1"
    using s by (simp_all add: s1_def service_ok_def)
  show ?thesis
  proof (cases "gv_collector s")
    case None
    then show ?thesis
      using publish_sentence_ok [OF s x(1,2) s1(7) s1(1-5)] s1(6) by (simp add: handle_accepted_def Let_def s1_def [symmetric])
  next
    case (Some c)
    then have "collector_ok c" using s by (simp add: service_ok_def)
    then have c: "fst (telemetry_observe x c) = Inr ()" "collector_ok (snd (telemetry_observe x c))"
      using telemetry_observe_ok [OF x(1), of c] x(2,3) by simp_all
    then obtain c' where o: "telemetry_observe x c = (Inr (), c')" "collector_ok c'" by (cases "telemetry_observe x c") auto
    then show ?thesis
      using publish_sentence_ok [OF s x(1,2), of "s1\<lparr>gv_collector := Some c'\<rparr>"] s1 Some
      by (simp add: handle_accepted_def Let_def s1_def [symmetric])
  qed
qed

lemma handle_line_ok:
  assumes "service_ok s" "0 \<le> r" "r \<le> MAX_INTEGER"
  shows "fst (handle_line l r s) \<in> {None, Some PROTOCOL_RAISE} \<and> service_ok (snd (handle_line l r s))"
proof (cases "po_sentence (parse_nmea_line (RawBytes l) (Some r))")
  case None
  then obtain e where "po_error (parse_nmea_line (RawBytes l) (Some r)) = Some e"
    using parse_nmea_line_total by blast
  then show ?thesis using None handle_refused_ok [OF assms(1)] by (simp add: handle_line_def Let_def outcome_ok_def)
next
  case (Some x)
  obtain body where "po_sentence (parse_body body (Some r)) = Some x" using parse_nmea_line_SomeD [OF Some] by blast
  then have "sentence_in_range x" "ns_received_ns x = Some r" using parse_body_SomeD by blast+
  moreover have "po_error (parse_nmea_line (RawBytes l) (Some r)) = None"
    using Some parse_nmea_line_total [of "RawBytes l" "Some r"] by simp
  ultimately show ?thesis
    using Some handle_accepted_ok [OF assms(1) _ _ assms(3)] by (simp add: handle_line_def Let_def outcome_ok_def)
qed

lemma drop_oversized_ok:
  "service_ok s \<Longrightarrow> fst (drop_oversized d r s) \<in> {None, Some PROTOCOL_RAISE} \<and> service_ok (snd (drop_oversized d r s))"
  unfolding drop_oversized_def
  by (intro conjI parse_failure_raises) (auto simp: service_ok_def split: option.splits)

lemma feed_byte_ok:
  assumes s: "service_ok s" and r: "0 \<le> r" "r \<le> MAX_INTEGER"
  shows "fst (feed_byte b r s) \<in> {None, Some PROTOCOL_RAISE} \<and> service_ok (snd (feed_byte b r s))"
proof -
  have "service_ok (s\<lparr>gv_discarding := d\<rparr>)" "service_ok (s\<lparr>gv_line_buffer := []\<rparr>)"
      "int (length (gv_line_buffer s)) + 1 \<le> max_line_bytes (gv_limits s) \<Longrightarrow>
       service_ok (s\<lparr>gv_line_buffer := gv_line_buffer s @ [b]\<rparr>)" for d
    using s by (auto simp: service_ok_def split: option.splits)
  then show ?thesis
    using handle_line_ok [OF _ r] drop_oversized_ok [OF s] by (simp add: feed_byte_def)
qed

lemma feed_bytes_ok:
  "service_ok s \<Longrightarrow> 0 \<le> r \<Longrightarrow> r \<le> MAX_INTEGER \<Longrightarrow>
     fst (feed_bytes bs r s) \<in> {None, Some PROTOCOL_RAISE} \<and> service_ok (snd (feed_bytes bs r s))"
proof (induction bs arbitrary: s)
  case (Cons b bs)
  then show ?case using feed_byte_ok [OF Cons.prems, of b] by (cases "feed_byte b r s") (auto split: option.split)
qed simp

lemma consume_chunk_ok:
  assumes "service_ok s" "0 \<le> r" "r \<le> MAX_INTEGER"
  shows "fst (consume_chunk c r s) \<in> {None, Some PROTOCOL_RAISE} \<and> service_ok (snd (consume_chunk c r s))"
  using feed_bytes_ok [OF assms] consume_is_feed [of s c r] assms(1) by (simp add: service_ok_def)

text \<open>What a published position satisfies right after a freshness check.\<close>

definition position_fresh :: "int \<Rightarrow> GpsService \<Rightarrow> bool" where
  "position_fresh now s = (case gv_navigation s of None \<Rightarrow> True
     | Some x \<Rightarrow> (case ns_received_ns x of None \<Rightarrow> False
         | Some n \<Rightarrow> n \<le> now \<and> now - n \<le> stale_after_ns (gv_limits s)))"

lemma refresh_freshness_ok:
  assumes s: "service_ok s"
  shows "service_ok (refresh_freshness now s) \<and> position_fresh now (refresh_freshness now s)"
proof -
  let ?t = "refresh_freshness now s"
  have k: "gv_limits ?t = gv_limits s" "gv_line_buffer ?t = gv_line_buffer s" "gv_collector ?t = gv_collector s"
      "gv_last_navigation_ns ?t = gv_last_navigation_ns s"
      "lines_received (gv_counters ?t) = lines_received (gv_counters s)"
      "valid_sentences (gv_counters ?t) = valid_sentences (gv_counters s)"
      "parse_errors (gv_counters ?t) = parse_errors (gv_counters s)"
      "oversized_lines (gv_counters ?t) = oversized_lines (gv_counters s)"
    by (simp_all add: refresh_freshness_def Let_def)
  have state: "gv_state ?t = STALE \<or> gv_state ?t = gv_state s
      \<or> gv_navigation ?t = None \<and> gv_state ?t \<in> {TIME_VALID_POSITION_INVALID, RECEIVING_INVALID}"
    by (simp add: refresh_freshness_def Let_def split: option.split)
  have lost: "gv_state ?t \<noteq> NAVIGATION_VALID" if "gv_navigation ?t = None" "gv_navigation s \<noteq> None"
    using that unfolding refresh_freshness_def Let_def by (simp split: option.split)
  have none: "gv_state s \<noteq> NAVIGATION_VALID" if "gv_navigation s = None"
    using that s by (auto simp: service_ok_def)
  have kept: "gv_navigation ?t = gv_navigation s \<and> (case gv_last_navigation_ns s of None \<Rightarrow> False
      | Some n \<Rightarrow> n \<le> now \<and> now - n \<le> stale_after_ns (gv_limits s))" if "gv_navigation ?t \<noteq> None"
    using that unfolding refresh_freshness_def Let_def by (auto split: if_splits option.splits)
  show ?thesis
  proof (cases "gv_navigation ?t")
    case None
    then have "gv_state ?t \<noteq> NAVIGATION_VALID" using state lost none by fastforce
    then show ?thesis using s k None by (simp add: service_ok_def position_fresh_def)
  next
    case (Some x)
    then have x: "gv_navigation s = Some x" using kept by simp
    obtain n where n: "gv_last_navigation_ns s = Some n" "n \<le> now" "now - n \<le> stale_after_ns (gv_limits s)"
      using kept Some by (auto split: option.splits)
    have "gv_state ?t \<in> {NAVIGATION_VALID, STALE}" using state s x Some by (auto simp: service_ok_def)
    then show ?thesis using s k x n Some by (simp add: service_ok_def position_fresh_def)
  qed
qed

lemma read_step_ok:
  assumes "service_ok s" "now \<le> MAX_INTEGER"
  shows "fst (read_step chunk now s) \<in> {None, Some PROTOCOL_RAISE} \<and> service_ok (snd (read_step chunk now s))
    \<and> (fst (read_step chunk now s) = None \<longrightarrow> position_fresh now (snd (read_step chunk now s)))"
proof -
  have k: "service_ok (count_gps f s)"
    if "\<And>k. lines_received (f k) = lines_received k \<and> valid_sentences (f k) = valid_sentences k
      \<and> parse_errors (f k) = parse_errors k \<and> oversized_lines (f k) = oversized_lines k" for f
    using assms(1) that by (simp add: service_ok_def cong: option.case_cong)
  let ?s = "count_gps (\<lambda>k. k\<lparr>bytes_received := bytes_received k + int (length chunk)\<rparr>) s"
  obtain e s1 where c: "consume_chunk chunk now ?s = (e, s1)" by fastforce
  show ?thesis
    using c k consume_chunk_ok [of ?s now chunk] assms refresh_freshness_ok [of s1] refresh_freshness_ok
    by (auto simp: read_step_def split: option.split)
qed

definition event_clock_ok :: "read_event \<Rightarrow> bool" where
  "event_clock_ok e = (case e of ReadReturns _ now \<Rightarrow> now \<le> MAX_INTEGER | ReadFails _ \<Rightarrow> True)"

definition attempt_clock_ok :: "attempt \<Rightarrow> bool" where
  "attempt_clock_ok a = (case a of OpenFails _ \<Rightarrow> True | Opened es _ \<Rightarrow> list_all event_clock_ok es)"

lemma feed_bytes_limits: "gv_limits (snd (feed_bytes bs r s)) = gv_limits s"
proof (induction bs arbitrary: s)
  case (Cons b bs)
  have "gv_limits (snd (feed_byte b r s)) = gv_limits s" by (simp add: feed_byte_def)
  then show ?case using Cons by (cases "feed_byte b r s") (simp split: option.split)
qed simp

lemma read_step_limits:
  assumes "service_ok s"
  shows "gv_limits (snd (read_step chunk now s)) = gv_limits s"
proof -
  let ?s = "count_gps (\<lambda>k. k\<lparr>bytes_received := bytes_received k + int (length chunk)\<rparr>) s"
  have "gv_limits (snd (consume_chunk chunk now ?s)) = gv_limits s"
    using consume_is_feed [of ?s chunk now] feed_bytes_limits [of chunk now ?s] assms by (simp add: service_ok_def)
  then show ?thesis
    by (cases "consume_chunk chunk now ?s") (simp add: read_step_def refresh_freshness_def Let_def split: option.split)
qed

lemma read_connected_ok:
  assumes "service_ok s" "list_all event_clock_ok es"
  shows "service_ok (snd (read_connected es received s)) \<and> gv_limits (snd (read_connected es received s)) = gv_limits s"
  using assms
proof (induction es received s rule: read_connected.induct)
  case (3 chunk now es received s)
  obtain e s1 where r: "read_step chunk now s = (e, s1)" by fastforce
  then have "service_ok s1" "gv_limits s1 = gv_limits s"
    using read_step_ok [of s now chunk] read_step_limits [of s chunk now] 3 by (simp_all add: event_clock_ok_def)
  then show ?case using 3 r by (cases e) (simp_all add: event_clock_ok_def)
qed simp_all

lemma transport_steps_ok:
  assumes "service_ok s"
  shows "service_ok (on_transport_error e disconnected faulted s)" "service_ok (close_transport closes s)"
    "0 \<le> max_line_bytes (gv_limits s) \<Longrightarrow> service_ok (on_connected s)"
  using assms
  by (auto simp: service_ok_def on_transport_error_def close_transport_def on_connected_def Let_def split: option.splits)

lemma transport_steps_limits [simp]:
  "gv_limits (on_transport_error e disconnected faulted s) = gv_limits s"
  "gv_limits (close_transport closes s) = gv_limits s" "gv_limits (on_connected s) = gv_limits s"
  by (simp_all add: on_transport_error_def close_transport_def on_connected_def Let_def)

lemma run_attempt_ok:
  assumes s: "service_ok s" and a: "attempt_clock_ok a"
  shows "service_ok (snd (run_attempt a s)) \<and> gv_limits (snd (run_attempt a s)) = gv_limits s
    \<and> (fst (run_attempt a s) = (False, False) \<or> fst (fst (run_attempt a s)))"
proof -
  let ?s = "count_gps (\<lambda>k. k\<lparr>connection_attempts := connection_attempts k + 1\<rparr>) s"
  have k: "service_ok ?s" using s by (simp add: service_ok_def cong: option.case_cong)
  show ?thesis
  proof (cases a)
    case (OpenFails f)
    then show ?thesis using k by (cases f) (simp_all add: run_attempt_def transport_steps_ok)
  next
    case (Opened es closes)
    have "0 \<le> max_line_bytes (gv_limits s)" using s by (simp add: service_ok_def)
    then have c: "service_ok (on_connected ?s)" using k by (simp add: transport_steps_ok)
    obtain x received s1 where r: "read_connected es False (on_connected ?s) = ((x, received), s1)" by (metis surj_pair)
    then have "service_ok s1" "gv_limits s1 = gv_limits s"
      using read_connected_ok [OF c, of es False] a Opened by (simp_all add: attempt_clock_ok_def)
    then show ?thesis
      using Opened r by (simp add: run_attempt_def Let_def transport_steps_ok split: option.split)
  qed
qed

lemma mk_gps_service_ok:
  "check_limits l = Inr () \<Longrightarrow> (case c of None \<Rightarrow> True | Some x \<Rightarrow> collector_ok x) \<Longrightarrow> service_ok (mk_gps_service l t c)"
  by (simp add: service_ok_def mk_gps_service_def zero_gps_counters_def check_limits_def result_simps integer_in_iff
    split: option.splits)

lemma run_service_ok:
  "service_ok s \<Longrightarrow> list_all attempt_clock_ok as \<Longrightarrow> service_ok (snd (run_service as d s))"
proof (induction as arbitrary: d s)
  case (Cons a as)
  obtain st rc s1 where r: "run_attempt a s = ((st, rc), s1)" by (metis surj_pair)
  then have "service_ok s1" using run_attempt_ok [of s a] Cons.prems by simp
  then show ?case
    using Cons.IH [of s1] Cons.prems(2) r by (simp add: Let_def split_beta)
qed simp

section \<open>Properties\<close>


text \<open>
  C14: Whatever the transport delivers and however it fails, the service keeps running in a consistent
  state: the line buffer stays within its bound, a published position was valid and in range, the state
  says so, and every line is counted once.
\<close>

theorem gps_service_stays_consistent:
  assumes "check_limits l = Inr ()" "case c of None \<Rightarrow> True | Some x \<Rightarrow> collector_ok x"
    and "list_all attempt_clock_ok as"
  shows "service_ok (snd (run_service as (reconnect_min_s l) (mk_gps_service l t c)))"
  by (rule run_service_ok [OF mk_gps_service_ok [OF assms(1,2)] assms(3)])

lemma double_delay_within:
  assumes "within 0 300 d" "within 0 300 (reconnect_max_s l)"
  shows "within 0 300 (double_delay l d) \<and> float_le (double_delay l d) (reconnect_max_s l)"
proof -
  obtain m k where m: "reconnect_max_s l = Finite m k" using assms(2) by (cases "reconnect_max_s l") auto
  have "within 0 (int (300 * 2)) (float_mul d (Finite 2 0))"
    using assms(1) by (intro float_mul_within) simp_all
  then obtain n j where n: "float_mul d (Finite 2 0) = Finite n j" "0 \<le> n" by (cases "float_mul d (Finite 2 0)") auto
  show ?thesis
  proof (cases "m * 2 ^ j < n * 2 ^ k")
    case True
    then show ?thesis using assms(2) m n by (simp add: double_delay_def)
  next
    case False
    have "float_le (Finite n j) (Finite 300 0)"
      by (rule float_le_trans [of _ "Finite m k"]) (use False assms(2) m in simp_all)
    then show ?thesis using False m n by (simp add: double_delay_def)
  qed
qed

lemma run_service_delays:
  "service_ok s \<Longrightarrow> list_all attempt_clock_ok as \<Longrightarrow> gv_limits s = l \<Longrightarrow>
     fst (run_service as d s) = map (\<lambda>i. (double_delay l ^^ i) d) [0..<length (fst (run_service as d s))]"
proof (induction as arbitrary: d s)
  case (Cons a as)
  obtain st rc s1 where r: "run_attempt a s = ((st, rc), s1)" by (metis surj_pair)
  note ok = run_attempt_ok [OF Cons.prems(1), of a]
  show ?case
  proof (cases st)
    case True
    then show ?thesis using r by simp
  next
    case False
    then have s1: "\<not> rc" "service_ok s1" "gv_limits s1 = l" using ok r Cons.prems by auto
    obtain ds s2 where q: "run_service as (double_delay l d) s1 = (ds, s2)" by fastforce
    have ds: "ds = map (\<lambda>i. (double_delay l ^^ i) (double_delay l d)) [0..<length ds]"
      using Cons.IH [OF s1(2) _ s1(3), of "double_delay l d"] Cons.prems q by simp
    have "map (\<lambda>i. (double_delay l ^^ i) d) [0..<Suc (length ds)] = d # ds"
      using ds by (simp add: map_upt_Suc funpow_swap1 del: upt_Suc)
    then show ?thesis using False s1 r q by (simp add: Let_def del: upt_Suc)
  qed
qed simp

text \<open>
  C40: The delays between reconnections double from the minimum up to the maximum and depend only on the
  number of attempts: a session that delivered data does not start the series again.
\<close>

theorem reconnect_delays_only_grow:
  assumes "check_limits l = Inr ()" "case c of None \<Rightarrow> True | Some x \<Rightarrow> collector_ok x"
    and "list_all attempt_clock_ok as" and "ds = fst (run_service as (reconnect_min_s l) (mk_gps_service l t c))"
  shows "ds = map (\<lambda>i. (double_delay l ^^ i) (reconnect_min_s l)) [0..<length ds]
    \<and> list_all (\<lambda>d. float_le d (reconnect_max_s l)) ds"
proof -
  have ds: "ds = map (\<lambda>i. (double_delay l ^^ i) (reconnect_min_s l)) [0..<length ds]"
    using run_service_delays [OF mk_gps_service_ok [OF assms(1,2)] assms(3), where l = l] assms(4)
    by (simp add: mk_gps_service_def)
  have lim: "float_le (float_decimal 1 3) (reconnect_min_s l)" "float_le (reconnect_min_s l) (Finite 300 0)"
      "float_le (float_decimal 1 3) (reconnect_max_s l)" "float_le (reconnect_max_s l) (Finite 300 0)"
      "\<not> float_less (reconnect_max_s l) (reconnect_min_s l)"
    using assms(1) by (simp_all add: check_limits_def bounded_float_def result_simps split: if_splits)
  have "within 0 (int 1) (float_decimal 1 3)" unfolding float_decimal_def by (rule float_signed_within) simp_all
  then have "float_le (Finite 0 0) (float_decimal 1 3)" by (simp add: within_def)
  then have w: "within 0 300 (reconnect_min_s l)" "within 0 300 (reconnect_max_s l)"
    using lim float_le_trans unfolding within_def by blast+
  have "float_le (reconnect_min_s l) (reconnect_max_s l)"
    using lim(5) w by (cases "reconnect_min_s l"; cases "reconnect_max_s l") simp_all
  then have "within 0 300 ((double_delay l ^^ i) (reconnect_min_s l))
      \<and> float_le ((double_delay l ^^ i) (reconnect_min_s l)) (reconnect_max_s l)" for i
    by (induction i) (use w double_delay_within in auto)
  then have "\<forall>d \<in> set (map (\<lambda>i. (double_delay l ^^ i) (reconnect_min_s l)) [0..<length ds]). float_le d (reconnect_max_s l)"
    by simp
  then show ?thesis using ds by (metis list_all_iff)
qed

section \<open>Witnesses\<close>

definition ex_limits :: GpsServiceLimits where
  "ex_limits = \<lparr>read_size_bytes = 256, open_timeout_s = Finite 2 0, read_timeout_s = Finite 1 2, read_coalesce_s = Finite 0 0,
     stale_after_s = Finite 2 0, reconnect_min_s = Finite 1 2, reconnect_max_s = Finite 30 0,
     close_timeout_s = Finite 1 0, max_line_bytes = 82, max_consecutive_parse_errors = 32,
     max_parse_errors_per_second = 384\<rparr>"

lemma ex_limits_ok: "check_limits ex_limits = Inr ()"
proof -
  have "float_decimal 1 3 = Finite 4611686018427388 62"
    by (simp add: float_decimal_def float_signed_def float_of_ratio_def binary_scale_def scaled_def bit_count.simps
      round_quotient_def)
  moreover have "within 0 (int 1) (float_decimal 1 1)"
    unfolding float_decimal_def by (rule float_signed_within) simp_all
  ultimately show ?thesis
    by (simp add: check_limits_def ex_limits_def bounded_float_def integer_in_def MAX_NMEA_LINE_BYTES_def within_def)
qed


theorem gps_service_stays_consistent_witness:
  "service_ok (snd (run_service [OpenFails OS_FAILURE, Opened [ReadReturns ''$GP'' 5, ReadFails OS_FAILURE] False]
     (reconnect_min_s ex_limits) (mk_gps_service ex_limits None (Some ex_collector))))"
  using gps_service_stays_consistent [OF ex_limits_ok, of "Some ex_collector"] mk_collector_ok [OF ex_collector_new]
  by (simp add: attempt_clock_ok_def event_clock_ok_def MAX_INTEGER_def del: run_service.simps)

theorem reconnect_delays_only_grow_witness:
  "\<exists>ds. ds = fst (run_service [OpenFails OS_FAILURE, Opened [ReadReturns ''$GP'' 5, ReadFails OS_FAILURE] True]
       (reconnect_min_s ex_limits) (mk_gps_service ex_limits None None))
     \<and> list_all (\<lambda>d. float_le d (reconnect_max_s ex_limits)) ds"
  using reconnect_delays_only_grow [OF ex_limits_ok, of None "[OpenFails OS_FAILURE,
      Opened [ReadReturns ''$GP'' 5, ReadFails OS_FAILURE] True]", OF _ _ refl]
  by (simp add: attempt_clock_ok_def event_clock_ok_def MAX_INTEGER_def del: run_service.simps)

end
