(* ===== verification/Durable_Files.thy ===== *)
theory Durable_Files
  imports Startup_Recovery
begin

text \<open>
  The finalizer's filesystem seam: the protocol \<^verbatim>\<open>FinalizationFilesystem\<close> and its production
  adapter \<^verbatim>\<open>DurableRootedFinalizationFilesystem\<close> of \<^verbatim>\<open>src/dashcam/recorder/finalizer.py\<close>, on the
  disks and with the fault schedules of \<open>Managed_Files\<close>. Symbolic links, foreign devices and the
  temporary sibling of a staged sidecar are part of what a fault stands for. The adapter accepts
  leaf paths of the four managed directories only. \<open>canonical\<close> stands for
  \<^verbatim>\<open>ClipSidecar.to_canonical_json\<close>. The locale \<open>finalization_filesystem\<close> extends the contract of
  the startup pass and is interpreted on the adapter.
\<close>

section \<open>The protocol\<close>

record 'f FinalizationFilesystem =
  base_filesystem :: "'f CatalogFilesystem"
  fs_sync_file :: "string \<Rightarrow> 'f \<Rightarrow> unit result \<times> 'f"
  fs_write_staged_sidecar :: "string \<Rightarrow> ClipSidecar \<Rightarrow> 'f \<Rightarrow> unit result \<times> 'f"

section \<open>The adapter\<close>

definition safe_directory :: "string \<Rightarrow> disk \<Rightarrow> unit result" where
  "safe_directory name d = (if name \<notin> set (present_directories d) then Inl FileNotFoundError else Inr ())"

definition safe_path :: "string \<Rightarrow> disk \<Rightarrow> string result" where
  "safe_path p d =
     bindR (mk_pair_paths p ''__validation__.json'' None None) (\<lambda>_.
     if length (split_slash p) \<noteq> 2 \<or> hd (split_slash p) \<notin> set MANAGED_DIRECTORIES then Inl FinalizationRefused
     else bindR (safe_directory (hd (split_slash p)) d) (\<lambda>_. Inr p))"

definition durable_exists :: "string \<Rightarrow> disk \<Rightarrow> bool result \<times> disk" where
  "durable_exists p = with_faults (\<lambda>d. case safe_path p d of Inl e \<Rightarrow> (Inl e, d)
     | Inr q \<Rightarrow> (Inr (map_of (files d) q \<noteq> None), d))"

definition durable_move :: "string \<Rightarrow> string \<Rightarrow> disk \<Rightarrow> unit result \<times> disk" where
  "durable_move s t = with_faults (\<lambda>d. case safe_path s d of Inl e \<Rightarrow> (Inl e, d)
     | Inr sp \<Rightarrow> (case safe_path t d of Inl e \<Rightarrow> (Inl e, d)
     | Inr tp \<Rightarrow> rename_no_replace sp tp d))"

definition durable_unlink :: "string \<Rightarrow> disk \<Rightarrow> unit result \<times> disk" where
  "durable_unlink p = with_faults (\<lambda>d. case safe_path p d of Inl e \<Rightarrow> (Inl e, d)
     | Inr q \<Rightarrow> (Inr (), d\<lparr>files := AList.delete q (files d)\<rparr>))"

definition durable_iter_files :: "string \<Rightarrow> int \<Rightarrow> disk \<Rightarrow> (string list \<times> int \<times> bool) result \<times> disk" where
  "durable_iter_files dir lim = with_faults (\<lambda>d.
     if dir \<notin> set MANAGED_DIRECTORIES then (Inl ValueError, d)
     else case bindR (positive_bound lim) (\<lambda>_. safe_directory dir d) of Inl e \<Rightarrow> (Inl e, d) | Inr _ \<Rightarrow>
       let entries = filter (\<lambda>p. path_parent p = dir) (map fst (files d));
           examined = take (nat lim) entries
       in (Inr (sort_key casefold examined, int (length examined), length entries > nat lim), d))"

definition durable_read_bytes :: "string \<Rightarrow> int \<Rightarrow> disk \<Rightarrow> bytes result \<times> disk" where
  "durable_read_bytes p maximum = with_faults (\<lambda>d.
     case bindR (positive_bound maximum) (\<lambda>_. safe_path p d) of Inl e \<Rightarrow> (Inl e, d)
     | Inr q \<Rightarrow> (case map_of (files d) q of None \<Rightarrow> (Inl FileNotFoundError, d)
     | Some v \<Rightarrow> if int (length v) > maximum then (Inl ValueError, d) else (Inr v, d)))"

definition durable_file_size :: "string \<Rightarrow> disk \<Rightarrow> int result \<times> disk" where
  "durable_file_size p = with_faults (\<lambda>d. case safe_path p d of Inl e \<Rightarrow> (Inl e, d)
     | Inr q \<Rightarrow> (case map_of (files d) q of None \<Rightarrow> (Inl FileNotFoundError, d)
                | Some v \<Rightarrow> (Inr (int (length v)), d)))"

definition durable_sync_file :: "string \<Rightarrow> disk \<Rightarrow> unit result \<times> disk" where
  "durable_sync_file p = with_faults (\<lambda>d. case safe_path p d of Inl e \<Rightarrow> (Inl e, d)
     | Inr q \<Rightarrow> (if map_of (files d) q = None then Inl FileNotFoundError else Inr (), d))"

definition durable_write_staged_sidecar :: "(ClipSidecar \<Rightarrow> bytes) \<Rightarrow> string \<Rightarrow> ClipSidecar \<Rightarrow> disk
    \<Rightarrow> unit result \<times> disk" where
  "durable_write_staged_sidecar canonical p sc = with_faults (\<lambda>d. case safe_path p d of Inl e \<Rightarrow> (Inl e, d)
     | Inr q \<Rightarrow> (if map_of (files d) q \<noteq> None then (Inl FileExistsError, d)
                else (Inr (), d\<lparr>files := AList.update q (canonical sc) (files d)\<rparr>)))"

text \<open>\<^verbatim>\<open>replace_bytes_atomic\<close> is inherited.\<close>

definition DurableFilesystem :: "disk CatalogFilesystem" where
  "DurableFilesystem = \<lparr>fs_exists = durable_exists, fs_move = durable_move, fs_unlink = durable_unlink,
     fs_iter_files = durable_iter_files, fs_read_bytes = durable_read_bytes,
     fs_file_size = durable_file_size, fs_replace_bytes_atomic = rooted_replace_bytes_atomic\<rparr>"

definition DurableRootedFinalizationFilesystem :: "(ClipSidecar \<Rightarrow> bytes) \<Rightarrow> disk FinalizationFilesystem" where
  "DurableRootedFinalizationFilesystem canonical = \<lparr>base_filesystem = DurableFilesystem,
     fs_sync_file = durable_sync_file, fs_write_staged_sidecar = durable_write_staged_sidecar canonical\<rparr>"

section \<open>What the finalizer relies on\<close>

locale finalization_filesystem = listed_filesystem "base_filesystem fs" view healthy
  for fs :: "'f FinalizationFilesystem" and view and healthy +
  fixes encode :: "ClipSidecar \<Rightarrow> bytes"
  assumes sync_view: "fs_sync_file fs p s = (ru, s') \<Longrightarrow> view s' = view s"
    and stage_view: "fs_write_staged_sidecar fs p sc s = (ru, s') \<Longrightarrow>
      (ru = Inr () \<longrightarrow> view s p = None \<and> view s' = (view s)(p \<mapsto> encode sc))
      \<and> (view s' = view s \<or> view s p = None \<and> view s' = (view s)(p \<mapsto> encode sc))"
    and read_healthy: "healthy s p \<Longrightarrow> view s p = Some v \<Longrightarrow> 0 < n \<Longrightarrow> int (length v) \<le> n \<Longrightarrow>
      \<exists>s'. fs_read_bytes (base_filesystem fs) p n s = (Inr v, s') \<and> (\<forall>q. healthy s q \<longrightarrow> healthy s' q)"

section \<open>The adapter keeps the contract\<close>

definition durable_healthy :: "disk \<Rightarrow> string \<Rightarrow> bool" where
  "durable_healthy d p = (quiet d \<and> safe_path p d = Inr p)"

lemma safe_pathD: "safe_path p d = Inr q \<Longrightarrow> q = p"
  by (auto simp: safe_path_def result_simps split: if_splits)

lemma safe_path_cong:
  "present_directories d = present_directories d' \<Longrightarrow> safe_path p d = safe_path p d'"
  by (simp add: safe_path_def safe_directory_def)

text \<open>A call on a healthy path that keeps the directories and draws no further fault.\<close>

lemma durable_quiet:
  assumes "durable_healthy d p"
  obtains d1 where "\<And>body :: disk \<Rightarrow> 'a result \<times> disk. with_faults body d = body d1" "files d1 = files d"
    "present_directories d1 = present_directories d" "quiet d1" "\<And>q. durable_healthy d q \<Longrightarrow> safe_path q d1 = Inr q"
proof -
  obtain f d1 where f: "take_fault d = (f, d1)" by fastforce
  have "f = NoFault" "quiet d1" "files d1 = files d" "present_directories d1 = present_directories d"
    using take_fault_quiet [of d] take_fault_files [of d] f assms by (simp_all add: durable_healthy_def)
  with f safe_path_cong [of d1 d] show ?thesis
    by (intro that [of d1]) (simp_all add: with_faults_def durable_healthy_def)
qed

lemma durable_healthy_mono:
  "quiet d' \<Longrightarrow> present_directories d' = present_directories d \<Longrightarrow> durable_healthy d q \<Longrightarrow> durable_healthy d' q"
  using safe_path_cong [of d' d] by (simp add: durable_healthy_def)

lemma durable_exists_view:
  assumes "durable_exists p d = (r, d')"
  shows "map_of (files d') = map_of (files d) \<and> (\<forall>b. r = Inr b \<longrightarrow> b = (map_of (files d) p \<noteq> None))"
  using assms unfolding durable_exists_def
  by (cases rule: with_faults_cases) (auto split: sum.splits dest: safe_pathD)

lemma durable_move_view:
  assumes "durable_move p q d = (r, d')"
  shows "(r = Inr () \<longrightarrow> moved (map_of (files d)) p q (map_of (files d')))
    \<and> (map_of (files d') = map_of (files d) \<or> moved (map_of (files d)) p q (map_of (files d')))"
  using assms unfolding durable_move_def
proof (cases rule: with_faults_cases)
  case before
  then show ?thesis by simp
next
  case (body d1 r1)
  then show ?thesis
    by (auto split: sum.splits dest!: safe_pathD rename_no_replace_view)
qed

lemma durable_unlink_view:
  assumes "durable_unlink p d = (r, d')"
  shows "(r = Inr () \<longrightarrow> map_of (files d') = (map_of (files d))(p := None))
    \<and> (map_of (files d') = map_of (files d) \<or> map_of (files d') = (map_of (files d))(p := None))"
  using assms unfolding durable_unlink_def
  by (cases rule: with_faults_cases) (auto simp: delete_conv' split: sum.splits dest: safe_pathD)

lemma durable_read_view:
  assumes "durable_read_bytes p n d = (r, d')"
  shows "map_of (files d') = map_of (files d) \<and> (\<forall>v. r = Inr v \<longrightarrow> map_of (files d) p = Some v)"
  using assms unfolding durable_read_bytes_def
  by (cases rule: with_faults_cases)
    (auto simp: result_simps split: sum.splits option.splits if_splits dest: safe_pathD)

lemma durable_size_view:
  assumes "durable_file_size p d = (r, d')"
  shows "map_of (files d') = map_of (files d)
    \<and> (\<forall>n. r = Inr n \<longrightarrow> (\<exists>v. map_of (files d) p = Some v \<and> n = int (length v)))"
  using assms unfolding durable_file_size_def
  by (cases rule: with_faults_cases) (auto split: sum.splits option.splits dest: safe_pathD)

lemma durable_iter_view:
  assumes "durable_iter_files dir n d = (r, d')"
  shows "map_of (files d') = map_of (files d) \<and> (\<forall>ps k t. r = Inr (ps, k, t) \<longrightarrow> 0 \<le> k \<and> k \<le> n)"
  using assms unfolding durable_iter_files_def
  by (cases rule: with_faults_cases)
    (auto simp: positive_bound_def Let_def result_simps split: if_splits sum.splits)

lemma durable_sync_view:
  assumes "durable_sync_file p d = (r, d')"
  shows "map_of (files d') = map_of (files d)"
  using assms unfolding durable_sync_file_def
  by (cases rule: with_faults_cases) (auto split: sum.splits)

lemma durable_stage_view:
  assumes "durable_write_staged_sidecar canonical p sc d = (r, d')"
  shows "(r = Inr () \<longrightarrow> map_of (files d) p = None \<and> map_of (files d') = (map_of (files d))(p \<mapsto> canonical sc))
    \<and> (map_of (files d') = map_of (files d)
       \<or> map_of (files d) p = None \<and> map_of (files d') = (map_of (files d))(p \<mapsto> canonical sc))"
  using assms unfolding durable_write_staged_sidecar_def
  by (cases rule: with_faults_cases)
    (auto simp: update_conv' split: sum.splits if_splits dest: safe_pathD)

lemma durable_exists_healthy:
  assumes "durable_healthy d p"
  shows "\<exists>d'. durable_exists p d = (Inr (map_of (files d) p \<noteq> None), d')
     \<and> (\<forall>q. durable_healthy d q \<longrightarrow> durable_healthy d' q)"
proof (rule durable_quiet [OF assms])
  fix d1
  assume "\<And>body :: disk \<Rightarrow> bool result \<times> disk. with_faults body d = body d1" "files d1 = files d"
    "present_directories d1 = present_directories d" "quiet d1" "\<And>q. durable_healthy d q \<Longrightarrow> safe_path q d1 = Inr q"
  with assms show ?thesis
    unfolding durable_exists_def by (intro exI [of _ d1]) (auto intro: durable_healthy_mono)
qed

lemma durable_move_healthy:
  assumes "durable_healthy d p" "durable_healthy d q" "map_of (files d) p \<noteq> None" "map_of (files d) q = None"
  shows "\<exists>d'. durable_move p q d = (Inr (), d') \<and> (\<forall>x. durable_healthy d x \<longrightarrow> durable_healthy d' x)"
proof (rule durable_quiet [OF assms(1)])
  fix d1
  assume d1: "\<And>body :: disk \<Rightarrow> unit result \<times> disk. with_faults body d = body d1" "files d1 = files d"
    "present_directories d1 = present_directories d" "quiet d1" "\<And>q. durable_healthy d q \<Longrightarrow> safe_path q d1 = Inr q"
  obtain d2 where "rename_no_replace p q d1 = (Inr (), d2)" "quiet d2" "present_directories d2 = present_directories d"
    using assms(3,4) d1(2-4) by (auto simp: rename_no_replace_def quiet_def)
  with d1 assms show ?thesis
    unfolding durable_move_def by (intro exI [of _ d2]) (auto intro: durable_healthy_mono)
qed

lemma durable_unlink_healthy:
  assumes "durable_healthy d p"
  shows "\<exists>d'. durable_unlink p d = (Inr (), d') \<and> (\<forall>q. durable_healthy d q \<longrightarrow> durable_healthy d' q)"
proof (rule durable_quiet [OF assms])
  fix d1
  assume "\<And>body :: disk \<Rightarrow> unit result \<times> disk. with_faults body d = body d1" "files d1 = files d"
    "present_directories d1 = present_directories d" "quiet d1" "\<And>q. durable_healthy d q \<Longrightarrow> safe_path q d1 = Inr q"
  with assms show ?thesis
    unfolding durable_unlink_def
    by (intro exI [of _ "d1\<lparr>files := AList.delete p (files d1)\<rparr>"])
      (auto intro!: durable_healthy_mono [of _ d] simp: quiet_def)
qed

lemma durable_read_healthy:
  assumes "durable_healthy d p" "map_of (files d) p = Some v" "0 < n" "int (length v) \<le> n"
  shows "\<exists>d'. durable_read_bytes p n d = (Inr v, d') \<and> (\<forall>q. durable_healthy d q \<longrightarrow> durable_healthy d' q)"
proof (rule durable_quiet [OF assms(1)])
  fix d1
  assume "\<And>body :: disk \<Rightarrow> bytes result \<times> disk. with_faults body d = body d1" "files d1 = files d"
    "present_directories d1 = present_directories d" "quiet d1" "\<And>q. durable_healthy d q \<Longrightarrow> safe_path q d1 = Inr q"
  with assms show ?thesis
    unfolding durable_read_bytes_def
    by (intro exI [of _ d1]) (auto intro: durable_healthy_mono simp: positive_bound_def)
qed

lemma durable_select [simp]:
  "fs_exists DurableFilesystem = durable_exists" "fs_move DurableFilesystem = durable_move"
  "fs_unlink DurableFilesystem = durable_unlink" "fs_read_bytes DurableFilesystem = durable_read_bytes"
  "fs_file_size DurableFilesystem = durable_file_size"
  "fs_replace_bytes_atomic DurableFilesystem = rooted_replace_bytes_atomic"
  "fs_iter_files DurableFilesystem = durable_iter_files"
  "base_filesystem (DurableRootedFinalizationFilesystem canonical) = DurableFilesystem"
  "fs_sync_file (DurableRootedFinalizationFilesystem canonical) = durable_sync_file"
  "fs_write_staged_sidecar (DurableRootedFinalizationFilesystem canonical) = durable_write_staged_sidecar canonical"
  by (simp_all add: DurableFilesystem_def DurableRootedFinalizationFilesystem_def)

interpretation durable: finalization_filesystem "DurableRootedFinalizationFilesystem canonical" disk_view durable_healthy
    canonical for canonical
  unfolding disk_view_def
  by (unfold_locales; unfold durable_select)
    (erule durable_exists_view durable_move_view durable_unlink_view durable_read_view durable_size_view
      rooted_replace_view durable_iter_view durable_sync_view durable_stage_view
    | rule durable_exists_healthy durable_move_healthy durable_unlink_healthy durable_read_healthy; assumption)+

end
