(* ===== verification/Clip_Finalizer.thy ===== *)
theory Clip_Finalizer
  imports Durable_Files Reclaimer
begin

text \<open>
  The recorder's clip finalizer: \<^verbatim>\<open>RecorderClipFinalizer\<close> of \<^verbatim>\<open>src/dashcam/recorder/finalizer.py\<close>. It
  stages the canonical sidecar of a closed clip, registers the promotion in the catalog, carries it
  out, and replays pending pair intents after a crash.

  \<^item> The state is the catalog with the filesystem (\<open>'f store\<close>) and the number of clock readings so
    far; \<open>fz_monotonic_ns\<close> is the clock. An exception leaves the state as it was when it was raised.
  \<^item> \<open>fz_parse_sidecar\<close> stands for \<^verbatim>\<open>parse_sidecar_bytes\<close>, \<open>fz_canonical\<close> for
    \<^verbatim>\<open>to_canonical_json\<close>, \<open>fz_sha256\<close> for the hash and \<open>fz_zone_info\<close> for the zone database.
  \<^item> Calls of other threads into the catalog between two calls of an operation are not modelled;
    the retry loop is translated all the same.
\<close>

section \<open>Data\<close>

record FinalizerLimits =
  max_directory_entries :: int
  max_pending_intents :: int
  max_actions_per_intent :: int
  max_sidecar_bytes :: int
  max_protection_retries :: int

definition mk_finalizer_limits :: "FinalizerLimits \<Rightarrow> FinalizerLimits result" where
  "mk_finalizer_limits l =
     (if bound_ok (max_directory_entries l) 100000 \<and> bound_ok (max_pending_intents l) 1024
         \<and> bound_ok (max_actions_per_intent l) 2 \<and> bound_ok (max_sidecar_bytes l) 1048576
         \<and> bound_ok (max_protection_retries l) 8
      then Inr l else Inl ValueError)"

definition default_limits :: FinalizerLimits where
  "default_limits = \<lparr>max_directory_entries = 4096, max_pending_intents = 64, max_actions_per_intent = 2,
     max_sidecar_bytes = 1048576, max_protection_retries = 3\<rparr>"

record FinalizationOutcome =
  fo_clip_id :: uuid
  fo_intent_id :: "uuid option"
  fo_actions_attempted :: int
  fo_complete :: bool
  fo_resumed :: bool

record FinalizationRecoveryReport =
  fr_intents_examined :: int
  fr_actions_attempted :: int
  fr_completed :: int
  fr_more_work :: bool

record 'f RecorderClipFinalizer =
  fz_filesystem :: "'f FinalizationFilesystem"
  fz_monotonic_ns :: "nat \<Rightarrow> int"
  fz_limits :: FinalizerLimits
  fz_parse_sidecar :: sidecar_parser
  fz_canonical :: "ClipSidecar \<Rightarrow> bytes"
  fz_sha256 :: "bytes \<Rightarrow> string"
  fz_zone_info :: zone_database

definition RECOVERY_INTENT_KINDS :: "IntentKind list" where
  "RECOVERY_INTENT_KINDS = [FINALIZE, RECONCILE_NAME, PROTECT, UNPROTECT]"

section \<open>Effects\<close>

type_synonym 'f fin = "'f store \<times> nat"

definition on_store :: "('f store \<Rightarrow> 'a result \<times> 'f store) \<Rightarrow> 'f fin \<Rightarrow> 'a result \<times> 'f fin" where
  "on_store g x = (case g (fst x) of (r, cs) \<Rightarrow> (r, (cs, snd x)))"

definition fin_catalog :: "'a transaction \<Rightarrow> 'f fin \<Rightarrow> 'a result \<times> 'f fin" where
  "fin_catalog f = on_store (in_catalog f)"

definition fin_read :: "(catalog \<Rightarrow> 'a result) \<Rightarrow> 'f fin \<Rightarrow> 'a result \<times> 'f fin" where
  "fin_read f = on_store (read_catalog f)"

definition fin_disk :: "('f \<Rightarrow> 'a result \<times> 'f) \<Rightarrow> 'f fin \<Rightarrow> 'a result \<times> 'f fin" where
  "fin_disk g = on_store (on_disk g)"

definition fin_now :: "'f RecorderClipFinalizer \<Rightarrow> 'f fin \<Rightarrow> int result \<times> 'f fin" where
  "fin_now fz x =
     (let value = fz_monotonic_ns fz (snd x)
      in (if 0 \<le> value \<and> value \<le> MAX_MONOTONIC_NS then Inr value else Inl FinalizationRefused,
          (fst x, Suc (snd x))))"

definition refuse_if :: "bool \<Rightarrow> 'f fin \<Rightarrow> unit result \<times> 'f fin" where
  "refuse_if b x = (if b then Inl FinalizationRefused else Inr (), x)"

abbreviation fz_base :: "'f RecorderClipFinalizer \<Rightarrow> 'f CatalogFilesystem" where
  "fz_base fz \<equiv> base_filesystem (fz_filesystem fz)"

text \<open>\<^verbatim>\<open>except (OSError, SidecarParseError, ValueError) as exc: raise FinalizationRefused\<close>.\<close>

definition read_sidecar :: "'f RecorderClipFinalizer \<Rightarrow> string \<Rightarrow> 'f fin
    \<Rightarrow> (bytes \<times> ClipSidecar) result \<times> 'f fin" where
  "read_sidecar fz p x =
     (case fin_disk (fs_read_bytes (fz_base fz) p (max_sidecar_bytes (fz_limits fz))) x of (r, x1) \<Rightarrow>
      (case bindR r (\<lambda>payload. bindR (fz_parse_sidecar fz payload) (\<lambda>sc. Inr (payload, sc))) of
         Inl e \<Rightarrow> (Inl (if sidecar_error e then FinalizationRefused else e), x1)
       | Inr v \<Rightarrow> (Inr v, x1)))"

section \<open>Names\<close>

definition name_or_refused :: "string \<Rightarrow> ParsedClipName result" where
  "name_or_refused name = (case parse_clip_filename name of
       Inl e \<Rightarrow> Inl (if e = ClipNameError then FinalizationRefused else e) | Inr p \<Rightarrow> Inr p)"

definition promotion_source :: "string \<Rightarrow> string result" where
  "promotion_source name = bindR (name_or_refused name) (\<lambda>source.
     if \<not> partial source \<or> extension source \<noteq> ''mp4'' then Inl FinalizationRefused
     else Inr (join_path ''pending'' name))"

definition sidecar_name_of :: "string \<Rightarrow> string" where
  "sidecar_name_of name = removesuffix name ''.mp4'' @ ''.json''"

definition promotion_paths :: "string \<Rightarrow> ClipSidecar \<Rightarrow> PairPaths result" where
  "promotion_paths name sc =
     bindR (name_or_refused name) (\<lambda>source. bindR (name_or_refused (video_file sc)) (\<lambda>target.
     if \<not> partial source \<or> extension source \<noteq> ''mp4'' then Inl FinalizationRefused
     else if partial target then Inl FinalizationRefused
     else if pn_boot_id source \<noteq> pn_boot_id target \<or> pn_sequence source \<noteq> pn_sequence target
     then Inl FinalizationRefused
     else if pn_boot_id target \<noteq> take 12 (uuid_hex (sc_boot_id sc)) then Inl FinalizationRefused
     else if metadata_file sc \<noteq> sidecar_name_of (video_file sc) then Inl FinalizationRefused
     else bindR (promotion_source name) (\<lambda>video.
       mk_pair_paths video (join_path ''pending'' (sidecar_name_of name))
         (Some (join_path ''clips'' (video_file sc))) (Some (join_path ''clips'' (metadata_file sc))))))"

section \<open>Carrying out one intent\<close>

definition reconcile_one :: "'f RecorderClipFinalizer \<Rightarrow> OperationIntent \<Rightarrow> bool \<Rightarrow> 'f fin
    \<Rightarrow> FinalizationOutcome result \<times> 'f fin" where
  "reconcile_one fz intent resumed x =
     bindF (refuse_if (oi_kind intent \<notin> set RECOVERY_INTENT_KINDS) x) (\<lambda>_ x0.
     bindF (fin_now fz x0) (\<lambda>now x1.
     bindF (on_store (reconcile_intent (fz_base fz) (fz_parse_sidecar fz) (fz_sha256 fz) (intent_id intent) now
              (max_actions_per_intent (fz_limits fz))) x1) (\<lambda>res x2.
     bindF (refuse_if (irr_intent res \<noteq> intent \<or> irr_problems res \<noteq> []) x2) (\<lambda>_ x3.
       (Inr \<lparr>fo_clip_id = oi_clip_id intent, fo_intent_id = Some (intent_id intent),
          fo_actions_attempted = actions_attempted res, fo_complete = irr_complete res, fo_resumed = resumed\<rparr>, x3)))))"

definition pending_recovery :: "'f RecorderClipFinalizer \<Rightarrow> 'f fin \<Rightarrow> (OperationIntent list \<times> bool) result \<times> 'f fin" where
  "pending_recovery fz x =
     (let limit = max_pending_intents (fz_limits fz) in
      bindF (fin_read (list_pending_intents_by_kind RECOVERY_INTENT_KINDS (limit + 1)) x) (\<lambda>xs x1.
        (Inr (take (nat limit) xs, int (length xs) > limit), x1)))"

definition has_pending_recovery_intent :: "'f fin \<Rightarrow> bool result \<times> 'f fin" where
  "has_pending_recovery_intent x =
     bindF (fin_read (list_pending_intents_by_kind RECOVERY_INTENT_KINDS 1) x) (\<lambda>xs x1. (Inr (xs \<noteq> []), x1))"

definition validate_intent :: "OperationIntent \<Rightarrow> PairPaths \<Rightarrow> 'f fin \<Rightarrow> unit result \<times> 'f fin" where
  "validate_intent intent paths = refuse_if (oi_kind intent \<noteq> FINALIZE \<or> oi_paths intent \<noteq> paths)"

definition find_registered_intent :: "uuid \<Rightarrow> uuid \<Rightarrow> PairPaths \<Rightarrow> 'f fin \<Rightarrow> OperationIntent result \<times> 'f fin" where
  "find_registered_intent iid k paths x =
     bindF (fin_read (get_pending_intent iid) x) (\<lambda>found x1.
     (case found of None \<Rightarrow> (Inl FinalizationRefused, x1)
      | Some intent \<Rightarrow> bindF (refuse_if (oi_clip_id intent \<noteq> k) x1) (\<lambda>_ x2.
          bindF (validate_intent intent paths x2) (\<lambda>_ x3. (Inr intent, x3)))))"

definition required_target :: "string option \<Rightarrow> string result" where
  "required_target v = (case v of None \<Rightarrow> Inl FinalizationRefused | Some p \<Rightarrow> Inr p)"

definition validate_location :: "'f RecorderClipFinalizer \<Rightarrow> OperationIntent \<Rightarrow> string \<Rightarrow> bytes option \<Rightarrow> string
    \<Rightarrow> 'f fin \<Rightarrow> unit result \<times> 'f fin" where
  "validate_location fz intent target expected location x =
     bindF (read_sidecar fz location x) (\<lambda>(payload, sc) x1.
     bindF (required_target (video_target (oi_paths intent)), x1) (\<lambda>video x2.
     bindF (refuse_if (\<not> names_of sc (oi_clip_id intent) video target) x2) (\<lambda>_.
       refuse_if (case expected of None \<Rightarrow> False | Some v \<Rightarrow> payload \<noteq> v))))"

definition validate_durable_sidecar :: "'f RecorderClipFinalizer \<Rightarrow> OperationIntent \<Rightarrow> bytes option \<Rightarrow> 'f fin
    \<Rightarrow> unit result \<times> 'f fin" where
  "validate_durable_sidecar fz intent expected x =
     bindF (required_target (sidecar_target (oi_paths intent)), x) (\<lambda>target x0.
     bindF (fin_disk (fs_exists (fz_base fz) (sidecar_source (oi_paths intent))) x0) (\<lambda>at_source x1.
     bindF (fin_disk (fs_exists (fz_base fz) target) x1) (\<lambda>at_target.
       loopF (validate_location fz intent target expected)
         ((if at_source then [sidecar_source (oi_paths intent)] else []) @ (if at_target then [target] else [])))))"

section \<open>Staging and registering\<close>

definition directory_names :: "'f RecorderClipFinalizer \<Rightarrow> string \<Rightarrow> 'f fin \<Rightarrow> string list result \<times> 'f fin" where
  "directory_names fz dir x =
     bindF (fin_disk (fs_iter_files (fz_base fz) dir (max_directory_entries (fz_limits fz))) x) (\<lambda>(paths, _, truncated) x1.
     bindF (refuse_if truncated x1) (\<lambda>_ x2. (Inr (map path_name paths), x2)))"

definition same_name :: "string list \<Rightarrow> string \<Rightarrow> string list" where
  "same_name names p = filter (\<lambda>n. casefold n = casefold (path_name p)) names"

definition require_unique_exact :: "string list \<Rightarrow> string \<Rightarrow> 'f fin \<Rightarrow> unit result \<times> 'f fin" where
  "require_unique_exact names p = refuse_if (same_name names p \<noteq> [path_name p])"

definition require_absent_casefold :: "string list \<Rightarrow> bool \<Rightarrow> string option \<Rightarrow> 'f fin \<Rightarrow> unit result \<times> 'f fin" where
  "require_absent_casefold names allow_exact path x =
     bindF (required_target path, x) (\<lambda>p.
       refuse_if (same_name names p \<noteq> [] \<and> \<not> (allow_exact \<and> same_name names p = [path_name p])))"

definition require_free_targets :: "'f RecorderClipFinalizer \<Rightarrow> PairPaths \<Rightarrow> string \<Rightarrow> 'f fin \<Rightarrow> unit result \<times> 'f fin" where
  "require_free_targets fz paths dir x =
     bindF (directory_names fz dir x) (\<lambda>names x1.
     bindF (require_absent_casefold names False (video_target paths) x1) (\<lambda>_.
       require_absent_casefold names False (sidecar_target paths)))"

definition closed_video_size :: "'f RecorderClipFinalizer \<Rightarrow> string \<Rightarrow> 'f fin \<Rightarrow> int result \<times> 'f fin" where
  "closed_video_size fz p x =
     bindF (fin_disk (fs_exists (fz_base fz) p) x) (\<lambda>present x1.
     bindF (refuse_if (\<not> present) x1) (\<lambda>_ x2.
     bindF (fin_disk (fs_file_size (fz_base fz) p) x2) (\<lambda>n x3.
     bindF (refuse_if (n \<le> 0) x3) (\<lambda>_ x4. (Inr n, x4)))))"

definition check_closed_pair :: "'f RecorderClipFinalizer \<Rightarrow> PairPaths \<Rightarrow> 'f fin \<Rightarrow> int result \<times> 'f fin" where
  "check_closed_pair fz paths x =
     bindF (directory_names fz ''pending'' x) (\<lambda>names x1.
     bindF (require_unique_exact names (video_source paths) x1) (\<lambda>_ x2.
     bindF (require_absent_casefold names True (Some (sidecar_source paths)) x2) (\<lambda>_ x3.
     bindF (loopF (require_free_targets fz paths) [''clips'', ''protected''] x3) (\<lambda>_ x4.
     bindF (closed_video_size fz (video_source paths) x4) (\<lambda>n x5.
     bindF (fin_disk (fs_sync_file (fz_filesystem fz) (video_source paths)) x5) (\<lambda>_ x6. (Inr n, x6)))))))"

definition read_back :: "'f RecorderClipFinalizer \<Rightarrow> string \<Rightarrow> 'f fin \<Rightarrow> bytes result \<times> 'f fin" where
  "read_back fz p = fin_disk (fs_read_bytes (fz_base fz) p (max_sidecar_bytes (fz_limits fz)))"

definition replace_pending_sidecar :: "'f RecorderClipFinalizer \<Rightarrow> string \<Rightarrow> bytes \<Rightarrow> 'f fin \<Rightarrow> unit result \<times> 'f fin" where
  "replace_pending_sidecar fz p payload x =
     bindF (fin_disk (fs_replace_bytes_atomic (fz_base fz) p payload (max_sidecar_bytes (fz_limits fz))) x) (\<lambda>_ x1.
     bindF (read_back fz p x1) (\<lambda>persisted. refuse_if (persisted \<noteq> payload)))"

definition write_pending_sidecar :: "'f RecorderClipFinalizer \<Rightarrow> string \<Rightarrow> ClipSidecar \<Rightarrow> bytes \<Rightarrow> 'f fin
    \<Rightarrow> unit result \<times> 'f fin" where
  "write_pending_sidecar fz p sc payload x =
     bindF (fin_disk (fs_write_staged_sidecar (fz_filesystem fz) p sc) x) (\<lambda>_ x1.
     bindF (read_back fz p x1) (\<lambda>persisted x2.
     case fz_parse_sidecar fz persisted of
       Inl e \<Rightarrow> (Inl (if e = SidecarParseError then FinalizationRefused else e), x2)
     | Inr parsed \<Rightarrow> refuse_if (persisted \<noteq> payload \<or> parsed \<noteq> sc) x2))"

definition ensure_pending_sidecar :: "'f RecorderClipFinalizer \<Rightarrow> string \<Rightarrow> ClipSidecar \<Rightarrow> bytes \<Rightarrow> bool \<Rightarrow> 'f fin
    \<Rightarrow> unit result \<times> 'f fin" where
  "ensure_pending_sidecar fz p sc payload replace_existing x =
     bindF (fin_disk (fs_exists (fz_base fz) p) x) (\<lambda>present x1.
     if \<not> present then write_pending_sidecar fz p sc payload x1
     else bindF (read_sidecar fz p x1) (\<lambda>(existing, parsed) x2.
       if existing = payload \<and> parsed = sc then (Inr (), x2)
       else if replace_existing then replace_pending_sidecar fz p payload x2
       else (Inl FinalizationRefused, x2)))"

text \<open>The protection the sidecar is written with: that of the row of a clip still being written.\<close>

definition closing_sidecar :: "'f RecorderClipFinalizer \<Rightarrow> bool \<Rightarrow> ClipSidecar \<Rightarrow> 'f fin
    \<Rightarrow> (ClipSidecar \<times> int option) result \<times> 'f fin" where
  "closing_sidecar fz active sc x =
     (if \<not> active then (Inr (sc, None), x)
      else bindF (fin_now fz x) (\<lambda>now x1.
      bindF (fin_catalog (active_closing_protection (sc_clip_id sc) now) x1) (\<lambda>protection x2.
        let effective = sc\<lparr>sc_protected := acp_protected protection, sc_protection_reason := acp_reason protection\<rparr>
        in (bindR (check_sidecar (fz_zone_info fz) effective) (\<lambda>_. Inr (effective, Some (acp_revision protection))), x2))))"

definition finalizing_clip :: "ClipSidecar \<Rightarrow> PairPaths \<Rightarrow> int \<Rightarrow> int \<Rightarrow> CatalogClip" where
  "finalizing_clip sc paths order nbytes = \<lparr>cc_clip_id = sc_clip_id sc, cc_lifecycle = FINALIZING,
     video_path = video_source paths, sidecar_path = sidecar_source paths, start_monotonic_ns = sc_start_ns sc,
     end_monotonic_ns = Some (sc_end_ns sc), cc_retention_order = order, cc_size_bytes = nbytes,
     cc_protected = sc_protected sc, protection_reason = sc_protection_reason sc, cc_pair_reconciled = False,
     cc_managed = True, cc_download_lease = None, lease_boot_id = None\<rparr>"

fun register_attempts :: "nat \<Rightarrow> 'f RecorderClipFinalizer \<Rightarrow> bool \<Rightarrow> PairPaths \<Rightarrow> ClipSidecar \<Rightarrow> int \<Rightarrow> int
    \<Rightarrow> 'f fin \<Rightarrow> (uuid \<times> ClipSidecar) result \<times> 'f fin" where
  "register_attempts 0 fz active paths sc order nbytes x = (Inl FinalizationRefused, x)"
| "register_attempts (Suc n) fz active paths sc order nbytes x =
     bindF (closing_sidecar fz active sc x) (\<lambda>(effective, revision) x1.
     bindF (ensure_pending_sidecar fz (sidecar_source paths) effective (fz_canonical fz effective) active x1) (\<lambda>_ x2.
     bindF (fin_now fz x2) (\<lambda>now x3.
     case fin_catalog (register_finalizing_clip (finalizing_clip effective paths order nbytes) paths now revision) x3 of
       (Inl e, x4) \<Rightarrow> if e = ActiveClipProtectionChanged then register_attempts n fz active paths sc order nbytes x4
                      else (Inl e, x4)
     | (Inr iid, x4) \<Rightarrow> (Inr (iid, effective), x4))))"

section \<open>The operations\<close>

fun clip_followups :: "nat \<Rightarrow> 'f RecorderClipFinalizer \<Rightarrow> FinalizationOutcome \<Rightarrow> int \<Rightarrow> 'f fin
    \<Rightarrow> FinalizationOutcome result \<times> 'f fin" where
  "clip_followups 0 fz initial attempted x = (Inl FinalizationRefused, x)"
| "clip_followups (Suc n) fz initial attempted x =
     bindF (fin_read (list_pending_intents_for_clip (fo_clip_id initial) [PROTECT, UNPROTECT] 2) x) (\<lambda>values x1.
     case values of
       [] \<Rightarrow> (Inr (initial\<lparr>fo_actions_attempted := attempted\<rparr>), x1)
     | [intent] \<Rightarrow> bindF (reconcile_one fz intent True x1) (\<lambda>followup x2.
         let total = attempted + fo_actions_attempted followup
         in if fo_complete followup then clip_followups n fz initial total x2
            else (Inr (initial\<lparr>fo_actions_attempted := total, fo_complete := False\<rparr>), x2))
     | _ \<Rightarrow> (Inl FinalizationRefused, x1))"

definition reconcile_clip_followups :: "'f RecorderClipFinalizer \<Rightarrow> FinalizationOutcome \<Rightarrow> 'f fin
    \<Rightarrow> FinalizationOutcome result \<times> 'f fin" where
  "reconcile_clip_followups fz initial = clip_followups 2 fz initial (fo_actions_attempted initial)"

definition clip_if_present :: "uuid \<Rightarrow> catalog \<Rightarrow> CatalogClip option result" where
  "clip_if_present k c = (case get_clip k c of
       Inl e \<Rightarrow> if e = ClipNotFoundError then Inr None else Inl e | Inr clip \<Rightarrow> Inr (Some clip))"

definition replay_intent :: "CatalogClip \<Rightarrow> PairPaths \<Rightarrow> OperationIntent" where
  "replay_intent clip paths = \<lparr>intent_id = UUID 0, oi_clip_id = cc_clip_id clip, oi_kind = FINALIZE,
     created_monotonic_ns = 0, oi_paths = paths, schema_version = 1\<rparr>"

definition completed_replay :: "'f RecorderClipFinalizer \<Rightarrow> CatalogClip \<Rightarrow> PairPaths \<Rightarrow> bytes \<Rightarrow> 'f fin
    \<Rightarrow> FinalizationOutcome result \<times> 'f fin" where
  "completed_replay fz clip paths expected x =
     bindF (refuse_if (cc_lifecycle clip \<noteq> FINALIZED \<or> \<not> cc_pair_reconciled clip
        \<or> Some (video_path clip) \<noteq> video_target paths \<or> Some (sidecar_path clip) \<noteq> sidecar_target paths) x) (\<lambda>_ x1.
     bindF (fin_disk (fs_exists (fz_base fz) (video_path clip)) x1) (\<lambda>video x2.
     bindF (refuse_if (\<not> video) x2) (\<lambda>_ x3.
     bindF (fin_disk (fs_exists (fz_base fz) (sidecar_path clip)) x3) (\<lambda>sidecar x4.
     bindF (refuse_if (\<not> sidecar) x4) (\<lambda>_ x5.
     bindF (validate_durable_sidecar fz (replay_intent clip paths) (Some expected) x5) (\<lambda>_ x6.
       (Inr \<lparr>fo_clip_id = cc_clip_id clip, fo_intent_id = None, fo_actions_attempted = 0, fo_complete = True,
          fo_resumed = True\<rparr>, x6)))))))"

definition finalize_new :: "'f RecorderClipFinalizer \<Rightarrow> bool \<Rightarrow> PairPaths \<Rightarrow> ClipSidecar \<Rightarrow> int \<Rightarrow> 'f fin
    \<Rightarrow> FinalizationOutcome result \<times> 'f fin" where
  "finalize_new fz active paths sc order x =
     bindF (check_closed_pair fz paths x) (\<lambda>nbytes x1.
     bindF (register_attempts (if active then nat (max_protection_retries (fz_limits fz)) else 1)
              fz active paths sc order nbytes x1) (\<lambda>(iid, effective) x2.
     bindF (find_registered_intent iid (sc_clip_id sc) paths x2) (\<lambda>intent x3.
     bindF (reconcile_one fz intent False x3) (\<lambda>outcome x4.
       if fo_complete outcome \<and> sc_protected effective then reconcile_clip_followups fz outcome x4
       else (Inr outcome, x4)))))"

text \<open>The two ways on after the scan: an intent of the clip is pending, or none is.\<close>

definition resume_finalize :: "'f RecorderClipFinalizer \<Rightarrow> PairPaths \<Rightarrow> ClipSidecar \<Rightarrow> OperationIntent \<Rightarrow> bool \<Rightarrow> 'f fin
    \<Rightarrow> FinalizationOutcome result \<times> 'f fin" where
  "resume_finalize fz paths sc intent ambiguous x =
     bindF (refuse_if ambiguous x) (\<lambda>_ x2.
     bindF (validate_intent intent paths x2) (\<lambda>_ x3.
     bindF (validate_durable_sidecar fz intent (Some (fz_canonical fz sc)) x3) (\<lambda>_.
       reconcile_one fz intent True)))"

definition start_finalize :: "'f RecorderClipFinalizer \<Rightarrow> PairPaths \<Rightarrow> ClipSidecar \<Rightarrow> int \<Rightarrow> bool \<Rightarrow> 'f fin
    \<Rightarrow> FinalizationOutcome result \<times> 'f fin" where
  "start_finalize fz paths sc order truncated x =
     bindF (refuse_if truncated x) (\<lambda>_ x2.
     bindF (fin_read (clip_if_present (sc_clip_id sc)) x2) (\<lambda>existing.
     case existing of
       Some clip \<Rightarrow> if cc_lifecycle clip = WRITING then finalize_new fz True paths sc order
         else completed_replay fz clip paths (fz_canonical fz sc)
     | None \<Rightarrow> finalize_new fz False paths sc order))"

definition finalize :: "'f RecorderClipFinalizer \<Rightarrow> string \<Rightarrow> ClipSidecar \<Rightarrow> int \<Rightarrow> 'f fin
    \<Rightarrow> FinalizationOutcome result \<times> 'f fin" where
  "finalize fz name sc order x =
     bindF (promotion_paths name sc, x) (\<lambda>paths x0.
     if order < 0 then (Inl ValueError, x0) else
     bindF (pending_recovery fz x0) (\<lambda>(pending, truncated).
     case filter (\<lambda>i. oi_clip_id i = sc_clip_id sc) pending of
       intent # others \<Rightarrow> resume_finalize fz paths sc intent (others \<noteq> [])
     | [] \<Rightarrow> start_finalize fz paths sc order truncated))"

definition execute_intent :: "'f RecorderClipFinalizer \<Rightarrow> uuid \<Rightarrow> 'f fin \<Rightarrow> FinalizationOutcome result \<times> 'f fin" where
  "execute_intent fz iid x =
     bindF (fin_read (get_pending_intent iid) x) (\<lambda>found x1.
     case found of None \<Rightarrow> (Inl FinalizationRefused, x1)
     | Some intent \<Rightarrow> bindF (reconcile_one fz intent True x1) (\<lambda>outcome x2.
         if fo_complete outcome then reconcile_clip_followups fz outcome x2 else (Inr outcome, x2)))"

definition converge_intent :: "'f RecorderClipFinalizer \<Rightarrow> uuid \<Rightarrow> 'f fin \<Rightarrow> unit result \<times> 'f fin" where
  "converge_intent fz iid x = bindF (execute_intent fz iid x) (\<lambda>outcome. refuse_if (\<not> fo_complete outcome))"

definition finalizer_trigger_event :: "'f RecorderClipFinalizer \<Rightarrow> uuid option \<Rightarrow> EventSource \<Rightarrow> int \<Rightarrow> int \<Rightarrow> int \<Rightarrow> uuid
    \<Rightarrow> 'f fin \<Rightarrow> EventProtectionResult result \<times> 'f fin" where
  "finalizer_trigger_event fz current src now previous_count next_count eid x =
     bindF (fin_catalog (trigger_event current src now previous_count next_count (Some eid) True) x) (\<lambda>event x1.
     bindF (loopF (converge_intent fz) (queued_intent_ids event) x1) (\<lambda>_ x2. (Inr event, x2)))"

definition video_size :: "'f RecorderClipFinalizer \<Rightarrow> string \<Rightarrow> 'f fin \<Rightarrow> int result \<times> 'f fin" where
  "video_size fz name x = bindF (promotion_source name, x) (closed_video_size fz)"

definition register_active_clip :: "'f RecorderClipFinalizer \<Rightarrow> string \<Rightarrow> uuid \<Rightarrow> int \<Rightarrow> int \<Rightarrow> 'f fin
    \<Rightarrow> unit result \<times> 'f fin" where
  "register_active_clip fz name k start order x =
     bindF (promotion_source name, x) (\<lambda>source x0.
     bindF (parse_clip_filename (path_name source), x0) (\<lambda>parsed x1.
     bindF (refuse_if (\<not> partial parsed) x1) (\<lambda>_ x2.
     if start < 0 \<or> order < 0 then (Inl ValueError, x2)
     else bindF (fin_now fz x2) (\<lambda>now.
       fin_catalog (register_writing_clip \<lparr>cc_clip_id = k, cc_lifecycle = WRITING, video_path = source,
         sidecar_path = sidecar_name_of source, start_monotonic_ns = start, end_monotonic_ns = None,
         cc_retention_order = order, cc_size_bytes = 0, cc_protected = False, protection_reason = None,
         cc_pair_reconciled = False, cc_managed = True, cc_download_lease = None, lease_boot_id = None\<rparr> now)))))"

definition orphan_one :: "'f RecorderClipFinalizer \<Rightarrow> CatalogClip \<Rightarrow> 'f fin \<Rightarrow> unit result \<times> 'f fin" where
  "orphan_one fz clip x = bindF (fin_now fz x) (\<lambda>now x1.
     bindF (fin_catalog (mark_writing_clip_orphaned (cc_clip_id clip) now) x1) (\<lambda>_ x2. (Inr (), x2)))"

definition reconcile_orphaned_writing :: "'f RecorderClipFinalizer \<Rightarrow> int \<Rightarrow> 'f fin \<Rightarrow> (int \<times> bool) result \<times> 'f fin" where
  "reconcile_orphaned_writing fz limit x =
     (if limit \<le> 0 then (Inl ValueError, x)
      else bindF (fin_read (list_writing_clips (limit + 1)) x) (\<lambda>values x1.
      bindF (loopF (orphan_one fz) (take (nat limit) values) x1) (\<lambda>_ x2.
        (Inr (min (int (length values)) limit, int (length values) > limit), x2))))"

text \<open>One iteration of \<^verbatim>\<open>reconcile_pending\<close>, and the loop.\<close>

definition recover_one :: "'f RecorderClipFinalizer \<Rightarrow> OperationIntent \<Rightarrow> 'f fin \<Rightarrow> FinalizationOutcome result \<times> 'f fin" where
  "recover_one fz intent x =
     bindF (if oi_kind intent = FINALIZE then validate_durable_sidecar fz intent None x else (Inr (), x)) (\<lambda>_ x1.
     bindF (reconcile_one fz intent True x1) (\<lambda>outcome x2.
     bindF (if oi_kind intent = RECONCILE_NAME then validate_durable_sidecar fz intent None x2 else (Inr (), x2)) (\<lambda>_ x3.
       (Inr outcome, x3))))"

fun recover_all :: "'f RecorderClipFinalizer \<Rightarrow> OperationIntent list \<Rightarrow> FinalizationOutcome list \<Rightarrow> 'f fin
    \<Rightarrow> FinalizationOutcome list result \<times> 'f fin" where
  "recover_all fz [] done x = (Inr done, x)"
| "recover_all fz (intent # rest) done x =
     bindF (recover_one fz intent x) (\<lambda>outcome. recover_all fz rest (done @ [outcome]))"

definition reconcile_pending :: "'f RecorderClipFinalizer \<Rightarrow> 'f fin \<Rightarrow> FinalizationRecoveryReport result \<times> 'f fin" where
  "reconcile_pending fz x =
     bindF (pending_recovery fz x) (\<lambda>(intents, truncated) x1.
     bindF (recover_all fz intents [] x1) (\<lambda>outcomes x2.
     let incomplete = (\<exists>o1 \<in> set outcomes. \<not> fo_complete o1) in
     bindF (if truncated \<or> incomplete then (Inr True, x2) else has_pending_recovery_intent x2) (\<lambda>more x3.
       (Inr \<lparr>fr_intents_examined = int (length outcomes),
          fr_actions_attempted = sum_list (map fo_actions_attempted outcomes),
          fr_completed = int (length (filter fo_complete outcomes)), fr_more_work = more\<rparr>, x3))))"

definition expire_download_leases :: "'f RecorderClipFinalizer \<Rightarrow> string \<Rightarrow> 'f fin \<Rightarrow> bool result \<times> 'f fin" where
  "expire_download_leases fz boot x =
     bindF (fin_now fz x) (\<lambda>now x1.
     bindF (fin_catalog (clear_expired_download_leases now boot (max_pending_intents (fz_limits fz))) x1) (\<lambda>(_, more) x2.
     bindF (reconcile_pending fz x2) (\<lambda>recovery x3. (Inr (more \<or> fr_more_work recovery), x3))))"

text \<open>The reclaimer reads the same clock at most twice.\<close>

definition reclaim_storage_once :: "'f RecorderClipFinalizer \<Rightarrow> string \<Rightarrow> bool \<Rightarrow> 'f fin \<Rightarrow> ReclamationStep result \<times> 'f fin" where
  "reclaim_storage_once fz boot allow_new x =
     bindF (expire_download_leases fz boot x) (\<lambda>_ x1.
       case run_one (fz_base fz) (fz_parse_sidecar fz) (fz_sha256 fz) boot allow_new
              (fz_monotonic_ns fz (snd x1)) (fz_monotonic_ns fz (Suc (snd x1))) (fst x1) of
         (r, cs) \<Rightarrow> (r, (cs, snd x1 + 2)))"

end
