(* ===== verification/Finalizer_Safety.thy ===== *)
theory Finalizer_Safety
  imports Clip_Finalizer
begin

text \<open>
  What the operations of \<open>Clip_Finalizer\<close> do to the catalog and to the files, whatever the device
  does. The locale \<open>clip_finalizer\<close> is a finalizer over a filesystem that keeps the contract of
  \<open>Durable_Files\<close>; its facts reach the production adapter through its interpretation. \<open>still\<close>
  describes the observing operations, \<open>beside\<close> staging, and \<open>lossless\<close> the moves.
\<close>

section \<open>Effects\<close>

abbreviation fin_cat :: "'f fin \<Rightarrow> catalog" where
  "fin_cat x \<equiv> fst (fst x)"

abbreviation fin_fs :: "'f fin \<Rightarrow> 'f" where
  "fin_fs x \<equiv> snd (fst x)"

named_theorems fin_results

lemma ends_on_store: "(\<And>r cs. g (fst x) = (r, cs) \<Longrightarrow> P (cs, snd x)) \<Longrightarrow> ends P (on_store g x)"
  by (auto simp: ends_def on_store_def split: prod.splits)

lemma ends_fin_disk: "(\<And>r s'. g (fin_fs x) = (r, s') \<Longrightarrow> P ((fin_cat x, s'), snd x)) \<Longrightarrow> ends P (fin_disk g x)"
  by (auto simp: ends_def on_store_def fin_disk_def on_disk_def split: prod.splits)

lemma ends_fin_catalog:
  "P x \<Longrightarrow> (\<And>v c'. f (fin_cat x) = Inr (v, c') \<Longrightarrow> P ((c', fin_fs x), snd x)) \<Longrightarrow> ends P (fin_catalog f x)"
  by (auto simp: ends_def on_store_def fin_catalog_def in_catalog_def split: sum.splits)

lemma ends_fin_read: "P x \<Longrightarrow> ends P (fin_read f x)"
  by (simp add: ends_def on_store_def fin_read_def read_catalog_def)

lemma ends_refuse_if: "P x \<Longrightarrow> ends P (refuse_if b x)"
  by (simp add: ends_def refuse_if_def)

lemma ends_fin_now: "(\<And>n. P (fst x, n)) \<Longrightarrow> ends P (fin_now fz x)"
  by (simp add: ends_def fin_now_def Let_def)

lemma ends_loopF: "P x \<Longrightarrow> (\<And>v y. v \<in> set vs \<Longrightarrow> P y \<Longrightarrow> ends P (f v y)) \<Longrightarrow> ends P (loopF f vs x)"
proof (induction vs arbitrary: x)
  case Nil
  then show ?case by (simp add: ends_def)
next
  case (Cons v vs)
  then show ?case by (auto intro!: ends_bindF)
qed

lemma ends_option: "(r = None \<Longrightarrow> ends P m1) \<Longrightarrow> (\<And>v. r = Some v \<Longrightarrow> ends P (g v))
    \<Longrightarrow> ends P (case r of None \<Rightarrow> m1 | Some v \<Rightarrow> g v)"
  by (simp split: option.splits)

lemma ends_prod: "(\<And>a b. v = (a, b) \<Longrightarrow> ends P (g a b)) \<Longrightarrow> ends P (case v of (a, b) \<Rightarrow> g a b)"
  by (simp split: prod.splits)

text \<open>The same for branches that still take the state.\<close>

lemma ends_applied:
  shows ends_prod_state: "(\<And>a b. w = (a, b) \<Longrightarrow> ends P (h a b x)) \<Longrightarrow> ends P ((case w of (a, b) \<Rightarrow> h a b) x)"
    and ends_option_state: "(r = None \<Longrightarrow> ends P (m1 x)) \<Longrightarrow> (\<And>v. r = Some v \<Longrightarrow> ends P (g v x))
      \<Longrightarrow> ends P ((case r of None \<Rightarrow> m1 | Some v \<Rightarrow> g v) x)"
    and ends_if_state: "(b \<Longrightarrow> ends P (m2 x)) \<Longrightarrow> (\<not> b \<Longrightarrow> ends P (m3 x)) \<Longrightarrow> ends P ((if b then m2 else m3) x)"
  by (simp_all split: prod.splits option.splits)

lemmas ends_rules = ends_applied ends_bindF ends_stay ends_if ends_option ends_prod ends_sum ends_fin_read ends_refuse_if ends_loopF

lemma fin_effects [fin_results]:
  "fin_disk g x = (Inr y, x') \<longleftrightarrow> (\<exists>s'. g (fin_fs x) = (Inr y, s') \<and> x' = ((fin_cat x, s'), snd x))"
  "fin_read h x = (Inr z, x') \<longleftrightarrow> h (fin_cat x) = Inr z \<and> x' = x"
  "fin_catalog f x = (Inr w, x') \<longleftrightarrow> (\<exists>c'. f (fin_cat x) = Inr (w, c') \<and> x' = ((c', fin_fs x), snd x))"
  "refuse_if b x = (Inr u, x') \<longleftrightarrow> \<not> b \<and> x' = x"
  "on_store k x = (Inr a, x') \<longleftrightarrow> (\<exists>cs. k (fst x) = (Inr a, cs) \<and> x' = (cs, snd x))"
  by (auto simp: fin_disk_def fin_read_def fin_catalog_def on_store_def on_disk_def in_catalog_def read_catalog_def
      refuse_if_def split: sum.splits prod.splits)

lemma fin_now_effect [fin_results]:
  "fin_now fz x = (Inr t, x') \<longleftrightarrow> t = fz_monotonic_ns fz (snd x) \<and> 0 \<le> t \<and> t \<le> MAX_MONOTONIC_NS
     \<and> x' = (fst x, Suc (snd x))"
  by (auto simp: fin_now_def Let_def)

text \<open>What a computation does if it returns, in terms of \<open>ends\<close> and \<open>returns\<close>.\<close>

lemma endsD: "ends P (r, x') \<Longrightarrow> P x'"
  by (simp add: ends_def)

section \<open>Completing an intent\<close>

lemma requeue_clips: "requeue_protect k vt st now c = Inr c' \<Longrightarrow> clips c' = clips c"
  by (auto simp: requeue_protect_def result_simps dest: insert_intent_locked_clips)

lemma complete_intent_clip:
  assumes "complete_intent_locked intent now c = Inr c'" "oi_kind intent \<noteq> DELETE"
    "video_target (oi_paths intent) = Some vt" "sidecar_target (oi_paths intent) = Some st"
    "find_clip c (oi_clip_id intent) = Some r"
  shows "\<exists>r'. find_clip c' (oi_clip_id intent) = Some r' \<and> video_path r' = vt \<and> sidecar_path r' = st
    \<and> cc_lifecycle r' = (if oi_kind intent \<in> {PROTECT, UNPROTECT} then cc_lifecycle r else FINALIZED)"
proof -
  let ?k = "oi_clip_id intent"
  have found: "find_clip c' ?k = Some (f r)"
    if "c' = mark_intent_complete iid now (update_clip ?k f c)
        \<or> requeue_protect ?k vt st now (mark_intent_complete iid now (update_clip ?k f c)) = Inr c'"
      "\<And>x. cc_clip_id (f x) = cc_clip_id x" for f iid
  proof -
    have "find_clip c' ?k = find_clip (mark_intent_complete iid now (update_clip ?k f c)) ?k"
      using that(1) requeue_clips by (auto simp: find_clip_def)
    then show ?thesis
      using find_clip_complete [OF that(2)] assms(5) by simp
  qed
  have "complete_intent_locked intent now c =
      (if oi_kind intent = UNPROTECT then complete_unprotect intent vt st now c
       else if oi_kind intent = PROTECT then Inr (complete_protect intent vt st now c)
       else complete_promotion intent vt st now c)"
    unfolding complete_intent_locked_def assms(3,4) using assms(2) by simp
  with assms(1) consider (u) "oi_kind intent = UNPROTECT" "complete_unprotect intent vt st now c = Inr c'"
      | (p) "oi_kind intent = PROTECT" "c' = complete_protect intent vt st now c"
      | (f) "oi_kind intent \<notin> {PROTECT, UNPROTECT}" "complete_promotion intent vt st now c = Inr c'"
    by (auto split: if_splits)
  then show ?thesis
  proof cases
    case u
    obtain b where "c' = mark_intent_complete (intent_id intent) now (update_clip ?k (unprotected_row b vt st now) c)
        \<or> requeue_protect ?k vt st now (mark_intent_complete (intent_id intent) now
             (update_clip ?k (unprotected_row b vt st now) c)) = Inr c'"
      using u(2) by (auto simp: complete_unprotect_def Let_def result_simps split: option.splits if_splits)
    from found [OF this] u(1) show ?thesis
      by (simp add: unprotected_row_def)
  next
    case p
    from found [OF disjI1 [OF p(2) [unfolded complete_protect_def]]] p(1) show ?thesis
      by simp
  next
    case f
    obtain b where "c' = mark_intent_complete (intent_id intent) now (update_clip ?k (promoted_row b vt st now) c)
        \<or> requeue_protect ?k vt st now (mark_intent_complete (intent_id intent) now
             (update_clip ?k (promoted_row b vt st now) c)) = Inr c'"
      using f(2) by (auto simp: complete_promotion_def Let_def result_simps split: if_splits)
    from found [OF this] f(1) show ?thesis
      by (simp add: promoted_row_def)
  qed
qed

text \<open>An attempt on any filesystem that keeps the contract.\<close>

context catalog_filesystem
begin

lemma attempt_files:
  assumes "reconcile_intent fs parse sha iid now n (c, s) = (r, (c', s'))"
    "row_get ir_intent_id iid (operation_intents c) = Some i"
  shows "(pair_step (ir_kind i) (ir_paths i) (reconciliation_sidecar i))\<^sup>*\<^sup>* (view s) (view s')"
  using assms
proof (cases rule: reconcile_intent_cases)
  case idle
  then show ?thesis by simp
next
  case (run intent)
  have "oi_kind intent = ir_kind i" "oi_paths intent = ir_paths i"
    using intent_from_rowD [OF run(1)] by simp_all
  with reconcile_body_files [of intent i s parse sha now n c] run(5) show ?thesis
    by (auto simp: files_by_def)
qed

lemma attempt_completed:
  assumes "reconcile_intent fs parse sha iid now n (c, s) = (Inr res, (c', s'))" "irr_complete res"
    "row_get ir_intent_id iid (operation_intents c) = Some i" "is_pending i" "intent_from_row i = Inr intent"
  shows "complete (view_plan intent (view s')) \<and> complete_intent_locked intent now c = Inr c'"
  using assms(1,3)
proof (cases rule: reconcile_intent_cases)
  case idle
  with assms(4) show ?thesis by simp
next
  case (run intent')
  with assms(5) have body: "reconcile_body fs parse sha i intent now n c s = (Inr (res, c'), s')"
    by auto
  from reconcile_body_returns [OF body] completed_body [OF body assms(2)] assms(2) show ?thesis
    by simp
qed

end

section \<open>Pending intents\<close>

text \<open>An intent read from the catalog names the row it came from.\<close>

definition known :: "catalog \<Rightarrow> OperationIntent \<Rightarrow> bool" where
  "known c intent = (\<exists>i. row_get ir_intent_id (intent_id intent) (operation_intents c) = Some i
     \<and> is_pending i \<and> intent_from_row i = Inr intent)"

lemma known_row:
  "catalog_inv c \<Longrightarrow> i \<in> set (operation_intents c) \<Longrightarrow> is_pending i \<Longrightarrow> intent_from_row i = Inr intent \<Longrightarrow> known c intent"
  using intent_table.get_Some_iff [OF inv_iids] intent_from_rowD unfolding known_def by metis

lemma get_pending_known:
  assumes "catalog_inv c" "get_pending_intent iid c = Inr (Some intent)"
  shows "known c intent"
proof -
  obtain i where "find (\<lambda>i. ir_intent_id i = iid \<and> is_pending i) (operation_intents c) = Some i" "intent_from_row i = Inr intent"
    using assms(2) by (auto simp: get_pending_intent_def result_simps split: option.splits)
  then show ?thesis
    using known_row [OF assms(1)] nth_mem unfolding find_Some_iff by metis
qed

lemma pending_where_known:
  assumes "catalog_inv c" "pending_intents_where sel lim c = Inr xs" "intent \<in> set xs"
  shows "known c intent \<and> (\<exists>i. sel i \<and> intent_from_row i = Inr intent)"
proof -
  obtain i where "i \<in> set (operation_intents c)" "is_pending i" "sel i" "intent_from_row i = Inr intent"
    using mapR_member [OF assms(2) [unfolded pending_intents_where_def] assms(3)]
    by (auto dest!: in_set_takeD)
  with known_row [OF assms(1)] show ?thesis by blast
qed

lemma by_kind_known:
  assumes "catalog_inv c" "list_pending_intents_by_kind kinds lim c = Inr xs" "intent \<in> set xs"
  shows "known c intent \<and> oi_kind intent \<in> set kinds"
proof -
  have "pending_intents_where (\<lambda>i. ir_kind i \<in> set kinds) lim c = Inr xs"
    using assms(2) by (auto simp: list_pending_intents_by_kind_def result_simps)
  from pending_where_known [OF assms(1) this assms(3)] show ?thesis
    using intent_from_rowD by metis
qed

lemma for_clip_known:
  assumes "catalog_inv c" "list_pending_intents_for_clip k kinds lim c = Inr xs" "intent \<in> set xs"
  shows "known c intent \<and> oi_kind intent \<in> set kinds \<and> oi_clip_id intent = k"
proof -
  have "pending_intents_where (\<lambda>i. ir_clip_id i = k \<and> ir_kind i \<in> set kinds) lim c = Inr xs"
    using assms(2) by (auto simp: list_pending_intents_for_clip_def result_simps)
  from pending_where_known [OF assms(1) this assms(3)] show ?thesis
    using intent_from_rowD by metis
qed

section \<open>Observing operations\<close>

definition still :: "('f \<Rightarrow> file_view) \<Rightarrow> 'f fin \<Rightarrow> 'f fin \<Rightarrow> bool" where
  "still v x y = (fin_cat y = fin_cat x \<and> v (fin_fs y) = v (fin_fs x))"

locale clip_finalizer = finalization_filesystem "fz_filesystem fz" view healthy "fz_canonical fz"
  for fz :: "disk RecorderClipFinalizer" and view and healthy
begin

lemma still_steps:
  assumes "still view x0 x"
  shows still_now: "ends (still view x0) (fin_now fz x)"
    and still_exists: "ends (still view x0) (fin_disk (fs_exists (fz_base fz) p) x)"
    and still_read: "ends (still view x0) (fin_disk (fs_read_bytes (fz_base fz) p n) x)"
    and still_size: "ends (still view x0) (fin_disk (fs_file_size (fz_base fz) p) x)"
    and still_iter: "ends (still view x0) (fin_disk (fs_iter_files (fz_base fz) p n) x)"
    and still_sync: "ends (still view x0) (fin_disk (fs_sync_file (fz_filesystem fz) p) x)"
  using assms
  by (auto intro!: ends_fin_now ends_fin_disk simp: still_def
      dest!: exists_view read_view size_view iter_view sync_view)

lemma still_read_sidecar: "still view x0 x \<Longrightarrow> ends (still view x0) (read_sidecar fz p x)"
  using still_read [of x0 x p "max_sidecar_bytes (fz_limits fz)"]
  by (auto simp: read_sidecar_def ends_def split: prod.splits sum.splits)

lemma still_validate: "still view x0 x \<Longrightarrow> ends (still view x0) (validate_durable_sidecar fz intent expected x)"
  unfolding validate_durable_sidecar_def validate_location_def
  by (intro ends_rules still_exists still_read_sidecar) simp_all

lemma still_names: "still view x0 x \<Longrightarrow> ends (still view x0) (directory_names fz dir x)"
  unfolding directory_names_def by (intro ends_rules still_iter) simp_all

lemma still_video_size: "still view x0 x \<Longrightarrow> ends (still view x0) (closed_video_size fz p x)"
  unfolding closed_video_size_def by (intro ends_rules still_exists still_size) simp_all

lemma still_check: "still view x0 x \<Longrightarrow> ends (still view x0) (check_closed_pair fz paths x)"
  unfolding check_closed_pair_def require_free_targets_def require_unique_exact_def require_absent_casefold_def
  by (intro ends_rules still_names still_video_size still_sync) simp_all

lemma still_replay: "still view x0 x \<Longrightarrow> ends (still view x0) (completed_replay fz clip paths expected x)"
  unfolding completed_replay_def by (intro ends_rules still_exists still_validate) simp_all

lemma still_pending: "still view x0 x \<Longrightarrow> ends (still view x0) (pending_recovery fz x)"
  unfolding pending_recovery_def Let_def by (intro ends_rules) simp_all

lemma still_find: "still view x0 x \<Longrightarrow> ends (still view x0) (find_registered_intent iid k paths x)"
  unfolding find_registered_intent_def validate_intent_def by (intro ends_rules) simp_all

end

section \<open>Staging\<close>

text \<open>The catalog stays reachable and no file but the staged sidecar changes.\<close>

definition beside :: "('f \<Rightarrow> file_view) \<Rightarrow> string \<Rightarrow> 'f fin \<Rightarrow> 'f fin \<Rightarrow> bool" where
  "beside v ss x y = (catalog_reach (fin_cat y) \<and> (\<forall>p. p \<noteq> ss \<longrightarrow> v (fin_fs y) p = v (fin_fs x) p))"

lemma ends_still: "(\<And>y. still v x y \<Longrightarrow> P y) \<Longrightarrow> ends (still v x) m \<Longrightarrow> ends P m"
  by (simp add: ends_def)

lemma still_refl: "still v x x"
  by (simp add: still_def)

lemma beside_still: "beside v ss x0 x \<Longrightarrow> still v x y \<Longrightarrow> beside v ss x0 y"
  by (simp add: beside_def still_def)

lemma ends_beside_catalog:
  assumes "beside v ss x0 x" "\<And>c r c'. f c = Inr (r, c') \<Longrightarrow> catalog_step c c'"
  shows "ends (beside v ss x0) (fin_catalog f x)"
  using assms catalog_reach.step by (intro ends_fin_catalog) (fastforce simp: beside_def)+

context clip_finalizer
begin

lemma beside_now: "beside view ss x0 x \<Longrightarrow> ends (beside view ss x0) (fin_now fz x)"
  by (rule ends_still [OF beside_still still_now [OF still_refl]])

lemma beside_exists: "beside view ss x0 x \<Longrightarrow> ends (beside view ss x0) (fin_disk (fs_exists (fz_base fz) p) x)"
  by (rule ends_still [OF beside_still still_exists [OF still_refl]])

lemma beside_read_back: "beside view ss x0 x \<Longrightarrow> ends (beside view ss x0) (read_back fz p x)"
  unfolding read_back_def by (rule ends_still [OF beside_still still_read [OF still_refl]])

lemma beside_read_sidecar: "beside view ss x0 x \<Longrightarrow> ends (beside view ss x0) (read_sidecar fz p x)"
  by (rule ends_still [OF beside_still still_read_sidecar [OF still_refl]])

lemma beside_replace:
  "beside view ss x0 x \<Longrightarrow> ends (beside view ss x0) (fin_disk (fs_replace_bytes_atomic (fz_base fz) ss w n) x)"
  by (rule ends_fin_disk) (auto simp: beside_def dest!: replace_view)

lemma beside_stage:
  "beside view ss x0 x \<Longrightarrow> ends (beside view ss x0) (fin_disk (fs_write_staged_sidecar (fz_filesystem fz) ss sc) x)"
  by (rule ends_fin_disk) (auto simp: beside_def dest!: stage_view)

lemma beside_ensure:
  "beside view ss x0 x \<Longrightarrow> ends (beside view ss x0) (ensure_pending_sidecar fz ss sc payload re x)"
  unfolding ensure_pending_sidecar_def write_pending_sidecar_def replace_pending_sidecar_def
  by (intro ends_rules beside_exists beside_read_back beside_read_sidecar beside_replace beside_stage) simp_all

lemma beside_closing: "beside view ss x0 x \<Longrightarrow> ends (beside view ss x0) (closing_sidecar fz active sc x)"
  unfolding closing_sidecar_def Let_def
  by (intro ends_rules beside_now ends_beside_catalog catalog_step.closing) simp_all

lemma beside_register:
  assumes "beside view (sidecar_source paths) x0 x" "pair_paths_ok paths"
  shows "ends (beside view (sidecar_source paths) x0) (register_attempts n fz active paths sc order nbytes x)"
  using assms(1)
proof (induction n arbitrary: x)
  case 0
  then show ?case by (simp add: ends_def)
next
  case (Suc n)
  let ?P = "beside view (sidecar_source paths) x0"
  have reg: "ends ?P (case fin_catalog (register_finalizing_clip clip paths now rv) y of
       (Inl e, x4) \<Rightarrow> if e = ActiveClipProtectionChanged then register_attempts n fz active paths sc order nbytes x4
                      else (Inl e, x4)
     | (Inr iid, x4) \<Rightarrow> (Inr (iid, eff), x4))" if "?P y" for clip now rv y eff
  proof -
    have "ends ?P (fin_catalog (register_finalizing_clip clip paths now rv) y)"
      using that catalog_step.finalizing [OF assms(2)] by (intro ends_beside_catalog) blast+
    then show ?thesis
      using Suc.IH by (auto simp: ends_def split: prod.splits sum.splits)
  qed
  show ?case
    unfolding register_attempts.simps
    by (intro ends_rules beside_closing beside_ensure beside_now reg Suc.prems)
qed

end

section \<open>Moving\<close>

text \<open>The catalog stays reachable and every content but the staged sidecar's is still somewhere.\<close>

definition carried :: "('f \<Rightarrow> file_view) \<Rightarrow> string \<Rightarrow> 'f fin \<Rightarrow> 'f fin \<Rightarrow> bool" where
  "carried v ss x y = (catalog_reach (fin_cat y)
     \<and> (\<forall>p w. p \<noteq> ss \<longrightarrow> v (fin_fs x) p = Some w \<longrightarrow> (\<exists>q. v (fin_fs y) q = Some w)))"

text \<open>A finalized clip whose two files are where the catalog says.\<close>

definition settled_clip :: "('f \<Rightarrow> file_view) \<Rightarrow> 'f fin \<Rightarrow> uuid \<Rightarrow> bool" where
  "settled_clip v x k = (\<exists>r. find_clip (fin_cat x) k = Some r \<and> cc_lifecycle r = FINALIZED
     \<and> v (fin_fs x) (video_path r) \<noteq> None \<and> v (fin_fs x) (sidecar_path r) \<noteq> None)"

definition carried_out :: "('f \<Rightarrow> file_view) \<Rightarrow> OperationIntent \<Rightarrow> catalog \<Rightarrow> catalog \<Rightarrow> 'f \<Rightarrow> bool" where
  "carried_out v intent c c' s' = (\<exists>r r'. find_clip c (oi_clip_id intent) = Some r
     \<and> find_clip c' (oi_clip_id intent) = Some r'
     \<and> cc_lifecycle r' = (if oi_kind intent = FINALIZE then FINALIZED else cc_lifecycle r)
     \<and> v s' (video_path r') \<noteq> None \<and> v s' (sidecar_path r') \<noteq> None)"

lemma carried_still: "carried v ss x0 x \<Longrightarrow> still v x y \<Longrightarrow> carried v ss x0 y"
  by (simp add: carried_def still_def)

lemma beside_carried: "beside v ss x0 x \<Longrightarrow> carried v ss x0 x"
  unfolding beside_def carried_def by metis

lemma settled_still: "still v x y \<Longrightarrow> settled_clip v y k = settled_clip v x k"
  by (simp add: settled_clip_def still_def)

lemma ends_mono_state: "(\<And>y. Q y \<Longrightarrow> P y) \<Longrightarrow> ends Q m \<Longrightarrow> ends P m"
  by (simp add: ends_def)

lemma ends_then:
  assumes "ends Q m" "\<And>y. Q y \<Longrightarrow> P y" "\<And>v y. m = (Inr v, y) \<Longrightarrow> Q y \<Longrightarrow> ends P (k v y)"
  shows "ends P (bindF m k)"
proof (cases m)
  case (Pair r y)
  with assms show ?thesis
    by (cases r) (auto simp: ends_def bindF_def)
qed

lemma returns_then:
  "returns Q m \<Longrightarrow> (\<And>v y. m = (Inr v, y) \<Longrightarrow> Q v y \<Longrightarrow> returns P (k v y)) \<Longrightarrow> returns P (bindF m k)"
  by (auto simp: returns_def bindF_eq_Inr)

context clip_finalizer
begin

abbreviation plain_move :: "OperationIntent \<Rightarrow> bool" where
  "plain_move intent \<equiv> oi_kind intent \<in> {FINALIZE, PROTECT, UNPROTECT}"

lemma reconcile_one_spec:
  assumes reach: "catalog_reach (fin_cat x)" and known: "known (fin_cat x) intent" and kind: "plain_move intent"
    and op: "reconcile_one fz intent resumed x = (r, y)"
  shows "catalog_reach (fin_cat y) \<and> (\<forall>p w. view (fin_fs x) p = Some w \<longrightarrow> (\<exists>q. view (fin_fs y) q = Some w))
    \<and> (\<forall>out. r = Inr out \<longrightarrow> fo_clip_id out = oi_clip_id intent
         \<and> (fo_complete out \<longrightarrow> carried_out view intent (fin_cat x) (fin_cat y) (fin_fs y)))"
proof -
  let ?lim = "max_actions_per_intent (fz_limits fz)" and ?now = "fz_monotonic_ns fz (snd x)"
  obtain a c' s' where att: "reconcile_intent (fz_base fz) (fz_parse_sidecar fz) (fz_sha256 fz) (intent_id intent) ?now ?lim
      (fin_cat x, fin_fs x) = (a, (c', s'))"
    by (metis surj_pair)
  obtain i where i: "row_get ir_intent_id (intent_id intent) (operation_intents (fin_cat x)) = Some i" "is_pending i"
      "intent_from_row i = Inr intent"
    using known by (auto simp: known_def)
  note fields = intent_from_rowD [OF i(3)]
  have y: "fin_cat y = fin_cat x \<and> fin_fs y = fin_fs x \<and> (\<exists>e. r = Inl e)
      \<or> fin_cat y = c' \<and> fin_fs y = s' \<and> (\<forall>out. r = Inr out \<longrightarrow> (\<exists>res. a = Inr res \<and> irr_intent res = intent
           \<and> fo_clip_id out = oi_clip_id intent \<and> fo_complete out = irr_complete res))"
    using op att
    by (cases a) (auto simp: reconcile_one_def bindF_def refuse_if_def fin_now_def on_store_def Let_def split: if_splits)
  have "catalog_reach c'"
    using reach att catalog_reach.step catalog_step.reconcile by (metis prod.collapse)
  moreover have "\<forall>p w. view (fin_fs x) p = Some w \<longrightarrow> (\<exists>q. view s' q = Some w)"
    using pair_steps_lose_nothing [OF attempt_files [OF att i(1)]] fields kind by auto
  moreover have "carried_out view intent (fin_cat x) c' s'"
    if "a = Inr res" "irr_complete res" for res
  proof -
    have plan: "complete (view_plan intent (view s'))" and fin: "complete_intent_locked intent ?now (fin_cat x) = Inr c'"
      using attempt_completed [OF att [unfolded that(1)] that(2) i] by simp_all
    have nd: "oi_kind intent \<noteq> DELETE"
      using kind by auto
    from plan nd obtain vt st where t: "video_target (oi_paths intent) = Some vt" "sidecar_target (oi_paths intent) = Some st"
        "view s' vt \<noteq> None" "view s' st \<noteq> None"
      by (auto simp: view_plan_complete_iff member_done_def observed_def split: option.splits)
    have "i \<in> set (operation_intents (fin_cat x))"
      using intent_table.get_SomeD [OF i(1)] by simp
    then obtain r1 where r1: "find_clip (fin_cat x) (oi_clip_id intent) = Some r1"
      using inv_refs [OF reach_inv [OF reach]] find_clip_Some_iff [OF reach_inv [OF reach]] fields by fastforce
    from complete_intent_clip [OF fin nd t(1,2) r1] r1 t(3,4) kind show ?thesis
      by (auto simp: carried_out_def)
  qed
  ultimately show ?thesis
    using y reach by auto
qed

lemma carried_reconcile:
  assumes "carried view ss x0 x" "known (fin_cat x) intent" "plain_move intent"
  shows "ends (carried view ss x0) (reconcile_one fz intent resumed x)"
proof -
  obtain r y where "reconcile_one fz intent resumed x = (r, y)"
    by (metis surj_pair)
  with reconcile_one_spec [OF _ assms(2,3) this] assms(1) show ?thesis
    by (simp add: ends_def carried_def) metis
qed

lemma settled_reconcile:
  assumes "catalog_reach (fin_cat x)" "known (fin_cat x) intent" "plain_move intent"
    "oi_kind intent \<noteq> FINALIZE \<Longrightarrow> settled_clip view x (oi_clip_id intent)"
  shows "returns (\<lambda>out y. catalog_reach (fin_cat y) \<and> fo_clip_id out = oi_clip_id intent
    \<and> (fo_complete out \<longrightarrow> settled_clip view y (oi_clip_id intent))) (reconcile_one fz intent resumed x)"
proof -
  obtain r y where op: "reconcile_one fz intent resumed x = (r, y)"
    by (metis surj_pair)
  with reconcile_one_spec [OF assms(1-3) op] assms(4) show ?thesis
    by (auto simp: returns_def settled_clip_def carried_out_def)
qed

end

section \<open>Finalizing\<close>

text \<open>\<open>runs P Q m\<close>: every outcome leaves a state in \<open>P\<close>, and a returned value and its state satisfy \<open>Q\<close>.\<close>

definition runs :: "('s \<Rightarrow> bool) \<Rightarrow> ('a \<Rightarrow> 's \<Rightarrow> bool) \<Rightarrow> 'a result \<times> 's \<Rightarrow> bool" where
  "runs P Q m = (ends P m \<and> returns Q m)"

lemma runs_bindF:
  assumes "runs P Q m" "\<And>v y. m = (Inr v, y) \<Longrightarrow> P y \<Longrightarrow> Q v y \<Longrightarrow> runs P R (k v y)"
  shows "runs P R (bindF m k)"
proof (cases m)
  case (Pair r y)
  with assms show ?thesis
    by (cases r) (auto simp: runs_def ends_def returns_def)
qed

lemma runs_ends: "ends P m \<Longrightarrow> (\<And>v y. m = (Inr v, y) \<Longrightarrow> P y \<Longrightarrow> Q v y) \<Longrightarrow> runs P Q m"
  by (auto simp: runs_def returns_def ends_def)

lemma runs_refused: "P x \<Longrightarrow> runs P Q (Inl e, x)"
  by (simp add: runs_def ends_def returns_def)

lemma runs_value: "P x \<Longrightarrow> Q v x \<Longrightarrow> runs P Q (Inr v, x)"
  by (simp add: runs_def ends_def returns_def)

context clip_finalizer
begin

abbreviation finishes :: "uuid \<Rightarrow> FinalizationOutcome \<Rightarrow> disk fin \<Rightarrow> bool" where
  "finishes k out y \<equiv> fo_clip_id out = k \<and> (fo_complete out \<longrightarrow> settled_clip view y k)"

lemma runs_still:
  assumes "carried view ss x0 x" "ends (still view x) m" "\<And>v y. m = (Inr v, y) \<Longrightarrow> still view x y \<Longrightarrow> Q v y"
  shows "runs (carried view ss x0) Q m"
proof (rule runs_ends)
  show "ends (carried view ss x0) m"
    by (rule ends_still [OF carried_still [OF assms(1)] assms(2)])
next
  fix v y
  assume "m = (Inr v, y)"
  with assms(2,3) show "Q v y"
    by (simp add: ends_def)
qed

lemma runs_reconcile:
  assumes "carried view ss x0 x" "known (fin_cat x) intent" "plain_move intent"
    "oi_kind intent \<noteq> FINALIZE \<Longrightarrow> settled_clip view x (oi_clip_id intent)"
  shows "runs (carried view ss x0) (finishes (oi_clip_id intent)) (reconcile_one fz intent resumed x)"
  unfolding runs_def
  using carried_reconcile [OF assms(1-3)] settled_reconcile [OF _ assms(2-4)] assms(1)
  by (auto simp: returns_def carried_def)

lemma runs_followups:
  assumes "carried view ss x0 x" "settled_clip view x (fo_clip_id initial)"
  shows "runs (carried view ss x0) (finishes (fo_clip_id initial)) (clip_followups n fz initial attempted x)"
  using assms
proof (induction n arbitrary: attempted x)
  case 0
  then show ?case by (simp add: runs_refused)
next
  case (Suc n)
  let ?k = "fo_clip_id initial"
  have body: "runs (carried view ss x0) (finishes ?k) (case vals of
       [] \<Rightarrow> (Inr (initial\<lparr>fo_actions_attempted := attempted\<rparr>), y)
     | [intent] \<Rightarrow> bindF (reconcile_one fz intent True y) (\<lambda>followup x2.
         let total = attempted + fo_actions_attempted followup
         in if fo_complete followup then clip_followups n fz initial total x2
            else (Inr (initial\<lparr>fo_actions_attempted := total, fo_complete := False\<rparr>), x2))
     | _ \<Rightarrow> (Inl FinalizationRefused, y))"
    if l: "list_pending_intents_for_clip ?k [PROTECT, UNPROTECT] 2 (fin_cat x) = Inr vals" and y: "y = x" for vals y
  proof (cases vals)
    case Nil
    with Suc.prems y show ?thesis by (simp add: runs_value)
  next
    case (Cons intent others)
    have "catalog_inv (fin_cat x)"
      using Suc.prems(1) by (simp add: carried_def reach_inv)
    from for_clip_known [OF this l, of intent] Cons
    have i: "known (fin_cat x) intent" "oi_kind intent \<in> {PROTECT, UNPROTECT}" "oi_clip_id intent = ?k"
      by auto
    have "runs (carried view ss x0) (finishes ?k) (reconcile_one fz intent True x)"
      using runs_reconcile [OF Suc.prems(1) i(1)] i(2,3) Suc.prems(2) by auto
    then have "runs (carried view ss x0) (finishes ?k) (bindF (reconcile_one fz intent True x) (\<lambda>followup x2.
         let total = attempted + fo_actions_attempted followup
         in if fo_complete followup then clip_followups n fz initial total x2
            else (Inr (initial\<lparr>fo_actions_attempted := total, fo_complete := False\<rparr>), x2)))"
      by (rule runs_bindF) (auto simp: Let_def intro!: Suc.IH runs_value)
    with Cons y Suc.prems(1) show ?thesis
      by (cases others) (simp_all add: runs_refused)
  qed
  show ?case
    unfolding clip_followups.simps
    by (rule runs_bindF [OF runs_ends [where Q = "\<lambda>vals y. y = x
          \<and> list_pending_intents_for_clip ?k [PROTECT, UNPROTECT] 2 (fin_cat x) = Inr vals"]])
      (use Suc.prems(1) body in \<open>auto simp: fin_results intro!: ends_fin_read\<close>)
qed

lemma runs_find:
  assumes "carried view ss x0 x"
  shows "runs (carried view ss x0) (\<lambda>intent y. y = x \<and> known (fin_cat x) intent \<and> oi_kind intent = FINALIZE
    \<and> oi_clip_id intent = k) (find_registered_intent iid k paths x)"
proof (rule runs_still [OF assms still_find [OF still_refl]])
  fix intent y
  assume "find_registered_intent iid k paths x = (Inr intent, y)"
  then have "get_pending_intent iid (fin_cat x) = Inr (Some intent)" "y = x" "oi_kind intent = FINALIZE" "oi_clip_id intent = k"
    by (auto simp: find_registered_intent_def validate_intent_def bindF_eq_Inr fin_results split: option.splits)
  then show "y = x \<and> known (fin_cat x) intent \<and> oi_kind intent = FINALIZE \<and> oi_clip_id intent = k"
    using get_pending_known assms by (simp add: carried_def reach_inv)
qed

lemma runs_finalize_new:
  assumes "still view x0 x" "catalog_reach (fin_cat x0)" "pair_paths_ok paths"
  shows "runs (carried view (sidecar_source paths) x0) (finishes (sc_clip_id sc)) (finalize_new fz active paths sc order x)"
proof -
  let ?P = "carried view (sidecar_source paths) x0"
  let ?B = "beside view (sidecar_source paths) x0"
  have B: "?B y" if "still view x0 y" for y
    using that assms(2) by (simp add: beside_def still_def)
  have tail: "runs ?P (finishes (sc_clip_id sc)) (bindF (find_registered_intent iid (sc_clip_id sc) paths y) (\<lambda>intent x3.
     bindF (reconcile_one fz intent False x3) (\<lambda>outcome x4.
       if fo_complete outcome \<and> sc_protected effective then reconcile_clip_followups fz outcome x4
       else (Inr outcome, x4))))" if "?P y" for y iid effective
  proof (rule runs_bindF [OF runs_find [OF that, of "sc_clip_id sc"]], elim conjE)
    fix intent z
    assume z: "z = y" and i: "known (fin_cat y) intent" "oi_kind intent = FINALIZE" "oi_clip_id intent = sc_clip_id sc"
    have "runs ?P (finishes (sc_clip_id sc)) (reconcile_one fz intent False y)"
      using runs_reconcile [OF that i(1)] i(2,3) by simp
    then show "runs ?P (finishes (sc_clip_id sc)) (bindF (reconcile_one fz intent False z) (\<lambda>outcome x4.
       if fo_complete outcome \<and> sc_protected effective then reconcile_clip_followups fz outcome x4
       else (Inr outcome, x4)))"
      unfolding z
    proof (rule runs_bindF)
      fix out w
      assume "?P w" "finishes (sc_clip_id sc) out w"
      then show "runs ?P (finishes (sc_clip_id sc)) (if fo_complete out \<and> sc_protected effective
          then reconcile_clip_followups fz out w else (Inr out, w))"
        using runs_followups [of _ x0 w out 2] by (simp add: reconcile_clip_followups_def runs_value)
    qed
  qed
  have reg: "runs ?P (finishes (sc_clip_id sc)) (bindF (register_attempts n fz active paths sc order nbytes y)
     (\<lambda>(iid, effective) x2. bindF (find_registered_intent iid (sc_clip_id sc) paths x2) (\<lambda>intent x3.
     bindF (reconcile_one fz intent False x3) (\<lambda>outcome x4.
       if fo_complete outcome \<and> sc_protected effective then reconcile_clip_followups fz outcome x4
       else (Inr outcome, x4)))))" if "still view x0 y" for y n nbytes
    by (rule runs_bindF [OF runs_ends [OF ends_mono_state [OF beside_carried beside_register [OF B [OF that] assms(3)]]]])
      (auto intro: tail)
  have "runs ?P (\<lambda>_ y. still view x0 y) (check_closed_pair fz paths x)"
  proof (rule runs_still [OF beside_carried [OF B [OF assms(1)]] still_check [OF still_refl]])
    fix y
    assume "still view x y"
    with assms(1) show "still view x0 y"
      by (simp add: still_def)
  qed
  then show ?thesis
    unfolding finalize_new_def by (rule runs_bindF) (rule reg)
qed

lemma exists_result:
  assumes "fin_disk (fs_exists (fz_base fz) p) x = (Inr b, y)"
  shows "still view x y \<and> b = (view (fin_fs x) p \<noteq> None)"
proof -
  obtain s' where s': "fs_exists (fz_base fz) p (fin_fs x) = (Inr b, s')" "y = ((fin_cat x, s'), snd x)"
    using assms unfolding fin_effects(1) by blast
  from exists_view [OF s'(1)] s'(2) show ?thesis
    by (simp add: still_def)
qed

lemma bindF_refuse: "bindF (refuse_if b x) k = (Inr v, y) \<longleftrightarrow> \<not> b \<and> k () x = (Inr v, y)"
  by (simp add: refuse_if_def bindF_def)

lemma completed_replayD:
  assumes "completed_replay fz clip paths expected x = (Inr out, y)"
  shows "cc_lifecycle clip = FINALIZED \<and> view (fin_fs x) (video_path clip) \<noteq> None
    \<and> view (fin_fs x) (sidecar_path clip) \<noteq> None \<and> fo_clip_id out = cc_clip_id clip"
proof -
  from assms obtain b1 b2 x1 x2 where ok: "\<not> (cc_lifecycle clip \<noteq> FINALIZED \<or> \<not> cc_pair_reconciled clip
        \<or> Some (video_path clip) \<noteq> video_target paths \<or> Some (sidecar_path clip) \<noteq> sidecar_target paths)"
      and e: "fin_disk (fs_exists (fz_base fz) (video_path clip)) x = (Inr b1, x1)" "b1"
      "fin_disk (fs_exists (fz_base fz) (sidecar_path clip)) x1 = (Inr b2, x2)" "b2"
      and out: "\<exists>z. (Inr \<lparr>fo_clip_id = cc_clip_id clip, fo_intent_id = None, fo_actions_attempted = 0, fo_complete = True,
          fo_resumed = True\<rparr>, z) = (Inr out, y)"
    unfolding completed_replay_def bindF_refuse unfolding bindF_eq_Inr fin_effects(4) by blast
  show ?thesis
    using exists_result [OF e(1)] exists_result [OF e(3)] e(2,4) ok out by (auto simp: still_def)
qed

lemma runs_replay:
  assumes "carried view ss x0 x" "get_clip k (fin_cat x) = Inr clip"
  shows "runs (carried view ss x0) (finishes k) (completed_replay fz clip paths expected x)"
proof (rule runs_still [OF assms(1) still_replay [OF still_refl]])
  fix out y
  assume op: "completed_replay fz clip paths expected x = (Inr out, y)" and s: "still view x y"
  obtain r where r: "find_clip (fin_cat x) k = Some r" "clip_from_row r = Inr clip"
    using assms(2) by (auto simp: get_clip_def split: option.splits)
  then have c: "cc_clip_id clip = cc_clip_id r" "cc_lifecycle clip = cc_lifecycle r" "video_path clip = video_path r"
      "sidecar_path clip = sidecar_path r"
    by (auto simp: clip_from_row_def result_simps CatalogClip.truncate_def split: option.splits)
  note facts = completed_replayD [OF op]
  have "cc_clip_id r = k"
    using r(1) by (auto simp: find_clip_def dest: clip_table.get_SomeD)
  with r c s facts show "finishes k out y"
    by (simp add: settled_clip_def still_def)
qed

lemma promotion_pathsD:
  assumes "promotion_paths name sc = Inr paths"
  shows "pair_paths_ok paths \<and> video_source paths = join_path ''pending'' name
    \<and> sidecar_source paths = join_path ''pending'' (sidecar_name_of name)
    \<and> video_target paths = Some (join_path ''clips'' (video_file sc))
    \<and> sidecar_target paths = Some (join_path ''clips'' (metadata_file sc))"
proof -
  obtain v where v: "promotion_source name = Inr v" and ps: "mk_pair_paths v (join_path ''pending'' (sidecar_name_of name))
      (Some (join_path ''clips'' (video_file sc))) (Some (join_path ''clips'' (metadata_file sc))) = Inr paths"
    using assms by (auto simp: promotion_paths_def result_simps split: if_splits)
  from v have "v = join_path ''pending'' name"
    by (auto simp: promotion_source_def result_simps split: if_splits)
  with mk_pair_pathsD [OF ps] pair_paths_okI [OF ps] show ?thesis
    by simp
qed

lemma pending_recoveryD:
  assumes "pending_recovery fz x = (Inr (pending, truncated), y)" "catalog_reach (fin_cat x)"
  shows "y = x \<and> (\<forall>intent \<in> set pending. known (fin_cat x) intent \<and> oi_kind intent \<in> set RECOVERY_INTENT_KINDS)"
proof -
  obtain xs where "list_pending_intents_by_kind RECOVERY_INTENT_KINDS (max_pending_intents (fz_limits fz) + 1) (fin_cat x) = Inr xs"
      "pending = take (nat (max_pending_intents (fz_limits fz))) xs" "y = x"
    using assms(1) unfolding pending_recovery_def Let_def bindF_eq_Inr fin_effects(2) by auto
  with by_kind_known [OF reach_inv [OF assms(2)]] show ?thesis
    by (auto dest: in_set_takeD)
qed

lemma runs_resume:
  assumes "carried view ss x0 x" "known (fin_cat x) intent"
  shows "runs (carried view ss x0) (finishes (oi_clip_id intent)) (resume_finalize fz paths sc intent b x)"
proof -
  let ?P = "carried view ss x0" and ?R = "finishes (oi_clip_id intent)"
  have last: "runs ?P ?R (bindF (validate_durable_sidecar fz intent expected x) (\<lambda>_. reconcile_one fz intent True))"
    if "oi_kind intent = FINALIZE" for expected
  proof (rule runs_bindF [where Q = "\<lambda>_ y. still view x y"])
    show "runs ?P (\<lambda>_ y. still view x y) (validate_durable_sidecar fz intent expected x)"
      by (rule runs_still [OF assms(1) still_validate [OF still_refl]])
  next
    fix y
    assume "?P y" "still view x y"
    with that assms(2) show "runs ?P ?R (reconcile_one fz intent True y)"
      by (intro runs_reconcile) (auto simp: still_def)
  qed
  show ?thesis
    using last assms(1) by (simp add: resume_finalize_def refuse_if_def validate_intent_def bindF_def runs_refused)
qed

lemma runs_start:
  assumes reach: "catalog_reach (fin_cat x)" and ok: "pair_paths_ok paths"
  shows "runs (carried view (sidecar_source paths) x) (finishes (sc_clip_id sc)) (start_finalize fz paths sc order b x)"
proof -
  let ?P = "carried view (sidecar_source paths) x" and ?R = "finishes (sc_clip_id sc)"
  have start: "?P x"
    using reach unfolding carried_def by blast
  have fresh: "runs ?P ?R (finalize_new fz active paths sc order x)" for active
    by (rule runs_finalize_new [OF still_refl reach ok])
  have "runs ?P ?R (bindF (fin_read (clip_if_present (sc_clip_id sc)) x) (\<lambda>existing. case existing of
           Some clip \<Rightarrow> if cc_lifecycle clip = WRITING then finalize_new fz True paths sc order
             else completed_replay fz clip paths (fz_canonical fz sc)
         | None \<Rightarrow> finalize_new fz False paths sc order))"
  proof (rule runs_bindF [OF runs_still [OF start ends_fin_read [OF still_refl]]])
    fix found y
    assume "fin_read (clip_if_present (sc_clip_id sc)) x = (Inr found, y)"
    then show "y = x \<and> (\<forall>clip. found = Some clip \<longrightarrow> get_clip (sc_clip_id sc) (fin_cat x) = Inr clip)"
      by (auto simp: fin_results clip_if_present_def split: sum.splits if_splits)
  next
    fix found y
    assume "y = x \<and> (\<forall>clip. found = Some clip \<longrightarrow> get_clip (sc_clip_id sc) (fin_cat x) = Inr clip)"
    with fresh runs_replay [OF start] show "runs ?P ?R ((case found of
           Some clip \<Rightarrow> if cc_lifecycle clip = WRITING then finalize_new fz True paths sc order
             else completed_replay fz clip paths (fz_canonical fz sc)
         | None \<Rightarrow> finalize_new fz False paths sc order) y)"
      by (auto split: option.splits)
  qed
  with start show ?thesis
    by (simp add: start_finalize_def refuse_if_def bindF_simps runs_refused)
qed

lemma runs_finalize:
  assumes reach: "catalog_reach (fin_cat x)"
  shows "runs (carried view (join_path ''pending'' (sidecar_name_of name)) x) (finishes (sc_clip_id sc))
    (finalize fz name sc order x)"
proof -
  let ?P = "carried view (join_path ''pending'' (sidecar_name_of name)) x" and ?R = "finishes (sc_clip_id sc)"
  have start: "?P x"
    using reach unfolding carried_def by blast
  have scan: "runs ?P (\<lambda>v y. y = x \<and> (\<forall>intent \<in> set (fst v). known (fin_cat x) intent)) (pending_recovery fz x)"
  proof (rule runs_still [OF start still_pending [OF still_refl]])
    fix v y
    assume "pending_recovery fz x = (Inr v, y)"
    with pending_recoveryD [of x "fst v" "snd v" y] reach
    show "y = x \<and> (\<forall>intent \<in> set (fst v). known (fin_cat x) intent)"
      by simp
  qed
  have "runs ?P ?R (bindF (pending_recovery fz x) (\<lambda>(pending, truncated).
     case filter (\<lambda>i. oi_clip_id i = sc_clip_id sc) pending of
       intent # others \<Rightarrow> resume_finalize fz paths sc intent (others \<noteq> [])
     | [] \<Rightarrow> start_finalize fz paths sc order truncated))" if ps: "promotion_paths name sc = Inr paths" for paths
  proof (rule runs_bindF [OF scan])
    fix v :: "OperationIntent list \<times> bool" and y
    assume v: "y = x \<and> (\<forall>intent \<in> set (fst v). known (fin_cat x) intent)"
    show "runs ?P ?R ((case v of (pending, truncated) \<Rightarrow> (case filter (\<lambda>i. oi_clip_id i = sc_clip_id sc) pending of
       intent # others \<Rightarrow> resume_finalize fz paths sc intent (others \<noteq> [])
     | [] \<Rightarrow> start_finalize fz paths sc order truncated)) y)"
    proof (cases "filter (\<lambda>i. oi_clip_id i = sc_clip_id sc) (fst v)")
      case Nil
      with v promotion_pathsD [OF ps] runs_start [OF reach, of paths] show ?thesis
        by (simp add: case_prod_beta)
    next
      case (Cons intent others)
      then have "intent \<in> set (filter (\<lambda>i. oi_clip_id i = sc_clip_id sc) (fst v))"
        by simp
      then have "intent \<in> set (fst v)" "oi_clip_id intent = sc_clip_id sc"
        by simp_all
      with runs_resume [OF start, of intent] v Cons show ?thesis
        by (simp add: case_prod_beta)
    qed
  qed
  with start show ?thesis
    by (cases "promotion_paths name sc") (simp_all add: finalize_def runs_refused)
qed

lemma ensure_staged:
  assumes "ensure_pending_sidecar fz p sc payload re x = (Inr u, y)"
  shows "view (fin_fs y) p = Some payload"
proof -
  have read: "view (fin_fs z) p = Some v \<and> still view w z"
    if r: "read_back fz p w = (Inr v, z)" for v w z
  proof -
    obtain s' where s': "fs_read_bytes (fz_base fz) p (max_sidecar_bytes (fz_limits fz)) (fin_fs w) = (Inr v, s')"
        "z = ((fin_cat w, s'), snd w)"
      using r unfolding read_back_def fin_effects(1) by blast
    from read_view [OF s'(1)] s'(2) show ?thesis
      by (simp add: still_def)
  qed
  have same: "view (fin_fs z) p = Some v" if "read_sidecar fz p w = (Inr (v, sc'), z)" for v sc' w z
  proof -
    have "read_back fz p w = (Inr v, z)"
      using that unfolding read_sidecar_def read_back_def
      by (auto simp: result_simps split: prod.splits sum.splits)
    with read show ?thesis by blast
  qed
  obtain present x1 where *: "(if \<not> present then write_pending_sidecar fz p sc payload x1
     else bindF (read_sidecar fz p x1) (\<lambda>(existing, parsed) x2.
       if existing = payload \<and> parsed = sc then (Inr (), x2)
       else if re then replace_pending_sidecar fz p payload x2
       else (Inl FinalizationRefused, x2))) = (Inr u, y)"
    using assms unfolding ensure_pending_sidecar_def bindF_eq_Inr by blast
  show ?thesis
  proof (cases present)
    case False
    with * obtain w v z where r: "read_back fz p w = (Inr v, z)" and fin: "(case fz_parse_sidecar fz v of
       Inl e \<Rightarrow> (Inl (if e = SidecarParseError then FinalizationRefused else e), z)
     | Inr parsed \<Rightarrow> refuse_if (v \<noteq> payload \<or> parsed \<noteq> sc) z) = (Inr u, y)"
      by (simp add: write_pending_sidecar_def bindF_eq_Inr) blast
    from fin have "v = payload" "y = z"
      by (cases "fz_parse_sidecar fz v"; simp add: fin_effects(4))+
    with r read show ?thesis by blast
  next
    case True
    with * obtain existing parsed x2 where r: "read_sidecar fz p x1 = (Inr (existing, parsed), x2)"
        and rest: "(if existing = payload \<and> parsed = sc then (Inr (), x2)
           else if re then replace_pending_sidecar fz p payload x2 else (Inl FinalizationRefused, x2)) = (Inr u, y)"
      by (auto simp: bindF_eq_Inr)
    show ?thesis
    proof (cases "existing = payload \<and> parsed = sc")
      case True
      with rest same [OF r] show ?thesis by simp
    next
      case False
      with rest have "replace_pending_sidecar fz p payload x2 = (Inr u, y)"
        by (simp split: if_splits)
      then obtain w v z where "read_back fz p w = (Inr v, z)" "v = payload" "y = z"
        unfolding replace_pending_sidecar_def by (auto simp: bindF_eq_Inr fin_effects(4))
      with read show ?thesis by blast
    qed
  qed
qed

end

section \<open>Registration\<close>

lemma register_finalizing_row:
  assumes "register_finalizing_clip clip paths now rv c = Inr (iid, c')"
  shows "\<exists>row i. find_clip c' (cc_clip_id clip) = Some row \<and> cc_lifecycle row = FINALIZING
    \<and> cc_protected row = cc_protected clip \<and> protection_reason row = protection_reason clip
    \<and> i \<in> set (operation_intents c') \<and> ir_intent_id i = iid \<and> is_pending i \<and> ir_kind i = FINALIZE
    \<and> ir_clip_id i = cc_clip_id clip \<and> ir_paths i = paths"
proof -
  obtain c1 i where i: "insert_intent_locked (cc_clip_id clip) FINALIZE paths now None c1 = Inr (i, c')" "iid = intent_id i"
    and c1: "\<exists>row. find_clip c1 (cc_clip_id clip) = Some row \<and> cc_lifecycle row = FINALIZING
      \<and> cc_protected row = cc_protected clip \<and> protection_reason row = protection_reason clip"
  proof -
    let ?k = "cc_clip_id clip"
    obtain c1 i where i: "insert_intent_locked ?k FINALIZE paths now None c1 = Inr (i, c')" "iid = intent_id i"
      and life: "cc_lifecycle clip = FINALIZING"
      and c1: "find_clip c ?k = None \<and> insert_clip_locked clip now c = Inr c1
        \<or> (\<exists>row. find_clip c ?k = Some row \<and> cc_protected row = cc_protected clip
             \<and> protection_reason row = protection_reason clip
             \<and> c1 = update_clip ?k (\<lambda>r. r\<lparr>cc_lifecycle := FINALIZING, end_monotonic_ns := end_monotonic_ns clip,
                  cc_size_bytes := cc_size_bytes clip, updated_catalog_ns := now\<rparr>) c)"
      using assms unfolding register_finalizing_clip_def by (auto simp: result_simps split: option.splits if_splits)
    have "\<exists>row. find_clip c1 ?k = Some row \<and> cc_lifecycle row = FINALIZING
        \<and> cc_protected row = cc_protected clip \<and> protection_reason row = protection_reason clip"
      using c1
    proof (elim disjE conjE exE)
      assume "find_clip c ?k = None" "insert_clip_locked clip now c = Inr c1"
      with life show ?thesis
        by (auto simp: insert_clip_locked_def Let_def find_clip_def clip_table.get_append CatalogClip.extend_def split: if_splits)
    qed (auto simp: find_clip_update)
    with i show thesis
      by (rule that)
  qed
  have "row_of_intent i None None None \<in> set (operation_intents c')" "oi_clip_id i = cc_clip_id clip"
      "oi_kind i = FINALIZE" "oi_paths i = paths"
    using insert_intent_lockedD [OF i(1)] by (auto simp: insert_intent_row_def split: if_splits)
  then have "\<exists>i \<in> set (operation_intents c'). ir_intent_id i = iid \<and> is_pending i \<and> ir_kind i = FINALIZE
      \<and> ir_clip_id i = cc_clip_id clip \<and> ir_paths i = paths"
    using i(2) by (intro bexI [of _ "row_of_intent i None None None"]) (simp_all add: row_of_intent_def is_pending_def)
  moreover have "find_clip c' (cc_clip_id clip) = find_clip c1 (cc_clip_id clip)"
    using insert_intent_locked_clips [OF i(1)] by (simp add: find_clip_def)
  ultimately show ?thesis
    using c1 by metis
qed

text \<open>The sidecar on disk when the promotion is registered.\<close>

definition registered_as :: "PairPaths \<Rightarrow> uuid \<Rightarrow> ClipSidecar \<Rightarrow> catalog \<Rightarrow> bool" where
  "registered_as paths iid sc c = (\<exists>row i. find_clip c (sc_clip_id sc) = Some row \<and> cc_lifecycle row = FINALIZING
     \<and> cc_protected row = sc_protected sc \<and> protection_reason row = sc_protection_reason sc
     \<and> i \<in> set (operation_intents c) \<and> ir_intent_id i = iid \<and> is_pending i \<and> ir_kind i = FINALIZE
     \<and> ir_clip_id i = sc_clip_id sc \<and> ir_paths i = paths)"

lemma registered_finalizing:
  "register_finalizing_clip (finalizing_clip sc paths order nbytes) paths now rv c = Inr (iid, c')
    \<Longrightarrow> registered_as paths iid sc c'"
  using register_finalizing_row unfolding registered_as_def by (fastforce simp: finalizing_clip_def)

lemma closing_sidecarD:
  assumes "closing_sidecar fz active sc x = (Inr (eff, rv), y)"
  shows "\<exists>b r. eff = sc\<lparr>sc_protected := b, sc_protection_reason := r\<rparr>"
proof (cases active)
  case False
  with assms show ?thesis
    by (intro exI [of _ "sc_protected sc"] exI [of _ "sc_protection_reason sc"]) (simp add: closing_sidecar_def)
next
  case True
  with assms obtain a :: ActiveClipProtectionState where "bindR (check_sidecar (fz_zone_info fz)
        (sc\<lparr>sc_protected := acp_protected a, sc_protection_reason := acp_reason a\<rparr>)) (\<lambda>_.
        Inr (sc\<lparr>sc_protected := acp_protected a, sc_protection_reason := acp_reason a\<rparr>, Some (acp_revision a))) = Inr (eff, rv)"
    unfolding closing_sidecar_def Let_def by (auto simp: bindF_eq_Inr)
  then show ?thesis
    by (auto simp: result_simps)
qed

context clip_finalizer
begin

lemma register_attempts_staged:
  assumes "register_attempts n fz active paths sc order nbytes x = (Inr (iid, eff), y)"
  shows "view (fin_fs y) (sidecar_source paths) = Some (fz_canonical fz eff) \<and> registered_as paths iid eff (fin_cat y)
    \<and> (\<exists>b r. eff = sc\<lparr>sc_protected := b, sc_protection_reason := r\<rparr>)"
  using assms
proof (induction n arbitrary: x)
  case 0
  then show ?case by simp
next
  case (Suc n)
  obtain e1 rv x1 x2 now x3 u where c: "closing_sidecar fz active sc x = (Inr (e1, rv), x1)"
    and e: "ensure_pending_sidecar fz (sidecar_source paths) e1 (fz_canonical fz e1) active x1 = (Inr u, x2)"
    and t: "fin_now fz x2 = (Inr now, x3)"
    and r: "(case fin_catalog (register_finalizing_clip (finalizing_clip e1 paths order nbytes) paths now rv) x3 of
       (Inl e, x4) \<Rightarrow> if e = ActiveClipProtectionChanged then register_attempts n fz active paths sc order nbytes x4
                      else (Inl e, x4)
     | (Inr iid, x4) \<Rightarrow> (Inr (iid, e1), x4)) = (Inr (iid, eff), y)"
    using Suc.prems by (simp add: bindF_eq_Inr) blast
  obtain a x4 where reg: "fin_catalog (register_finalizing_clip (finalizing_clip e1 paths order nbytes) paths now rv) x3 = (a, x4)"
    by (metis surj_pair)
  show ?case
  proof (cases a)
    case (Inl f)
    with r reg Suc.IH show ?thesis
      by (simp split: if_splits)
  next
    case (Inr i)
    then have eff: "eff = e1" "i = iid" "y = x4"
      using r reg by simp_all
    obtain c' where c': "register_finalizing_clip (finalizing_clip e1 paths order nbytes) paths now rv (fin_cat x3) = Inr (iid, c')"
        "x4 = ((c', fin_fs x3), snd x3)"
      using reg Inr eff(2) fin_effects(3) by metis
    have "fin_fs x3 = fin_fs x2"
      using t by (auto simp: fin_now_effect)
    then show ?thesis
      using registered_finalizing [OF c'(1)] c'(2) ensure_staged [OF e] closing_sidecarD [OF c] eff by simp
  qed
qed

end

end
