(* ===== verification/Finalizer_Properties.thy ===== *)
theory Finalizer_Properties
  imports Finalizer_Safety Catalog_Properties
begin

text \<open>
  The properties of the clip finalizer on the production adapter: no recording is lost, a complete
  outcome is true, the staged sidecar agrees with the catalog, a completed clip is replayed without
  effect, the recovery pass is bounded and truthful, and a damaged pending sidecar stops reclamation.
\<close>

section \<open>The recorder's finalizer\<close>

definition recorder_finalizer :: "(nat \<Rightarrow> int) \<Rightarrow> FinalizerLimits \<Rightarrow> sidecar_parser \<Rightarrow> (ClipSidecar \<Rightarrow> bytes)
    \<Rightarrow> (bytes \<Rightarrow> string) \<Rightarrow> zone_database \<Rightarrow> disk RecorderClipFinalizer" where
  "recorder_finalizer clock limits parse canonical sha zones =
     \<lparr>fz_filesystem = DurableRootedFinalizationFilesystem canonical, fz_monotonic_ns = clock, fz_limits = limits,
      fz_parse_sidecar = parse, fz_canonical = canonical, fz_sha256 = sha, fz_zone_info = zones\<rparr>"

lemma recorder_select [simp]:
  "fz_filesystem (recorder_finalizer clock limits parse canonical sha zones) = DurableRootedFinalizationFilesystem canonical"
  "fz_monotonic_ns (recorder_finalizer clock limits parse canonical sha zones) = clock"
  "fz_limits (recorder_finalizer clock limits parse canonical sha zones) = limits"
  "fz_parse_sidecar (recorder_finalizer clock limits parse canonical sha zones) = parse"
  "fz_canonical (recorder_finalizer clock limits parse canonical sha zones) = canonical"
  by (simp_all add: recorder_finalizer_def)

interpretation fin: clip_finalizer "recorder_finalizer clock limits parse canonical sha zones" disk_view durable_healthy
  for clock limits parse canonical sha zones
  using durable.finalization_filesystem_axioms by (simp add: clip_finalizer_def)

section \<open>The recovery pass\<close>

definition reached :: "'f fin \<Rightarrow> bool" where
  "reached x = catalog_reach (fin_cat x)"

lemma reached_attempt:
  assumes "reached x"
  shows "ends reached (on_store (reconcile_intent (fs :: disk CatalogFilesystem) parse sha iid now n) x)"
proof (rule ends_on_store)
  fix r cs
  assume "reconcile_intent fs parse sha iid now n (fst x) = (r, cs)"
  then have "reconcile_intent fs parse sha iid now n (fin_cat x, fin_fs x) = (r, (fst cs, snd cs))"
    by simp
  from catalog_step.reconcile [OF this] assms show "reached (cs, snd x)"
    by (auto simp: reached_def intro: catalog_reach.step)
qed

lemma reached_reconcile: "reached x \<Longrightarrow> ends reached (reconcile_one (fz :: disk RecorderClipFinalizer) intent resumed x)"
  unfolding reconcile_one_def by (intro ends_rules ends_fin_now reached_attempt) (simp_all add: reached_def)

context clip_finalizer
begin

lemma reached_validate: "reached x \<Longrightarrow> ends reached (validate_durable_sidecar fz intent expected x)"
  by (rule ends_still [OF _ still_validate [OF still_refl]]) (simp add: reached_def still_def)

lemma reached_recover: "reached x \<Longrightarrow> ends reached (recover_one fz intent x)"
  unfolding recover_one_def by (intro ends_rules reached_validate reached_reconcile)

lemma reached_recover_all: "reached x \<Longrightarrow> ends reached (recover_all fz intents acc x)"
proof (induction intents arbitrary: acc x)
  case Nil
  then show ?case by (simp add: ends_def)
next
  case (Cons intent rest)
  then show ?case by (auto intro!: ends_bindF reached_recover)
qed

lemma reached_pass: "reached x \<Longrightarrow> ends reached (reconcile_pending fz x)"
  unfolding reconcile_pending_def pending_recovery_def has_pending_recovery_intent_def Let_def
  by (intro ends_rules reached_recover_all)

lemma recover_one_actions:
  assumes "recover_one fz intent x = (Inr out, y)"
  shows "fo_actions_attempted out \<le> max 0 (max_actions_per_intent (fz_limits fz))"
proof -
  obtain x1 x2 where "reconcile_one fz intent True x1 = (Inr out, x2)"
    using assms unfolding recover_one_def by (auto simp: bindF_eq_Inr)
  then obtain now res cs where "reconcile_intent (fz_base fz) (fz_parse_sidecar fz) (fz_sha256 fz) (intent_id intent) now
       (max_actions_per_intent (fz_limits fz)) (fst x1) = (Inr res, cs)" "fo_actions_attempted out = actions_attempted res"
    unfolding reconcile_one_def by (auto simp: bindF_eq_Inr fin_effects(4,5) fin_now_effect)
  with reconcile_intent_actions show ?thesis
    by metis
qed

lemma recover_all_outcomes:
  assumes "recover_all fz intents acc x = (Inr outs, y)"
    "\<forall>o1 \<in> set acc. fo_actions_attempted o1 \<le> max 0 (max_actions_per_intent (fz_limits fz))"
  shows "length outs = length acc + length intents
    \<and> (\<forall>o1 \<in> set outs. fo_actions_attempted o1 \<le> max 0 (max_actions_per_intent (fz_limits fz)))"
  using assms
proof (induction intents arbitrary: acc x)
  case Nil
  then show ?case by simp
next
  case (Cons intent rest)
  obtain out x1 where out: "recover_one fz intent x = (Inr out, x1)"
    and rest: "recover_all fz rest (acc @ [out]) x1 = (Inr outs, y)"
    using Cons.prems(1) by (auto simp: bindF_eq_Inr)
  from Cons.IH [OF rest] recover_one_actions [OF out] Cons.prems(2) show ?case
    by auto
qed

lemma no_recovery_pending:
  assumes "catalog_inv c" "list_pending_intents_by_kind RECOVERY_INTENT_KINDS 1 c = Inr []"
  shows "\<forall>i \<in> set (operation_intents c). is_pending i \<longrightarrow> ir_kind i = DELETE"
proof -
  let ?rows = "sort_key intent_key (filter (\<lambda>i. is_pending i \<and> ir_kind i \<in> set RECOVERY_INTENT_KINDS) (operation_intents c))"
  have "pending_intents_where (\<lambda>i. ir_kind i \<in> set RECOVERY_INTENT_KINDS) 1 c = Inr []"
    using assms(2) by (auto simp: list_pending_intents_by_kind_def result_simps)
  then have "take 1 ?rows = []"
    by (cases ?rows) (auto simp: pending_intents_where_def result_simps)
  then have "length ?rows = 0"
    by (cases ?rows) simp_all
  then have "filter (\<lambda>i. is_pending i \<and> ir_kind i \<in> set RECOVERY_INTENT_KINDS) (operation_intents c) = []"
    by simp
  moreover have "ir_kind i \<in> set RECOVERY_INTENT_KINDS \<or> ir_kind i = DELETE" for i
    by (cases "ir_kind i") (simp_all add: RECOVERY_INTENT_KINDS_def)
  ultimately show ?thesis
    by (auto simp: filter_empty_conv)
qed

lemma sum_list_bound: "\<forall>x \<in> set xs. f x \<le> (b :: int) \<Longrightarrow> sum_list (map f xs) \<le> int (length xs) * b"
  by (induction xs) (auto simp: algebra_simps)

lemma pass_report:
  assumes reach: "catalog_reach (fin_cat x)" and lim: "mk_finalizer_limits (fz_limits fz) = Inr lims"
    and op: "reconcile_pending fz x = (Inr rep, y)"
  shows "fr_intents_examined rep \<le> max_pending_intents (fz_limits fz)
    \<and> fr_actions_attempted rep \<le> 2 * fr_intents_examined rep \<and> fr_completed rep \<le> fr_intents_examined rep
    \<and> (\<not> fr_more_work rep \<longrightarrow> fr_completed rep = fr_intents_examined rep
         \<and> (\<forall>i \<in> set (operation_intents (fin_cat y)). is_pending i \<longrightarrow> ir_kind i = DELETE))"
proof -
  let ?lim = "max_pending_intents (fz_limits fz)"
  obtain intents truncated x1 outs x2 more x3 where scan: "pending_recovery fz x = (Inr (intents, truncated), x1)"
    and all: "recover_all fz intents [] x1 = (Inr outs, x2)"
    and more: "(if truncated \<or> (\<exists>o1 \<in> set outs. \<not> fo_complete o1) then (Inr True, x2)
        else has_pending_recovery_intent x2) = (Inr more, x3)"
    and rep: "rep = \<lparr>fr_intents_examined = int (length outs),
          fr_actions_attempted = sum_list (map fo_actions_attempted outs),
          fr_completed = int (length (filter fo_complete outs)), fr_more_work = more\<rparr>" "y = x3"
    using op unfolding reconcile_pending_def Let_def by (auto simp: bindF_eq_Inr)
  have pos: "0 < ?lim" and acts: "max 0 (max_actions_per_intent (fz_limits fz)) \<le> 2"
    using lim by (auto simp: mk_finalizer_limits_def bound_ok_def split: if_splits)
  have "length intents \<le> nat ?lim"
    using scan unfolding pending_recovery_def Let_def by (auto simp: bindF_eq_Inr)
  note outs = recover_all_outcomes [OF all, simplified]
  have bound: "sum_list (map fo_actions_attempted outs) \<le> int (length outs) * 2"
    using outs acts by (intro sum_list_bound) fastforce
  have tail: "filter fo_complete outs = outs \<and> (\<forall>i \<in> set (operation_intents (fin_cat y)). is_pending i \<longrightarrow> ir_kind i = DELETE)"
    if "\<not> more"
  proof -
    from that more have all_done: "\<forall>o1 \<in> set outs. fo_complete o1" and has: "has_pending_recovery_intent x2 = (Inr False, x3)"
      by (auto split: if_splits)
    from has have none: "list_pending_intents_by_kind RECOVERY_INTENT_KINDS 1 (fin_cat x2) = Inr []" "x3 = x2"
      by (auto simp: has_pending_recovery_intent_def bindF_eq_Inr fin_effects(2))
    have "reached x3"
      using endsD [of reached "Inr rep" y] reached_pass [of x] reach op rep(2) by (simp add: reached_def)
    with no_recovery_pending [OF reach_inv none(1)] none(2) all_done rep(2) show ?thesis
      by (simp add: reached_def)
  qed
  have "length (filter fo_complete outs) \<le> length intents"
    using outs length_filter_le [of fo_complete outs] by simp
  with \<open>length intents \<le> nat ?lim\<close> pos outs bound tail show ?thesis
    unfolding rep(1) by auto
qed

end

section \<open>Replaying a completed clip, and a damaged sidecar\<close>

lemma path_name_join: "CHR ''/'' \<notin> set n \<Longrightarrow> path_name (join_path d n) = n"
proof -
  assume "CHR ''/'' \<notin> set n"
  then have "takeWhile (\<lambda>c. c \<noteq> CHR ''/'') (rev n @ ''/'' @ rev d) = rev n"
    by (subst takeWhile_append2) auto
  then show ?thesis
    by (simp add: path_name_def join_path_def)
qed

lemma name_without_slash: "parse_clip_filename n = Inr p \<Longrightarrow> CHR ''/'' \<notin> set n"
  by (auto simp: parse_clip_filename_def validate_filename_component_def result_simps split: if_splits)

lemma promoted_names:
  assumes "promotion_paths name sc = Inr paths" "cc_clip_id clip = sc_clip_id sc"
  shows "names_of sc (cc_clip_id clip) (join_path ''clips'' (video_file sc)) (join_path ''clips'' (metadata_file sc))"
proof -
  have "name_or_refused (video_file sc) \<noteq> Inl e" for e
    using assms(1) by (auto simp: promotion_paths_def result_simps)
  then have v: "CHR ''/'' \<notin> set (video_file sc)"
    by (cases "parse_clip_filename (video_file sc)") (auto simp: name_or_refused_def dest: name_without_slash)
  moreover have "metadata_file sc = sidecar_name_of (video_file sc)"
    using assms(1) by (auto simp: promotion_paths_def result_simps split: if_splits)
  ultimately have "CHR ''/'' \<notin> set (metadata_file sc)"
    by (auto simp: sidecar_name_of_def removesuffix_def dest: in_set_takeD split: if_splits)
  with v assms(2) show ?thesis
    by (simp add: names_of_def path_name_join)
qed

context clip_finalizer
begin

definition healthy_still :: "disk fin \<Rightarrow> disk fin \<Rightarrow> bool" where
  "healthy_still x y = (still view x y \<and> (\<forall>q. healthy (fin_fs x) q \<longrightarrow> healthy (fin_fs y) q))"

lemma healthy_still_trans: "healthy_still x y \<Longrightarrow> healthy_still y z \<Longrightarrow> healthy_still x z"
  by (auto simp: healthy_still_def still_def)

lemma exists_answers:
  assumes "healthy (fin_fs x) p"
  shows "\<exists>y. fin_disk (fs_exists (fz_base fz) p) x = (Inr (view (fin_fs x) p \<noteq> None), y) \<and> healthy_still x y"
proof -
  obtain s' where s': "fs_exists (fz_base fz) p (fin_fs x) = (Inr (view (fin_fs x) p \<noteq> None), s')"
      "\<forall>q. healthy (fin_fs x) q \<longrightarrow> healthy s' q"
    using exists_healthy [OF assms] by blast
  with exists_view [OF s'(1)] show ?thesis
    by (intro exI [of _ "((fin_cat x, s'), snd x)"]) (simp add: fin_effects(1) healthy_still_def still_def)
qed

lemma read_sidecar_answers:
  assumes "healthy (fin_fs x) p" "view (fin_fs x) p = Some v" "0 < max_sidecar_bytes (fz_limits fz)"
    "int (length v) \<le> max_sidecar_bytes (fz_limits fz)"
  shows "\<exists>y. read_sidecar fz p x = ((case fz_parse_sidecar fz v of
      Inl e \<Rightarrow> Inl (if sidecar_error e then FinalizationRefused else e) | Inr sc \<Rightarrow> Inr (v, sc)), y) \<and> healthy_still x y"
proof -
  obtain s' where s': "fs_read_bytes (fz_base fz) p (max_sidecar_bytes (fz_limits fz)) (fin_fs x) = (Inr v, s')"
      "\<forall>q. healthy (fin_fs x) q \<longrightarrow> healthy s' q"
    using read_healthy [OF assms] by blast
  have "fin_disk (fs_read_bytes (fz_base fz) p (max_sidecar_bytes (fz_limits fz))) x = (Inr v, ((fin_cat x, s'), snd x))"
    using s'(1) by (simp add: fin_effects(1))
  with s' read_view [OF s'(1)] show ?thesis
    by (intro exI [of _ "((fin_cat x, s'), snd x)"])
      (simp add: read_sidecar_def healthy_still_def still_def split: sum.splits)
qed

lemma damaged_sidecar_refused:
  assumes "sidecar_target (oi_paths intent) = Some target"
    "healthy (fin_fs x) (sidecar_source (oi_paths intent))" "healthy (fin_fs x) target"
    "view (fin_fs x) (sidecar_source (oi_paths intent)) = Some v" "fz_parse_sidecar fz v = Inl e" "sidecar_error e"
    "0 < max_sidecar_bytes (fz_limits fz)" "int (length v) \<le> max_sidecar_bytes (fz_limits fz)"
  shows "\<exists>y. validate_durable_sidecar fz intent expected x = (Inl FinalizationRefused, y) \<and> still view x y"
proof -
  let ?src = "sidecar_source (oi_paths intent)"
  obtain x1 where x1: "fin_disk (fs_exists (fz_base fz) ?src) x = (Inr True, x1)" "healthy_still x x1"
    using exists_answers [OF assms(2)] assms(4) by auto
  then have h1: "healthy (fin_fs x1) target"
    using assms(3) by (simp add: healthy_still_def)
  obtain b x2 where x2: "fin_disk (fs_exists (fz_base fz) target) x1 = (Inr b, x2)" "healthy_still x1 x2"
    using exists_answers [OF h1] by auto
  have all: "healthy_still x x2"
    using healthy_still_trans x1(2) x2(2) by blast
  then have "healthy (fin_fs x2) ?src" "view (fin_fs x2) ?src = Some v"
    using assms(2,4) by (simp_all add: healthy_still_def still_def)
  from read_sidecar_answers [OF this assms(7,8)] assms(5,6)
  obtain y where y: "read_sidecar fz ?src x2 = (Inl FinalizationRefused, y)" "healthy_still x2 y"
    by auto
  have "validate_durable_sidecar fz intent expected x = (Inl FinalizationRefused, y)"
    by (simp add: validate_durable_sidecar_def required_target_def assms(1) x1(1) x2(1) validate_location_def y(1))
  moreover have "still view x y"
    using healthy_still_trans [OF all y(2)] by (simp add: healthy_still_def)
  ultimately show ?thesis by blast
qed

lemma intact_sidecar_accepted:
  assumes "sidecar_target (oi_paths intent) = Some target" "video_target (oi_paths intent) = Some video"
    "healthy (fin_fs x) (sidecar_source (oi_paths intent))" "healthy (fin_fs x) target"
    "view (fin_fs x) (sidecar_source (oi_paths intent)) = None" "view (fin_fs x) target = Some v"
    "fz_parse_sidecar fz v = Inr sc" "names_of sc (oi_clip_id intent) video target"
    "0 < max_sidecar_bytes (fz_limits fz)" "int (length v) \<le> max_sidecar_bytes (fz_limits fz)"
  shows "\<exists>y. validate_durable_sidecar fz intent (Some v) x = (Inr (), y) \<and> still view x y"
proof -
  let ?src = "sidecar_source (oi_paths intent)"
  obtain x1 where x1: "fin_disk (fs_exists (fz_base fz) ?src) x = (Inr False, x1)" "healthy_still x x1"
    using exists_answers [OF assms(3)] assms(5) by auto
  then have h1: "healthy (fin_fs x1) target" "view (fin_fs x1) target = Some v"
    using assms(4,6) by (simp_all add: healthy_still_def still_def)
  obtain x2 where x2: "fin_disk (fs_exists (fz_base fz) target) x1 = (Inr True, x2)" "healthy_still x1 x2"
    using exists_answers [OF h1(1)] h1(2) by auto
  have all: "healthy_still x x2"
    using healthy_still_trans x1(2) x2(2) by blast
  then have "healthy (fin_fs x2) target" "view (fin_fs x2) target = Some v"
    using assms(4,6) by (simp_all add: healthy_still_def still_def)
  from read_sidecar_answers [OF this assms(9,10)] assms(7)
  obtain y where y: "read_sidecar fz target x2 = (Inr (v, sc), y)" "healthy_still x2 y"
    by auto
  have "validate_durable_sidecar fz intent (Some v) x = (Inr (), y)"
    by (simp add: validate_durable_sidecar_def required_target_def assms(1,2,8) x1(1) x2(1) validate_location_def y(1)
        refuse_if_def)
  moreover have "still view x y"
    using healthy_still_trans [OF all y(2)] by (simp add: healthy_still_def)
  ultimately show ?thesis by blast
qed

lemma completed_replay_answers:
  assumes "cc_lifecycle clip = FINALIZED" "cc_pair_reconciled clip" "video_target paths = Some (video_path clip)"
    "sidecar_target paths = Some (sidecar_path clip)"
    and files: "view (fin_fs x) (video_path clip) \<noteq> None" "view (fin_fs x) (sidecar_path clip) = Some v"
      "view (fin_fs x) (sidecar_source paths) = None"
    and h: "healthy (fin_fs x) (video_path clip)" "healthy (fin_fs x) (sidecar_path clip)"
      "healthy (fin_fs x) (sidecar_source paths)"
    and sc: "fz_parse_sidecar fz v = Inr sc" "names_of sc (cc_clip_id clip) (video_path clip) (sidecar_path clip)"
      "0 < max_sidecar_bytes (fz_limits fz)" "int (length v) \<le> max_sidecar_bytes (fz_limits fz)"
  shows "\<exists>y. completed_replay fz clip paths v x = (Inr \<lparr>fo_clip_id = cc_clip_id clip, fo_intent_id = None,
     fo_actions_attempted = 0, fo_complete = True, fo_resumed = True\<rparr>, y) \<and> still view x y"
proof -
  obtain x1 where x1: "fin_disk (fs_exists (fz_base fz) (video_path clip)) x = (Inr True, x1)" "healthy_still x x1"
    using exists_answers [OF h(1)] files(1) by auto
  then have s1: "healthy (fin_fs x1) (sidecar_path clip)" "view (fin_fs x1) (sidecar_path clip) = Some v"
    using h(2) files(2) by (simp_all add: healthy_still_def still_def)
  obtain x2 where x2: "fin_disk (fs_exists (fz_base fz) (sidecar_path clip)) x1 = (Inr True, x2)" "healthy_still x1 x2"
    using exists_answers [OF s1(1)] s1(2) by auto
  have all: "healthy_still x x2"
    using healthy_still_trans x1(2) x2(2) by blast
  then have s2: "healthy (fin_fs x2) (sidecar_source paths)" "healthy (fin_fs x2) (sidecar_path clip)"
      "view (fin_fs x2) (sidecar_source paths) = None" "view (fin_fs x2) (sidecar_path clip) = Some v"
    using h files by (simp_all add: healthy_still_def still_def)
  have "\<exists>y. validate_durable_sidecar fz (replay_intent clip paths) (Some v) x2 = (Inr (), y) \<and> still view x2 y"
    by (rule intact_sidecar_accepted [where sc = sc]) (use s2 sc assms(3,4) in \<open>simp_all add: replay_intent_def\<close>)
  then obtain y where y: "validate_durable_sidecar fz (replay_intent clip paths) (Some v) x2 = (Inr (), y)" "still view x2 y"
    by blast
  have "completed_replay fz clip paths v x = (Inr \<lparr>fo_clip_id = cc_clip_id clip, fo_intent_id = None,
     fo_actions_attempted = 0, fo_complete = True, fo_resumed = True\<rparr>, y)"
    using assms(1-4) by (simp add: completed_replay_def refuse_if_def x1(1) x2(1) y(1))
  moreover have "still view x y"
    using all y(2) by (simp add: healthy_still_def still_def)
  ultimately show ?thesis by blast
qed

lemma finalize_replays:
  assumes paths: "promotion_paths name sc = Inr paths" "0 \<le> order"
    and pend: "list_pending_intents_by_kind RECOVERY_INTENT_KINDS (max_pending_intents (fz_limits fz) + 1) (fin_cat x) = Inr pending"
      "\<forall>i \<in> set pending. oi_clip_id i \<noteq> sc_clip_id sc" "int (length pending) \<le> max_pending_intents (fz_limits fz)"
    and clip: "get_clip (sc_clip_id sc) (fin_cat x) = Inr clip" "cc_lifecycle clip = FINALIZED" "cc_pair_reconciled clip"
      "video_target paths = Some (video_path clip)" "sidecar_target paths = Some (sidecar_path clip)"
    and files: "view (fin_fs x) (video_path clip) \<noteq> None" "view (fin_fs x) (sidecar_path clip) = Some (fz_canonical fz sc)"
      "view (fin_fs x) (sidecar_source paths) = None"
    and h: "healthy (fin_fs x) (video_path clip)" "healthy (fin_fs x) (sidecar_path clip)"
      "healthy (fin_fs x) (sidecar_source paths)"
    and payload: "fz_parse_sidecar fz (fz_canonical fz sc) = Inr sc" "0 < max_sidecar_bytes (fz_limits fz)"
      "int (length (fz_canonical fz sc)) \<le> max_sidecar_bytes (fz_limits fz)"
  shows "\<exists>y. finalize fz name sc order x = (Inr \<lparr>fo_clip_id = sc_clip_id sc, fo_intent_id = None,
     fo_actions_attempted = 0, fo_complete = True, fo_resumed = True\<rparr>, y) \<and> still view x y"
proof -
  have id: "cc_clip_id clip = sc_clip_id sc"
    using clip(1) by (auto simp: get_clip_def clip_from_row_def find_clip_def result_simps CatalogClip.truncate_def
        dest: clip_table.get_SomeD split: option.splits)
  have names: "names_of sc (cc_clip_id clip) (video_path clip) (sidecar_path clip)"
    using promoted_names [OF paths(1) id] promotion_pathsD [OF paths(1)] clip(4,5) by simp
  from completed_replay_answers [OF clip(2-5) files h payload(1) names payload(2,3)] id
  obtain y where y: "completed_replay fz clip paths (fz_canonical fz sc) x = (Inr \<lparr>fo_clip_id = sc_clip_id sc, fo_intent_id = None,
     fo_actions_attempted = 0, fo_complete = True, fo_resumed = True\<rparr>, y)" "still view x y"
    by auto
  have "pending_recovery fz x = (Inr (pending, False), x)"
    using pend(1,3) by (simp add: pending_recovery_def Let_def fin_read_def on_store_def read_catalog_def)
  moreover have "filter (\<lambda>i. oi_clip_id i = sc_clip_id sc) pending = []"
    using pend(2) by (simp add: filter_empty_conv)
  moreover have "fin_read (clip_if_present (sc_clip_id sc)) x = (Inr (Some clip), x)"
    using clip(1) by (simp add: fin_read_def on_store_def read_catalog_def clip_if_present_def)
  ultimately have "finalize fz name sc order x = completed_replay fz clip paths (fz_canonical fz sc) x"
    using paths clip(2) by (simp add: finalize_def start_finalize_def refuse_if_def)
  with y show ?thesis
    by auto
qed

lemma damaged_sidecar_stops_reclamation:
  assumes clock: "0 \<le> fz_monotonic_ns fz (snd x)" "fz_monotonic_ns fz (snd x) \<le> MAX_MONOTONIC_NS"
    and lim: "mk_finalizer_limits (fz_limits fz) = Inr lims"
    and leases: "clear_expired_download_leases (fz_monotonic_ns fz (snd x)) boot (max_pending_intents (fz_limits fz))
      (fin_cat x) = Inr (cleared, c1)"
    and pend: "list_pending_intents_by_kind RECOVERY_INTENT_KINDS (max_pending_intents (fz_limits fz) + 1) c1 = Inr (intent # rest)"
      "oi_kind intent = FINALIZE" "sidecar_target (oi_paths intent) = Some target"
    and h: "healthy (fin_fs x) (sidecar_source (oi_paths intent))" "healthy (fin_fs x) target"
    and damaged: "view (fin_fs x) (sidecar_source (oi_paths intent)) = Some v" "fz_parse_sidecar fz v = Inl e" "sidecar_error e"
      "int (length v) \<le> max_sidecar_bytes (fz_limits fz)"
  shows "\<exists>y. reclaim_storage_once fz boot allow x = (Inl FinalizationRefused, y) \<and> fin_cat y = c1
    \<and> view (fin_fs y) = view (fin_fs x)"
proof -
  let ?lim = "max_pending_intents (fz_limits fz)"
  let ?x1 = "((c1, fin_fs x), Suc (snd x))"
  have pos: "0 < ?lim" "0 < max_sidecar_bytes (fz_limits fz)"
    using lim by (auto simp: mk_finalizer_limits_def bound_ok_def split: if_splits)
  have now: "fin_now fz x = (Inr (fz_monotonic_ns fz (snd x)), (fst x, Suc (snd x)))"
    using clock by (simp add: fin_now_def Let_def)
  have clear: "fin_catalog (clear_expired_download_leases (fz_monotonic_ns fz (snd x)) boot ?lim) (fst x, Suc (snd x))
      = (Inr cleared, ?x1)"
    using leases by (simp add: fin_catalog_def on_store_def in_catalog_def)
  obtain tr where scan: "pending_recovery fz ?x1 = (Inr (intent # take (nat ?lim - 1) rest, tr), ?x1)"
    using pend(1) pos(1)
    by (simp add: pending_recovery_def Let_def fin_read_def on_store_def read_catalog_def take_Cons' nat_diff_distrib)
  have "\<exists>y. validate_durable_sidecar fz intent None ?x1 = (Inl FinalizationRefused, y) \<and> still view ?x1 y"
    by (rule damaged_sidecar_refused [OF pend(3)]) (use h damaged pos in simp_all)
  then obtain y where y: "validate_durable_sidecar fz intent None ?x1 = (Inl FinalizationRefused, y)" "still view ?x1 y"
    by blast
  have "recover_one fz intent ?x1 = (Inl FinalizationRefused, y)"
    using y(1) pend(2) by (simp add: recover_one_def)
  then have "reconcile_pending fz ?x1 = (Inl FinalizationRefused, y)"
    using scan by (simp add: reconcile_pending_def)
  then have "reclaim_storage_once fz boot allow x = (Inl FinalizationRefused, y)"
    using now clear by (simp add: reclaim_storage_once_def expire_download_leases_def case_prod_beta)
  with y(2) show ?thesis
    by (simp add: still_def)
qed

end

section \<open>Properties\<close>

text \<open>
  C5: Finalizing a clip never loses or overwrites a recording. Whatever faults the device injects and
  wherever the call stops, the catalog stays reachable by its own transactions, and the content of
  every file that existed before the call, other than the staged sidecar of this clip, is still on
  disk when it ends.
\<close>

theorem finalization_loses_no_recording:
  assumes "catalog_reach c"
    and "finalize (recorder_finalizer clock limits parse canonical sha zones) name sc order ((c, d), n) = (r, ((c', d'), n'))"
  shows "catalog_reach c' \<and> (\<forall>p w. disk_view d p = Some w \<and> p \<noteq> join_path ''pending'' (sidecar_name_of name)
    \<longrightarrow> (\<exists>q. disk_view d' q = Some w))"
  using fin.runs_finalize [where x = "((c, d), n)" and clock = clock and limits = limits and parse = parse
      and canonical = canonical and sha = sha and zones = zones and name = name and sc = sc and order = order] assms
  by (auto simp: runs_def ends_def carried_def)

text \<open>
  C6: A complete finalization is true. When \<open>finalize\<close> reports completion, on whichever of its paths
  (a new promotion with or without the protection moves after it, a resumed intent, or the replay of a
  finished clip) and whatever faults it met, the named clip is FINALIZED in the catalog and both files
  exist at the places the catalog gives.
\<close>

theorem complete_finalization_is_truthful:
  assumes "catalog_reach c"
    and "finalize (recorder_finalizer clock limits parse canonical sha zones) name sc order ((c, d), n) = (Inr out, ((c', d'), n'))"
    and "fo_complete out"
  shows "fo_clip_id out = sc_clip_id sc \<and> (\<exists>row. find_clip c' (sc_clip_id sc) = Some row \<and> cc_lifecycle row = FINALIZED
    \<and> disk_view d' (video_path row) \<noteq> None \<and> disk_view d' (sidecar_path row) \<noteq> None)"
  using fin.runs_finalize [where x = "((c, d), n)" and clock = clock and limits = limits and parse = parse
      and canonical = canonical and sha = sha and zones = zones and name = name and sc = sc and order = order] assms
  by (simp add: runs_def returns_def settled_clip_def)


text \<open>
  C25: Finalizing a finished clip again changes nothing. If the clip is FINALIZED and reconciled at the
  paths its names give, both files are there with the canonical sidecar, and no pending intent names
  it, then \<open>finalize\<close> on a device without faults reports a complete, resumed outcome without any
  action, and catalog and files are as before. So a crash after the last step is harmless.
\<close>

theorem completed_clip_is_replayed:
  assumes "promotion_paths name sc = Inr paths" "0 \<le> order"
    and "list_pending_intents_by_kind RECOVERY_INTENT_KINDS (max_pending_intents limits + 1) c = Inr pending"
      "\<forall>i \<in> set pending. oi_clip_id i \<noteq> sc_clip_id sc" "int (length pending) \<le> max_pending_intents limits"
    and "get_clip (sc_clip_id sc) c = Inr clip" "cc_lifecycle clip = FINALIZED" "cc_pair_reconciled clip"
      "video_target paths = Some (video_path clip)" "sidecar_target paths = Some (sidecar_path clip)"
    and "disk_view d (video_path clip) \<noteq> None" "disk_view d (sidecar_path clip) = Some (canonical sc)"
      "disk_view d (sidecar_source paths) = None"
    and "durable_healthy d (video_path clip)" "durable_healthy d (sidecar_path clip)"
      "durable_healthy d (sidecar_source paths)"
    and "parse (canonical sc) = Inr sc" "0 < max_sidecar_bytes limits" "int (length (canonical sc)) \<le> max_sidecar_bytes limits"
  shows "\<exists>d' n'. finalize (recorder_finalizer clock limits parse canonical sha zones) name sc order ((c, d), n)
      = (Inr \<lparr>fo_clip_id = sc_clip_id sc, fo_intent_id = None, fo_actions_attempted = 0, fo_complete = True,
          fo_resumed = True\<rparr>, ((c, d'), n')) \<and> disk_view d' = disk_view d"
proof -
  have "\<exists>y. finalize (recorder_finalizer clock limits parse canonical sha zones) name sc order ((c, d), n)
      = (Inr \<lparr>fo_clip_id = sc_clip_id sc, fo_intent_id = None, fo_actions_attempted = 0, fo_complete = True,
          fo_resumed = True\<rparr>, y) \<and> still disk_view ((c, d), n) y"
    by (rule fin.finalize_replays [where paths = paths and pending = pending and clip = clip]) (use assms in simp_all)
  then show ?thesis
    by (auto simp: still_def)
qed


text \<open>
  C26: One damaged sidecar stops storage reclamation. If the first pending recovery intent is a
  finalization whose staged sidecar does not parse, then \<open>reclaim_storage_once\<close> refuses on a device
  without faults, whether or not new deletions are allowed and whatever else could be deleted: expired
  leases are cleared, no file changes, and nothing is reclaimed until the sidecar is repaired.
\<close>

theorem damaged_sidecar_blocks_reclamation:
  assumes "0 \<le> clock n" "clock n \<le> MAX_MONOTONIC_NS" "mk_finalizer_limits limits = Inr limits"
    and "clear_expired_download_leases (clock n) boot (max_pending_intents limits) c = Inr (cleared, c1)"
    and "list_pending_intents_by_kind RECOVERY_INTENT_KINDS (max_pending_intents limits + 1) c1 = Inr (intent # rest)"
      "oi_kind intent = FINALIZE" "sidecar_target (oi_paths intent) = Some target"
    and "durable_healthy d (sidecar_source (oi_paths intent))" "durable_healthy d target"
    and "disk_view d (sidecar_source (oi_paths intent)) = Some v" "parse v = Inl SidecarParseError"
      "int (length v) \<le> max_sidecar_bytes limits"
  shows "\<exists>d' n'. reclaim_storage_once (recorder_finalizer clock limits parse canonical sha zones) boot allow ((c, d), n)
      = (Inl FinalizationRefused, ((c1, d'), n')) \<and> disk_view d' = disk_view d"
proof -
  have "\<exists>y. reclaim_storage_once (recorder_finalizer clock limits parse canonical sha zones) boot allow ((c, d), n)
      = (Inl FinalizationRefused, y) \<and> fin_cat y = c1 \<and> disk_view (fin_fs y) = disk_view (fin_fs ((c, d), n))"
    by (rule fin.damaged_sidecar_stops_reclamation [where e = SidecarParseError and v = v and intent = intent
          and rest = rest and target = target and cleared = cleared and lims = limits])
      (use assms in \<open>simp_all add: sidecar_error_def\<close>)
  then show ?thesis
    by auto
qed

section \<open>Witnesses\<close>

definition ex_stored :: CatalogClip where
  "ex_stored = \<lparr>cc_clip_id = UUID 7, cc_lifecycle = FINALIZED,
     video_path = ''clips/boot-000000000000-000004.mp4'', sidecar_path = ''clips/boot-000000000000-000004.json'',
     start_monotonic_ns = 1000000000, end_monotonic_ns = Some 61000000000, cc_retention_order = 4, cc_size_bytes = 3,
     cc_protected = False, protection_reason = None, cc_pair_reconciled = True, cc_managed = True,
     cc_download_lease = None, lease_boot_id = None\<rparr>"

definition ex_archive :: catalog where
  "ex_archive = (empty_catalog ex_stream)\<lparr>clips := [ex_row ex_stored]\<rparr>"

definition ex_archive_disk :: disk where
  "ex_archive_disk = \<lparr>files = [(''clips/boot-000000000000-000004.mp4'', [1, 2, 3]),
     (''clips/boot-000000000000-000004.json'', [7])], present_directories = MANAGED_DIRECTORIES, fault_schedule = []\<rparr>"

text \<open>A parser and an encoder of one sidecar: the byte 7 stands for the canonical text of \<open>ex_clip\<close>.\<close>

definition ex_parser :: sidecar_parser where
  "ex_parser v = (if v = [7] then Inr ex_clip else Inl SidecarParseError)"

lemma ex_archive_checks:
  "mk_pair_paths ''clips/boot-000000000000-000004.mp4'' ''clips/boot-000000000000-000004.json'' None None
     = Inr \<lparr>video_source = ''clips/boot-000000000000-000004.mp4'',
            sidecar_source = ''clips/boot-000000000000-000004.json'', video_target = None, sidecar_target = None\<rparr>"
  "mk_clip_file_pair ''boot-000000000000-000004.mp4'' ''boot-000000000000-000004.json''
     = Inr \<lparr>video_name = ''boot-000000000000-000004.mp4'', metadata_name = ''boot-000000000000-000004.json''\<rparr>"
  "path_name ''clips/boot-000000000000-000004.mp4'' = ''boot-000000000000-000004.mp4''"
  "path_name ''clips/boot-000000000000-000004.json'' = ''boot-000000000000-000004.json''"
  "path_parent ''clips/boot-000000000000-000004.mp4'' = ''clips''"
  "path_parent ''clips/boot-000000000000-000004.json'' = ''clips''"
  by code_simp+

lemma ex_archive_reach: "catalog_reach ex_archive"
proof -
  have "validate_clip ex_stored = Inr ()" "check_clip_row (ex_row ex_stored)"
    by (simp_all add: validate_clip_def ex_stored_def ex_archive_checks MANAGED_DIRECTORIES_def non_negative_integer_def
        check_clip_row_def end_after_def)
  then have "register_clip ex_stored 0 (empty_catalog ex_stream) = Inr ((), ex_archive)"
    by (simp add: register_clip_def non_negative_integer_def insert_clip_locked_def Let_def ex_row_def [symmetric]
        empty_catalog_def ex_archive_def)
  then show ?thesis
    by (blast intro: catalog_reach.intros catalog_step.register)
qed

definition ex_archive_paths :: PairPaths where
  "ex_archive_paths = \<lparr>video_source = ''pending/boot-000000000000-000004.partial.mp4'',
     sidecar_source = ''pending/boot-000000000000-000004.partial.json'',
     video_target = Some ''clips/boot-000000000000-000004.mp4'', sidecar_target = Some ''clips/boot-000000000000-000004.json''\<rparr>"

lemma ex_archive_names:
  "name_or_refused ''boot-000000000000-000004.partial.mp4'' = Inr \<lparr>pn_boot_id = ''000000000000'', pn_sequence = 4,
     utc_started_at = None, extension = ''mp4'', provisional = True, partial = True\<rparr>"
  "name_or_refused ''boot-000000000000-000004.mp4'' = Inr \<lparr>pn_boot_id = ''000000000000'', pn_sequence = 4,
     utc_started_at = None, extension = ''mp4'', provisional = True, partial = False\<rparr>"
  "sidecar_name_of ''boot-000000000000-000004.mp4'' = ''boot-000000000000-000004.json''"
  "sidecar_name_of ''boot-000000000000-000004.partial.mp4'' = ''boot-000000000000-000004.partial.json''"
  "mk_pair_paths (join_path ''pending'' ''boot-000000000000-000004.partial.mp4'')
     (join_path ''pending'' ''boot-000000000000-000004.partial.json'')
     (Some (join_path ''clips'' ''boot-000000000000-000004.mp4''))
     (Some (join_path ''clips'' ''boot-000000000000-000004.json'')) = Inr ex_archive_paths"
  by code_simp+

lemma ex_boot_token: "take 12 (uuid_hex (UUID 0)) = ''000000000000''"
proof -
  have "digits 16 k 0 = replicate k 0" for k
    by (induction k) simp_all
  then have "take 12 (uuid_hex (UUID 0)) = replicate 12 (hex_char 0)"
    by (simp add: uuid_hex_def)
  also have "\<dots> = ''000000000000''"
    by code_simp
  finally show ?thesis .
qed

lemma ex_promotion_paths: "promotion_paths ''boot-000000000000-000004.partial.mp4'' ex_clip = Inr ex_archive_paths"
  by (simp add: promotion_paths_def promotion_source_def ex_archive_names ex_clip_def ex_boot_token)

lemma ex_archive_view:
  "disk_view ex_archive_disk ''clips/boot-000000000000-000004.mp4'' = Some [1, 2, 3]"
  "disk_view ex_archive_disk ''clips/boot-000000000000-000004.json'' = Some [7]"
  "disk_view ex_archive_disk ''pending/boot-000000000000-000004.partial.json'' = None"
  by (simp_all add: disk_view_def ex_archive_disk_def)

lemma ex_archive_healthy:
  "durable_healthy ex_archive_disk ''clips/boot-000000000000-000004.mp4''"
  "durable_healthy ex_archive_disk ''clips/boot-000000000000-000004.json''"
  "durable_healthy ex_archive_disk ''pending/boot-000000000000-000004.partial.json''"
  by code_simp+

lemma ex_archive_clip: "get_clip (sc_clip_id ex_clip) ex_archive = Inr ex_stored"
  by (simp add: get_clip_def find_clip_def row_get_def ex_archive_def empty_catalog_def ex_clip_def ex_row_def ex_stored_def
      clip_from_row_def CatalogClip.truncate_def CatalogClip.extend_def)

lemma no_intents_pending:
  "operation_intents c = [] \<Longrightarrow> list_pending_intents_by_kind RECOVERY_INTENT_KINDS (max_pending_intents default_limits + 1) c = Inr []"
  "operation_intents c = [] \<Longrightarrow> list_pending_intents_by_kind RECOVERY_INTENT_KINDS 1 c = Inr []"
  by (simp_all add: list_pending_intents_by_kind_def row_limit_def positive_integer_def MAX_QUERY_ROWS_def default_limits_def
      check_kinds_def RECOVERY_INTENT_KINDS_def pending_intents_where_def)

abbreviation ex_finalizer :: "disk RecorderClipFinalizer" where
  "ex_finalizer \<equiv> recorder_finalizer (\<lambda>n. 70 + int n) default_limits ex_parser (\<lambda>_. [7]) (\<lambda>_. []) (\<lambda>_. Inl ZoneInfoNotFoundError)"

lemma ex_replay_facts:
  "\<forall>i \<in> set []. oi_clip_id i \<noteq> sc_clip_id ex_clip" "int (length []) \<le> max_pending_intents default_limits"
  "cc_lifecycle ex_stored = FINALIZED" "cc_pair_reconciled ex_stored"
  "video_target ex_archive_paths = Some (video_path ex_stored)" "sidecar_target ex_archive_paths = Some (sidecar_path ex_stored)"
  "disk_view ex_archive_disk (video_path ex_stored) \<noteq> None" "disk_view ex_archive_disk (sidecar_path ex_stored) = Some [7]"
  "disk_view ex_archive_disk (sidecar_source ex_archive_paths) = None"
  "durable_healthy ex_archive_disk (video_path ex_stored)" "durable_healthy ex_archive_disk (sidecar_path ex_stored)"
  "durable_healthy ex_archive_disk (sidecar_source ex_archive_paths)" "ex_parser [7] = Inr ex_clip"
  "0 < max_sidecar_bytes default_limits" "int (length [7 :: 8 word]) \<le> max_sidecar_bytes default_limits"
  "operation_intents ex_archive = []"
  by (simp_all add: ex_stored_def ex_archive_paths_def ex_archive_view ex_archive_healthy ex_parser_def default_limits_def
      ex_archive_def empty_catalog_def)

lemma ex_replay:
  "\<exists>d' n'. finalize ex_finalizer ''boot-000000000000-000004.partial.mp4'' ex_clip 4 ((ex_archive, ex_archive_disk), 0)
     = (Inr \<lparr>fo_clip_id = sc_clip_id ex_clip, fo_intent_id = None, fo_actions_attempted = 0, fo_complete = True,
          fo_resumed = True\<rparr>, ((ex_archive, d'), n'))"
proof -
  have "\<exists>y. finalize ex_finalizer ''boot-000000000000-000004.partial.mp4'' ex_clip 4 ((ex_archive, ex_archive_disk), 0)
     = (Inr \<lparr>fo_clip_id = sc_clip_id ex_clip, fo_intent_id = None, fo_actions_attempted = 0, fo_complete = True,
          fo_resumed = True\<rparr>, y) \<and> still disk_view ((ex_archive, ex_archive_disk), 0) y"
    by (rule fin.finalize_replays [where paths = ex_archive_paths and pending = "[]" and clip = ex_stored])
      (use ex_promotion_paths ex_replay_facts ex_archive_clip no_intents_pending in simp_all)
  then show ?thesis
    by (auto simp: still_def)
qed

theorem finalization_loses_no_recording_witness:
  "\<exists>r c' d' n'. finalize ex_finalizer ''boot-000000000000-000004.partial.mp4'' ex_clip 4 ((ex_catalog, ex_disk), 0) = (r, ((c', d'), n'))
     \<and> disk_view ex_disk ''clips/boot-abcde-000001.mp4'' = Some [1, 2] \<and> (\<exists>q. disk_view d' q = Some [1, 2])"
proof -
  obtain r c' d' n' where run: "finalize ex_finalizer ''boot-000000000000-000004.partial.mp4'' ex_clip 4 ((ex_catalog, ex_disk), 0)
      = (r, ((c', d'), n'))"
    by (metis surj_pair)
  have v: "disk_view ex_disk ''clips/boot-abcde-000001.mp4'' = Some [1, 2]"
    by (simp add: disk_view_def ex_disk_def)
  moreover have "''clips/boot-abcde-000001.mp4'' \<noteq> join_path ''pending'' (sidecar_name_of ''boot-000000000000-000004.partial.mp4'')"
    by (simp add: join_path_def)
  ultimately show ?thesis
    using finalization_loses_no_recording [OF ex_reach run] run by blast
qed

theorem complete_finalization_is_truthful_witness:
  "\<exists>out c' d' n' row. finalize ex_finalizer ''boot-000000000000-000004.partial.mp4'' ex_clip 4 ((ex_archive, ex_archive_disk), 0)
     = (Inr out, ((c', d'), n')) \<and> fo_complete out \<and> find_clip c' (UUID 7) = Some row \<and> disk_view d' (video_path row) \<noteq> None"
proof -
  obtain d' n' where run: "finalize ex_finalizer ''boot-000000000000-000004.partial.mp4'' ex_clip 4 ((ex_archive, ex_archive_disk), 0)
     = (Inr \<lparr>fo_clip_id = sc_clip_id ex_clip, fo_intent_id = None, fo_actions_attempted = 0, fo_complete = True,
          fo_resumed = True\<rparr>, ((ex_archive, d'), n'))"
    using ex_replay by blast
  have "sc_clip_id ex_clip = UUID 7"
    by (simp add: ex_clip_def)
  with complete_finalization_is_truthful [OF ex_archive_reach run] run show ?thesis
    by fastforce
qed

theorem completed_clip_is_replayed_witness:
  "\<exists>out d' n'. finalize ex_finalizer ''boot-000000000000-000004.partial.mp4'' ex_clip 4 ((ex_archive, ex_archive_disk), 0)
     = (Inr out, ((ex_archive, d'), n')) \<and> fo_complete out \<and> disk_view d' = disk_view ex_archive_disk"
proof -
  have "\<exists>d' n'. finalize ex_finalizer ''boot-000000000000-000004.partial.mp4'' ex_clip 4 ((ex_archive, ex_archive_disk), 0)
     = (Inr \<lparr>fo_clip_id = sc_clip_id ex_clip, fo_intent_id = None, fo_actions_attempted = 0, fo_complete = True,
          fo_resumed = True\<rparr>, ((ex_archive, d'), n')) \<and> disk_view d' = disk_view ex_archive_disk"
    by (rule completed_clip_is_replayed [where paths = ex_archive_paths and pending = "[]" and clip = ex_stored])
      (use ex_promotion_paths ex_replay_facts ex_archive_clip no_intents_pending in simp_all)
  then show ?thesis
    by fastforce
qed


text \<open>A pending promotion: a damaged staged sidecar, and a new one.\<close>

definition ex_pending_disk :: "(string \<times> bytes) list \<Rightarrow> disk" where
  "ex_pending_disk extra = \<lparr>files = (''pending/boot-abcde-000002.partial.mp4'', [1, 2, 3]) # extra,
     present_directories = MANAGED_DIRECTORIES, fault_schedule = []\<rparr>"

lemma ex_pending_healthy:
  "safe_path ''pending/boot-abcde-000002.partial.json'' d = (if ''pending'' \<in> set (present_directories d)
     then Inr ''pending/boot-abcde-000002.partial.json'' else Inl FileNotFoundError)"
  "safe_path ''clips/boot-abcde-000002.json'' d = (if ''clips'' \<in> set (present_directories d)
     then Inr ''clips/boot-abcde-000002.json'' else Inl FileNotFoundError)"
proof -
  have "mk_pair_paths ''pending/boot-abcde-000002.partial.json'' ''__validation__.json'' None None
      = Inr \<lparr>video_source = ''pending/boot-abcde-000002.partial.json'', sidecar_source = ''__validation__.json'',
          video_target = None, sidecar_target = None\<rparr>"
    "mk_pair_paths ''clips/boot-abcde-000002.json'' ''__validation__.json'' None None
      = Inr \<lparr>video_source = ''clips/boot-abcde-000002.json'', sidecar_source = ''__validation__.json'',
          video_target = None, sidecar_target = None\<rparr>"
    by code_simp+
  then show "safe_path ''pending/boot-abcde-000002.partial.json'' d = (if ''pending'' \<in> set (present_directories d)
     then Inr ''pending/boot-abcde-000002.partial.json'' else Inl FileNotFoundError)"
    "safe_path ''clips/boot-abcde-000002.json'' d = (if ''clips'' \<in> set (present_directories d)
     then Inr ''clips/boot-abcde-000002.json'' else Inl FileNotFoundError)"
    by (simp_all add: safe_path_def safe_directory_def MANAGED_DIRECTORIES_def)
qed

lemma ex_promoting_pending:
  "clear_expired_download_leases 70 ''b'' (max_pending_intents default_limits) ex_promoting = Inr ((0, False), ex_promoting)"
  "list_pending_intents_by_kind RECOVERY_INTENT_KINDS (max_pending_intents default_limits + 1) ex_promoting = Inr [ex_intent]"
proof -
  have "check_boot_id ''b'' = Inr ()"
    by code_simp
  moreover have "\<forall>r \<in> set (clips ex_promoting). cc_download_lease r = None"
    by (auto simp: ex_promoting_def ex_protected_def set_protection_def update_clip_def row_update_def)
  ultimately show "clear_expired_download_leases 70 ''b'' (max_pending_intents default_limits) ex_promoting
      = Inr ((0, False), ex_promoting)"
    by (simp add: clear_expired_download_leases_def lease_expired_def non_negative_integer_def positive_integer_def
        row_limit_def MAX_QUERY_ROWS_def default_limits_def Let_def)
  have "intent_from_row (row_of_intent ex_intent None None None) = Inr ex_intent"
    using ex_promotion_checks(1)
    by (simp add: intent_from_row_def row_of_intent_def ex_intent_def ex_promotion_def mk_operation_intent_def)
  then show "list_pending_intents_by_kind RECOVERY_INTENT_KINDS (max_pending_intents default_limits + 1) ex_promoting
      = Inr [ex_intent]"
    by (simp add: list_pending_intents_by_kind_def row_limit_def positive_integer_def MAX_QUERY_ROWS_def default_limits_def
        check_kinds_def RECOVERY_INTENT_KINDS_def pending_intents_where_def ex_promoting_def row_of_intent_def ex_intent_def
        is_pending_def)
qed

theorem damaged_sidecar_blocks_reclamation_witness:
  "\<exists>d' n'. reclaim_storage_once ex_finalizer ''b'' True
      ((ex_promoting, ex_pending_disk [(''pending/boot-abcde-000002.partial.json'', [9])]), 0)
    = (Inl FinalizationRefused, ((ex_promoting, d'), n'))"
proof -
  let ?d = "ex_pending_disk [(''pending/boot-abcde-000002.partial.json'', [9])]"
  have "\<exists>d' n'. reclaim_storage_once ex_finalizer ''b'' True ((ex_promoting, ?d), 0)
    = (Inl FinalizationRefused, ((ex_promoting, d'), n')) \<and> disk_view d' = disk_view ?d"
    by (rule damaged_sidecar_blocks_reclamation [where intent = ex_intent and rest = "[]" and v = "[9]"
          and target = "''clips/boot-abcde-000002.json''" and cleared = "(0, False)"])
      (use ex_promoting_pending in \<open>simp_all add: MAX_MONOTONIC_NS_def mk_finalizer_limits_def default_limits_def bound_ok_def
         ex_intent_def ex_promotion_def durable_healthy_def quiet_def ex_pending_healthy ex_pending_disk_def
         MANAGED_DIRECTORIES_def disk_view_def ex_parser_def\<close>)
  then show ?thesis by blast
qed

definition ex_staged :: ClipSidecar where
  "ex_staged = ex_clip\<lparr>sc_clip_id := UUID 2, sc_start_ns := 2, sc_end_ns := 60, sc_protected := True,
     sc_protection_reason := Some ''web''\<rparr>"

abbreviation ex_stager :: "disk RecorderClipFinalizer" where
  "ex_stager \<equiv> recorder_finalizer (\<lambda>n. 70 + int n) default_limits (\<lambda>_. Inr ex_staged) (\<lambda>_. [7]) (\<lambda>_. [])
     (\<lambda>_. Inl ZoneInfoNotFoundError)"

lemma ex_staged_clip: "finalizing_clip ex_staged ex_promotion 2 10 = ex_finalizing"
  by (simp add: finalizing_clip_def ex_staged_def ex_promotion_def ex_finalizing_def ex_writing_def)

lemma ex_registered:
  "\<exists>c'. register_finalizing_clip ex_finalizing ex_promotion 70 None (empty_catalog ex_stream) = Inr (UUID 1000, c')"
proof -
  have names: "mk_clip_file_pair (path_name (video_path ex_finalizing)) (path_name (sidecar_path ex_finalizing))
      = Inr \<lparr>video_name = ''boot-abcde-000002.partial.mp4'', metadata_name = ''boot-abcde-000002.partial.json''\<rparr>"
    "parse_clip_filename (path_name (video_path ex_finalizing)) = Inr \<lparr>pn_boot_id = ''abcde'', pn_sequence = 2,
       utc_started_at = None, extension = ''mp4'', provisional = True, partial = True\<rparr>"
    by (simp_all add: ex_finalizing_def ex_names ex_parse)
  show ?thesis
    unfolding register_finalizing_clip_def ex_finalizing_valid names
    by (simp add: non_negative_integer_def ex_promotion_def ex_promotion_checks as_conflict_def empty_catalog_def
        find_clip_def row_get_def insert_clip_locked_def Let_def check_clip_row_def end_after_def CatalogClip.extend_def
        insert_intent_locked_def fresh_uuid_def mk_operation_intent_def ex_stream_def insert_intent_row_def
        pending_intent_row_def row_of_intent_def ex_finalizing_def ex_writing_def)
qed

lemma ex_pending_calls:
  "durable_exists ''pending/boot-abcde-000002.partial.json'' (ex_pending_disk []) = (Inr False, ex_pending_disk [])"
  "durable_write_staged_sidecar (\<lambda>_. [7]) ''pending/boot-abcde-000002.partial.json'' sc (ex_pending_disk [])
     = (Inr (), ex_pending_disk [(''pending/boot-abcde-000002.partial.json'', [7])])"
  "durable_read_bytes ''pending/boot-abcde-000002.partial.json'' 1048576
     (ex_pending_disk [(''pending/boot-abcde-000002.partial.json'', [7])])
     = (Inr [7], ex_pending_disk [(''pending/boot-abcde-000002.partial.json'', [7])])"
  by (simp_all add: durable_exists_def durable_write_staged_sidecar_def durable_read_bytes_def with_faults_def take_fault_def
      ex_pending_disk_def ex_pending_healthy MANAGED_DIRECTORIES_def positive_bound_def)


end
