(* ===== verification/Spec2Isabelle.thy ===== *)
theory Spec2Isabelle
  imports Clip_State Retention Clip_Naming Catalog_Properties Pair_Recovery Startup_Recovery
    Utc_Clock Space_Monitor Reclaimer Segmenter Sidecar_Codec Metadata_Projection
    Gps_Service Finalizer_Properties
begin

text \<open>
  A verification development of the DashCamPiZero2W recorder: the decision logic of the program
  under \<^verbatim>\<open>src/dashcam\<close>, translated definition by definition, and the theorems that make it correct.

  \<^bold>\<open>The program.\<close> A dashcam records one-minute clips to an exFAT volume, keeps a SQLite catalog of
  them, protects clips around events, serves downloads and deletes the oldest unprotected clips
  when space runs low. A clip is a pair of files (video and metadata sidecar) that is moved between
  \<^verbatim>\<open>pending/\<close>, \<^verbatim>\<open>clips/\<close>, \<^verbatim>\<open>protected/\<close> and \<^verbatim>\<open>quarantine/\<close>. A power cut may come at any point, so every
  change of a pair is first recorded in the catalog as an intent and then carried out by replay:
  the catalog transaction decides, the planner compares the intent with what is on disk, the
  filesystem adapter moves or unlinks, and only an observed end state completes the intent.

  \<^bold>\<open>The theories and what they model.\<close>

  \<^item> \<open>Dashcam_Prelude\<close>: exceptions as values (\<open>result\<close>), character classes, fixed-width numerals,
    UUIDs with the order of their texts, SQL's single-key access (locale \<open>keyed_rows\<close>, interpreted
    on the catalog's tables in \<open>Catalog_Model\<close>).
  \<^item> \<open>Clip_State\<close> (\<^verbatim>\<open>state.py\<close>): lifecycle transitions, download leases and the clip record as a
    step relation; a deleted clip is final, a lease is exclusive for its half-open lifetime.
  \<^item> \<open>Retention\<close> (\<^verbatim>\<open>storage/retention.py\<close>, \<^verbatim>\<open>catalog/policy.py\<close>): thresholds, hysteresis controller,
    oldest-first planner; the controller is characterised by its history, the planner by the
    shortest sufficient prefix.
  \<^item> \<open>Civil_Time\<close>, \<open>Clip_Naming\<close> (\<^verbatim>\<open>storage/naming.py\<close>): the proleptic Gregorian calendar in
    microseconds and the file names with their parser; round trips and collision freedom.
  \<^item> \<open>Pair_Intents\<close> (\<^verbatim>\<open>storage/intents.py\<close>): paths, intents and the crash-safe planner.
  \<^item> \<open>Managed_Files\<close> (\<^verbatim>\<open>catalog/filesystem.py\<close>): the filesystem protocol and the outcome of every
    operation of the rooted adapter on a disk with a schedule of injected faults, before or after
    the effect. The locale \<open>catalog_filesystem\<close> states what reconciliation relies on; it is
    interpreted on the rooted adapter.
  \<^item> \<open>Catalog_Model\<close>, \<open>Catalog_Ops\<close>, \<open>Catalog_Reconcile\<close> (\<^verbatim>\<open>catalog/database.py\<close>, \<^verbatim>\<open>catalog/models.py\<close>):
    the rows of the schema, one definition per transaction and query, and \<^verbatim>\<open>reconcile_intent\<close>.
    A transaction is \<open>catalog \<Rightarrow> ('a \<times> catalog) result\<close>: an exception rolls back.
  \<^item> \<open>Catalog_Inv\<close>, \<open>Catalog_Steps\<close>, \<open>Catalog_Evolution\<close>, \<open>Event_Windows\<close>: the structural invariant,
    the step relation \<open>catalog_step\<close> of all transactions and that it keeps the invariant, what a
    step may do to a clip's record, and the accounting of event windows (locale \<open>silent_relation\<close>).
    \<open>Catalog_Properties\<close> states the catalog's properties; \<open>Catalog_Examples\<close> holds concrete catalogs.
  \<^item> \<open>Pair_Recovery\<close>: reconciliation over catalog and disk together: crash safety under every fault
    schedule, and convergence of repeated attempts.
  \<^item> \<open>Startup_Recovery\<close>: the bounded pass of \<^verbatim>\<open>reconcile_startup\<close> (lease expiry, pending intents,
    observation of indexed pairs, import of unindexed sidecars) over the interface
    \<open>listed_filesystem\<close>, which extends \<open>catalog_filesystem\<close>: safety wherever the pass stops,
    agreement of catalog and disk once it converged, and the bounds of its report.
  \<^item> \<open>Reclaimer\<close> (\<^verbatim>\<open>storage/reclaimer.py\<close>): one deletion at a time over catalog and disk.
  \<^item> \<open>Space_Monitor\<close> (\<^verbatim>\<open>storage/space.py\<close>): free-space observation with a durable latch. The locale
    \<open>latch_store\<close> is the interface to the catalog's latch, interpreted on its two transactions with
    injected database failures; the monitor's life is the relation \<open>monitor_reach\<close>, with restarts.
  \<^item> \<open>Segmenter\<close> (\<^verbatim>\<open>recorder/segmenter.py\<close>): boundary policy, bounded finalization queue and the
    segmenter, every interleaving of their tasks (\<open>rec_step\<close>).
  \<^item> \<open>Utc_Clock\<close> (\<^verbatim>\<open>gps/clock.py\<close>): anchoring of UTC to the monotonic clock and conversion.
  \<^item> \<open>Nmea_Parser\<close> (\<^verbatim>\<open>gps/nmea.py\<close>): the sentences of the receiver with exact doubles: every outcome is a
    verified sentence in range or an error, and one corrupted character is always noticed.
  \<^item> \<open>Nmea_Anchors\<close> (\<^verbatim>\<open>gps/anchors.py\<close>): which sentences become candidates for the clock.
  \<^item> \<open>Gps_Telemetry\<close> (\<^verbatim>\<open>gps/telemetry.py\<close>): the bounded history of positions; its windows refine those of
    an unbounded history.
  \<^item> \<open>Gps_Service\<close> (\<^verbatim>\<open>gps/service.py\<close>): line framing (equal to a byte-at-a-time reference), the published
    state, and the reconnect loop over the reads and failures that happen.
  \<^item> \<open>Py_Float\<close>: Python's doubles as dyadic values with the special ones, comparison, and the rounding to
    nearest even of a ratio of integers; \<open>Float_Arithmetic\<close>: sum, product and quotient, rounded once.
  \<^item> \<open>Metadata_Schema\<close>, \<open>Sidecar_Codec\<close> (\<^verbatim>\<open>metadata/schema.py\<close>, \<^verbatim>\<open>metadata/reconcile.py\<close>): the value
    classes of a sidecar with the checks of their constructors (time zones by a zone database as a
    parameter), the mapping a sidecar prints as and its strict reader; printing and reading back.
  \<^item> \<open>Metadata_Projection\<close> (\<^verbatim>\<open>metadata/reconcile.py\<close>): the civil times, the name and the samples of a
    provisional clip once an anchor is trusted; the projection succeeds, is valid and is stable.

  \<^bold>\<open>Conventions.\<close> Python integers are \<open>int\<close> (they do not overflow; the bounds the code checks are
  checked), strings are lists of characters up to code 255, records keep the field names of the
  classes with a prefix where two classes share one. Definitions compute, so that the witnesses,
  named after their theorems, evaluate them. No loop needs fuel: bounded loops are recursions over
  lists; the eight-step walk over an exception chain carries its bound as an argument, as the code
  does.

  \<^bold>\<open>Not modelled, and why.\<close> Type checks with \<^verbatim>\<open>isinstance\<close> are subsumed by the types; message texts
  of exceptions are left out. SQLite itself (locking, WAL, migrations, integrity checks) and the
  operating system's calls are the faults and parameters named in each theory. The text of JSON and
  the hash of a sidecar are parameters of \<open>Catalog_Reconcile\<close>: \<open>Sidecar_Codec\<close> works on the values that
  \<^verbatim>\<open>json.loads\<close> returns. Planned next: the finalizer, the control API and the
  network fallback. The GStreamer
  pipeline, the recorder runtime and daemon, sockets, provisioning, overlay rendering, audio
  capture, health and diagnostics are glue over the system and outside this development.
\<close>

end
